(* ===== verification/Rust_Text.thy ===== *)
theory Rust_Text
  imports Prelude
begin

section \<open>Rust strings\<close>

text \<open>
  A Rust \<open>String\<close> is its UTF-8 byte sequence, one \<open>char\<close> of HOL per byte. So \<open>len()\<close> is
  \<open>length\<close>, \<open>chars().count()\<close> counts the bytes that start a character, comparisons are
  bytewise (the order of \<open>List_Lexorder\<close> over \<open>Char_ord\<close>), and searching for an ASCII
  substring is searching for its bytes. \<open>trim\<close> removes the characters with Unicode's
  White_Space property, given by their UTF-8 encodings.
\<close>

subsection \<open>Characters\<close>

definition is_continuation :: "char \<Rightarrow> bool" where
  "is_continuation c \<longleftrightarrow> 128 \<le> (of_char c :: nat) \<and> (of_char c :: nat) < 192"

definition chars_count :: "string \<Rightarrow> nat" where
  "chars_count s = length (filter (\<lambda>c. \<not> is_continuation c) s)"

lemma chars_count_le: "chars_count s \<le> length s"
  by (simp add: chars_count_def)

definition byte :: "nat \<Rightarrow> char" where "byte n = char_of n"

text \<open>The UTF-8 encodings of the characters that \<open>char::is_whitespace\<close> accepts.\<close>

definition whitespace_encodings :: "string list" where
  "whitespace_encodings =
     map (\<lambda>n. [byte n]) [9, 10, 11, 12, 13, 32] @
     [[byte 194, byte 133], [byte 194, byte 160], [byte 225, byte 154, byte 128]] @
     map (\<lambda>n. [byte 226, byte 128, byte n])
       [128, 129, 130, 131, 132, 133, 134, 135, 136, 137, 138, 168, 169, 175] @
     [[byte 226, byte 129, byte 159], [byte 227, byte 128, byte 128]]"

subsection \<open>Prefixes, suffixes, substrings\<close>

fun strip_prefix :: "string \<Rightarrow> string \<Rightarrow> string option" where
  "strip_prefix [] s = Some s"
| "strip_prefix (p # ps) [] = None"
| "strip_prefix (p # ps) (c # cs) = (if p = c then strip_prefix ps cs else None)"

definition starts_with :: "string \<Rightarrow> string \<Rightarrow> bool" where
  "starts_with p s \<longleftrightarrow> strip_prefix p s \<noteq> None"

definition ends_with :: "string \<Rightarrow> string \<Rightarrow> bool" where
  "ends_with p s \<longleftrightarrow> starts_with (rev p) (rev s)"

fun contains :: "string \<Rightarrow> string \<Rightarrow> bool" where
  "contains p [] = (p = [])"
| "contains p (c # cs) = (starts_with p (c # cs) \<or> contains p cs)"

lemma strip_prefix_Some: "strip_prefix p s = Some r \<longleftrightarrow> s = p @ r"
  by (induction p s rule: strip_prefix.induct) auto

lemma strip_prefix_append [simp]: "strip_prefix p (p @ r) = Some r"
  by (simp add: strip_prefix_Some)

lemma starts_with_iff: "starts_with p s \<longleftrightarrow> (\<exists>r. s = p @ r)"
  by (auto simp: starts_with_def strip_prefix_Some [symmetric])

lemma contains_iff: "contains p s \<longleftrightarrow> (\<exists>a b. s = a @ p @ b)"
proof (induction s)
  case Nil
  show ?case by simp
next
  case (Cons c s)
  show ?case
  proof
    assume "contains p (c # s)"
    then consider "starts_with p (c # s)" | "contains p s" by auto
    then show "\<exists>a b. c # s = a @ p @ b"
    proof cases
      case 1
      then show ?thesis by (metis append_Nil starts_with_iff)
    next
      case 2
      then show ?thesis using Cons.IH by (metis append_Cons)
    qed
  next
    assume "\<exists>a b. c # s = a @ p @ b"
    then obtain a b where ab: "c # s = a @ p @ b" by blast
    show "contains p (c # s)"
    proof (cases a)
      case Nil
      with ab have "c # s = p @ b" by simp
      then have "starts_with p (c # s)" unfolding starts_with_iff by blast
      then show ?thesis by simp
    next
      case (Cons x a')
      with ab have "s = a' @ p @ b" by simp
      then have "contains p s" using \<open>contains p s \<longleftrightarrow> _\<close> by blast
      then show ?thesis by simp
    qed
  qed
qed

lemma contains_single: "contains [c] s \<longleftrightarrow> c \<in> set s"
  unfolding contains_iff by (metis append_Cons append_Nil in_set_conv_decomp)

subsection \<open>Trimming\<close>

definition strip_any :: "string list \<Rightarrow> string \<Rightarrow> string option" where
  "strip_any ps s = (case find (\<lambda>p. p \<noteq> [] \<and> starts_with p s) ps of
     None \<Rightarrow> None | Some p \<Rightarrow> Some (drop (length p) s))"

lemma strip_any_shorter: "strip_any ps s = Some r \<Longrightarrow> length r < length s"
  by (auto simp: strip_any_def starts_with_iff dest!: find_Some_in split: option.splits)

function trim_with :: "string list \<Rightarrow> string \<Rightarrow> string" where
  "trim_with ps s = (case strip_any ps s of None \<Rightarrow> s | Some r \<Rightarrow> trim_with ps r)"
  by pat_completeness auto
termination
  by (relation "measure (\<lambda>(ps, s). length s)") (auto dest: strip_any_shorter)

declare trim_with.simps [simp del]

definition trim_start :: "string \<Rightarrow> string" where
  "trim_start s = trim_with whitespace_encodings s"

definition trim_end :: "string \<Rightarrow> string" where
  "trim_end s = rev (trim_with (map rev whitespace_encodings) (rev s))"

definition trim :: "string \<Rightarrow> string" where
  "trim s = trim_end (trim_start s)"

lemma length_trim_with: "length (trim_with ps s) \<le> length s"
proof (induction ps s rule: trim_with.induct)
  case (1 ps s)
  show ?case
  proof (cases "strip_any ps s")
    case None
    then show ?thesis by (subst trim_with.simps) simp
  next
    case (Some r)
    with 1 have "length (trim_with ps r) \<le> length r" by blast
    with Some strip_any_shorter [OF Some] show ?thesis by (subst trim_with.simps) simp
  qed
qed

lemma trim_with_idem: "trim_with ps (trim_with ps s) = trim_with ps s"
proof (induction ps s rule: trim_with.induct)
  case (1 ps s)
  show ?case
  proof (cases "strip_any ps s")
    case None
    then have "trim_with ps s = s" by (subst trim_with.simps) simp
    then show ?thesis by simp
  next
    case (Some r)
    then have "trim_with ps s = trim_with ps r" by (subst trim_with.simps) simp
    then show ?thesis using "1.IH" [OF Some] by simp
  qed
qed

lemma length_trim: "length (trim s) \<le> length s"
  unfolding trim_def trim_end_def trim_start_def
  by (metis (no_types, lifting) length_rev length_trim_with order_trans)

lemma trim_Nil [simp]: "trim [] = []"
  using length_trim [of "[]"] by simp

lemma trim_with_visible:
  assumes "\<And>p. p \<in> set ps \<Longrightarrow> p \<noteq> [] \<Longrightarrow> s \<noteq> [] \<Longrightarrow> hd p \<noteq> hd s"
  shows "trim_with ps s = s"
proof -
  have "\<not> starts_with p s" if "p \<in> set ps" "p \<noteq> []" for p
    using assms [OF that] that(2) by (cases p; cases s) (auto simp: starts_with_def)
  then have "find (\<lambda>p. p \<noteq> [] \<and> starts_with p s) ps = None"
    by (auto simp: find_None_iff)
  then show ?thesis by (subst trim_with.simps) (simp add: strip_any_def)
qed

lemma trim_with_suffix: "\<exists>a. s = a @ trim_with ps s"
proof (induction ps s rule: trim_with.induct)
  case (1 ps s)
  show ?case
  proof (cases "strip_any ps s")
    case None
    then show ?thesis by (subst trim_with.simps) simp
  next
    case (Some r)
    then obtain a where "s = a @ r"
      by (auto simp: strip_any_def starts_with_iff dest!: find_Some_in split: option.splits)
    moreover obtain b where "r = b @ trim_with ps r" using "1.IH" [OF Some] by blast
    moreover have "trim_with ps s = trim_with ps r" using Some by (subst trim_with.simps) simp
    ultimately show ?thesis by (metis append.assoc)
  qed
qed

lemma trim_with_fixed: "trim_with ps s = s \<longleftrightarrow> (\<forall>p\<in>set ps. p \<noteq> [] \<longrightarrow> \<not> starts_with p s)"
proof -
  have "strip_any ps s = Some r \<Longrightarrow> trim_with ps s \<noteq> s" for r
    using length_trim_with [of ps r] strip_any_shorter [of ps s r]
    by (subst trim_with.simps) auto
  moreover have "strip_any ps s = None \<Longrightarrow> trim_with ps s = s" by (subst trim_with.simps) simp
  ultimately have "trim_with ps s = s \<longleftrightarrow> strip_any ps s = None" by (cases "strip_any ps s") auto
  also have "\<dots> \<longleftrightarrow> (\<forall>p\<in>set ps. p \<noteq> [] \<longrightarrow> \<not> starts_with p s)"
    by (auto simp: strip_any_def find_None_all split: option.splits dest: find_Some_in)
  finally show ?thesis .
qed

lemma trim_trim: "trim (trim s) = trim s"
proof -
  let ?t = "trim_start s"
  have "trim_start ?t = ?t" by (simp add: trim_start_def trim_with_idem)
  then have t: "\<forall>p\<in>set whitespace_encodings. p \<noteq> [] \<longrightarrow> \<not> starts_with p ?t"
    by (simp add: trim_start_def trim_with_fixed)
  obtain a where "rev ?t = a @ trim_with (map rev whitespace_encodings) (rev ?t)" using trim_with_suffix by blast
  then have "?t = trim_end ?t @ rev a" unfolding trim_end_def by (metis rev_append rev_rev_ident)
  then have "starts_with p (trim_end ?t) \<Longrightarrow> starts_with p ?t" for p
    unfolding starts_with_iff by (metis append.assoc)
  with t have "trim_start (trim_end ?t) = trim_end ?t" by (simp add: trim_start_def trim_with_fixed) blast
  then show ?thesis by (simp add: trim_def trim_end_def trim_with_idem)
qed

text \<open>Visible ASCII characters are never trimmed.\<close>

definition visible :: "char \<Rightarrow> bool" where
  "visible c \<longleftrightarrow> 33 \<le> (of_char c :: nat) \<and> (of_char c :: nat) < 127"

lemma not_visible_byte: "n < 33 \<or> 127 \<le> n \<Longrightarrow> n < 256 \<Longrightarrow> \<not> visible (byte n)"
  by (auto simp: visible_def byte_def)

lemma whitespace_not_visible:
  "p \<in> set whitespace_encodings \<Longrightarrow> \<not> visible (hd p) \<and> \<not> visible (hd (rev p))"
  by (auto simp: whitespace_encodings_def not_visible_byte)

lemma trim_visible: "s = [] \<or> visible (hd s) \<and> visible (last s) \<Longrightarrow> trim s = s"
proof -
  assume s: "s = [] \<or> visible (hd s) \<and> visible (last s)"
  have start: "trim_start s = s"
    unfolding trim_start_def
    by (rule trim_with_visible) (use s whitespace_not_visible in fastforce)
  have "trim_with (map rev whitespace_encodings) (rev s) = rev s"
  proof (rule trim_with_visible)
    fix p assume "p \<in> set (map rev whitespace_encodings)" "p \<noteq> []" "rev s \<noteq> []"
    then show "hd p \<noteq> hd (rev s)" using s whitespace_not_visible by (fastforce simp: hd_rev)
  qed
  with start show ?thesis by (simp add: trim_def trim_end_def)
qed

definition trim_end_matches :: "char \<Rightarrow> string \<Rightarrow> string" where
  "trim_end_matches c s = rev (dropWhile (\<lambda>x. x = c) (rev s))"

definition trim_start_matches :: "char \<Rightarrow> string \<Rightarrow> string" where
  "trim_start_matches c s = dropWhile (\<lambda>x. x = c) s"

text \<open>\<open>trim_start_matches\<close> with a string pattern removes it as often as it occurs.\<close>

definition trim_start_str :: "string \<Rightarrow> string \<Rightarrow> string" where
  "trim_start_str p s = trim_with [p] s"

definition replace_char :: "char \<Rightarrow> char \<Rightarrow> string \<Rightarrow> string" where
  "replace_char a b s = map (\<lambda>c. if c = a then b else c) s"

subsection \<open>Splitting\<close>

fun split_on :: "char \<Rightarrow> string \<Rightarrow> string list" where
  "split_on d [] = [[]]"
| "split_on d (c # cs) =
     (if c = d then [] # split_on d cs
      else (case split_on d cs of [] \<Rightarrow> [[c]] | w # ws \<Rightarrow> (c # w) # ws))"

lemma split_on_nonempty [simp]: "split_on d s \<noteq> []"
  by (induction s) (auto split: list.splits)

lemma split_on_no_sep: "w \<in> set (split_on d s) \<Longrightarrow> d \<notin> set w"
  by (induction s arbitrary: w) (auto split: list.splits if_splits)

fun join_with :: "char \<Rightarrow> string list \<Rightarrow> string" where
  "join_with d [] = []"
| "join_with d [w] = w"
| "join_with d (w # v # ws) = w @ d # join_with d (v # ws)"

lemma join_with_Cons: "ws \<noteq> [] \<Longrightarrow> join_with d (w # ws) = w @ d # join_with d ws"
  by (cases ws) auto

lemma join_split [simp]: "join_with d (split_on d s) = s"
proof (induction s)
  case Nil
  show ?case by simp
next
  case (Cons c s)
  obtain w ws where w: "split_on d s = w # ws"
    by (cases "split_on d s") auto
  with Cons show ?case by (cases ws) (auto simp: join_with_Cons)
qed

lemma split_on_word: "d \<notin> set w \<Longrightarrow> split_on d w = [w]"
  by (induction w) auto

lemma split_on_append_sep: "d \<notin> set w \<Longrightarrow> split_on d (w @ d # s) = w # split_on d s"
  by (induction w) auto

lemma split_join:
  "ws \<noteq> [] \<Longrightarrow> (\<And>w. w \<in> set ws \<Longrightarrow> d \<notin> set w) \<Longrightarrow> split_on d (join_with d ws) = ws"
  by (induction d ws rule: join_with.induct) (auto simp: split_on_word split_on_append_sep)

text \<open>\<open>split_once\<close> at a character, and \<open>rsplit_once\<close> at a string.\<close>

fun split_once :: "char \<Rightarrow> string \<Rightarrow> (string \<times> string) option" where
  "split_once d [] = None"
| "split_once d (c # cs) =
     (if c = d then Some ([], cs) else map_option (\<lambda>(a, b). (c # a, b)) (split_once d cs))"

lemma split_once_append: "d \<notin> set a \<Longrightarrow> split_once d (a @ d # b) = Some (a, b)"
  by (induction a) auto

fun split_once_str :: "string \<Rightarrow> string \<Rightarrow> (string \<times> string) option" where
  "split_once_str p [] = (if p = [] then Some ([], []) else None)"
| "split_once_str p (c # cs) =
     (case strip_prefix p (c # cs) of
        Some r \<Rightarrow> Some ([], r)
      | None \<Rightarrow> map_option (\<lambda>(a, b). (c # a, b)) (split_once_str p cs))"

definition rsplit_once_str :: "string \<Rightarrow> string \<Rightarrow> (string \<times> string) option" where
  "rsplit_once_str p s = map_option (\<lambda>(a, b). (rev b, rev a)) (split_once_str (rev p) (rev s))"

subsection \<open>Decimal numbers\<close>

definition digit_char :: "nat \<Rightarrow> char" where
  "digit_char d = char_of (48 + d)"

definition char_digit :: "char \<Rightarrow> nat option" where
  "char_digit c = (let n = (of_char c :: nat) in if 48 \<le> n \<and> n < 58 then Some (n - 48) else None)"

lemma char_digit_digit_char [simp]: "d < 10 \<Longrightarrow> char_digit (digit_char d) = Some d"
  by (simp add: char_digit_def digit_char_def Let_def)

fun dec_string :: "nat \<Rightarrow> string" where
  "dec_string n = (if n < 10 then [digit_char n] else dec_string (n div 10) @ [digit_char (n mod 10)])"

declare dec_string.simps [simp del]

text \<open>\<open>format!("{:0w$}", n)\<close>.\<close>

definition pad_dec :: "nat \<Rightarrow> nat \<Rightarrow> string" where
  "pad_dec w n = replicate (w - length (dec_string n)) (digit_char 0) @ dec_string n"

fun digits_value :: "nat \<Rightarrow> string \<Rightarrow> nat option" where
  "digits_value acc [] = Some acc"
| "digits_value acc (c # cs) =
     (case char_digit c of None \<Rightarrow> None | Some d \<Rightarrow> digits_value (10 * acc + d) cs)"

text \<open>\<open>str::parse\<close> for an unsigned integer with maximum \<open>m\<close>: one leading plus sign is
  accepted, an empty digit string is an error, overflow is an error.\<close>

definition parse_unsigned :: "nat \<Rightarrow> string \<Rightarrow> nat option" where
  "parse_unsigned m s =
     (let ds = (case s of [] \<Rightarrow> [] | c # cs \<Rightarrow> if c = CHR ''+'' then cs else s)
      in if ds = [] then None
         else case digits_value 0 ds of None \<Rightarrow> None | Some n \<Rightarrow> if n \<le> m then Some n else None)"

lemma digits_value_append:
  "digits_value acc (a @ b) = (case digits_value acc a of None \<Rightarrow> None | Some n \<Rightarrow> digits_value n b)"
  by (induction acc a rule: digits_value.induct) (auto split: option.splits)

lemma digits_value_zeros: "digits_value 0 (replicate k (digit_char 0) @ s) = digits_value 0 s"
  by (induction k) auto

lemma digits_value_dec: "digits_value 0 (dec_string n) = Some n"
proof (induction n rule: dec_string.induct)
  case (1 n)
  show ?case
  proof (cases "n < 10")
    case True
    then show ?thesis by (subst dec_string.simps) simp
  next
    case False
    with 1 have "digits_value 0 (dec_string (n div 10)) = Some (n div 10)" by simp
    with False show ?thesis by (subst dec_string.simps) (simp add: digits_value_append)
  qed
qed

lemma digits_value_pad [simp]: "digits_value 0 (pad_dec w n) = Some n"
  by (simp add: pad_dec_def digits_value_zeros digits_value_dec)

lemma length_dec_string_pos: "dec_string n \<noteq> []"
  by (subst dec_string.simps) simp

lemma length_dec_string: "0 < k \<Longrightarrow> n < 10 ^ k \<Longrightarrow> length (dec_string n) \<le> k"
proof (induction n arbitrary: k rule: dec_string.induct)
  case (1 n)
  show ?case
  proof (cases "n < 10")
    case True
    then show ?thesis using "1.prems" by (subst dec_string.simps) simp
  next
    case False
    with "1.prems" obtain j where j: "k = Suc j" "0 < j"
      by (cases k) (auto simp: not_less split: if_splits, metis One_nat_def power_0 power_one_right
          less_Suc0 linorder_not_less neq0_conv nat_neq_iff mult.right_neutral)
    with "1.prems" have "n div 10 < 10 ^ j" by (simp add: less_mult_imp_div_less mult.commute)
    with 1 False j have "length (dec_string (n div 10)) \<le> j" by blast
    with False j show ?thesis by (subst dec_string.simps) simp
  qed
qed

lemma dec_string_digits: "c \<in> set (dec_string n) \<Longrightarrow> \<exists>d<10. c = digit_char d"
proof (induction n rule: dec_string.induct)
  case (1 n)
  have "c \<in> set (if n < 10 then [digit_char n] else dec_string (n div 10) @ [digit_char (n mod 10)])"
    using "1.prems" by (metis dec_string.simps)
  then show ?case using "1.IH" by (auto split: if_splits intro: exI [of _ "n mod 10"])
qed

lemma pad_dec_digits: "c \<in> set (pad_dec w n) \<Longrightarrow> \<exists>d<10. c = digit_char d"
  by (auto simp: pad_dec_def dest: dec_string_digits intro: exI [of _ 0])

lemma length_pad_dec: "0 < w \<Longrightarrow> n < 10 ^ w \<Longrightarrow> length (pad_dec w n) = w"
  using length_dec_string [of w n] by (simp add: pad_dec_def)

lemma of_char_digit_char: "d < 10 \<Longrightarrow> (of_char (digit_char d) :: nat) = 48 + d"
  by (simp add: digit_char_def)

lemma digit_char_not_special:
  assumes "d < 10"
  shows "digit_char d \<noteq> CHR ''-''" and "digit_char d \<noteq> CHR ''+''" and "digit_char d \<noteq> CHR ''p''"
    and "digit_char d \<noteq> CHR ''.''"
proof -
  have neq: "digit_char d \<noteq> c" if "(of_char c :: nat) < 48 \<or> 58 \<le> (of_char c :: nat)" for c
    using that of_char_digit_char [OF assms] assms by auto
  show "digit_char d \<noteq> CHR ''-''" and "digit_char d \<noteq> CHR ''+''" and "digit_char d \<noteq> CHR ''p''"
    and "digit_char d \<noteq> CHR ''.''"
    by (rule neq, simp)+
qed

lemma parse_pad_dec:
  assumes "0 < w" "n < 10 ^ w" "n \<le> m"
  shows "parse_unsigned m (pad_dec w n) = Some n"
proof -
  have len: "length (pad_dec w n) = w" using assms by (simp add: length_pad_dec)
  then obtain c cs where cs: "pad_dec w n = c # cs" using assms by (cases "pad_dec w n") auto
  then have "c \<noteq> CHR ''+''"
    using pad_dec_digits [of c w n] digit_char_not_special by fastforce
  with cs assms show ?thesis
    using digits_value_pad [of w n] by (simp add: parse_unsigned_def)
qed

lemma dec_string_inject [simp]: "dec_string m = dec_string n \<longleftrightarrow> m = n"
  by (metis digits_value_dec option.inject)

definition int_string :: "int \<Rightarrow> string" where
  "int_string i = (if i < 0 then ''-'' @ dec_string (nat (- i)) else dec_string (nat i))"

lemma dec_string_not_minus: "dec_string n \<noteq> CHR ''-'' # s"
  by (metis dec_string_digits digit_char_not_special(1) list.set_intros(1))

lemma int_string_inject [simp]: "int_string i = int_string j \<longleftrightarrow> i = j"
  by (auto simp: int_string_def dec_string_not_minus dec_string_not_minus [symmetric] split: if_splits)

text \<open>Replacing every CR LF by LF.\<close>

fun replace_crlf :: "string \<Rightarrow> string" where
  "replace_crlf (c # d # cs) =
     (if c = byte 13 \<and> d = byte 10 then byte 10 # replace_crlf cs else c # replace_crlf (d # cs))"
| "replace_crlf s = s"

end
