(* ===== verification/Json.thy ===== *)
theory Json
  imports Rust_Text
begin

section \<open>JSON values\<close>

text \<open>
  \<open>serde_json::Value\<close> as a datatype: the components build values of it and read members of
  it. Turning a value into bytes and parsing bytes are serde\_json's work: where a component
  needs them they are parameters of its definitions. An object keeps its members in the
  order in which the code inserts them; a number is kept as an integer.
\<close>

datatype json =
    JNull
  | JBool bool
  | JNum int
  | JStr string
  | JArr "json list"
  | JObj "(string \<times> json) list"

definition json_get :: "string \<Rightarrow> json \<Rightarrow> json option" where
  "json_get k v = (case v of JObj kvs \<Rightarrow> map_of kvs k | _ \<Rightarrow> None)"

definition json_as_str :: "json \<Rightarrow> string option" where
  "json_as_str v = (case v of JStr s \<Rightarrow> Some s | _ \<Rightarrow> None)"

definition json_strs :: "string list \<Rightarrow> json" where
  "json_strs ss = JArr (map JStr ss)"

definition json_opt_str :: "string option \<Rightarrow> json" where
  "json_opt_str v = (case v of None \<Rightarrow> JNull | Some s \<Rightarrow> JStr s)"

definition json_pairs :: "(string \<times> string) list \<Rightarrow> json" where
  "json_pairs kvs = JArr (map (\<lambda>(k, v). JArr [JStr k, JStr v]) kvs)"

lemma json_strs_inject [simp]: "json_strs a = json_strs b \<longleftrightarrow> a = b"
proof -
  have "inj JStr" by (rule injI) simp
  then show ?thesis by (simp add: json_strs_def inj_map_eq_map)
qed

lemma json_opt_str_inject [simp]: "json_opt_str a = json_opt_str b \<longleftrightarrow> a = b"
  by (auto simp: json_opt_str_def split: option.splits)

lemma json_pairs_inject [simp]: "json_pairs a = json_pairs b \<longleftrightarrow> a = b"
proof -
  have "inj (\<lambda>p :: string \<times> string. case p of (k, v) \<Rightarrow> JArr [JStr k, JStr v])"
    by (rule injI) (auto split: prod.splits)
  then show ?thesis by (simp add: json_pairs_def inj_map_eq_map)
qed

end
