(* ===== verification/Shared_Types.thy ===== *)
theory Shared_Types
  imports Json
begin

section \<open>Digests and terminal text (crates/shikigami-types)\<close>

text \<open>
  The shared helpers of \<open>digest.rs\<close> and \<open>terminal.rs\<close>. The raw SHA-256 function comes
  from the sha2 crate and is the parameter \<open>sha\<close>: bytes to the digest's bytes.
\<close>

definition hex_digit :: "nat \<Rightarrow> char" where
  "hex_digit d = (if d < 10 then char_of (48 + d) else char_of (87 + d))"

definition hex_lower :: "string \<Rightarrow> string" where
  "hex_lower bs = concat (map (\<lambda>b. [hex_digit ((of_char b :: nat) div 16), hex_digit (of_char b mod 16)]) bs)"

definition sha256_hex :: "(string \<Rightarrow> string) \<Rightarrow> string \<Rightarrow> string" where
  "sha256_hex sha bs = hex_lower (sha bs)"

definition sha256_prefixed :: "(string \<Rightarrow> string) \<Rightarrow> string \<Rightarrow> string" where
  "sha256_prefixed sha bs = ''sha256:'' @ sha256_hex sha bs"

definition is_hexdigit :: "char \<Rightarrow> bool" where
  "is_hexdigit c = (let n = (of_char c :: nat) in
     (48 \<le> n \<and> n \<le> 57) \<or> (65 \<le> n \<and> n \<le> 70) \<or> (97 \<le> n \<and> n \<le> 102))"

definition is_uppercase :: "char \<Rightarrow> bool" where
  "is_uppercase c = (let n = (of_char c :: nat) in 65 \<le> n \<and> n \<le> 90)"

definition to_ascii_lowercase :: "string \<Rightarrow> string" where
  "to_ascii_lowercase s = map (\<lambda>c. if is_uppercase c then char_of (of_char c + 32 :: nat) else c) s"

definition is_sha256_prefixed :: "string \<Rightarrow> bool \<Rightarrow> bool" where
  "is_sha256_prefixed value lowercase_hex =
     (case strip_prefix ''sha256:'' value of
        None \<Rightarrow> False
      | Some hex \<Rightarrow> length hex = 64 \<and>
          list_all (\<lambda>b. is_hexdigit b \<and> (\<not> lowercase_hex \<or> \<not> is_uppercase b)) hex)"

lemma length_hex_lower [simp]: "length (hex_lower bs) = 2 * length bs"
  by (induction bs) (simp_all add: hex_lower_def)

lemma char_split16: "(of_char b :: nat) div 16 < 16" "(of_char b :: nat) mod 16 < 16"
  by (simp_all add: less_mult_imp_div_less)

lemma of_char_hex_digit: "d < 16 \<Longrightarrow> (of_char (hex_digit d) :: nat) = (if d < 10 then 48 + d else 87 + d)"
  by (simp add: hex_digit_def)

lemma hex_digit_ok: "d < 16 \<Longrightarrow> is_hexdigit (hex_digit d) \<and> \<not> is_uppercase (hex_digit d)"
  by (auto simp: is_hexdigit_def is_uppercase_def of_char_hex_digit Let_def)

lemma hex_digit_inject: "d < 16 \<Longrightarrow> e < 16 \<Longrightarrow> hex_digit d = hex_digit e \<Longrightarrow> d = e"
proof -
  assume d: "d < 16" "e < 16" and eq: "hex_digit d = hex_digit e"
  have "(if d < 10 then 48 + d else 87 + d) = (if e < 10 then 48 + e else 87 + e)"
    using of_char_hex_digit [OF d(1)] of_char_hex_digit [OF d(2)] eq by metis
  then show "d = e" using d by (auto split: if_splits)
qed

lemma hex_lower_ok: "list_all (\<lambda>b. is_hexdigit b \<and> \<not> is_uppercase b) (hex_lower bs)"
proof (induction bs)
  case Nil
  show ?case by (simp add: hex_lower_def)
next
  case (Cons b bs)
  with char_split16 [of b] show ?case by (simp add: hex_lower_def hex_digit_ok)
qed

lemma hex_lower_inject: "hex_lower a = hex_lower b \<Longrightarrow> a = b"
proof (induction a arbitrary: b)
  case Nil
  then have "length (hex_lower b) = 0" by (metis length_hex_lower list.size(3) mult_0_right)
  then show ?case by simp
next
  case (Cons x a)
  have "length (hex_lower b) = 2 * Suc (length a)"
    using Cons.prems by (metis length_Cons length_hex_lower)
  then obtain y b' where b: "b = y # b'" by (cases b) auto
  from Cons.prems have eqs: "hex_digit ((of_char x :: nat) div 16) = hex_digit (of_char y div 16)"
    "hex_digit ((of_char x :: nat) mod 16) = hex_digit (of_char y mod 16)" "hex_lower a = hex_lower b'"
    by (simp_all add: hex_lower_def b)
  then have "(of_char x :: nat) div 16 = of_char y div 16" "(of_char x :: nat) mod 16 = of_char y mod 16"
    by (blast intro: hex_digit_inject char_split16)+
  then have "(of_char x :: nat) = of_char y" by (metis div_mult_mod_eq)
  then have "x = y" by simp
  with Cons.IH [OF eqs(3)] b show ?case by simp
qed

lemma sha256_prefixed_nonempty [simp]: "sha256_prefixed sha bs \<noteq> []"
  by (simp add: sha256_prefixed_def)

lemma sha256_prefixed_inject: "sha256_prefixed sha a = sha256_prefixed sha b \<longleftrightarrow> sha a = sha b"
  by (auto simp: sha256_prefixed_def sha256_hex_def dest: hex_lower_inject)

lemma is_sha256_prefixed_of_sha:
  "length (sha bs) = 32 \<Longrightarrow> is_sha256_prefixed (sha256_prefixed sha bs) lower"
  using hex_lower_ok [of "sha bs"]
  by (auto simp: is_sha256_prefixed_def sha256_prefixed_def sha256_hex_def list_all_iff)

lemma is_sha256_lower_weaken: "is_sha256_prefixed v lower \<Longrightarrow> is_sha256_prefixed v False"
  by (auto simp: is_sha256_prefixed_def list_all_iff split: option.splits)

subsection \<open>Terminal text\<close>

text \<open>
  Control characters are U+0000 to U+001F, U+007F, and U+0080 to U+009F; the last range is
  two bytes in UTF-8, the first of them C2. The replacement character is EF BF BD.
\<close>

definition replacement_char :: string where
  "replacement_char = [byte 239, byte 191, byte 189]"

definition ascii_control :: "char \<Rightarrow> bool" where
  "ascii_control c = (let n = (of_char c :: nat) in n < 32 \<or> n = 127)"

fun terminal_text :: "string \<Rightarrow> string" where
  "terminal_text [] = []"
| "terminal_text [c] =
     (if ascii_control c \<and> c \<noteq> byte 10 \<and> c \<noteq> byte 9 then replacement_char else [c])"
| "terminal_text (c # d # cs) =
     (if c = byte 194 \<and> 128 \<le> (of_char d :: nat) \<and> (of_char d :: nat) < 160
      then replacement_char @ terminal_text cs
      else if ascii_control c \<and> c \<noteq> byte 10 \<and> c \<noteq> byte 9
      then replacement_char @ terminal_text (d # cs)
      else c # terminal_text (d # cs))"

lemma replacement_not_control: "c \<in> set replacement_char \<Longrightarrow> \<not> ascii_control c"
  by (auto simp: replacement_char_def byte_def ascii_control_def Let_def)

lemma terminal_text_no_control:
  "c \<in> set (terminal_text s) \<Longrightarrow> ascii_control c \<Longrightarrow> c = byte 10 \<or> c = byte 9"
  by (induction s rule: terminal_text.induct)
    (auto split: if_splits dest: replacement_not_control)

end
