(* ===== verification/Model_Port.thy ===== *)
theory Model_Port
  imports Shared_Types
begin

section \<open>Model turns and their cost (crates/shikigami-engine/src/model.rs)\<close>

text \<open>
  Messages, tool calls and usage as the turn loop passes them; the durable identity of a tool
  call; the cost estimate; and the scripted adapter, whose cursor is its only state.
\<close>

record tool_call =
  tc_id :: string
  tc_name :: string
  tc_args_json :: string

record chat_message =
  msg_role :: string
  msg_content :: string
  msg_tool_call_id :: string
  msg_tool_calls :: "tool_call list"

record tool_def =
  td_name :: string
  td_schema :: string

record token_usage =
  tu_input :: nat
  tu_output :: nat

definition usage_zero :: token_usage where "usage_zero = \<lparr>tu_input = 0, tu_output = 0\<rparr>"

definition usage_total :: "token_usage \<Rightarrow> nat" where
  "usage_total u = u64_saturating_add (tu_input u) (tu_output u)"

definition stable_tool_call_id :: "tool_call \<Rightarrow> nat \<Rightarrow> nat \<Rightarrow> string" where
  "stable_tool_call_id call turn index =
     (let synthesized = ''tool-'' @ dec_string turn @ ''-'' @ dec_string index in
      if tc_id call = [] \<or> tc_id call = synthesized then synthesized
      else synthesized @ ''-'' @ tc_id call)"

record cost_estimate =
  ce_currency :: string
  ce_input_usd_micros :: nat
  ce_output_usd_micros :: nat
  ce_total_usd_micros :: nat

definition cost_from_usage :: "token_usage \<Rightarrow> nat option \<Rightarrow> nat option \<Rightarrow> cost_estimate option" where
  "cost_from_usage usage in_rate out_rate =
     (case (in_rate, out_rate) of
        (Some i, Some o') \<Rightarrow>
          let inp = u64_saturating_mul (tu_input usage) i div 1000000;
              outp = u64_saturating_mul (tu_output usage) o' div 1000000
          in Some \<lparr>ce_currency = ''USD'', ce_input_usd_micros = inp, ce_output_usd_micros = outp,
               ce_total_usd_micros = u64_saturating_add inp outp\<rparr>
      | _ \<Rightarrow> None)"

record model_turn =
  mt_content :: string
  mt_tool_calls :: "tool_call list"
  mt_usage :: "token_usage option"

datatype model_error = ME_Message string | ME_ScriptExhausted | ME_HttpUnavailable | ME_Io | ME_Json
  | ME_Http string

subsection \<open>The scripted adapter\<close>

record scripted_model =
  sm_turns :: "model_turn list"
  sm_cursor :: nat

record scripted_call =
  sc_id :: "string option"
  sc_name :: string
  sc_args_json :: "string option"

record scripted_turn =
  sw_content :: "string option"
  sw_tool_calls :: "scripted_call list"
  sw_usage :: "token_usage option"

definition scripted_call_of :: "nat \<times> scripted_call \<Rightarrow> tool_call" where
  "scripted_call_of ic = (case ic of (i, c) \<Rightarrow>
     \<lparr>tc_id = (case sc_id c of Some x \<Rightarrow> x | None \<Rightarrow> ''call_'' @ dec_string i), tc_name = sc_name c,
      tc_args_json = (case sc_args_json c of Some a \<Rightarrow> a | None \<Rightarrow> ''{}'')\<rparr>)"

definition scripted_from_wire :: "scripted_turn list \<Rightarrow> scripted_model" where
  "scripted_from_wire wire =
     \<lparr>sm_turns = map (\<lambda>t. \<lparr>mt_content = (case sw_content t of Some x \<Rightarrow> x | None \<Rightarrow> []),
          mt_tool_calls = map scripted_call_of (enumerate 0 (sw_tool_calls t)),
          mt_usage = sw_usage t\<rparr>) wire,
      sm_cursor = 0\<rparr>"

definition restore_replay_cursor :: "scripted_model \<Rightarrow> nat \<Rightarrow> (scripted_model, model_error) result" where
  "restore_replay_cursor m completed_turns =
     (if completed_turns > length (sm_turns m) then Err ME_ScriptExhausted
      else Ok (m\<lparr>sm_cursor := completed_turns\<rparr>))"

definition scripted_next_turn :: "scripted_model \<Rightarrow> scripted_model \<times> (model_turn, model_error) result" where
  "scripted_next_turn m =
     (if sm_cursor m < length (sm_turns m)
      then (m\<lparr>sm_cursor := Suc (sm_cursor m)\<rparr>, Ok (sm_turns m ! sm_cursor m))
      else (m, Err ME_ScriptExhausted))"

text \<open>Taking turns one after another until one fails or \<open>k\<close> have been taken.\<close>

fun take_turns :: "nat \<Rightarrow> scripted_model \<Rightarrow> model_turn list \<times> scripted_model" where
  "take_turns 0 m = ([], m)"
| "take_turns (Suc k) m = (case scripted_next_turn m of
     (m', Inl _) \<Rightarrow> ([], m')
   | (m', Inr t) \<Rightarrow> (case take_turns k m' of (ts, m'') \<Rightarrow> (t # ts, m'')))"

lemma take_turns_eq:
  "sm_cursor m \<le> length (sm_turns m) \<Longrightarrow> take_turns k m =
    (take k (drop (sm_cursor m) (sm_turns m)),
     m\<lparr>sm_cursor := min (sm_cursor m + k) (length (sm_turns m))\<rparr>)"
proof (induction k arbitrary: m)
  case 0
  then show ?case by simp
next
  case (Suc k)
  show ?case
  proof (cases "sm_cursor m < length (sm_turns m)")
    case True
    with Suc.IH [of "m\<lparr>sm_cursor := Suc (sm_cursor m)\<rparr>"] show ?thesis
      by (simp add: scripted_next_turn_def Cons_nth_drop_Suc [symmetric])
  next
    case False
    with Suc.prems have "sm_cursor m = length (sm_turns m)" by simp
    then show ?thesis by (simp add: scripted_next_turn_def)
  qed
qed

subsection \<open>Properties\<close>

lemma sep_inject:
  "d \<notin> set a \<Longrightarrow> d \<notin> set b \<Longrightarrow> a @ d # x = b @ d # y \<longleftrightarrow> a = b \<and> x = y"
proof (induction a arbitrary: b)
  case Nil
  then show ?case by (cases b) auto
next
  case (Cons c a)
  then show ?case by (cases b) auto
qed

lemma dec_no_dash: "CHR ''-'' \<notin> set (dec_string n)"
  using dec_string_digits digit_char_not_special(1) by fastforce

lemma sep_tail_inject:
  assumes "d \<notin> set a" "d \<notin> set b" and "x = [] \<or> (\<exists>x'. x = d # x')" and "y = [] \<or> (\<exists>y'. y = d # y')"
    and "a @ x = b @ y"
  shows "a = b"
  using assms
proof (induction a arbitrary: b)
  case Nil
  then show ?case by (cases b) auto
next
  case (Cons c a)
  then show ?case by (cases b) auto
qed

lemma stable_id_shape:
  "\<exists>x. stable_tool_call_id c turn index = ''tool-'' @ dec_string turn @ CHR ''-'' # (dec_string index @ x)
     \<and> (x = [] \<or> (\<exists>z. x = CHR ''-'' # z))"
proof (cases "tc_id c = [] \<or> tc_id c = ''tool-'' @ dec_string turn @ ''-'' @ dec_string index")
  case True
  then show ?thesis by (intro exI [of _ "[]"]) (auto simp: stable_tool_call_id_def Let_def)
next
  case False
  then show ?thesis
    by (intro exI [of _ "CHR ''-'' # tc_id c"]) (simp add: stable_tool_call_id_def Let_def)
qed

text \<open>
  The durable identity separates calls. Two tool calls of one run that differ in their
  turn or in their position in the turn's batch never share a stable identity, whatever ids the
  model supplied: missing, reused, or chosen to imitate a synthesized one.
\<close>

theorem stable_tool_call_id_separates:
  assumes "stable_tool_call_id c turn index = stable_tool_call_id c' turn' index'"
  shows "turn = turn' \<and> index = index'"
proof -
  obtain x where x: "stable_tool_call_id c turn index
      = ''tool-'' @ dec_string turn @ CHR ''-'' # (dec_string index @ x)" "x = [] \<or> (\<exists>z. x = CHR ''-'' # z)"
    using stable_id_shape by blast
  obtain y where y: "stable_tool_call_id c' turn' index'
      = ''tool-'' @ dec_string turn' @ CHR ''-'' # (dec_string index' @ y)" "y = [] \<or> (\<exists>z. y = CHR ''-'' # z)"
    using stable_id_shape by blast
  have "dec_string turn @ CHR ''-'' # (dec_string index @ x) = dec_string turn' @ CHR ''-'' # (dec_string index' @ y)"
    using assms x(1) y(1) by simp
  then have "dec_string turn = dec_string turn'" and tail: "dec_string index @ x = dec_string index' @ y"
    using sep_inject [OF dec_no_dash dec_no_dash] by blast+
  moreover have "dec_string index = dec_string index'"
    using sep_tail_inject [OF dec_no_dash dec_no_dash x(2) y(2) tail] .
  ultimately show ?thesis by simp
qed

theorem stable_tool_call_id_separates_witness:
  "stable_tool_call_id \<lparr>tc_id = [], tc_name = ''bash'', tc_args_json = ''{}''\<rparr> 1 0
   = stable_tool_call_id \<lparr>tc_id = ''tool-1-0'', tc_name = ''bash'', tc_args_json = ''{}''\<rparr> 1 0
   \<and> (1 :: nat) = 1 \<and> (0 :: nat) = 0"
proof -
  have "stable_tool_call_id \<lparr>tc_id = [], tc_name = ''bash'', tc_args_json = ''{}''\<rparr> 1 0
   = stable_tool_call_id \<lparr>tc_id = ''tool-1-0'', tc_name = ''bash'', tc_args_json = ''{}''\<rparr> 1 0"
    by code_simp
  with stable_tool_call_id_separates [OF this] show ?thesis by blast
qed

text \<open>
  Resuming a scripted run replays exactly the rest of its script. Restoring the cursor
  after \<open>n\<close> completed turns succeeds if and only if the script has that many turns, and then the
  turns taken next are the script's turns from position \<open>n\<close> on, in order and without a gap.
\<close>

theorem scripted_resume_exact:
  "(case restore_replay_cursor m n of
      Inl e \<Rightarrow> n > length (sm_turns m) \<and> e = ME_ScriptExhausted
    | Inr m' \<Rightarrow> n \<le> length (sm_turns m) \<and> fst (take_turns k m') = take k (drop n (sm_turns m)))"
  by (simp add: restore_replay_cursor_def take_turns_eq)

lemma cost_exact:
  assumes "tu_input u * i \<le> u64_max" "tu_output u * j \<le> u64_max"
  shows "cost_from_usage u (Some i) (Some j) = Some \<lparr>ce_currency = ''USD'',
     ce_input_usd_micros = tu_input u * i div 1000000, ce_output_usd_micros = tu_output u * j div 1000000,
     ce_total_usd_micros = tu_input u * i div 1000000 + tu_output u * j div 1000000\<rparr>"
proof -
  have "tu_input u * i div 1000000 \<le> u64_max div 1000000" "tu_output u * j div 1000000 \<le> u64_max div 1000000"
    using assms by (simp_all add: div_le_mono)
  moreover have "u64_max div 1000000 + u64_max div 1000000 \<le> u64_max" by (simp add: u64_max_def)
  ultimately have "tu_input u * i div 1000000 + tu_output u * j div 1000000 \<le> u64_max" by linarith
  with assms show ?thesis
    by (simp add: cost_from_usage_def u64_saturating_mul_def u64_saturating_add_def Let_def)
qed

lemma cost_needs_both_rates: "cost_from_usage u i j = None \<longleftrightarrow> i = None \<or> j = None"
  by (auto simp: cost_from_usage_def Let_def split: option.splits)

end
