(* ===== verification/Reconciliation.thy ===== *)
theory Reconciliation
  imports Shared_Types
begin

section \<open>Interfaces shared by the evidence components\<close>

text \<open>
  Two components keep evidence that an external authority has to accept: the local-model
  fallback and the delayed evidence queue. They share two contracts. \<open>sealed\<close>: an envelope
  carries the digest of everything it binds and a signature over it. \<open>reconciliation\<close>: what
  happens to the recorded disposition of a piece of evidence when it is offered again.
\<close>

locale sealed =
  fixes digest :: "'e \<Rightarrow> string option"
    and stored :: "'e \<Rightarrow> string"
    and verify :: "'e \<Rightarrow> bool"
    and seal :: "'e \<Rightarrow> 'e option"
    and complete :: "'e \<Rightarrow> bool"
  assumes verify_digest: "verify e \<Longrightarrow> digest e = Some (stored e)"
    and verify_complete: "verify e \<Longrightarrow> complete e"
    and seal_verify: "complete e \<Longrightarrow> seal e = Some e' \<Longrightarrow> verify e'"
    and seal_digest: "seal e = Some e' \<Longrightarrow> digest e' = digest e"
begin

lemma same_stored_same_digest:
  "verify a \<Longrightarrow> verify b \<Longrightarrow> stored a = stored b \<Longrightarrow> digest a = digest b"
  by (simp add: verify_digest)

lemma tampered_rejected:
  assumes "verify e" and "stored e' = stored e" and "digest e' \<noteq> digest e"
  shows "\<not> verify e'"
  using assms same_stored_same_digest by blast

lemma seal_stored: "complete e \<Longrightarrow> seal e = Some e' \<Longrightarrow> digest e = Some (stored e')"
  using seal_verify seal_digest verify_digest by metis

end

locale reconciliation =
  fixes terminal :: "'s \<Rightarrow> bool"
    and accepted :: "'s"
    and retryable :: "'s"
    and again :: "'s \<Rightarrow> 's"
  assumes accepted_terminal: "terminal accepted"
    and retryable_open: "\<not> terminal retryable"
    and again_terminal: "terminal s \<Longrightarrow> again s = s"
    and again_open: "\<not> terminal s \<Longrightarrow> again s = retryable"
begin

lemma again_idem: "again (again s) = again s"
  by (cases "terminal s") (simp_all add: again_terminal again_open retryable_open)

lemma again_never_mints: "again s = accepted \<longleftrightarrow> s = accepted"
  using accepted_terminal again_open again_terminal retryable_open by metis

lemma again_keeps_terminal: "terminal (again s) = terminal s"
  by (cases "terminal s") (simp_all add: again_terminal again_open retryable_open)

lemma again_repeat: "(again ^^ Suc n) s = again s"
  by (induction n) (simp_all add: again_idem)

end

end
