(* ===== verification/Fallback.thy ===== *)
theory Fallback
  imports Reconciliation Model_Port "HOL-Library.Product_Lexorder"
begin

section \<open>Local-model fallback (crates/shikigami-engine/src/fallback.rs)\<close>

text \<open>
  The fail-closed admission of one authorised local-model interval: the grant and what binds
  it, the signature check, admission, resumption from a checkpoint, and the reconciliation of
  fallback evidence. SHA-256 and the JSON encoder are third-party code: the record \<open>codec\<close>
  holds them, and every definition that needs them takes it as an argument.
\<close>

record codec =
  cd_sha :: "string \<Rightarrow> string"
  cd_to_vec :: "json \<Rightarrow> string option"

definition digest_of :: "codec \<Rightarrow> string \<Rightarrow> string" where
  "digest_of c bs = sha256_prefixed (cd_sha c) bs"

lemma digest_of_nonempty [simp]: "digest_of c bs \<noteq> []" "[] \<noteq> digest_of c bs"
  by (simp_all add: digest_of_def sha256_prefixed_def)

subsection \<open>Digests of the prompt and of the tool surface\<close>

definition prompt_context_digest :: "codec \<Rightarrow> string \<Rightarrow> chat_message list \<Rightarrow> string" where
  "prompt_context_digest c system messages =
     (let task = (case find (\<lambda>m. msg_role m = ''user'') messages of
                    None \<Rightarrow> [] | Some m \<Rightarrow> replace_crlf (msg_content m));
          payload = JObj [(''system'', JStr (replace_crlf system)), (''task'', JStr task)]
      in digest_of c (case cd_to_vec c payload of None \<Rightarrow> [] | Some bs \<Rightarrow> bs))"

definition tool_surface_payload :: "tool_def list \<Rightarrow> string" where
  "tool_surface_payload tools =
     (let rows = remdups_adj (sort (map (\<lambda>t. (td_name t, td_schema t)) tools))
      in join_with (byte 10) (map (\<lambda>(name, schema). name @ byte 10 # schema) rows))"

definition tool_surface_digest :: "codec \<Rightarrow> tool_def list \<Rightarrow> string" where
  "tool_surface_digest c tools = digest_of c (tool_surface_payload tools)"

definition tool_names :: "tool_def list \<Rightarrow> string list" where
  "tool_names tools = map td_name tools"

lemma remdups_adj_sort: "remdups_adj (sort xs) = sorted_list_of_set (set (xs :: 'a::linorder list))"
  by (rule sorted_distinct_set_unique) (simp_all add: sorted_remdups_adj_distinct)

lemma tool_surface_payload_set:
  assumes "(\<lambda>t. (td_name t, td_schema t)) ` set ts = (\<lambda>t. (td_name t, td_schema t)) ` set ts'"
  shows "tool_surface_payload ts = tool_surface_payload ts'"
  using assms by (simp add: tool_surface_payload_def remdups_adj_sort)

subsection \<open>The grant\<close>

record fallback_lease =
  le_effect_id :: string
  le_owner :: string
  le_fencing_token :: string
  le_generation :: nat
  le_valid_until_ms :: int

record live_fence =
  lf_effect_id :: string
  lf_owner :: string
  lf_fencing_token :: string
  lf_generation :: nat
  lf_valid_until_ms :: int

record fallback_authorization =
  fa_schema_version :: nat
  fa_authorization_id :: string
  fa_issuer :: string
  fa_signer_ref :: string
  fa_run_id :: string
  fa_operation_id :: string
  fa_attempt_id :: string
  fa_claim_id :: "string option"
  fa_lease :: fallback_lease
  fa_policy_revision :: string
  fa_model_content_digest :: string
  fa_prompt_context_digest :: string
  fa_tool_surface_digest :: string
  fa_allowed_tools :: "string list"
  fa_valid_from_ms :: int
  fa_valid_until_ms :: int
  fa_revoked :: bool
  fa_reduced_guarantees :: bool
  fa_signature_algorithm :: string
  fa_binding_digest :: string
  fa_signature :: string

record fallback_selection =
  fs_authorization_id :: string
  fs_model_content_digest :: string
  fs_degraded_guarantees :: bool
  fs_selected_at_ms :: int

record fallback_evidence =
  fe_run_id :: string
  fe_operation_id :: string
  fe_attempt_id :: string
  fe_claim_id :: "string option"
  fe_authorization_id :: string
  fe_model_event_id :: string
  fe_payload_digest :: string

datatype fallback_reconciliation = FR_Pending | FR_Retryable | FR_Accepted | FR_Rejected
  | FR_Conflicted | FR_Expired

record fallback_checkpoint =
  fc_authorization :: fallback_authorization
  fc_selection :: fallback_selection
  fc_held_fence :: live_fence
  fc_evidence :: "fallback_evidence list"
  fc_reconciliation :: fallback_reconciliation

datatype model_source = Plane | Local

datatype fallback_denial = FD_Disabled | FD_MissingAuthorization | FD_Unverifiable | FD_Revoked
  | FD_Stale | FD_Expired | FD_MismatchedIdentity | FD_FenceLost | FD_MismatchedModel
  | FD_MismatchedPrompt | FD_MismatchedToolSurface | FD_Conflicted

fun fallback_denial_text :: "fallback_denial \<Rightarrow> string" where
  "fallback_denial_text FD_Disabled = ''fallback_disabled''"
| "fallback_denial_text FD_MissingAuthorization = ''missing_authorization''"
| "fallback_denial_text FD_Unverifiable = ''unverifiable''"
| "fallback_denial_text FD_Revoked = ''revoked''"
| "fallback_denial_text FD_Stale = ''stale''"
| "fallback_denial_text FD_Expired = ''expired''"
| "fallback_denial_text FD_MismatchedIdentity = ''mismatched_identity''"
| "fallback_denial_text FD_FenceLost = ''fence_lost''"
| "fallback_denial_text FD_MismatchedModel = ''mismatched_model''"
| "fallback_denial_text FD_MismatchedPrompt = ''mismatched_prompt''"
| "fallback_denial_text FD_MismatchedToolSurface = ''mismatched_tool_surface''"
| "fallback_denial_text FD_Conflicted = ''conflicted''"

record fallback_view =
  fv_now_ms :: int
  fv_fallback_enabled :: bool
  fv_run_id :: string
  fv_operation_id :: string
  fv_attempt_id :: string
  fv_claim_id :: "string option"
  fv_local_model_digest :: string
  fv_prompt_context_digest :: string
  fv_tool_surface_digest :: string
  fv_tool_names :: "string list"
  fv_live_fence :: "live_fence option"
  fv_allow_test_signatures :: bool

definition FALLBACK_SCHEMA_VERSION :: nat where "FALLBACK_SCHEMA_VERSION = 1"
definition TEST_HMAC_SHA256 :: string where "TEST_HMAC_SHA256 = ''test-hmac-sha256''"
definition FALLBACK_HMAC_DOMAIN :: string where "FALLBACK_HMAC_DOMAIN = ''shikigami-fallback-v1''"

subsection \<open>Binding and signature\<close>

text \<open>The map keys of the source are sorted by \<open>BTreeMap\<close>; the list below has that order.
  Numbers of the lease are bound as decimal strings.\<close>

definition fallback_lease_payload :: "fallback_lease \<Rightarrow> json" where
  "fallback_lease_payload l = JObj
     [(''effect_id'', JStr (le_effect_id l)),
      (''fencing_token'', JStr (le_fencing_token l)),
      (''generation'', JStr (dec_string (le_generation l))),
      (''owner'', JStr (le_owner l)),
      (''valid_until_ms'', JStr (int_string (le_valid_until_ms l)))]"

definition fallback_binding_payload :: "fallback_authorization \<Rightarrow> json" where
  "fallback_binding_payload a = JObj
     [(''allowed_tools'', json_strs (fa_allowed_tools a)),
      (''attempt_id'', JStr (fa_attempt_id a)),
      (''authorization_id'', JStr (fa_authorization_id a)),
      (''claim_id'', json_opt_str (fa_claim_id a)),
      (''issuer'', JStr (fa_issuer a)),
      (''lease'', fallback_lease_payload (fa_lease a)),
      (''model_content_digest'', JStr (fa_model_content_digest a)),
      (''operation_id'', JStr (fa_operation_id a)),
      (''policy_revision'', JStr (fa_policy_revision a)),
      (''prompt_context_digest'', JStr (fa_prompt_context_digest a)),
      (''reduced_guarantees'', JBool (fa_reduced_guarantees a)),
      (''revoked'', JBool (fa_revoked a)),
      (''run_id'', JStr (fa_run_id a)),
      (''schema_version'', JNum (int (fa_schema_version a))),
      (''signer_ref'', JStr (fa_signer_ref a)),
      (''tool_surface_digest'', JStr (fa_tool_surface_digest a)),
      (''valid_from_ms'', JNum (fa_valid_from_ms a)),
      (''valid_until_ms'', JNum (fa_valid_until_ms a))]"

definition fallback_binding_digest :: "codec \<Rightarrow> fallback_authorization \<Rightarrow> (string, fallback_denial) result" where
  "fallback_binding_digest c a =
     (case cd_to_vec c (fallback_binding_payload a) of
        None \<Rightarrow> Err FD_Unverifiable
      | Some bs \<Rightarrow> Ok (digest_of c bs))"

definition hmac_text :: "string \<Rightarrow> string \<Rightarrow> string \<Rightarrow> string" where
  "hmac_text digest signer domain = digest @ ''|'' @ signer @ ''|'' @ domain"

definition fallback_test_signature :: "codec \<Rightarrow> fallback_authorization \<Rightarrow> (string, fallback_denial) result" where
  "fallback_test_signature c a =
     and_then (fallback_binding_digest c a) (\<lambda>digest.
       Ok (digest_of c (hmac_text digest (fa_signer_ref a) FALLBACK_HMAC_DOMAIN)))"

definition fallback_seal :: "codec \<Rightarrow> fallback_authorization \<Rightarrow> (fallback_authorization, fallback_denial) result" where
  "fallback_seal c a =
     (let a1 = a\<lparr>fa_signature_algorithm := TEST_HMAC_SHA256\<rparr> in
      and_then (fallback_binding_digest c a1) (\<lambda>d.
        let a2 = a1\<lparr>fa_binding_digest := d\<rparr> in
        and_then (fallback_test_signature c a2) (\<lambda>s. Ok (a2\<lparr>fa_signature := s\<rparr>))))"

definition required_ids_present :: "fallback_authorization \<Rightarrow> bool" where
  "required_ids_present a \<longleftrightarrow>
     fa_schema_version a = FALLBACK_SCHEMA_VERSION
     \<and> fa_authorization_id a \<noteq> [] \<and> fa_issuer a \<noteq> [] \<and> fa_signer_ref a \<noteq> []
     \<and> fa_run_id a \<noteq> [] \<and> fa_operation_id a \<noteq> [] \<and> fa_attempt_id a \<noteq> []
     \<and> fa_policy_revision a \<noteq> [] \<and> fa_model_content_digest a \<noteq> []
     \<and> fa_prompt_context_digest a \<noteq> [] \<and> fa_tool_surface_digest a \<noteq> []
     \<and> le_effect_id (fa_lease a) \<noteq> [] \<and> le_owner (fa_lease a) \<noteq> []
     \<and> le_fencing_token (fa_lease a) \<noteq> [] \<and> le_generation (fa_lease a) > 0"

definition fallback_verify :: "codec \<Rightarrow> bool \<Rightarrow> fallback_authorization \<Rightarrow> (unit, fallback_denial) result" where
  "fallback_verify c allow_test a =
     (if \<not> required_ids_present a \<or> fa_binding_digest a = [] \<or> fa_signature a = []
      then Err FD_Unverifiable
      else and_then (fallback_binding_digest c a) (\<lambda>expected.
        if expected \<noteq> fa_binding_digest a then Err FD_Unverifiable
        else if fa_signature_algorithm a \<noteq> TEST_HMAC_SHA256 \<or> \<not> allow_test then Err FD_Unverifiable
        else and_then (fallback_test_signature c a) (\<lambda>s.
          if fa_signature a \<noteq> s then Err FD_Unverifiable else Ok ())))"

subsection \<open>Admission\<close>

definition fence_matches :: "fallback_lease \<Rightarrow> live_fence \<Rightarrow> bool" where
  "fence_matches l f \<longleftrightarrow>
     le_effect_id l = lf_effect_id f \<and> le_owner l = lf_owner f
     \<and> le_fencing_token l = lf_fencing_token f \<and> le_generation l = lf_generation f"

definition fallback_admit_verified :: "fallback_authorization \<Rightarrow> fallback_view \<Rightarrow>
    (fallback_selection, fallback_denial) result" where
  "fallback_admit_verified a v =
     (if fa_revoked a then Err FD_Revoked
      else if fv_now_ms v < fa_valid_from_ms a then Err FD_Stale
      else if fv_now_ms v \<ge> fa_valid_until_ms a \<or> fv_now_ms v \<ge> le_valid_until_ms (fa_lease a)
      then Err FD_Expired
      else if fa_run_id a \<noteq> fv_run_id v \<or> fa_operation_id a \<noteq> fv_operation_id v
        \<or> fa_attempt_id a \<noteq> fv_attempt_id v \<or> fa_claim_id a \<noteq> fv_claim_id v
      then Err FD_MismatchedIdentity
      else case fv_live_fence v of
        None \<Rightarrow> Err FD_FenceLost
      | Some f \<Rightarrow>
        if lf_effect_id f = [] \<or> lf_owner f = [] \<or> lf_fencing_token f = [] \<or> lf_generation f = 0
        then Err FD_FenceLost
        else if \<not> fence_matches (fa_lease a) f then Err FD_FenceLost
        else if fv_now_ms v \<ge> lf_valid_until_ms f \<or> lf_generation f < le_generation (fa_lease a)
        then Err FD_Stale
        else if fv_local_model_digest v \<noteq> fa_model_content_digest a then Err FD_MismatchedModel
        else if fv_prompt_context_digest v \<noteq> fa_prompt_context_digest a then Err FD_MismatchedPrompt
        else if fv_tool_surface_digest v \<noteq> fa_tool_surface_digest a then Err FD_MismatchedToolSurface
        else if sort (fa_allowed_tools a) \<noteq> sort (fv_tool_names v) then Err FD_MismatchedToolSurface
        else Ok \<lparr>fs_authorization_id = fa_authorization_id a,
                fs_model_content_digest = fa_model_content_digest a,
                fs_degraded_guarantees = True, fs_selected_at_ms = fv_now_ms v\<rparr>)"

definition fallback_admit :: "codec \<Rightarrow> fallback_authorization option \<Rightarrow> fallback_view \<Rightarrow>
    (fallback_selection, fallback_denial) result" where
  "fallback_admit c authorization v =
     (if \<not> fv_fallback_enabled v then Err FD_Disabled
      else case authorization of
        None \<Rightarrow> Err FD_MissingAuthorization
      | Some a \<Rightarrow> and_then (fallback_verify c (fv_allow_test_signatures v) a)
          (\<lambda>_. fallback_admit_verified a v))"

definition select_model_source :: "codec \<Rightarrow> bool \<Rightarrow> fallback_authorization option \<Rightarrow> fallback_view \<Rightarrow>
    (model_source \<times> fallback_selection option, fallback_denial) result" where
  "select_model_source c plane_reachable authorization v =
     (if plane_reachable then Ok (Plane, None)
      else and_then (fallback_admit c authorization v) (\<lambda>s. Ok (Local, Some s)))"

subsection \<open>Resumption\<close>

definition fallback_resume :: "codec \<Rightarrow> fallback_checkpoint \<Rightarrow> fallback_view \<Rightarrow>
    (fallback_selection, fallback_denial) result" where
  "fallback_resume c cp view =
     (let v = (if fv_live_fence view = None then view\<lparr>fv_live_fence := Some (fc_held_fence cp)\<rparr> else view)
      in and_then (fallback_admit c (Some (fc_authorization cp)) v) (\<lambda>s.
        if fs_authorization_id s \<noteq> fs_authorization_id (fc_selection cp)
          \<or> fs_model_content_digest s \<noteq> fs_model_content_digest (fc_selection cp)
        then Err FD_Stale else Ok s))"

definition still_valid :: "codec \<Rightarrow> fallback_checkpoint \<Rightarrow> fallback_view \<Rightarrow> (unit, fallback_denial) result" where
  "still_valid c cp v = and_then (fallback_resume c cp v) (\<lambda>_. Ok ())"

definition tool_permitted :: "codec \<Rightarrow> fallback_checkpoint \<Rightarrow> fallback_view \<Rightarrow> string \<Rightarrow>
    (unit, fallback_denial) result" where
  "tool_permitted c cp v name =
     and_then (still_valid c cp v) (\<lambda>_.
       if name \<in> set (fa_allowed_tools (fc_authorization cp)) then Ok ()
       else Err FD_MismatchedToolSurface)"

definition view_from_checkpoint :: "fallback_checkpoint \<Rightarrow> int \<Rightarrow> bool \<Rightarrow> live_fence option \<Rightarrow> bool \<Rightarrow>
    fallback_view" where
  "view_from_checkpoint cp now_ms enabled live_fence allow_test =
     (let a = fc_authorization cp in
      \<lparr>fv_now_ms = now_ms, fv_fallback_enabled = enabled, fv_run_id = fa_run_id a,
       fv_operation_id = fa_operation_id a, fv_attempt_id = fa_attempt_id a,
       fv_claim_id = fa_claim_id a, fv_local_model_digest = fa_model_content_digest a,
       fv_prompt_context_digest = fa_prompt_context_digest a,
       fv_tool_surface_digest = fa_tool_surface_digest a, fv_tool_names = fa_allowed_tools a,
       fv_live_fence = (case live_fence of None \<Rightarrow> Some (fc_held_fence cp) | Some f \<Rightarrow> Some f),
       fv_allow_test_signatures = allow_test\<rparr>)"

definition checkpoint_after_admit :: "fallback_authorization \<Rightarrow> fallback_selection \<Rightarrow> live_fence \<Rightarrow>
    fallback_checkpoint" where
  "checkpoint_after_admit a s f =
     \<lparr>fc_authorization = a, fc_selection = s, fc_held_fence = f, fc_evidence = [],
      fc_reconciliation = FR_Pending\<rparr>"

subsection \<open>Evidence\<close>

definition same_identity_keys :: "fallback_evidence \<Rightarrow> fallback_evidence \<Rightarrow> bool" where
  "same_identity_keys l r \<longleftrightarrow>
     fe_run_id l = fe_run_id r \<and> fe_operation_id l = fe_operation_id r
     \<and> fe_attempt_id l = fe_attempt_id r \<and> fe_claim_id l = fe_claim_id r
     \<and> fe_authorization_id l = fe_authorization_id r \<and> fe_model_event_id l = fe_model_event_id r"

fun fallback_again :: "fallback_reconciliation \<Rightarrow> fallback_reconciliation" where
  "fallback_again FR_Pending = FR_Retryable"
| "fallback_again FR_Retryable = FR_Retryable"
| "fallback_again r = r"

definition fallback_reconcile :: "fallback_checkpoint option \<Rightarrow> fallback_evidence \<Rightarrow> fallback_reconciliation" where
  "fallback_reconcile prior incoming =
     (case prior of
        None \<Rightarrow> FR_Pending
      | Some cp \<Rightarrow>
        (case find (\<lambda>e. same_identity_keys e incoming) (fc_evidence cp) of
           None \<Rightarrow> FR_Pending
         | Some e \<Rightarrow>
           if fe_payload_digest e \<noteq> fe_payload_digest incoming then FR_Conflicted
           else fallback_again (fc_reconciliation cp)))"

definition apply_authority_disposition :: "fallback_reconciliation \<Rightarrow> bool option \<Rightarrow> fallback_reconciliation" where
  "apply_authority_disposition current accepted =
     (case accepted of Some True \<Rightarrow> FR_Accepted | Some False \<Rightarrow> FR_Rejected | None \<Rightarrow> current)"

definition evidence_identity :: "codec \<Rightarrow> fallback_authorization \<Rightarrow> string \<Rightarrow> string \<Rightarrow> fallback_evidence" where
  "evidence_identity c a model_event_id payload =
     \<lparr>fe_run_id = fa_run_id a, fe_operation_id = fa_operation_id a, fe_attempt_id = fa_attempt_id a,
      fe_claim_id = fa_claim_id a, fe_authorization_id = fa_authorization_id a,
      fe_model_event_id = model_event_id, fe_payload_digest = digest_of c payload\<rparr>"

subsection \<open>Facts about the grant\<close>

lemma fallback_payload_frame [simp]:
  "fallback_binding_payload (a\<lparr>fa_signature_algorithm := x\<rparr>) = fallback_binding_payload a"
  "fallback_binding_payload (a\<lparr>fa_binding_digest := y\<rparr>) = fallback_binding_payload a"
  "fallback_binding_payload (a\<lparr>fa_signature := z\<rparr>) = fallback_binding_payload a"
  by (simp_all add: fallback_binding_payload_def)

lemma fallback_digest_frame [simp]:
  "fallback_binding_digest c (a\<lparr>fa_signature_algorithm := x\<rparr>) = fallback_binding_digest c a"
  "fallback_binding_digest c (a\<lparr>fa_binding_digest := y\<rparr>) = fallback_binding_digest c a"
  "fallback_binding_digest c (a\<lparr>fa_signature := z\<rparr>) = fallback_binding_digest c a"
  by (simp_all add: fallback_binding_digest_def)

lemma fallback_signature_frame [simp]:
  "fallback_test_signature c (a\<lparr>fa_signature_algorithm := x\<rparr>) = fallback_test_signature c a"
  "fallback_test_signature c (a\<lparr>fa_binding_digest := y\<rparr>) = fallback_test_signature c a"
  "fallback_test_signature c (a\<lparr>fa_signature := z\<rparr>) = fallback_test_signature c a"
  by (simp_all add: fallback_test_signature_def)

lemma required_ids_frame [simp]:
  "required_ids_present (a\<lparr>fa_signature_algorithm := x\<rparr>) = required_ids_present a"
  "required_ids_present (a\<lparr>fa_binding_digest := y\<rparr>) = required_ids_present a"
  "required_ids_present (a\<lparr>fa_signature := z\<rparr>) = required_ids_present a"
  by (simp_all add: required_ids_present_def)

lemma fallback_digest_nonempty: "fallback_binding_digest c a = Ok d \<Longrightarrow> d \<noteq> []"
  by (auto simp: fallback_binding_digest_def split: option.splits)

lemma fallback_signature_nonempty: "fallback_test_signature c a = Ok s \<Longrightarrow> s \<noteq> []"
  by (auto simp: fallback_test_signature_def and_then_eq_Ok)

lemma fallback_verify_iff:
  "fallback_verify c allow a = Ok u \<longleftrightarrow>
     required_ids_present a \<and> allow \<and> fa_signature_algorithm a = TEST_HMAC_SHA256
     \<and> fallback_binding_digest c a = Ok (fa_binding_digest a)
     \<and> fallback_test_signature c a = Ok (fa_signature a)"
proof -
  have ne: "fallback_binding_digest c a = Ok (fa_binding_digest a) \<Longrightarrow> fa_binding_digest a \<noteq> []"
    "fallback_test_signature c a = Ok (fa_signature a) \<Longrightarrow> fa_signature a \<noteq> []"
    by (auto dest: fallback_digest_nonempty fallback_signature_nonempty)
  show ?thesis
  proof
    assume "fallback_verify c allow a = Ok u"
    then show "required_ids_present a \<and> allow \<and> fa_signature_algorithm a = TEST_HMAC_SHA256
      \<and> fallback_binding_digest c a = Ok (fa_binding_digest a)
      \<and> fallback_test_signature c a = Ok (fa_signature a)"
      by (auto simp: fallback_verify_def and_then_eq_Ok split: if_splits)
  next
    assume "required_ids_present a \<and> allow \<and> fa_signature_algorithm a = TEST_HMAC_SHA256
      \<and> fallback_binding_digest c a = Ok (fa_binding_digest a)
      \<and> fallback_test_signature c a = Ok (fa_signature a)"
    then show "fallback_verify c allow a = Ok u"
      using ne by (simp add: fallback_verify_def)
  qed
qed

lemma fallback_verify_Err:
  "fallback_verify c allow a \<noteq> Ok () \<Longrightarrow> fallback_verify c allow a = Err FD_Unverifiable"
  by (auto simp: fallback_verify_def and_then_def fallback_binding_digest_def fallback_test_signature_def
      split: if_splits option.splits sum.splits)

lemma fallback_seal_Ok:
  "fallback_seal c a = Ok a' \<longleftrightarrow>
     (\<exists>d s. fallback_binding_digest c a = Ok d \<and> fallback_test_signature c a = Ok s
       \<and> a' = a\<lparr>fa_signature_algorithm := TEST_HMAC_SHA256, fa_binding_digest := d, fa_signature := s\<rparr>)"
  by (auto simp: fallback_seal_def and_then_eq_Ok Let_def)

definition result_opt :: "('a, 'e) result \<Rightarrow> 'a option" where
  "result_opt r = (case r of Inl _ \<Rightarrow> None | Inr a \<Rightarrow> Some a)"

lemma result_opt_simps [simp]: "result_opt (Inr a) = Some a" "result_opt (Inl e) = None"
  by (simp_all add: result_opt_def)

lemma result_opt_Some: "result_opt r = Some a \<longleftrightarrow> r = Inr a"
  by (cases r) auto

interpretation grant: sealed "\<lambda>a. result_opt (fallback_binding_digest c a)" fa_binding_digest
  "\<lambda>a. is_ok (fallback_verify c True a)" "\<lambda>a. result_opt (fallback_seal c a)" required_ids_present
  for c
  by unfold_locales
    (auto simp: is_ok_iff fallback_verify_iff result_opt_Some fallback_seal_Ok)

fun fallback_terminal :: "fallback_reconciliation \<Rightarrow> bool" where
  "fallback_terminal FR_Pending = False"
| "fallback_terminal FR_Retryable = False"
| "fallback_terminal _ = True"

interpretation fb: reconciliation fallback_terminal FR_Accepted FR_Retryable fallback_again
proof unfold_locales
  fix s
  show "fallback_terminal s \<Longrightarrow> fallback_again s = s" by (cases s) simp_all
  show "\<not> fallback_terminal s \<Longrightarrow> fallback_again s = FR_Retryable" by (cases s) simp_all
qed simp_all

text \<open>What a grant has to satisfy for admission, independently of the order of the checks.\<close>

definition grant_usable :: "fallback_authorization \<Rightarrow> fallback_view \<Rightarrow> live_fence \<Rightarrow> bool" where
  "grant_usable a v f \<longleftrightarrow>
     \<not> fa_revoked a
     \<and> fa_valid_from_ms a \<le> fv_now_ms v
     \<and> fv_now_ms v < min (fa_valid_until_ms a) (min (le_valid_until_ms (fa_lease a)) (lf_valid_until_ms f))
     \<and> (fa_run_id a, fa_operation_id a, fa_attempt_id a, fa_claim_id a)
         = (fv_run_id v, fv_operation_id v, fv_attempt_id v, fv_claim_id v)
     \<and> fv_live_fence v = Some f \<and> fence_matches (fa_lease a) f
     \<and> fv_local_model_digest v = fa_model_content_digest a
     \<and> fv_prompt_context_digest v = fa_prompt_context_digest a
     \<and> fv_tool_surface_digest v = fa_tool_surface_digest a
     \<and> mset (fa_allowed_tools a) = mset (fv_tool_names v)"

definition selection_of :: "fallback_authorization \<Rightarrow> fallback_view \<Rightarrow> fallback_selection" where
  "selection_of a v = \<lparr>fs_authorization_id = fa_authorization_id a,
     fs_model_content_digest = fa_model_content_digest a,
     fs_degraded_guarantees = True, fs_selected_at_ms = fv_now_ms v\<rparr>"

lemma fallback_admit_verified_iff:
  assumes "required_ids_present a"
  shows "fallback_admit_verified a v = Ok s \<longleftrightarrow>
    (\<exists>f. grant_usable a v f) \<and> s = selection_of a v"
proof (cases "fv_live_fence v")
  case None
  then show ?thesis
    by (simp add: fallback_admit_verified_def grant_usable_def)
next
  case (Some f)
  from assms have lease: "le_effect_id (fa_lease a) \<noteq> []" "le_owner (fa_lease a) \<noteq> []"
    "le_fencing_token (fa_lease a) \<noteq> []" "le_generation (fa_lease a) > 0"
    by (simp_all add: required_ids_present_def)
  with Some show ?thesis
    by (auto simp: fallback_admit_verified_def grant_usable_def selection_of_def sort_eq_iff_mset
        fence_matches_def not_le not_less)
qed

lemma fallback_admit_Ok:
  "fallback_admit c g v = Ok s \<longleftrightarrow>
     fv_fallback_enabled v \<and>
     (\<exists>a f. g = Some a \<and> fallback_verify c (fv_allow_test_signatures v) a = Ok ()
        \<and> grant_usable a v f \<and> s = selection_of a v)"
  by (cases g) (auto simp: fallback_admit_def and_then_eq_Ok fallback_admit_verified_iff fallback_verify_iff)

subsection \<open>Properties\<close>

text \<open>
  A small grant and the view it is used in, for the witnesses. The codec tells revoked grants
  from others and nothing else; its hash is the identity.
\<close>

definition demo_codec :: codec where
  "demo_codec = \<lparr>cd_sha = (\<lambda>bs. bs),
     cd_to_vec = (\<lambda>j. Some (if json_get ''revoked'' j = Some (JBool True) then ''r'' else ''j''))\<rparr>"

definition demo_fence :: live_fence where
  "demo_fence = \<lparr>lf_effect_id = ''e'', lf_owner = ''o'', lf_fencing_token = ''t'',
     lf_generation = 1, lf_valid_until_ms = 90\<rparr>"

definition demo_grant :: fallback_authorization where
  "demo_grant = \<lparr>fa_schema_version = 1, fa_authorization_id = ''auth'', fa_issuer = ''plane'',
     fa_signer_ref = ''key'', fa_run_id = ''run'', fa_operation_id = ''op'', fa_attempt_id = ''at'',
     fa_claim_id = None,
     fa_lease = \<lparr>le_effect_id = ''e'', le_owner = ''o'', le_fencing_token = ''t'',
       le_generation = 1, le_valid_until_ms = 100\<rparr>,
     fa_policy_revision = ''p1'', fa_model_content_digest = ''m'', fa_prompt_context_digest = ''c'',
     fa_tool_surface_digest = ''s'', fa_allowed_tools = [''glob'', ''grep''],
     fa_valid_from_ms = 10, fa_valid_until_ms = 80, fa_revoked = False,
     fa_reduced_guarantees = True, fa_signature_algorithm = TEST_HMAC_SHA256,
     fa_binding_digest = digest_of demo_codec ''j'', 
     fa_signature = digest_of demo_codec (hmac_text (digest_of demo_codec ''j'') ''key'' FALLBACK_HMAC_DOMAIN)\<rparr>"

definition demo_view :: fallback_view where
  "demo_view = \<lparr>fv_now_ms = 20, fv_fallback_enabled = True, fv_run_id = ''run'',
     fv_operation_id = ''op'', fv_attempt_id = ''at'', fv_claim_id = None,
     fv_local_model_digest = ''m'', fv_prompt_context_digest = ''c'', fv_tool_surface_digest = ''s'',
     fv_tool_names = [''grep'', ''glob''], fv_live_fence = Some demo_fence,
     fv_allow_test_signatures = True\<rparr>"

lemma demo_verify: "fallback_verify demo_codec True demo_grant = Ok ()"
  by (simp add: fallback_verify_iff required_ids_present_def demo_grant_def FALLBACK_SCHEMA_VERSION_def
      fallback_binding_digest_def fallback_test_signature_def demo_codec_def json_get_def
      fallback_binding_payload_def)

lemma demo_grant_not_revoked: "\<not> fa_revoked demo_grant"
  by (simp add: demo_grant_def)

lemma demo_usable: "grant_usable demo_grant demo_view demo_fence"
  by (simp add: grant_usable_def demo_grant_def demo_view_def demo_fence_def fence_matches_def)

lemma demo_admit: "fallback_admit demo_codec (Some demo_grant) demo_view = Ok (selection_of demo_grant demo_view)"
  using demo_verify demo_usable by (auto simp: fallback_admit_Ok demo_view_def)

text \<open>
  \<^bold>\<open>C20\<close>: admission of the local model is exact. It succeeds if and only if fallback is enabled,
  a grant is present and carries a verified signature, and the grant is usable in the observed
  state: not revoked, inside its own window and the lease's and the held fence's, for this run,
  operation, attempt and claim, fenced by the same effect, owner, token and generation, and for
  exactly this model, prompt, tool surface and multiset of tool names. The selection it returns
  is determined and always reports degraded guarantees.
\<close>

theorem fallback_admit_exact:
  "fallback_admit c g v = Ok s \<longleftrightarrow>
     fv_fallback_enabled v \<and>
     (\<exists>a f. g = Some a \<and> fallback_verify c (fv_allow_test_signatures v) a = Ok ()
        \<and> grant_usable a v f \<and> s = selection_of a v)"
  by (rule fallback_admit_Ok)

text \<open>
  A checkpointed grant can be resumed exactly as long as it is valid. After an
  admission under the fence \<open>f\<close>, resuming from the checkpoint at a time \<open>t\<close> succeeds if and
  only if \<open>t\<close> is not before the grant's start and before the end of the grant, of its lease
  and of the held fence: the checkpoint can neither extend nor shorten the interval.
\<close>

theorem fallback_resume_window:
  assumes admitted: "fallback_admit c (Some a) v = Ok s" and fence: "fv_live_fence v = Some f"
  shows "is_ok (fallback_resume c (checkpoint_after_admit a s f)
           (view_from_checkpoint (checkpoint_after_admit a s f) t True None (fv_allow_test_signatures v)))
    \<longleftrightarrow> fa_valid_from_ms a \<le> t
      \<and> t < min (fa_valid_until_ms a) (min (le_valid_until_ms (fa_lease a)) (lf_valid_until_ms f))"
proof -
  let ?cp = "checkpoint_after_admit a s f"
  let ?v = "view_from_checkpoint ?cp t True None (fv_allow_test_signatures v)"
  from admitted fence have ok: "fallback_verify c (fv_allow_test_signatures v) a = Ok ()"
    and use: "grant_usable a v f" and s: "s = selection_of a v"
    by (auto simp: fallback_admit_Ok grant_usable_def)
  have "is_ok (fallback_resume c ?cp ?v) \<longleftrightarrow> is_ok (fallback_admit c (Some a) ?v)"
    by (auto simp: is_ok_iff fallback_resume_def and_then_eq_Ok fallback_admit_Ok s selection_of_def
        checkpoint_after_admit_def view_from_checkpoint_def Let_def)
  also have "\<dots> \<longleftrightarrow> grant_usable a ?v f"
    using ok by (auto simp: is_ok_iff fallback_admit_Ok grant_usable_def view_from_checkpoint_def
        checkpoint_after_admit_def Let_def)
  also have "\<dots> \<longleftrightarrow> fa_valid_from_ms a \<le> t
      \<and> t < min (fa_valid_until_ms a) (min (le_valid_until_ms (fa_lease a)) (lf_valid_until_ms f))"
    using use by (auto simp: grant_usable_def view_from_checkpoint_def checkpoint_after_admit_def Let_def)
  finally show ?thesis .
qed

theorem fallback_resume_window_witness:
  "is_ok (fallback_resume demo_codec
      (checkpoint_after_admit demo_grant (selection_of demo_grant demo_view) demo_fence)
      (view_from_checkpoint
        (checkpoint_after_admit demo_grant (selection_of demo_grant demo_view) demo_fence) 79 True None
        (fv_allow_test_signatures demo_view)))"
proof -
  have f: "fv_live_fence demo_view = Some demo_fence" by (simp add: demo_view_def)
  show ?thesis
    unfolding fallback_resume_window [OF demo_admit f, of 79]
    by (simp add: demo_grant_def demo_fence_def)
qed

lemma fallback_payload_inject:
  assumes "fallback_binding_payload a = fallback_binding_payload b"
    and "fa_signature_algorithm a = fa_signature_algorithm b"
    and "fa_binding_digest a = fa_binding_digest b" and "fa_signature a = fa_signature b"
  shows "a = b"
proof -
  from assms(1) have "fa_lease a = fa_lease b"
    by (intro fallback_lease.equality) (simp_all add: fallback_binding_payload_def fallback_lease_payload_def)
  with assms show ?thesis
    by (intro fallback_authorization.equality) (simp_all add: fallback_binding_payload_def)
qed

text \<open>
  The signature covers the whole grant. Take a grant that verifies and any other
  grant with the same binding digest, changed in at least one field. When the encoder and
  SHA-256 do not collide on the documents of the two grants, the changed grant does not verify.
\<close>

theorem grant_tamper_evident:
  assumes a: "fallback_verify c True a = Ok ()" and changed: "b \<noteq> a"
    and stored: "fa_binding_digest b = fa_binding_digest a"
    and encoder: "inj_on (cd_to_vec c) {fallback_binding_payload a, fallback_binding_payload b}"
    and hash: "inj_on (cd_sha c) ((the \<circ> cd_to_vec c) ` {fallback_binding_payload a, fallback_binding_payload b})"
  shows "fallback_verify c True b = Err FD_Unverifiable"
proof -
  let ?pa = "fallback_binding_payload a" and ?pb = "fallback_binding_payload b"
  have "fallback_verify c True b \<noteq> Ok ()"
  proof
    assume b: "fallback_verify c True b = Ok ()"
    have "result_opt (fallback_binding_digest c a) = result_opt (fallback_binding_digest c b)"
      by (rule grant.same_stored_same_digest [where c = c]) (simp_all add: a b stored)
    moreover obtain x y where xy: "cd_to_vec c ?pa = Some x" "cd_to_vec c ?pb = Some y"
      using a b by (auto simp: fallback_verify_iff fallback_binding_digest_def split: option.splits)
    ultimately have "cd_sha c x = cd_sha c y"
      by (simp add: fallback_binding_digest_def digest_of_def sha256_prefixed_inject)
    moreover have "inj_on (cd_sha c) {x, y}" using hash xy by (simp del: inj_on_insert)
    ultimately have "x = y" by (blast intro: inj_onD)
    with xy have eq: "?pa = ?pb" by (intro inj_onD [OF encoder]) simp_all
    then have "fa_signer_ref a = fa_signer_ref b" by (simp add: fallback_binding_payload_def)
    with eq have "fallback_test_signature c a = fallback_test_signature c b"
      by (simp add: fallback_test_signature_def fallback_binding_digest_def)
    with a b have sig: "fa_signature a = fa_signature b"
      and alg: "fa_signature_algorithm a = fa_signature_algorithm b"
      by (simp_all add: fallback_verify_iff)
    from fallback_payload_inject [OF eq alg stored [symmetric] sig] changed show False by simp
  qed
  then show ?thesis by (rule fallback_verify_Err)
qed

theorem grant_tamper_evident_witness:
  "fallback_verify demo_codec True (demo_grant\<lparr>fa_revoked := True\<rparr>) = Err FD_Unverifiable"
proof (rule grant_tamper_evident [OF demo_verify])
  show "demo_grant\<lparr>fa_revoked := True\<rparr> \<noteq> demo_grant"
    by (metis (no_types, lifting) demo_grant_not_revoked fallback_authorization.select_convs(17)
        fallback_authorization.surjective fallback_authorization.update_convs(17))
  show "inj_on (cd_to_vec demo_codec)
     {fallback_binding_payload demo_grant, fallback_binding_payload (demo_grant\<lparr>fa_revoked := True\<rparr>)}"
    by (simp add: inj_on_def demo_codec_def json_get_def fallback_binding_payload_def demo_grant_not_revoked)
  show "inj_on (cd_sha demo_codec) ((the \<circ> cd_to_vec demo_codec) `
     {fallback_binding_payload demo_grant, fallback_binding_payload (demo_grant\<lparr>fa_revoked := True\<rparr>)})"
    by (simp add: inj_on_def demo_codec_def)
qed simp

text \<open>
  Reconnecting is idempotent and never invents acceptance. Evidence reconciles to
  accepted only when the checkpoint already records acceptance for the same identity and the
  same payload, a different payload under the same identity is a conflict, and recording the
  outcome and reconciling again gives the same outcome.
\<close>

theorem fallback_reconcile_idempotent:
  "(fallback_reconcile (Some cp) e = FR_Accepted \<longleftrightarrow>
      fc_reconciliation cp = FR_Accepted
      \<and> (\<exists>e'. find (\<lambda>x. same_identity_keys x e) (fc_evidence cp) = Some e'
           \<and> fe_payload_digest e' = fe_payload_digest e))
   \<and> fallback_reconcile (Some (cp\<lparr>fc_reconciliation := fallback_reconcile (Some cp) e\<rparr>)) e
      = fallback_reconcile (Some cp) e
   \<and> fallback_reconcile None e = FR_Pending"
proof (cases "find (\<lambda>x. same_identity_keys x e) (fc_evidence cp)")
  case None
  then show ?thesis by (simp add: fallback_reconcile_def)
next
  case (Some e')
  show ?thesis
  proof (cases "fe_payload_digest e' = fe_payload_digest e")
    case True
    with Some show ?thesis
      by (simp add: fallback_reconcile_def fb.again_idem fb.again_never_mints)
  next
    case False
    with Some show ?thesis by (simp add: fallback_reconcile_def)
  qed
qed

text \<open>
  The tool-surface digest depends on the set of advertised tools alone: reordering
  or repeating tools, as hosts and settings may, cannot change it.
\<close>

theorem tool_surface_digest_set:
  assumes "(\<lambda>t. (td_name t, td_schema t)) ` set ts = (\<lambda>t. (td_name t, td_schema t)) ` set ts'"
  shows "tool_surface_digest c ts = tool_surface_digest c ts'"
  using tool_surface_payload_set [OF assms] by (simp add: tool_surface_digest_def)

theorem tool_surface_digest_set_witness:
  "tool_surface_digest demo_codec
     [\<lparr>td_name = ''a'', td_schema = ''s''\<rparr>, \<lparr>td_name = ''b'', td_schema = ''t''\<rparr>]
   = tool_surface_digest demo_codec
     [\<lparr>td_name = ''b'', td_schema = ''t''\<rparr>, \<lparr>td_name = ''a'', td_schema = ''s''\<rparr>,
      \<lparr>td_name = ''b'', td_schema = ''t''\<rparr>]"
  by (rule tool_surface_digest_set) (simp add: insert_commute)

end
