(* ===== verification/Evidence_Queue.thy ===== *)
theory Evidence_Queue
  imports Fallback
begin

section \<open>Delayed evidence queue (crates/shikigami-engine/src/evidence\_queue.rs)\<close>

text \<open>
  The bounded durable spool of signed evidence: the envelope, its seal and verification, the
  store, enqueueing with its retention sweep, duplicate handling and capacity, the local gate
  and the submission to the receipt authority, the operator snapshot, and loading and saving.
\<close>

datatype evidence_kind = EK_Terminal | EK_Model | EK_Tool

fun evidence_kind_text :: "evidence_kind \<Rightarrow> string" where
  "evidence_kind_text EK_Terminal = ''terminal''"
| "evidence_kind_text EK_Model = ''model''"
| "evidence_kind_text EK_Tool = ''tool''"

lemma evidence_kind_text_inject [simp]: "evidence_kind_text a = evidence_kind_text b \<longleftrightarrow> a = b"
  by (cases a; cases b) simp_all

datatype evidence_state = ES_Pending | ES_Retryable | ES_Accepted | ES_Rejected | ES_Conflicted
  | ES_Expired

fun evidence_state_text :: "evidence_state \<Rightarrow> string" where
  "evidence_state_text ES_Pending = ''pending''"
| "evidence_state_text ES_Retryable = ''retryable''"
| "evidence_state_text ES_Accepted = ''accepted''"
| "evidence_state_text ES_Rejected = ''rejected''"
| "evidence_state_text ES_Conflicted = ''conflicted''"
| "evidence_state_text ES_Expired = ''expired''"

definition es_is_terminal :: "evidence_state \<Rightarrow> bool" where
  "es_is_terminal s \<longleftrightarrow> s \<in> {ES_Accepted, ES_Rejected, ES_Conflicted, ES_Expired}"

definition es_unresolved :: "evidence_state \<Rightarrow> bool" where
  "es_unresolved s \<longleftrightarrow> s \<noteq> ES_Accepted"

record evidence_id =
  ei_run_id :: string
  ei_operation_id :: string
  ei_attempt_id :: string
  ei_claim_id :: "string option"
  ei_event_id :: string
  ei_payload_digest :: string

definition ei_key :: "evidence_id \<Rightarrow> string" where
  "ei_key i = ei_run_id i @ '':'' @ ei_operation_id i @ '':'' @ ei_attempt_id i @ '':''
     @ (case ei_claim_id i of None \<Rightarrow> [] | Some c \<Rightarrow> c) @ '':'' @ ei_event_id i"

record delayed_envelope =
  de_schema_version :: nat
  de_kind :: evidence_kind
  de_identity :: evidence_id
  de_issuer :: string
  de_signer_ref :: string
  de_policy_revision :: string
  de_lease_valid_until_ms :: int
  de_fencing_token :: string
  de_generation :: nat
  de_parent_event_id :: string
  de_redacted_attributes :: "(string \<times> string) list"
  de_report_attributes :: "(string \<times> string) list"
  de_signature_algorithm :: string
  de_binding_digest :: string
  de_signature :: string

datatype queue_denial = QD_CapacityExhausted | QD_RetentionExpired | QD_Unverifiable | QD_Expired
  | QD_FenceLost | QD_Conflicted | QD_Rejected | QD_PolicyChanged

fun queue_denial_text :: "queue_denial \<Rightarrow> string" where
  "queue_denial_text QD_CapacityExhausted = ''capacity_exhausted''"
| "queue_denial_text QD_RetentionExpired = ''retention_expired''"
| "queue_denial_text QD_Unverifiable = ''unverifiable''"
| "queue_denial_text QD_Expired = ''expired''"
| "queue_denial_text QD_FenceLost = ''fence_lost''"
| "queue_denial_text QD_Conflicted = ''conflicted''"
| "queue_denial_text QD_Rejected = ''rejected''"
| "queue_denial_text QD_PolicyChanged = ''policy_changed''"

definition EVIDENCE_QUEUE_SCHEMA_VERSION :: nat where "EVIDENCE_QUEUE_SCHEMA_VERSION = 1"
definition SHA256_BINDING :: string where "SHA256_BINDING = ''sha256-binding''"
definition EVIDENCE_HMAC_DOMAIN :: string where "EVIDENCE_HMAC_DOMAIN = ''shikigami-delayed-evidence-v1''"
definition DEFAULT_MAX_ENTRIES :: nat where "DEFAULT_MAX_ENTRIES = 32"
definition DEFAULT_RETENTION_MS :: int where "DEFAULT_RETENTION_MS = 7 * 24 * 60 * 60 * 1000"

subsection \<open>Seal and verification\<close>

text \<open>Serde writes the claim id of an identity only when there is one.\<close>

definition evidence_id_json :: "evidence_id \<Rightarrow> json" where
  "evidence_id_json i = JObj
     ([(''run_id'', JStr (ei_run_id i)), (''operation_id'', JStr (ei_operation_id i)),
       (''attempt_id'', JStr (ei_attempt_id i))]
      @ (case ei_claim_id i of None \<Rightarrow> [] | Some c \<Rightarrow> [(''claim_id'', JStr c)])
      @ [(''event_id'', JStr (ei_event_id i)), (''payload_digest'', JStr (ei_payload_digest i))])"

definition evidence_binding_payload :: "delayed_envelope \<Rightarrow> json" where
  "evidence_binding_payload e = JObj
     [(''schema_version'', JNum (int (de_schema_version e))),
      (''kind'', JStr (evidence_kind_text (de_kind e))),
      (''identity'', evidence_id_json (de_identity e)),
      (''issuer'', JStr (de_issuer e)),
      (''signer_ref'', JStr (de_signer_ref e)),
      (''policy_revision'', JStr (de_policy_revision e)),
      (''lease_valid_until_ms'', JNum (de_lease_valid_until_ms e)),
      (''fencing_token'', JStr (de_fencing_token e)),
      (''generation'', JNum (int (de_generation e))),
      (''parent_event_id'', JStr (de_parent_event_id e)),
      (''redacted_attributes'', json_pairs (de_redacted_attributes e)),
      (''report_attributes'', json_pairs (de_report_attributes e))]"

definition evidence_binding_digest :: "codec \<Rightarrow> delayed_envelope \<Rightarrow> (string, queue_denial) result" where
  "evidence_binding_digest c e =
     (case cd_to_vec c (evidence_binding_payload e) of
        None \<Rightarrow> Err QD_Unverifiable
      | Some bs \<Rightarrow> Ok (digest_of c bs))"

definition evidence_test_signature :: "codec \<Rightarrow> delayed_envelope \<Rightarrow> (string, queue_denial) result" where
  "evidence_test_signature c e =
     and_then (evidence_binding_digest c e) (\<lambda>digest.
       Ok (digest_of c (hmac_text digest (de_signer_ref e) EVIDENCE_HMAC_DOMAIN)))"

definition seal_test_hmac :: "codec \<Rightarrow> delayed_envelope \<Rightarrow> (delayed_envelope, queue_denial) result" where
  "seal_test_hmac c e =
     (let e1 = e\<lparr>de_signature_algorithm := TEST_HMAC_SHA256\<rparr> in
      and_then (evidence_binding_digest c e1) (\<lambda>d.
        let e2 = e1\<lparr>de_binding_digest := d\<rparr> in
        and_then (evidence_test_signature c e2) (\<lambda>s. Ok (e2\<lparr>de_signature := s\<rparr>))))"

definition seal_sha256_binding :: "codec \<Rightarrow> delayed_envelope \<Rightarrow> (delayed_envelope, queue_denial) result" where
  "seal_sha256_binding c e =
     (let e1 = e\<lparr>de_signature_algorithm := SHA256_BINDING\<rparr> in
      and_then (evidence_binding_digest c e1) (\<lambda>d.
        let e2 = e1\<lparr>de_binding_digest := d\<rparr> in Ok (e2\<lparr>de_signature := de_binding_digest e2\<rparr>)))"

definition evidence_complete :: "delayed_envelope \<Rightarrow> bool" where
  "evidence_complete e \<longleftrightarrow>
     de_schema_version e = EVIDENCE_QUEUE_SCHEMA_VERSION
     \<and> ei_run_id (de_identity e) \<noteq> [] \<and> ei_operation_id (de_identity e) \<noteq> []
     \<and> ei_attempt_id (de_identity e) \<noteq> [] \<and> ei_event_id (de_identity e) \<noteq> []
     \<and> ei_payload_digest (de_identity e) \<noteq> [] \<and> de_issuer e \<noteq> [] \<and> de_signer_ref e \<noteq> []"

definition verify_signature :: "codec \<Rightarrow> bool \<Rightarrow> delayed_envelope \<Rightarrow> (unit, queue_denial) result" where
  "verify_signature c allow_test e =
     (if \<not> evidence_complete e \<or> de_binding_digest e = [] \<or> de_signature e = []
      then Err QD_Unverifiable
      else and_then (evidence_binding_digest c e) (\<lambda>d.
        if d \<noteq> de_binding_digest e then Err QD_Unverifiable
        else if de_signature_algorithm e = SHA256_BINDING \<and> de_signature e = de_binding_digest e
        then Ok ()
        else if de_signature_algorithm e = TEST_HMAC_SHA256 \<and> allow_test
        then and_then (evidence_test_signature c e) (\<lambda>s.
          if de_signature e = s then Ok () else Err QD_Unverifiable)
        else Err QD_Unverifiable))"

subsection \<open>The store\<close>

record queue_entry =
  qe_envelope :: delayed_envelope
  qe_state :: evidence_state
  qe_queued_at_ms :: int
  qe_attempts :: nat
  qe_failure_class :: string
  qe_reconnect_grant :: "fallback_checkpoint option"

record evidence_store =
  st_schema_version :: nat
  st_entries :: "queue_entry list"

definition default_store :: evidence_store where
  "default_store = \<lparr>st_schema_version = EVIDENCE_QUEUE_SCHEMA_VERSION, st_entries = []\<rparr>"

record queue_limits =
  ql_max_entries :: nat
  ql_retention_ms :: int
  ql_allow_test_signatures :: bool

definition default_limits :: queue_limits where
  "default_limits = \<lparr>ql_max_entries = DEFAULT_MAX_ENTRIES, ql_retention_ms = DEFAULT_RETENTION_MS,
     ql_allow_test_signatures = False\<rparr>"

record queue_snapshot =
  qs_depth :: nat
  qs_oldest_age_ms :: int
  qs_failure_class :: string
  qs_unresolved :: nat

definition entry_key :: "queue_entry \<Rightarrow> string" where
  "entry_key q = ei_key (de_identity (qe_envelope q))"

definition unresolved_entries :: "evidence_store \<Rightarrow> queue_entry list" where
  "unresolved_entries st = filter (\<lambda>q. es_unresolved (qe_state q)) (st_entries st)"

definition entry_age :: "int \<Rightarrow> queue_entry \<Rightarrow> int" where
  "entry_age now_ms q = i64_saturating_sub now_ms (qe_queued_at_ms q)"

definition snapshot :: "evidence_store \<Rightarrow> int \<Rightarrow> queue_snapshot" where
  "snapshot st now_ms =
     (let us = unresolved_entries st in
      \<lparr>qs_depth = length us,
       qs_oldest_age_ms = (case map (\<lambda>q. max (entry_age now_ms q) 0) us of
          [] \<Rightarrow> 0 | a # as \<Rightarrow> fold max as a),
       qs_failure_class = (case find (\<lambda>q. qe_failure_class q \<noteq> []) us of
          None \<Rightarrow> [] | Some q \<Rightarrow> qe_failure_class q),
       qs_unresolved = length us\<rparr>)"

definition live_fence_ok :: "delayed_envelope \<Rightarrow> string \<Rightarrow> nat \<Rightarrow> bool" where
  "live_fence_ok e token generation \<longleftrightarrow>
     token \<noteq> [] \<and> generation > 0 \<and> de_fencing_token e = token \<and> de_generation e = generation"

subsection \<open>Enqueueing\<close>

definition sweep_entry :: "int \<Rightarrow> queue_limits \<Rightarrow> queue_entry \<Rightarrow> queue_entry" where
  "sweep_entry now_ms lim q =
     (if entry_age now_ms q > ql_retention_ms lim \<and> qe_state q \<noteq> ES_Accepted
      then q\<lparr>qe_state := ES_Expired, qe_failure_class := queue_denial_text QD_RetentionExpired\<rparr>
      else q)"

fun es_again :: "evidence_state \<Rightarrow> evidence_state" where
  "es_again ES_Accepted = ES_Accepted"
| "es_again ES_Rejected = ES_Rejected"
| "es_again ES_Conflicted = ES_Conflicted"
| "es_again ES_Expired = ES_Expired"
| "es_again ES_Pending = ES_Retryable"
| "es_again ES_Retryable = ES_Retryable"

definition new_entry :: "delayed_envelope \<Rightarrow> int \<Rightarrow> queue_entry" where
  "new_entry e now_ms = \<lparr>qe_envelope = e, qe_state = ES_Pending, qe_queued_at_ms = now_ms,
     qe_attempts = 0, qe_failure_class = [], qe_reconnect_grant = None\<rparr>"

text \<open>The outcome is the store, which the source changes in place even when it returns an
  error, and the result.\<close>

definition enqueue :: "codec \<Rightarrow> evidence_store \<Rightarrow> delayed_envelope \<Rightarrow> int \<Rightarrow> queue_limits \<Rightarrow> string \<Rightarrow> nat
    \<Rightarrow> evidence_store \<times> (unit, queue_denial) result" where
  "enqueue c st e now_ms lim live_token live_generation =
     (case verify_signature c (ql_allow_test_signatures lim) e of
        Inl d \<Rightarrow> (st, Err d)
      | Inr _ \<Rightarrow>
        if now_ms \<ge> de_lease_valid_until_ms e then (st, Err QD_Expired)
        else if \<not> live_fence_ok e live_token live_generation then (st, Err QD_FenceLost)
        else
          let swept = map (sweep_entry now_ms lim) (st_entries st);
              same = (\<lambda>q. entry_key q = ei_key (de_identity e))
          in case find same swept of
               Some q \<Rightarrow>
                 if ei_payload_digest (de_identity (qe_envelope q)) \<noteq> ei_payload_digest (de_identity e)
                 then (st\<lparr>st_entries := update_first same
                         (\<lambda>q. q\<lparr>qe_state := ES_Conflicted,
                              qe_failure_class := queue_denial_text QD_Conflicted\<rparr>) swept\<rparr>,
                       Err QD_Conflicted)
                 else (st\<lparr>st_entries := update_first same (\<lambda>q. q\<lparr>qe_state := es_again (qe_state q)\<rparr>) swept\<rparr>,
                       Ok ())
             | None \<Rightarrow>
                 let st' = st\<lparr>st_entries := swept\<rparr> in
                 if length (unresolved_entries st') \<ge> ql_max_entries lim
                 then (st', Err QD_CapacityExhausted)
                 else (st'\<lparr>st_entries := swept @ [new_entry e now_ms]\<rparr>, Ok ()))"

subsection \<open>Submission\<close>

datatype authority_disposition = AD_Accept | AD_Reject | AD_Conflict | AD_Expire | AD_Unavailable

definition resolve_as :: "evidence_state \<Rightarrow> queue_denial \<Rightarrow> queue_entry \<Rightarrow> queue_entry" where
  "resolve_as s d q = q\<lparr>qe_state := s, qe_failure_class := queue_denial_text d\<rparr>"

definition apply_local_gate :: "codec \<Rightarrow> queue_entry \<Rightarrow> int \<Rightarrow> queue_limits \<Rightarrow> string \<Rightarrow> nat \<Rightarrow> string \<Rightarrow> bool
    \<Rightarrow> queue_entry \<times> evidence_state option" where
  "apply_local_gate c q now_ms lim live_token live_generation policy check_live_fence =
     (let e = qe_envelope q; resolved = (\<lambda>q. (q, Some (qe_state q))) in
      if entry_age now_ms q > ql_retention_ms lim
      then resolved (resolve_as ES_Expired QD_RetentionExpired q)
      else if \<not> is_ok (verify_signature c (ql_allow_test_signatures lim) e)
      then resolved (resolve_as ES_Rejected QD_Unverifiable q)
      else if now_ms \<ge> de_lease_valid_until_ms e
        \<or> (check_live_fence \<and> \<not> live_fence_ok e live_token live_generation)
      then resolved (resolve_as ES_Expired
             (if now_ms \<ge> de_lease_valid_until_ms e then QD_Expired else QD_FenceLost) q)
      else if policy \<noteq> de_policy_revision e
      then resolved (resolve_as ES_Rejected QD_PolicyChanged q)
      else (q, None))"

fun disposition_state :: "authority_disposition \<Rightarrow> evidence_state" where
  "disposition_state AD_Accept = ES_Accepted"
| "disposition_state AD_Reject = ES_Rejected"
| "disposition_state AD_Conflict = ES_Conflicted"
| "disposition_state AD_Expire = ES_Expired"
| "disposition_state AD_Unavailable = ES_Retryable"

fun state_failure_class :: "evidence_state \<Rightarrow> string" where
  "state_failure_class ES_Rejected = queue_denial_text QD_Rejected"
| "state_failure_class ES_Conflicted = queue_denial_text QD_Conflicted"
| "state_failure_class ES_Expired = queue_denial_text QD_Expired"
| "state_failure_class _ = []"

definition submit_with_live_check :: "codec \<Rightarrow> queue_entry \<Rightarrow> int \<Rightarrow> queue_limits \<Rightarrow> string \<Rightarrow> nat \<Rightarrow> string
    \<Rightarrow> authority_disposition \<Rightarrow> bool \<Rightarrow> queue_entry \<times> evidence_state" where
  "submit_with_live_check c q now_ms lim live_token live_generation policy disposition check_live_fence =
     (case apply_local_gate c q now_ms lim live_token live_generation policy check_live_fence of
        (q', Some s) \<Rightarrow> (q', s)
      | (q', None) \<Rightarrow>
        let s = disposition_state disposition;
            q'' = q'\<lparr>qe_attempts := u32_saturating_add (qe_attempts q') 1, qe_state := s,
                     qe_failure_class := state_failure_class s\<rparr>
        in (q'', s))"

definition submit :: "codec \<Rightarrow> queue_entry \<Rightarrow> int \<Rightarrow> queue_limits \<Rightarrow> string \<Rightarrow> nat \<Rightarrow> string
    \<Rightarrow> authority_disposition \<Rightarrow> queue_entry \<times> evidence_state" where
  "submit c q now_ms lim live_token live_generation policy disposition =
     submit_with_live_check c q now_ms lim live_token live_generation policy disposition True"

subsection \<open>Persistence\<close>

text \<open>
  The file holds bytes or is absent; reading it may fail. The serde encoding of a store and
  its decoding are parameters, as is the failure of the file system; \<open>replace_file\<close> renames
  the temporary file over the target.
\<close>

datatype io_error = IO_Error string

datatype evidence_io_error = EIO_Read | EIO_Parse | EIO_Schema nat | EIO_Mkdir | EIO_Encode | EIO_Write
  | EIO_Replace

definition evidence_load :: "(string \<Rightarrow> evidence_store option) \<Rightarrow> (io_error + string) option \<Rightarrow>
    (evidence_store, evidence_io_error) result" where
  "evidence_load from_slice file =
     (case file of
        None \<Rightarrow> Ok default_store
      | Some (Inl _) \<Rightarrow> Err EIO_Read
      | Some (Inr raw) \<Rightarrow>
        (case from_slice raw of
           None \<Rightarrow> Err EIO_Parse
         | Some st \<Rightarrow>
           if st_schema_version st \<noteq> EVIDENCE_QUEUE_SCHEMA_VERSION
           then Err (EIO_Schema (st_schema_version st)) else Ok st))"

record disk_ops =
  do_mkdir_ok :: bool
  do_write_ok :: bool
  do_replace_ok :: bool

definition evidence_save :: "(evidence_store \<Rightarrow> string option) \<Rightarrow> disk_ops \<Rightarrow> (io_error + string) option \<Rightarrow>
    evidence_store \<Rightarrow> (io_error + string) option \<times> (unit, evidence_io_error) result" where
  "evidence_save to_vec_pretty disk file st =
     (if \<not> do_mkdir_ok disk then (file, Err EIO_Mkdir)
      else case to_vec_pretty st of
        None \<Rightarrow> (file, Err EIO_Encode)
      | Some raw \<Rightarrow>
        if \<not> do_write_ok disk then (file, Err EIO_Write)
        else if \<not> do_replace_ok disk then (file, Err EIO_Replace)
        else (Some (Inr raw), Ok ()))"

subsection \<open>Facts about envelopes\<close>

lemma evidence_payload_frame [simp]:
  "evidence_binding_payload (e\<lparr>de_signature_algorithm := x\<rparr>) = evidence_binding_payload e"
  "evidence_binding_payload (e\<lparr>de_binding_digest := y\<rparr>) = evidence_binding_payload e"
  "evidence_binding_payload (e\<lparr>de_signature := z\<rparr>) = evidence_binding_payload e"
  by (simp_all add: evidence_binding_payload_def)

lemma evidence_digest_frame [simp]:
  "evidence_binding_digest c (e\<lparr>de_signature_algorithm := x\<rparr>) = evidence_binding_digest c e"
  "evidence_binding_digest c (e\<lparr>de_binding_digest := y\<rparr>) = evidence_binding_digest c e"
  "evidence_binding_digest c (e\<lparr>de_signature := z\<rparr>) = evidence_binding_digest c e"
  by (simp_all add: evidence_binding_digest_def)

lemma evidence_signature_frame [simp]:
  "evidence_test_signature c (e\<lparr>de_signature_algorithm := x\<rparr>) = evidence_test_signature c e"
  "evidence_test_signature c (e\<lparr>de_binding_digest := y\<rparr>) = evidence_test_signature c e"
  "evidence_test_signature c (e\<lparr>de_signature := z\<rparr>) = evidence_test_signature c e"
  by (simp_all add: evidence_test_signature_def)

lemma evidence_complete_frame [simp]:
  "evidence_complete (e\<lparr>de_signature_algorithm := x\<rparr>) = evidence_complete e"
  "evidence_complete (e\<lparr>de_binding_digest := y\<rparr>) = evidence_complete e"
  "evidence_complete (e\<lparr>de_signature := z\<rparr>) = evidence_complete e"
  by (simp_all add: evidence_complete_def)

lemma evidence_digest_nonempty: "evidence_binding_digest c e = Ok d \<Longrightarrow> d \<noteq> []"
  by (auto simp: evidence_binding_digest_def split: option.splits)

lemma evidence_signature_nonempty: "evidence_test_signature c e = Ok s \<Longrightarrow> s \<noteq> []"
  by (auto simp: evidence_test_signature_def and_then_eq_Ok)

lemma verify_signature_iff:
  "verify_signature c allow e = Ok u \<longleftrightarrow>
     evidence_complete e \<and> evidence_binding_digest c e = Ok (de_binding_digest e)
     \<and> ((de_signature_algorithm e = SHA256_BINDING \<and> de_signature e = de_binding_digest e)
       \<or> (de_signature_algorithm e = TEST_HMAC_SHA256 \<and> allow
          \<and> evidence_test_signature c e = Ok (de_signature e)))" (is "_ \<longleftrightarrow> ?R")
proof
  assume "verify_signature c allow e = Ok u"
  then show ?R by (auto simp: verify_signature_def and_then_eq_Ok split: if_splits)
next
  assume r: ?R
  then have "de_binding_digest e \<noteq> []" by (auto dest: evidence_digest_nonempty)
  moreover from r this have "de_signature e \<noteq> []" by (auto dest: evidence_signature_nonempty)
  ultimately show "verify_signature c allow e = Ok u" using r
    by (auto simp: verify_signature_def SHA256_BINDING_def TEST_HMAC_SHA256_def)
qed

lemma seal_sha256_Ok:
  "seal_sha256_binding c e = Ok e' \<longleftrightarrow>
     (\<exists>d. evidence_binding_digest c e = Ok d
       \<and> e' = e\<lparr>de_signature_algorithm := SHA256_BINDING, de_binding_digest := d, de_signature := d\<rparr>)"
  by (auto simp: seal_sha256_binding_def and_then_eq_Ok Let_def)

lemma seal_test_Ok:
  "seal_test_hmac c e = Ok e' \<longleftrightarrow>
     (\<exists>d s. evidence_binding_digest c e = Ok d \<and> evidence_test_signature c e = Ok s
       \<and> e' = e\<lparr>de_signature_algorithm := TEST_HMAC_SHA256, de_binding_digest := d, de_signature := s\<rparr>)"
  by (auto simp: seal_test_hmac_def and_then_eq_Ok Let_def)

interpretation envelope: sealed "\<lambda>e. result_opt (evidence_binding_digest c e)" de_binding_digest
  "\<lambda>e. is_ok (verify_signature c allow e)" "\<lambda>e. result_opt (seal_sha256_binding c e)" evidence_complete
  for c allow
  by unfold_locales (auto simp: is_ok_iff verify_signature_iff result_opt_Some seal_sha256_Ok)

interpretation es: reconciliation es_is_terminal ES_Accepted ES_Retryable es_again
proof unfold_locales
  fix s
  show "es_is_terminal s \<Longrightarrow> es_again s = s" by (cases s) (simp_all add: es_is_terminal_def)
  show "\<not> es_is_terminal s \<Longrightarrow> es_again s = ES_Retryable" by (cases s) (simp_all add: es_is_terminal_def)
qed (simp_all add: es_is_terminal_def)

subsection \<open>Facts about the store\<close>

lemma entry_key_frame [simp]:
  "entry_key (q\<lparr>qe_state := s\<rparr>) = entry_key q"
  "entry_key (q\<lparr>qe_failure_class := f\<rparr>) = entry_key q"
  "entry_key (q\<lparr>qe_attempts := n\<rparr>) = entry_key q"
  by (simp_all add: entry_key_def)

lemma sweep_entry_key [simp]: "entry_key (sweep_entry now lim q) = entry_key q"
  by (simp add: sweep_entry_def)

lemma sweep_entry_accepted [simp]: "qe_state (sweep_entry now lim q) = ES_Accepted \<longleftrightarrow> qe_state q = ES_Accepted"
  by (simp add: sweep_entry_def)

lemma entry_key_sweep_comp [simp]: "entry_key \<circ> sweep_entry now lim = entry_key"
  by (simp add: fun_eq_iff)

lemma entry_key_new [simp]: "entry_key (new_entry e now) = ei_key (de_identity e)"
  by (simp add: entry_key_def new_entry_def)

lemma enqueue_cases [consumes 1, case_names unchanged conflict again full new]:
  assumes "enqueue c st e now lim tok gen = (st', r)"
  obtains (unchanged) d where "st' = st" "r = Err d" "d \<noteq> QD_Conflicted"
  | (conflict) "r = Err QD_Conflicted"
      "st' = st\<lparr>st_entries := update_first (\<lambda>q. entry_key q = ei_key (de_identity e))
         (\<lambda>q. q\<lparr>qe_state := ES_Conflicted, qe_failure_class := queue_denial_text QD_Conflicted\<rparr>)
         (map (sweep_entry now lim) (st_entries st))\<rparr>"
  | (again) "r = Ok ()"
      "st' = st\<lparr>st_entries := update_first (\<lambda>q. entry_key q = ei_key (de_identity e))
         (\<lambda>q. q\<lparr>qe_state := es_again (qe_state q)\<rparr>) (map (sweep_entry now lim) (st_entries st))\<rparr>"
  | (full) "r = Err QD_CapacityExhausted" "st' = st\<lparr>st_entries := map (sweep_entry now lim) (st_entries st)\<rparr>"
  | (new) "r = Ok ()" "verify_signature c (ql_allow_test_signatures lim) e = Ok ()"
      "now < de_lease_valid_until_ms e" "live_fence_ok e tok gen"
      "ei_key (de_identity e) \<notin> entry_key ` set (st_entries st)"
      "length (unresolved_entries (st\<lparr>st_entries := map (sweep_entry now lim) (st_entries st)\<rparr>)) < ql_max_entries lim"
      "st' = st\<lparr>st_entries := map (sweep_entry now lim) (st_entries st) @ [new_entry e now]\<rparr>"
proof (cases "verify_signature c (ql_allow_test_signatures lim) e")
  case (Inl d)
  then have "d \<noteq> QD_Conflicted"
    by (auto simp: verify_signature_def and_then_def evidence_binding_digest_def evidence_test_signature_def
        split: if_splits sum.splits option.splits)
  moreover from Inl assms have "st' = st" "r = Err d" by (simp_all add: enqueue_def)
  ultimately show ?thesis using unchanged by blast
next
  case (Inr u)
  show ?thesis
  proof (cases "now < de_lease_valid_until_ms e \<and> live_fence_ok e tok gen")
    case False
    with Inr assms unchanged show ?thesis by (auto simp: enqueue_def split: if_splits)
  next
    case True
    show ?thesis
    proof (cases "find (\<lambda>q. entry_key q = ei_key (de_identity e)) (map (sweep_entry now lim) (st_entries st))")
      case None
      then have "ei_key (de_identity e) \<notin> entry_key ` set (st_entries st)"
        by (auto simp: find_None_all)
      with None True Inr assms full new show ?thesis
        by (auto simp: enqueue_def Let_def split: if_splits)
    next
      case (Some q)
      with True Inr assms conflict again show ?thesis
        by (auto simp: enqueue_def Let_def split: if_splits)
    qed
  qed
qed

lemma enqueue_distinct_keys:
  assumes "enqueue c st e now lim tok gen = (st', r)" and "distinct (map entry_key (st_entries st))"
  shows "distinct (map entry_key (st_entries st'))"
  using assms
proof (cases rule: enqueue_cases)
  case new
  then show ?thesis using assms(2) by (force simp: image_iff)
qed (simp_all add: map_update_first)

lemma enqueue_accepted:
  assumes "enqueue c st e now lim tok gen = (st', r)" and "q' \<in> set (st_entries st')"
    and "qe_state q' = ES_Accepted"
  shows "\<exists>q\<in>set (st_entries st). qe_state q = ES_Accepted \<and> entry_key q = entry_key q'"
  using assms(1)
proof (cases rule: enqueue_cases)
  case unchanged
  then show ?thesis using assms(2,3) by auto
next
  case conflict
  then show ?thesis using assms(2,3) by (force dest!: set_update_first)
next
  case again
  then show ?thesis using assms(2,3) by (force dest!: set_update_first simp: es.again_never_mints)
next
  case full
  then show ?thesis using assms(2,3) by force
next
  case new
  then show ?thesis using assms(2,3) by (force simp: new_entry_def)
qed

lemma es_unresolved_again [simp]: "es_unresolved (es_again s) = es_unresolved s"
  by (simp add: es_unresolved_def es.again_never_mints)

lemma sweep_unresolved_comp [simp]:
  "(\<lambda>q. es_unresolved (qe_state q)) \<circ> sweep_entry now lim = (\<lambda>q. es_unresolved (qe_state q))"
  by (simp add: fun_eq_iff es_unresolved_def)

lemma sweep_unresolved:
  "length (filter (\<lambda>q. es_unresolved (qe_state q)) (map (sweep_entry now lim) qs))
   = length (filter (\<lambda>q. es_unresolved (qe_state q)) qs)"
  by (induction qs) (auto simp: es_unresolved_def)

lemma update_first_le_Suc:
  "length (filter p (update_first r f xs)) \<le> Suc (length (filter p xs))"
  by (induction xs) auto

lemma submit_accepted_iff:
  "snd (submit_with_live_check c q now lim tok gen policy disp check) = ES_Accepted \<longleftrightarrow>
     disp = AD_Accept \<and> entry_age now q \<le> ql_retention_ms lim
     \<and> verify_signature c (ql_allow_test_signatures lim) (qe_envelope q) = Ok ()
     \<and> now < de_lease_valid_until_ms (qe_envelope q)
     \<and> (\<not> check \<or> live_fence_ok (qe_envelope q) tok gen)
     \<and> policy = de_policy_revision (qe_envelope q)"
  by (cases disp) (auto simp: submit_with_live_check_def apply_local_gate_def resolve_as_def is_ok_iff Let_def)

lemma submit_state:
  "submit_with_live_check c q now lim tok gen policy disp check = (q', s) \<Longrightarrow>
     qe_state q' = s \<and> entry_key q' = entry_key q"
  by (auto simp: submit_with_live_check_def apply_local_gate_def resolve_as_def Let_def split: if_splits)

subsection \<open>Runs of the queue\<close>

text \<open>
  A run interleaves enqueues and submissions at any times and under any live fence, starting
  from the empty store. The last argument collects the keys for which the authority answered
  accept.
\<close>

inductive queue_run :: "codec \<Rightarrow> queue_limits \<Rightarrow> evidence_store \<Rightarrow> string set \<Rightarrow> bool" for c lim where
  start: "queue_run c lim default_store {}"
| enqueued: "queue_run c lim st acc \<Longrightarrow> enqueue c st e now lim tok gen = (st', r) \<Longrightarrow> queue_run c lim st' acc"
| submitted: "queue_run c lim st acc \<Longrightarrow> i < length (st_entries st) \<Longrightarrow>
    submit_with_live_check c (st_entries st ! i) now lim tok gen policy disp check = (q', s) \<Longrightarrow>
    queue_run c lim (st\<lparr>st_entries := (st_entries st)[i := q']\<rparr>)
      (if disp = AD_Accept then insert (entry_key (st_entries st ! i)) acc else acc)"

lemma queue_run_inv:
  assumes "queue_run c lim st acc"
  shows "distinct (map entry_key (st_entries st)) \<and>
    (\<forall>q\<in>set (st_entries st). qe_state q = ES_Accepted \<longrightarrow> entry_key q \<in> acc)"
  using assms
proof (induction rule: queue_run.induct)
  case start
  show ?case by (simp add: default_store_def)
next
  case (enqueued st acc e now tok gen st' r)
  then show ?case
    by (metis enqueue_accepted enqueue_distinct_keys)
next
  case (submitted st acc i now tok gen policy disp check q' s)
  let ?q = "st_entries st ! i"
  from submitted.hyps(3) have q': "qe_state q' = s" "entry_key q' = entry_key ?q"
    by (auto dest: submit_state)
  from q'(2) submitted.hyps(2)
  have keys: "map entry_key ((st_entries st)[i := q']) = map entry_key (st_entries st)"
    by (simp add: map_update list_update_same_conv)
  have acc: "qe_state q' = ES_Accepted \<Longrightarrow> disp = AD_Accept"
    using submit_accepted_iff [of c ?q now lim tok gen policy disp check] submitted.hyps(3) q' by simp
  show ?case
    using submitted.IH acc q' keys
    by (auto dest!: set_update_subset_insert [THEN subsetD])
qed

subsection \<open>Properties\<close>

definition demo_envelope :: delayed_envelope where
  "demo_envelope = \<lparr>de_schema_version = 1, de_kind = EK_Tool,
     de_identity = \<lparr>ei_run_id = ''r'', ei_operation_id = ''o'', ei_attempt_id = ''a'',
       ei_claim_id = None, ei_event_id = ''ev'', ei_payload_digest = ''pd''\<rparr>,
     de_issuer = ''i'', de_signer_ref = ''s'', de_policy_revision = ''p'',
     de_lease_valid_until_ms = 100, de_fencing_token = ''t'', de_generation = 1,
     de_parent_event_id = [], de_redacted_attributes = [], de_report_attributes = [],
     de_signature_algorithm = SHA256_BINDING, de_binding_digest = digest_of demo_codec ''j'',
     de_signature = digest_of demo_codec ''j''\<rparr>"

lemma demo_envelope_verify: "verify_signature demo_codec allow demo_envelope = Ok ()"
  by (simp add: verify_signature_iff evidence_complete_def demo_envelope_def EVIDENCE_QUEUE_SCHEMA_VERSION_def
      evidence_binding_digest_def demo_codec_def json_get_def evidence_binding_payload_def)

lemma demo_enqueue:
  "enqueue demo_codec default_store demo_envelope 5 default_limits ''t'' 1
   = (default_store\<lparr>st_entries := [new_entry demo_envelope 5]\<rparr>, Ok ())"
proof -
  have "de_lease_valid_until_ms demo_envelope = 100" "live_fence_ok demo_envelope ''t'' 1"
    by (simp_all add: demo_envelope_def live_fence_ok_def)
  then show ?thesis
    by (simp add: enqueue_def demo_envelope_verify default_store_def unresolved_entries_def
        default_limits_def DEFAULT_MAX_ENTRIES_def)
qed

lemma demo_submit:
  "submit_with_live_check demo_codec (new_entry demo_envelope 5) 6 default_limits ''t'' 1 ''p'' AD_Accept True
   = ((new_entry demo_envelope 5)\<lparr>qe_attempts := 1, qe_state := ES_Accepted, qe_failure_class := []\<rparr>, ES_Accepted)"
proof -
  have "entry_age 6 (new_entry demo_envelope 5) = 1"
    by (simp add: entry_age_def new_entry_def i64_saturating_sub_def i64_min_def i64_max_def)
  moreover have "live_fence_ok demo_envelope ''t'' 1"
    "de_lease_valid_until_ms demo_envelope = 100" "de_policy_revision demo_envelope = ''p''"
    by (simp_all add: demo_envelope_def live_fence_ok_def)
  ultimately show ?thesis
    by (simp add: submit_with_live_check_def apply_local_gate_def new_entry_def demo_envelope_verify
        default_limits_def DEFAULT_RETENTION_MS_def u32_saturating_add_def u32_max_def)
qed

text \<open>
  \<^bold>\<open>C22\<close>: acceptance is only ever the authority's. In every store reachable by interleaving
  enqueues and submissions, at any times and under any fences, the identity keys of the entries
  are distinct and every entry recorded as accepted has a key for which the authority answered
  accept: no enqueue, duplicate, retention sweep or local gate ever marks evidence accepted.
\<close>

theorem queue_run_accepted:
  assumes "queue_run c lim st acc"
  shows "distinct (map entry_key (st_entries st)) \<and>
    entry_key ` {q \<in> set (st_entries st). qe_state q = ES_Accepted} \<subseteq> acc"
  using queue_run_inv [OF assms] by blast

theorem queue_run_accepted_witness:
  "\<exists>st acc. queue_run demo_codec default_limits st acc \<and> ES_Accepted \<in> qe_state ` set (st_entries st)
     \<and> entry_key ` {q \<in> set (st_entries st). qe_state q = ES_Accepted} \<subseteq> acc"
proof -
  let ?st = "default_store\<lparr>st_entries := [new_entry demo_envelope 5]\<rparr>"
  have "queue_run demo_codec default_limits ?st {}"
    by (rule queue_run.enqueued [OF queue_run.start demo_enqueue])
  from queue_run.submitted [OF this, of 0 6 "''t''" 1 "''p''" AD_Accept True] demo_submit
  obtain st acc where run: "queue_run demo_codec default_limits st acc"
    and "ES_Accepted \<in> qe_state ` set (st_entries st)"
    by fastforce
  with queue_run_accepted [OF run] show ?thesis by blast
qed

text \<open>
  A submission resolves an entry to accepted if and only if the authority answered
  accept and every local check passed: the entry is within retention, its envelope verifies, its
  lease has not ended, the live fence is the envelope's (when it is checked at all) and the
  policy revision has not changed.
\<close>

theorem submit_accept_exact:
  "snd (submit_with_live_check c q now lim tok gen policy disp check) = ES_Accepted \<longleftrightarrow>
     disp = AD_Accept \<and> entry_age now q \<le> ql_retention_ms lim
     \<and> is_ok (verify_signature c (ql_allow_test_signatures lim) (qe_envelope q))
     \<and> now < de_lease_valid_until_ms (qe_envelope q)
     \<and> (check = False \<or> live_fence_ok (qe_envelope q) tok gen)
     \<and> policy = de_policy_revision (qe_envelope q)"
  using submit_accepted_iff [of c q now lim tok gen policy disp check] by (auto simp: is_ok_iff)

text \<open>
  The queue is bounded. An enqueue adds at most one unresolved entry; unless it
  reports a conflict it leaves no more unresolved entries than there were or than the limit
  allows, and it appends an entry only below the limit.
\<close>

theorem enqueue_capacity:
  assumes "enqueue c st e now lim tok gen = (st', r)"
  shows "length (unresolved_entries st') \<le>
    (if r = Err QD_Conflicted then Suc (length (unresolved_entries st))
     else max (length (unresolved_entries st)) (ql_max_entries lim))"
  using assms
proof (cases rule: enqueue_cases)
  case unchanged
  then show ?thesis by simp
next
  case conflict
  then show ?thesis
    using update_first_le_Suc
      [of "\<lambda>q. es_unresolved (qe_state q)" _ _ "map (sweep_entry now lim) (st_entries st)"]
    by (simp add: unresolved_entries_def sweep_unresolved)
next
  case again
  have "length (unresolved_entries st') \<le> length (unresolved_entries st)"
    unfolding again unresolved_entries_def
    using filter_update_first_le [of _ "\<lambda>q. es_unresolved (qe_state q)"
        "\<lambda>q. q\<lparr>qe_state := es_again (qe_state q)\<rparr>" "map (sweep_entry now lim) (st_entries st)"]
    by simp
  with again show ?thesis by simp
next
  case full
  then show ?thesis by (simp add: unresolved_entries_def sweep_unresolved)
next
  case new
  then show ?thesis by (simp add: unresolved_entries_def sweep_unresolved new_entry_def)
qed

theorem enqueue_capacity_witness:
  "length (unresolved_entries (default_store\<lparr>st_entries := [new_entry demo_envelope 5]\<rparr>))
   \<le> max (length (unresolved_entries default_store)) (ql_max_entries default_limits)"
  using enqueue_capacity [OF demo_enqueue] by simp

text \<open>
  Sealing. A complete envelope sealed with the SHA-256 binding verifies under every
  policy on test signatures and keeps everything it binds; one sealed with the test MAC verifies
  exactly where test signatures are allowed, so a production queue refuses it.
\<close>

theorem evidence_seal_verifies:
  assumes "evidence_complete e" and "seal_sha256_binding c e = Ok s" and "seal_test_hmac c e = Ok t"
  shows "is_ok (verify_signature c allow s) \<and> (is_ok (verify_signature c allow t) \<longleftrightarrow> allow)
    \<and> evidence_binding_payload s = evidence_binding_payload e
    \<and> evidence_binding_payload t = evidence_binding_payload e"
proof -
  have "is_ok (verify_signature c allow s)"
    using envelope.seal_verify [where c = c and allow = allow, OF assms(1)] assms(2) by simp
  moreover have "is_ok (verify_signature c allow t) \<longleftrightarrow> allow"
    using assms by (auto simp: is_ok_iff verify_signature_iff seal_test_Ok TEST_HMAC_SHA256_def
        SHA256_BINDING_def)
  moreover have "evidence_binding_payload s = evidence_binding_payload e"
    "evidence_binding_payload t = evidence_binding_payload e"
    using assms by (auto simp: seal_test_Ok seal_sha256_Ok)
  ultimately show ?thesis by blast
qed

lemma demo_seal:
  "\<exists>s t. seal_sha256_binding demo_codec demo_envelope = Ok s \<and> seal_test_hmac demo_codec demo_envelope = Ok t"
  by (simp add: seal_sha256_Ok seal_test_Ok evidence_test_signature_def evidence_binding_digest_def demo_codec_def)

theorem evidence_seal_verifies_witness:
  "\<exists>t. seal_test_hmac demo_codec demo_envelope = Ok t \<and> \<not> is_ok (verify_signature demo_codec False t)"
proof -
  have "evidence_complete demo_envelope"
    by (simp add: evidence_complete_def demo_envelope_def EVIDENCE_QUEUE_SCHEMA_VERSION_def)
  moreover obtain s t where "seal_sha256_binding demo_codec demo_envelope = Ok s"
    and t: "seal_test_hmac demo_codec demo_envelope = Ok t" using demo_seal by blast
  ultimately show ?thesis using evidence_seal_verifies [of demo_envelope demo_codec s t False] by blast
qed

subsection \<open>Further facts\<close>

text \<open>Keys separate identities whose first four parts hold no colon.\<close>

lemma append_colon_eq:
  "CHR '':'' \<notin> set a \<Longrightarrow> CHR '':'' \<notin> set b \<Longrightarrow> a @ CHR '':'' # x = b @ CHR '':'' # y \<longleftrightarrow> a = b \<and> x = y"
proof (induction a arbitrary: b)
  case Nil
  then show ?case by (cases b) auto
next
  case (Cons c a)
  then show ?case by (cases b) auto
qed

lemma ei_key_inject:
  assumes "\<forall>s\<in>{ei_run_id i, ei_operation_id i, ei_attempt_id i, ei_run_id j, ei_operation_id j, ei_attempt_id j}.
      CHR '':'' \<notin> set s"
    and "CHR '':'' \<notin> set (case ei_claim_id i of None \<Rightarrow> [] | Some c \<Rightarrow> c)"
    and "CHR '':'' \<notin> set (case ei_claim_id j of None \<Rightarrow> [] | Some c \<Rightarrow> c)"
    and "ei_key i = ei_key j"
  shows "ei_run_id i = ei_run_id j \<and> ei_operation_id i = ei_operation_id j
    \<and> ei_attempt_id i = ei_attempt_id j \<and> ei_event_id i = ei_event_id j"
  using assms by (simp add: ei_key_def append_colon_eq)

lemma evidence_load_save:
  assumes "do_mkdir_ok d" "do_write_ok d" "do_replace_ok d" "to_vec_pretty st = Some raw"
    and "from_slice raw = Some st" "st_schema_version st = EVIDENCE_QUEUE_SCHEMA_VERSION"
  shows "evidence_load from_slice (fst (evidence_save to_vec_pretty d file st)) = Ok st"
  using assms by (simp add: evidence_load_def evidence_save_def)

lemma evidence_save_failure:
  assumes "snd (evidence_save to_vec_pretty d file st) = Err e"
  shows "fst (evidence_save to_vec_pretty d file st) = file"
  using assms by (auto simp: evidence_save_def split: if_splits option.splits)

end
