(* ===== verification/Checkpoint.thy ===== *)
theory Checkpoint
  imports Fallback
begin

section \<open>Checkpoints (crates/shikigami-engine/src/checkpoint.rs)\<close>

text \<open>
  The durable local state of a run: why it is parked, the governance scratch that survives a
  resume, the checkpoint document, the identifier rule that keeps run ids out of the path
  syntax, and loading and saving. The file system is a map from paths to bytes; the JSON
  encoder and decoder are parameters.
\<close>

datatype park_kind = PK_Escalate | PK_Approval | PK_Ask | PK_PromptWait | PK_Plan

fun park_kind_text :: "park_kind \<Rightarrow> string" where
  "park_kind_text PK_Escalate = ''escalate''"
| "park_kind_text PK_Approval = ''approval''"
| "park_kind_text PK_Ask = ''ask''"
| "park_kind_text PK_PromptWait = ''prompt_wait''"
| "park_kind_text PK_Plan = ''plan''"

datatype run_termination = RT_Completed | RT_Cancelled | RT_TimedOut | RT_MaxTurns | RT_Failed | RT_Parked

fun termination_text :: "run_termination \<Rightarrow> string" where
  "termination_text RT_Completed = ''completed''"
| "termination_text RT_Cancelled = ''cancelled''"
| "termination_text RT_TimedOut = ''timed_out''"
| "termination_text RT_MaxTurns = ''max_turns''"
| "termination_text RT_Failed = ''failed''"
| "termination_text RT_Parked = ''parked''"

record child_run_record =
  cr_run_id :: string
  cr_profile :: string
  cr_task :: string

record parked_state =
  pk_reason :: string
  pk_question :: string
  pk_tool_call_id :: string
  pk_kind :: park_kind
  pk_allow_call_id :: string
  pk_plan_digest :: string

record approval_park =
  ap_approval_id :: string
  ap_call_id :: string
  ap_tool_name :: string
  ap_authorization_id :: string
  ap_request_digest :: string
  ap_arguments_digest :: string
  ap_expires_at_ms :: int
  ap_parked_at_ms :: int
  ap_deadline_ms :: int

record staged_tool_report =
  sr_call_id :: string
  sr_name :: string
  sr_ok :: bool
  sr_detail :: string

datatype tool_execution_status = TE_Authorizing | TE_Started | TE_Completed

record staged_tool_execution =
  se_call_id :: string
  se_name :: string
  se_args_json :: string
  se_status :: tool_execution_status

record evidence_reference =
  er_kind :: string
  er_reference :: string
  er_content_hash :: string
  er_disclosed_fields :: "string list"
  er_omitted :: bool
  er_omission_reason :: string

record pending_governance_event =
  pe_operation_id :: string
  pe_event_id :: string
  pe_parent_event_id :: string
  pe_timestamp_ms :: int
  pe_kind :: string
  pe_attributes :: "(string \<times> string) list"
  pe_references :: "evidence_reference list"

record governance_checkpoint =
  gc_operation_id :: string
  gc_logical_operation_id :: string
  gc_model_operation_id :: string
  gc_model_reported :: bool
  gc_last_event_id :: string
  gc_pending_event :: "pending_governance_event option"
  gc_pending_tool_reports :: "staged_tool_report list"
  gc_pending_tool_executions :: "staged_tool_execution list"
  gc_fallback :: "fallback_checkpoint option"
  gc_approval_park :: "approval_park option"

record replay_terminal =
  rt_success :: bool
  rt_termination :: run_termination
  rt_summary :: string
  rt_prompt_id :: string
  rt_usage :: token_usage
  rt_cost :: "cost_estimate option"
  rt_finalized :: bool
  rt_artifact_dir :: "string option"

record replay_checkpoint =
  rc_manifest_digest :: string
  rc_source_run_id :: string
  rc_workspace :: string
  rc_comparison_cursor :: nat
  rc_usage :: token_usage
  rc_terminal :: "replay_terminal option"

record content_binding =
  cb_schema_version :: nat
  cb_generation :: nat
  cb_slot :: string
  cb_sha256_digest :: string
  cb_resolver_id :: string

datatype todo_status = TS_Pending | TS_InProgress | TS_Completed | TS_Cancelled

record todo_item =
  ti_id :: string
  ti_content :: string
  ti_status :: todo_status

record checkpoint =
  cp_version :: nat
  cp_run_id :: string
  cp_task :: string
  cp_prompt_id :: string
  cp_messages :: "chat_message list"
  cp_completed_turns :: nat
  cp_workspace :: string
  cp_keep_workspace :: bool
  cp_workspace_adapter :: string
  cp_park :: "parked_state option"
  cp_todos :: "todo_item list"
  cp_governance :: "governance_checkpoint option"
  cp_replay :: "replay_checkpoint option"
  cp_content :: "content_binding option"
  cp_prompt_start_turns :: "nat option"
  cp_plan_jail :: bool
  cp_nested :: bool
  cp_children :: "child_run_record list"
  cp_nested_depth :: nat
  cp_parent_run_id :: string
  cp_nested_profile :: string
  cp_tools_mode :: string
  cp_tools_enabled :: "string list"

datatype checkpoint_error = CE_Io | CE_Parse | CE_UnsupportedVersion nat nat | CE_Missing string
  | CE_PromptMismatch | CE_InvalidRunId | CE_RunIdMismatch | CE_NotParked | CE_ParkKindMismatch park_kind
  | CE_WorkspaceUnavailable

definition CHECKPOINT_VERSION :: nat where "CHECKPOINT_VERSION = 1"

subsection \<open>Prompt identity (crates/shikigami-engine/src/prompts/mod.rs)\<close>

record prompt_asset =
  pa_id :: string
  pa_body :: string

definition body_digest :: "codec \<Rightarrow> string \<Rightarrow> string" where
  "body_digest c body = sha256_hex (cd_sha c) (replace_crlf body)"

definition versioned_id :: "codec \<Rightarrow> prompt_asset \<Rightarrow> string" where
  "versioned_id c asset = pa_id asset @ '':'' @ body_digest c (pa_body asset)"

definition matches_asset :: "codec \<Rightarrow> string \<Rightarrow> prompt_asset \<Rightarrow> bool" where
  "matches_asset c stored_id asset \<longleftrightarrow> stored_id = versioned_id c asset"

text \<open>The body of \<open>harness-v1.md\<close> is an asset, here the argument \<open>asset\<close>.\<close>

definition prompt_id :: "codec \<Rightarrow> prompt_asset \<Rightarrow> string \<Rightarrow> string" where
  "prompt_id c asset prompt =
     (if prompt = pa_body asset \<or> replace_crlf prompt = replace_crlf (pa_body asset)
      then versioned_id c asset
      else ''custom:'' @ sha256_hex (cd_sha c) (replace_crlf prompt))"

subsection \<open>Run identifiers\<close>

definition is_ascii_alphanumeric :: "char \<Rightarrow> bool" where
  "is_ascii_alphanumeric c = (let n = (of_char c :: nat) in
     (48 \<le> n \<and> n \<le> 57) \<or> (65 \<le> n \<and> n \<le> 90) \<or> (97 \<le> n \<and> n \<le> 122))"

definition is_safe_run_id :: "string \<Rightarrow> bool" where
  "is_safe_run_id run_id \<longleftrightarrow>
     run_id \<noteq> [] \<and> length run_id \<le> 128 \<and> list_all (\<lambda>b. is_ascii_alphanumeric b \<or> b = CHR ''-'') run_id"

definition checkpoint_path :: "string \<Rightarrow> string \<Rightarrow> string" where
  "checkpoint_path state_runs run_id = state_runs @ ''/'' @ run_id @ ''/checkpoint.json''"

subsection \<open>Loading and saving\<close>

type_synonym disk = "string \<rightharpoonup> string"

record cp_codec =
  cc_to_string :: "checkpoint \<Rightarrow> string option"
  cc_from_slice :: "string \<Rightarrow> checkpoint option"

text \<open>\<open>io\<close> says which fallible call succeeds: 0 creates the directory, 1 writes the temporary
  file, 2 renames it, 3 removes it. The temporary name replaces the extension of the path.\<close>

definition checkpoint_tmp_path :: "string \<Rightarrow> string \<Rightarrow> string" where
  "checkpoint_tmp_path state_runs run_id = state_runs @ ''/'' @ run_id @ ''/checkpoint.json.tmp''"

definition checkpoint_save :: "cp_codec \<Rightarrow> (nat \<Rightarrow> bool) \<Rightarrow> string \<Rightarrow> disk \<Rightarrow> checkpoint \<Rightarrow>
    disk \<times> (string, checkpoint_error) result" where
  "checkpoint_save cc io state_runs d cp =
     (if \<not> is_safe_run_id (cp_run_id cp) then (d, Err CE_InvalidRunId)
      else
        let path = checkpoint_path state_runs (cp_run_id cp);
            tmp = checkpoint_tmp_path state_runs (cp_run_id cp)
        in if \<not> io 0 then (d, Err CE_Io)
        else case cc_to_string cc cp of
          None \<Rightarrow> (d, Err CE_Parse)
        | Some raw \<Rightarrow>
          if \<not> io 1 then (d, Err CE_Io)
          else let d1 = d(tmp \<mapsto> raw) in
            if \<not> io 2 then ((if io 3 then d1(tmp := None) else d1), Err CE_Io)
            else (d1(tmp := None, path \<mapsto> raw), Ok path))"

definition checkpoint_read :: "string \<Rightarrow> disk \<Rightarrow> string \<Rightarrow> (string, checkpoint_error) result" where
  "checkpoint_read state_runs d run_id =
     (if \<not> is_safe_run_id run_id then Err CE_InvalidRunId
      else case d (checkpoint_path state_runs run_id) of
        None \<Rightarrow> Err (CE_Missing run_id)
      | Some raw \<Rightarrow> Ok raw)"

definition checkpoint_parse :: "cp_codec \<Rightarrow> string \<Rightarrow> string \<Rightarrow> (checkpoint, checkpoint_error) result" where
  "checkpoint_parse cc raw run_id =
     (case cc_from_slice cc raw of
        None \<Rightarrow> Err CE_Parse
      | Some cp \<Rightarrow>
        if cp_version cp \<noteq> CHECKPOINT_VERSION
        then Err (CE_UnsupportedVersion (cp_version cp) CHECKPOINT_VERSION)
        else if cp_run_id cp \<noteq> run_id then Err CE_RunIdMismatch
        else Ok cp)"

definition load_with_digest :: "codec \<Rightarrow> cp_codec \<Rightarrow> string \<Rightarrow> disk \<Rightarrow> string \<Rightarrow>
    (checkpoint \<times> string, checkpoint_error) result" where
  "load_with_digest c cc state_runs d run_id =
     and_then (checkpoint_read state_runs d run_id) (\<lambda>raw.
       and_then (checkpoint_parse cc raw run_id) (\<lambda>cp. Ok (cp, digest_of c raw)))"

definition checkpoint_load :: "codec \<Rightarrow> cp_codec \<Rightarrow> string \<Rightarrow> disk \<Rightarrow> string \<Rightarrow>
    (checkpoint, checkpoint_error) result" where
  "checkpoint_load c cc state_runs d run_id =
     and_then (load_with_digest c cc state_runs d run_id) (\<lambda>(cp, _). Ok cp)"

definition validate_prompt :: "codec \<Rightarrow> prompt_asset \<Rightarrow> checkpoint \<Rightarrow> string \<Rightarrow> (unit, checkpoint_error) result" where
  "validate_prompt c asset cp prompt =
     (if cp_prompt_id cp \<noteq> prompt_id c asset prompt then Err CE_PromptMismatch else Ok ())"

definition load_parked_digest :: "codec \<Rightarrow> prompt_asset \<Rightarrow> cp_codec \<Rightarrow> (string \<Rightarrow> bool) \<Rightarrow> string \<Rightarrow> disk \<Rightarrow>
    string \<Rightarrow> string \<Rightarrow> (string, checkpoint_error) result" where
  "load_parked_digest c asset cc is_dir state_runs d run_id prompt =
     and_then (load_with_digest c cc state_runs d run_id) (\<lambda>(cp, digest).
       if cp_park cp = None then Err CE_NotParked
       else if \<not> is_dir (cp_workspace cp) then Err CE_WorkspaceUnavailable
       else and_then (validate_prompt c asset cp prompt) (\<lambda>_. Ok digest))"

subsection \<open>Parks\<close>

definition cp_approval_park :: "checkpoint \<Rightarrow> approval_park option" where
  "cp_approval_park cp = (case cp_governance cp of None \<Rightarrow> None | Some g \<Rightarrow> gc_approval_park g)"

definition is_parked_as :: "park_kind \<Rightarrow> checkpoint \<Rightarrow> bool" where
  "is_parked_as k cp = (case cp_park cp of None \<Rightarrow> False | Some p \<Rightarrow> pk_kind p = k)"

definition is_escalate_park :: "checkpoint \<Rightarrow> bool" where
  "is_escalate_park = is_parked_as PK_Escalate"

definition is_ask_park :: "checkpoint \<Rightarrow> bool" where
  "is_ask_park = is_parked_as PK_Ask"

definition is_prompt_wait :: "checkpoint \<Rightarrow> bool" where
  "is_prompt_wait = is_parked_as PK_PromptWait"

definition is_plan_park :: "checkpoint \<Rightarrow> bool" where
  "is_plan_park = is_parked_as PK_Plan"

lemmas park_defs = is_escalate_park_def is_ask_park_def is_prompt_wait_def is_plan_park_def is_parked_as_def

definition validate_park_kind :: "checkpoint \<Rightarrow> (unit, checkpoint_error) result" where
  "validate_park_kind cp =
     (case (cp_park cp, cp_approval_park cp) of
        (Some p, None) \<Rightarrow> if pk_kind p = PK_Approval then Err (CE_ParkKindMismatch (pk_kind p)) else Ok ()
      | (Some p, Some _) \<Rightarrow> if pk_kind p \<noteq> PK_Approval then Err (CE_ParkKindMismatch (pk_kind p)) else Ok ()
      | _ \<Rightarrow> Ok ())"

subsection \<open>Properties\<close>

lemma safe_run_id_chars:
  "is_safe_run_id r \<Longrightarrow> c \<in> set r \<Longrightarrow> c \<noteq> CHR ''/'' \<and> c \<noteq> CHR ''.'' \<and> c \<noteq> CHR 0x5C \<and> c \<noteq> CHR 0x00"
  by (auto simp: is_safe_run_id_def list_all_iff is_ascii_alphanumeric_def Let_def)

lemma checkpoint_path_inject:
  assumes "is_safe_run_id a" "is_safe_run_id b"
    and "checkpoint_path root a = checkpoint_path root b"
  shows "a = b"
proof -
  have "CHR ''/'' \<notin> set a" "CHR ''/'' \<notin> set b" using assms(1,2) safe_run_id_chars by blast+
  then show ?thesis using assms(3) sep_inject [of "CHR ''/''" a b] by (simp add: checkpoint_path_def)
qed

lemma checkpoint_tmp_other:
  assumes "is_safe_run_id a" "is_safe_run_id b"
  shows "checkpoint_tmp_path root a \<noteq> checkpoint_path root b"
proof
  assume "checkpoint_tmp_path root a = checkpoint_path root b"
  then have "a @ CHR ''/'' # ''checkpoint.json.tmp'' = b @ CHR ''/'' # ''checkpoint.json''"
    by (simp add: checkpoint_tmp_path_def checkpoint_path_def)
  moreover have "CHR ''/'' \<notin> set a" "CHR ''/'' \<notin> set b" using assms safe_run_id_chars by blast+
  ultimately show False using sep_inject [of "CHR ''/''" a b] by simp
qed

lemma load_with_digest_cong:
  assumes "is_safe_run_id run \<Longrightarrow> d' (checkpoint_path root run) = d (checkpoint_path root run)"
  shows "load_with_digest c cc root d' run = load_with_digest c cc root d run"
  using assms by (simp add: load_with_digest_def checkpoint_read_def)

lemma load_with_digest_hit:
  assumes "is_safe_run_id run" and "d (checkpoint_path root run) = Some raw"
    and "cc_from_slice cc raw = Some cp" and "cp_version cp = CHECKPOINT_VERSION" and "cp_run_id cp = run"
  shows "load_with_digest c cc root d run = Ok (cp, digest_of c raw)"
  using assms by (simp add: load_with_digest_def checkpoint_read_def checkpoint_parse_def)

lemma checkpoint_save_disk:
  assumes "checkpoint_save cc io root d cp = (d', r)"
  shows "(case r of
       Inl _ \<Rightarrow> \<forall>k. k \<noteq> checkpoint_tmp_path root (cp_run_id cp) \<longrightarrow> d' k = d k
     | Inr _ \<Rightarrow> is_safe_run_id (cp_run_id cp) \<and> (\<exists>raw. cc_to_string cc cp = Some raw \<and>
         d' (checkpoint_path root (cp_run_id cp)) = Some raw \<and>
         (\<forall>k. k \<noteq> checkpoint_tmp_path root (cp_run_id cp) \<longrightarrow> k \<noteq> checkpoint_path root (cp_run_id cp) \<longrightarrow> d' k = d k)))"
  using assms by (auto simp: checkpoint_save_def Let_def split: if_splits option.splits)

lemma checkpoint_save_loads:
  assumes codec: "\<And>raw. cc_to_string cc cp = Some raw \<Longrightarrow> cc_from_slice cc raw = Some cp"
    and version: "cp_version cp = CHECKPOINT_VERSION"
    and saved: "checkpoint_save cc io root d cp = (d', r)"
  shows "(case r of
       Inl _ \<Rightarrow> load_with_digest c cc root d' run = load_with_digest c cc root d run
     | Inr _ \<Rightarrow> load_with_digest c cc root d' run =
         (if run = cp_run_id cp
          then Ok (cp, digest_of c (the (cc_to_string cc cp)))
          else load_with_digest c cc root d run))"
proof (cases r)
  case (Inl e)
  have "load_with_digest c cc root d' run = load_with_digest c cc root d run"
  proof (cases "is_safe_run_id (cp_run_id cp)")
    case True
    have other: "k \<noteq> checkpoint_tmp_path root (cp_run_id cp) \<Longrightarrow> d' k = d k" for k
      using checkpoint_save_disk [OF saved] Inl by auto
    show ?thesis
      by (rule load_with_digest_cong, rule other) (metis True checkpoint_tmp_other)
    next
    case False
    with saved show ?thesis by (simp add: checkpoint_save_def)
  qed
  with Inl show ?thesis by simp
next
  case (Inr p)
  obtain raw where safe: "is_safe_run_id (cp_run_id cp)" and raw: "cc_to_string cc cp = Some raw"
    and hit: "d' (checkpoint_path root (cp_run_id cp)) = Some raw"
    and other: "\<And>k. k \<noteq> checkpoint_tmp_path root (cp_run_id cp) \<Longrightarrow>
      k \<noteq> checkpoint_path root (cp_run_id cp) \<Longrightarrow> d' k = d k"
    using checkpoint_save_disk [OF saved] Inr by auto
  have "run = cp_run_id cp \<Longrightarrow> load_with_digest c cc root d' run = Ok (cp, digest_of c raw)"
    using load_with_digest_hit [of _ d' root raw cc cp c, OF safe hit codec [OF raw] version] by simp
  moreover have "run \<noteq> cp_run_id cp \<Longrightarrow>
      load_with_digest c cc root d' run = load_with_digest c cc root d run"
  proof (rule load_with_digest_cong)
    assume ne: "run \<noteq> cp_run_id cp" and "is_safe_run_id run"
    then show "d' (checkpoint_path root run) = d (checkpoint_path root run)"
      using other checkpoint_tmp_other [OF safe] checkpoint_path_inject [OF _ safe] by metis
  qed
  ultimately show ?thesis using Inr raw by simp
qed


definition demo_checkpoint :: checkpoint where
  "demo_checkpoint = \<lparr>cp_version = 1, cp_run_id = ''r1'', cp_task = ''t'', cp_prompt_id = ''p'',
     cp_messages = [], cp_completed_turns = 1, cp_workspace = ''/w'', cp_keep_workspace = True,
     cp_workspace_adapter = ''directory'', cp_park = None, cp_todos = [], cp_governance = None,
     cp_replay = None, cp_content = None, cp_prompt_start_turns = None, cp_plan_jail = False,
     cp_nested = False, cp_children = [], cp_nested_depth = 0, cp_parent_run_id = [],
     cp_nested_profile = [], cp_tools_mode = [], cp_tools_enabled = []\<rparr>"

definition demo_cp_codec :: cp_codec where
  "demo_cp_codec = \<lparr>cc_to_string = (\<lambda>cp. Some ''x''), cc_from_slice = (\<lambda>_. Some demo_checkpoint)\<rparr>"


end
