(* ===== verification/Run_Types.thy ===== *)
theory Run_Types
  imports Checkpoint
begin

section \<open>Runs: requests, results and errors (crates/shikigami-engine/src/run/mod.rs)\<close>

text \<open>
  The request a host makes, the result a run returns, the error it fails with, and how an error
  is classified. A \<open>Duration\<close> is a number of milliseconds, a path is a string. The errors of
  the workspace, tool and model ports carry their message only.
\<close>

datatype ask_decision = AD_Allow | AD_Deny

datatype plan_decision = PD_Accept | PD_Reject

datatype child_profile = CP_Explore | CP_Plan | CP_Full

fun child_profile_text :: "child_profile \<Rightarrow> string" where
  "child_profile_text CP_Explore = ''explore''"
| "child_profile_text CP_Plan = ''plan''"
| "child_profile_text CP_Full = ''full''"

record run_request =
  rq_task :: string
  rq_keep_workspace :: bool
  rq_timeout :: "nat option"
  rq_resume_run_id :: "string option"
  rq_logical_operation_id :: "string option"
  rq_resume_answer :: "string option"
  rq_restore_snapshot :: "string option"
  rq_session_wait :: bool
  rq_resume_prompt :: "string option"
  rq_resume_ask :: "ask_decision option"
  rq_plan_jail :: bool
  rq_resume_plan :: "plan_decision option"
  rq_nested :: bool
  rq_nested_depth :: nat
  rq_parent_run_id :: "string option"
  rq_nested_profile :: "child_profile option"
  rq_assigned_run_id :: "string option"

definition run_request_new :: "string \<Rightarrow> run_request" where
  "run_request_new task = \<lparr>rq_task = task, rq_keep_workspace = False, rq_timeout = None,
     rq_resume_run_id = None, rq_logical_operation_id = None, rq_resume_answer = None,
     rq_restore_snapshot = None, rq_session_wait = False, rq_resume_prompt = None,
     rq_resume_ask = None, rq_plan_jail = False, rq_resume_plan = None, rq_nested = False,
     rq_nested_depth = 0, rq_parent_run_id = None, rq_nested_profile = None,
     rq_assigned_run_id = None\<rparr>"

record park_info =
  pi_reason :: string
  pi_question :: string
  pi_tool_call_id :: string
  pi_kind :: park_kind
  pi_approval_id :: "string option"
  pi_display_call_id :: "string option"
  pi_args_json :: "string option"
  pi_plan_digest :: string

record run_result =
  rr_run_id :: string
  rr_success :: bool
  rr_summary :: string
  rr_turns :: nat
  rr_workspace :: string
  rr_artifact_dir :: "string option"
  rr_termination :: run_termination
  rr_park :: "park_info option"
  rr_prompt_id :: string
  rr_usage :: token_usage
  rr_cost :: "cost_estimate option"
  rr_todos :: "todo_item list"

text \<open>The errors of the governance port (crates/shikigami-engine/src/governance/mod.rs).\<close>

record require_approval =
  ra_approval_id :: string
  ra_authorization_id :: string
  ra_request_digest :: string
  ra_expires_at_ms :: int
  ra_deadline_ms :: int
  ra_reason :: string

datatype governance_error = GE_Message string | GE_Unavailable string | GE_Denied string
  | GE_RequireApproval require_approval

datatype run_error = RE_Governance governance_error | RE_Workspace string | RE_Tool string
  | RE_Model string | RE_Checkpoint checkpoint_error | RE_Message string | RE_MaxTurns nat
  | RE_Cancelled | RE_TimedOut nat

fun error_termination :: "run_error \<Rightarrow> run_termination" where
  "error_termination RE_Cancelled = RT_Cancelled"
| "error_termination (RE_TimedOut _) = RT_TimedOut"
| "error_termination (RE_MaxTurns _) = RT_MaxTurns"
| "error_termination _ = RT_Failed"

fun is_denied :: "governance_error \<Rightarrow> bool" where
  "is_denied (GE_Denied _) = True"
| "is_denied _ = False"

fun leaves_governance_open :: "run_error \<Rightarrow> bool" where
  "leaves_governance_open RE_Cancelled = True"
| "leaves_governance_open (RE_TimedOut _) = True"
| "leaves_governance_open (RE_MaxTurns _) = True"
| "leaves_governance_open (RE_Governance e) = (\<not> is_denied e)"
| "leaves_governance_open _ = False"

lemma error_termination_never_success:
  "error_termination e \<noteq> RT_Completed" "error_termination e \<noteq> RT_Parked"
  by (cases e; simp)+

lemma termination_text_inject: "termination_text a = termination_text b \<longleftrightarrow> a = b"
  by (cases a; cases b; simp)

lemma termination_text_not_active:
  "termination_text t \<noteq> ''starting''" "termination_text t \<noteq> ''running''"
  by (cases t; simp)+

end
