(* ===== verification/Governance.thy ===== *)
theory Governance
  imports Run_Types
begin

section \<open>In-process governance (crates/shikigami-engine/src/governance/{mod,none,local}.rs)\<close>

text \<open>
  The durable scratch that the in-process adapters keep per run, the journal of host-side tool
  executions that makes a restarted run refuse an in-doubt effect, the tool allow-list, and the
  two checks on a parked approval. The port's asynchronous methods are functions on the
  adapter's state; the mutex around the map is not modelled (no operation panics under it).
\<close>

subsection \<open>The journal of tool executions\<close>

text \<open>
  What the turn loop relies on: a marker is written before an effect starts, a restart that
  finds a marker past authorization refuses to go on, and markers are dropped together.
\<close>

locale execution_journal =
  fixes staged :: "'s \<Rightarrow> staged_tool_execution list"
    and stage :: "staged_tool_execution \<Rightarrow> 's \<Rightarrow> 's"
    and mark :: "string \<Rightarrow> tool_execution_status \<Rightarrow> 's \<Rightarrow> ('s, governance_error) result"
    and clear :: "'s \<Rightarrow> 's"
    and recover :: "'s \<Rightarrow> ('s, governance_error) result"
  assumes staged_stage: "staged (stage e s) =
      filter (\<lambda>p. se_call_id p \<noteq> se_call_id e) (staged s) @ [e]"
    and staged_mark: "mark call status s = Ok s' \<Longrightarrow>
      staged s' = update_first (\<lambda>e. se_call_id e = call) (\<lambda>e. e\<lparr>se_status := status\<rparr>) (staged s)"
    and mark_missing: "mark call TE_Started s = Ok s' \<Longrightarrow> call \<in> se_call_id ` set (staged s)"
    and staged_clear: "staged (clear s) = []"
    and recover_iff: "(\<exists>s'. recover s = Ok s') \<longleftrightarrow> (\<forall>e\<in>set (staged s). se_status e = TE_Authorizing)"
    and staged_recover: "recover s = Ok s' \<Longrightarrow> staged s' = []"
begin

text \<open>A call id never has two markers.\<close>

definition journal_ok :: "'s \<Rightarrow> bool" where
  "journal_ok s \<longleftrightarrow> distinct (map se_call_id (staged s))"

lemma journal_ok_stage: "journal_ok s \<Longrightarrow> journal_ok (stage e s)"
  by (auto simp: journal_ok_def staged_stage distinct_map_filter)

lemma journal_ok_mark: "journal_ok s \<Longrightarrow> mark call status s = Ok s' \<Longrightarrow> journal_ok s'"
  by (simp add: journal_ok_def staged_mark map_update_first)

lemma started_in_doubt:
  assumes "mark call TE_Started s = Ok s'"
  shows "\<exists>e\<in>set (staged s'). se_call_id e = call \<and> se_status e = TE_Started"
proof -
  have "call \<in> se_call_id ` set xs \<Longrightarrow>
      \<exists>e\<in>set (update_first (\<lambda>e. se_call_id e = call) (\<lambda>e. e\<lparr>se_status := TE_Started\<rparr>) xs).
        se_call_id e = call \<and> se_status e = TE_Started" for xs
    by (induction xs) auto
  with assms show ?thesis using staged_mark mark_missing by metis
qed

lemma restart_refuses_started:
  assumes "mark call TE_Started s = Ok s'"
  shows "\<nexists>s''. recover s' = Ok s''"
  using started_in_doubt [OF assms] recover_iff by fastforce

lemma restart_refuses_after_completion:
  assumes "mark call TE_Started s = Ok s1" and "mark call TE_Completed s1 = Ok s2"
  shows "\<nexists>s''. recover s2 = Ok s''"
proof -
  have "call \<in> se_call_id ` set (staged s1)"
    using started_in_doubt [OF assms(1)] by blast
  moreover have "call \<in> se_call_id ` set xs \<Longrightarrow>
      \<exists>e\<in>set (update_first (\<lambda>e. se_call_id e = call) (\<lambda>e. e\<lparr>se_status := TE_Completed\<rparr>) xs).
        se_status e = TE_Completed" for xs
    by (induction xs) auto
  ultimately have "\<exists>e\<in>set (staged s2). se_status e = TE_Completed"
    using staged_mark [OF assms(2)] by metis
  then show ?thesis using recover_iff by fastforce
qed

lemma restart_after_clear: "\<exists>s'. recover (clear s) = Ok s'"
  by (simp add: recover_iff staged_clear)

end

subsection \<open>Local durability\<close>

record run_handle =
  rh_run_id :: string
  rh_operation_id :: string
  rh_namespace :: string

type_synonym durability = "string \<rightharpoonup> governance_checkpoint"

definition governance_checkpoint_default :: governance_checkpoint where
  "governance_checkpoint_default = \<lparr>gc_operation_id = [], gc_logical_operation_id = [],
     gc_model_operation_id = [], gc_model_reported = False, gc_last_event_id = [],
     gc_pending_event = None, gc_pending_tool_reports = [], gc_pending_tool_executions = [],
     gc_fallback = None, gc_approval_park = None\<rparr>"

definition ld_begin :: "durability \<Rightarrow> run_handle \<Rightarrow> governance_checkpoint option \<Rightarrow> durability" where
  "ld_begin d h cp = d(rh_run_id h \<mapsto>
     (case cp of Some c \<Rightarrow> c
      | None \<Rightarrow> governance_checkpoint_default\<lparr>gc_operation_id := rh_operation_id h,
          gc_logical_operation_id := rh_operation_id h\<rparr>))"

definition ld_checkpoint :: "durability \<Rightarrow> string \<Rightarrow> governance_checkpoint option" where
  "ld_checkpoint d run = d run"

text \<open>The bodies of the closures passed to \<open>with_checkpoint\<close>.\<close>

definition gc_stage :: "staged_tool_execution \<Rightarrow> governance_checkpoint \<Rightarrow> governance_checkpoint" where
  "gc_stage e g = g\<lparr>gc_pending_tool_executions :=
     filter (\<lambda>p. se_call_id p \<noteq> se_call_id e) (gc_pending_tool_executions g) @ [e]\<rparr>"

definition gc_mark :: "string \<Rightarrow> tool_execution_status \<Rightarrow> governance_checkpoint \<Rightarrow>
    (governance_checkpoint, governance_error) result" where
  "gc_mark call status g =
     (case find (\<lambda>e. se_call_id e = call) (gc_pending_tool_executions g) of
        None \<Rightarrow>
          if status = TE_Completed then Ok g
          else Err (GE_Message (''local tool execution marker `'' @ call @ ''` is missing''))
      | Some _ \<Rightarrow> Ok (g\<lparr>gc_pending_tool_executions :=
          update_first (\<lambda>e. se_call_id e = call) (\<lambda>e. e\<lparr>se_status := status\<rparr>)
            (gc_pending_tool_executions g)\<rparr>))"

definition gc_clear :: "governance_checkpoint \<Rightarrow> governance_checkpoint" where
  "gc_clear g = g\<lparr>gc_pending_tool_executions := []\<rparr>"

definition gc_recover :: "governance_checkpoint \<Rightarrow> (governance_checkpoint, governance_error) result" where
  "gc_recover g =
     (case find (\<lambda>e. se_status e \<noteq> TE_Authorizing) (gc_pending_tool_executions g) of
        Some e \<Rightarrow> Err (GE_Denied (''tool execution `'' @ se_call_id e @ ''` is in-doubt after restart''))
      | None \<Rightarrow> Ok (g\<lparr>gc_pending_tool_executions := []\<rparr>))"

definition with_checkpoint :: "durability \<Rightarrow> string \<Rightarrow>
    (governance_checkpoint \<Rightarrow> (governance_checkpoint, governance_error) result) \<Rightarrow>
    durability \<times> (unit, governance_error) result" where
  "with_checkpoint d run mutate =
     (case d run of
        None \<Rightarrow> (d, Err (GE_Message (''local durability state missing for run `'' @ run @ ''`'')))
      | Some g \<Rightarrow> (case mutate g of Inl e \<Rightarrow> (d, Err e) | Inr g' \<Rightarrow> (d(run \<mapsto> g'), Ok ())))"

definition ld_stage where
  "ld_stage d run e = with_checkpoint d run (\<lambda>g. Ok (gc_stage e g))"

definition ld_mark where
  "ld_mark d run call status = with_checkpoint d run (gc_mark call status)"

definition ld_clear where
  "ld_clear d run = with_checkpoint d run (\<lambda>g. Ok (gc_clear g))"

definition ld_recover where
  "ld_recover d run = with_checkpoint d run gc_recover"

definition ld_stage_reports where
  "ld_stage_reports d run reports = with_checkpoint d run
     (\<lambda>g. Ok (g\<lparr>gc_pending_tool_reports := gc_pending_tool_reports g @ reports\<rparr>))"

definition ld_pending_reports :: "durability \<Rightarrow> string \<Rightarrow> staged_tool_report list" where
  "ld_pending_reports d run = (case d run of None \<Rightarrow> [] | Some g \<Rightarrow> gc_pending_tool_reports g)"

definition ld_commit_report where
  "ld_commit_report d run call = with_checkpoint d run
     (\<lambda>g. Ok (g\<lparr>gc_pending_tool_reports :=
        filter (\<lambda>r. sr_call_id r \<noteq> call) (gc_pending_tool_reports g)\<rparr>))"

definition ld_record_approval_park where
  "ld_record_approval_park d run park = with_checkpoint d run (\<lambda>g. Ok (g\<lparr>gc_approval_park := Some park\<rparr>))"

definition ld_clear_approval_park where
  "ld_clear_approval_park d run = with_checkpoint d run (\<lambda>g. Ok (g\<lparr>gc_approval_park := None\<rparr>))"

interpretation gj: execution_journal gc_pending_tool_executions gc_stage gc_mark gc_clear gc_recover
proof unfold_locales
  fix e :: staged_tool_execution and s :: governance_checkpoint
  show "gc_pending_tool_executions (gc_stage e s) =
      filter (\<lambda>p. se_call_id p \<noteq> se_call_id e) (gc_pending_tool_executions s) @ [e]"
    by (simp add: gc_stage_def)
next
  fix call status and s s' :: governance_checkpoint
  assume "gc_mark call status s = Ok s'"
  then show "gc_pending_tool_executions s' =
      update_first (\<lambda>e. se_call_id e = call) (\<lambda>e. e\<lparr>se_status := status\<rparr>) (gc_pending_tool_executions s)"
    by (auto simp: gc_mark_def update_first_none split: option.splits if_splits)
next
  fix call and s s' :: governance_checkpoint
  assume "gc_mark call TE_Started s = Ok s'"
  then show "call \<in> se_call_id ` set (gc_pending_tool_executions s)"
    by (auto simp: gc_mark_def dest: find_Some_in split: option.splits)
next
  fix s s' :: governance_checkpoint
  show "gc_pending_tool_executions (gc_clear s) = []" by (simp add: gc_clear_def)
  show "(\<exists>s'. gc_recover s = Ok s') \<longleftrightarrow>
      (\<forall>e\<in>set (gc_pending_tool_executions s). se_status e = TE_Authorizing)"
    by (auto simp: gc_recover_def find_None_all dest: find_Some_in split: option.splits)
  show "gc_recover s = Ok s' \<Longrightarrow> gc_pending_tool_executions s' = []"
    by (auto simp: gc_recover_def split: option.splits)
qed

subsection \<open>The adapters\<close>

datatype in_process = None_Governance | Local_Governance string

record in_process_state =
  ip_kind :: in_process
  ip_enabled_tools :: "string list"
  ip_durability :: durability

text \<open>\<open>enabled\<close> is the effective list of the configuration.\<close>

definition in_process_enabled_tools :: "string list \<Rightarrow> string list" where
  "in_process_enabled_tools enabled =
     fold (\<lambda>name acc. if name \<in> set acc then acc else acc @ [name]) [''child_run'', ''child_status''] enabled"

definition governance_from_config :: "in_process \<Rightarrow> string list \<Rightarrow> in_process_state" where
  "governance_from_config kind enabled =
     \<lparr>ip_kind = kind, ip_enabled_tools = in_process_enabled_tools enabled, ip_durability = Map.empty\<rparr>"

definition begin_handle :: "in_process \<Rightarrow> string \<Rightarrow> string option \<Rightarrow> run_handle" where
  "begin_handle kind run logical = \<lparr>rh_run_id = run,
     rh_operation_id = (case logical of Some l \<Rightarrow> l
       | None \<Rightarrow> (case kind of None_Governance \<Rightarrow> run | Local_Governance _ \<Rightarrow> ''local-'' @ run)),
     rh_namespace = ''local''\<rparr>"

definition ip_begin_run :: "in_process_state \<Rightarrow> string \<Rightarrow> string option \<Rightarrow> in_process_state \<times> run_handle" where
  "ip_begin_run s run logical =
     (let h = begin_handle (ip_kind s) run logical
      in (s\<lparr>ip_durability := ld_begin (ip_durability s) h None\<rparr>, h))"

definition ip_begin_run_with_checkpoint :: "in_process_state \<Rightarrow> string \<Rightarrow> string option \<Rightarrow>
    governance_checkpoint option \<Rightarrow> in_process_state \<times> run_handle" where
  "ip_begin_run_with_checkpoint s run logical cp =
     (let (s1, h) = ip_begin_run s run logical
      in (s1\<lparr>ip_durability := ld_begin (ip_durability s1) h cp\<rparr>, h))"

definition ip_checkpoint_state :: "in_process_state \<Rightarrow> string \<Rightarrow> governance_checkpoint option" where
  "ip_checkpoint_state s run = ld_checkpoint (ip_durability s) run"

definition ip_authorize_tool :: "in_process_state \<Rightarrow> string \<Rightarrow> (unit, governance_error) result" where
  "ip_authorize_tool s name =
     (if name \<in> set (ip_enabled_tools s) then Ok ()
      else Err (GE_Denied (case ip_kind s of
          None_Governance \<Rightarrow> ''tool `'' @ name @ ''` not enabled''
        | Local_Governance _ \<Rightarrow> ''local policy denies tool `'' @ name @ ''`'')))"

text \<open>Replaying the staged reports commits each of them; \<open>report_tool\<close> itself does nothing.\<close>

definition ip_report_tool_with_id :: "durability \<Rightarrow> string \<Rightarrow> string \<Rightarrow> durability \<times> (unit, governance_error) result" where
  "ip_report_tool_with_id d run call = ld_commit_report d run call"

fun replay_reports :: "durability \<Rightarrow> string \<Rightarrow> staged_tool_report list \<Rightarrow>
    durability \<times> (unit, governance_error) result" where
  "replay_reports d run [] = (d, Ok ())"
| "replay_reports d run (r # rs) =
     (case ip_report_tool_with_id d run (sr_call_id r) of
        (d', Inl e) \<Rightarrow> (d', Err e)
      | (d', Inr _) \<Rightarrow> replay_reports d' run rs)"

definition ip_replay_staged_tool_reports where
  "ip_replay_staged_tool_reports d run = replay_reports d run (ld_pending_reports d run)"

subsection \<open>Parked approvals\<close>

datatype approval_state = AS_Pending | AS_Approved string | AS_Denied string | AS_Expired
  | AS_Cancelled | AS_Revoked

definition resolve_approval_wait :: "approval_park \<Rightarrow> approval_state \<Rightarrow> int \<Rightarrow>
    (unit, governance_error) result" where
  "resolve_approval_wait park state now_ms =
     (let locally_expired = ap_expires_at_ms park > 0 \<and> now_ms \<ge> ap_expires_at_ms park;
          quoted = (\<lambda>what. ''approval `'' @ ap_approval_id park @ ''` '' @ what)
      in case state of
        AS_Approved _ \<Rightarrow> Ok ()
      | AS_Pending \<Rightarrow>
          if locally_expired then Err (GE_Denied (quoted ''expired''))
          else Err (GE_RequireApproval \<lparr>ra_approval_id = ap_approval_id park,
            ra_authorization_id = ap_authorization_id park, ra_request_digest = ap_request_digest park,
            ra_expires_at_ms = ap_expires_at_ms park, ra_deadline_ms = ap_deadline_ms park,
            ra_reason = quoted ''is still pending''\<rparr>)
      | AS_Denied reason \<Rightarrow> Err (GE_Denied reason)
      | AS_Expired \<Rightarrow> Err (GE_Denied (quoted ''expired''))
      | AS_Cancelled \<Rightarrow> Err (GE_Denied (quoted ''cancelled''))
      | AS_Revoked \<Rightarrow> Err (GE_Denied (quoted ''revoked'')))"

definition park_arguments_digest :: "codec \<Rightarrow> string \<Rightarrow> string" where
  "park_arguments_digest c args_json = sha256_hex (cd_sha c) args_json"

definition bind_parked_call :: "codec \<Rightarrow> approval_park \<Rightarrow> string \<Rightarrow> string \<Rightarrow>
    (unit, governance_error) result" where
  "bind_parked_call c park name args_json =
     (if ap_arguments_digest park = [] then
        Err (GE_Denied (''approval `'' @ ap_approval_id park @
          ''` cannot be bound: parked arguments digest is missing''))
      else if name \<noteq> ap_tool_name park \<or> park_arguments_digest c args_json \<noteq> ap_arguments_digest park then
        Err (GE_Denied (''approval `'' @ ap_approval_id park @ ''` does not match the resumed tool call''))
      else Ok ())"

subsection \<open>A run's journal across a restart\<close>

text \<open>The calls of the port that reach a run's scratch while the run executes.\<close>

datatype journal_op = JO_Stage staged_tool_execution | JO_Mark string tool_execution_status
  | JO_Clear | JO_Recover | JO_Reports "staged_tool_report list" | JO_Commit string
  | JO_Park approval_park | JO_Clear_Park

fun journal_step :: "string \<Rightarrow> journal_op \<Rightarrow> durability \<Rightarrow> durability \<times> (unit, governance_error) result" where
  "journal_step run (JO_Stage e) d = ld_stage d run e"
| "journal_step run (JO_Mark call status) d = ld_mark d run call status"
| "journal_step run JO_Clear d = ld_clear d run"
| "journal_step run JO_Recover d = ld_recover d run"
| "journal_step run (JO_Reports rs) d = ld_stage_reports d run rs"
| "journal_step run (JO_Commit call) d = ld_commit_report d run call"
| "journal_step run (JO_Park p) d = ld_record_approval_park d run p"
| "journal_step run JO_Clear_Park d = ld_clear_approval_park d run"

fun journal_run :: "string \<Rightarrow> journal_op list \<Rightarrow> durability \<Rightarrow> durability" where
  "journal_run run [] d = d"
| "journal_run run (op # ops) d = journal_run run ops (fst (journal_step run op d))"

text \<open>An operation that may make the marker of \<open>call\<close> look retryable again.\<close>

fun resets_marker :: "string \<Rightarrow> journal_op \<Rightarrow> bool" where
  "resets_marker call (JO_Stage e) = (se_call_id e = call)"
| "resets_marker call (JO_Mark c status) = (c = call \<and> status = TE_Authorizing)"
| "resets_marker call JO_Clear = True"
| "resets_marker call _ = False"

definition in_doubt :: "string \<Rightarrow> governance_checkpoint \<Rightarrow> bool" where
  "in_doubt call g \<longleftrightarrow> (\<exists>e\<in>set (gc_pending_tool_executions g). se_call_id e = call \<and> se_status e \<noteq> TE_Authorizing)"

lemma in_doubt_update_first:
  assumes "\<exists>e\<in>set xs. se_call_id e = call \<and> se_status e \<noteq> TE_Authorizing"
    and "c = call \<Longrightarrow> status \<noteq> TE_Authorizing"
  shows "\<exists>e\<in>set (update_first (\<lambda>e. se_call_id e = c) (\<lambda>e. e\<lparr>se_status := status\<rparr>) xs).
      se_call_id e = call \<and> se_status e \<noteq> TE_Authorizing"
  using assms by (induction xs) auto

lemma in_doubt_mark: "gc_mark c status g = Ok g' \<Longrightarrow> in_doubt call g \<Longrightarrow>
    (c = call \<Longrightarrow> status \<noteq> TE_Authorizing) \<Longrightarrow> in_doubt call g'"
  unfolding in_doubt_def gj.staged_mark by (rule in_doubt_update_first)

lemma in_doubt_stage: "in_doubt call g \<Longrightarrow> se_call_id e \<noteq> call \<Longrightarrow> in_doubt call (gc_stage e g)"
  by (auto simp: in_doubt_def gc_stage_def)

lemma recover_in_doubt: "in_doubt call g \<Longrightarrow> \<exists>c. gc_recover g = Err (GE_Denied c)"
  using gj.recover_iff [of g]
  by (cases "gc_recover g") (auto simp: in_doubt_def gc_recover_def split: option.splits)

lemma in_doubt_step:
  assumes "d run = Some g" and "in_doubt call g" and "\<not> resets_marker call op"
  shows "\<exists>g'. fst (journal_step run op d) run = Some g' \<and> in_doubt call g'"
proof (cases op)
  case (JO_Mark c status)
  with assms show ?thesis
    by (cases "gc_mark c status g") (auto simp: ld_mark_def with_checkpoint_def intro: in_doubt_mark)
next
  case JO_Recover
  with assms recover_in_doubt [OF assms(2)] show ?thesis
    by (auto simp: ld_recover_def with_checkpoint_def)
next
  case (JO_Stage e)
  with assms show ?thesis by (auto simp: ld_stage_def with_checkpoint_def intro: in_doubt_stage)
qed (use assms in \<open>auto simp: ld_stage_reports_def ld_commit_report_def ld_record_approval_park_def
       ld_clear_approval_park_def with_checkpoint_def in_doubt_def\<close>)

lemma in_doubt_run:
  assumes "d run = Some g" and "in_doubt call g" and "\<forall>op\<in>set ops. \<not> resets_marker call op"
  shows "\<exists>g'. journal_run run ops d run = Some g' \<and> in_doubt call g'"
  using assms
proof (induction ops arbitrary: d g)
  case (Cons op ops)
  then obtain g1 where "fst (journal_step run op d) run = Some g1" "in_doubt call g1"
    using in_doubt_step by force
  with Cons show ?case by simp
qed simp

text \<open>
  \<^bold>\<open>C1\<close>: a host effect that was started is never replayed after a restart. Once the marker of a
  call is past authorization, whatever the port does next short of clearing the markers or
  staging the same call again, restoring the exported checkpoint into any fresh adapter makes
  recovery fail with a denial and leaves the marker in place.
\<close>

theorem started_effect_not_replayed:
  assumes started: "journal_step run (JO_Mark call TE_Started) d = (d1, Ok ())"
    and ops: "\<forall>op\<in>set ops. \<not> resets_marker call op"
    and restart: "ip_begin_run_with_checkpoint s run logical
        (ip_checkpoint_state (s0\<lparr>ip_durability := journal_run run ops d1\<rparr>) run) = (s', h)"
  shows "\<exists>why. ld_recover (ip_durability s') run = (ip_durability s', Err (GE_Denied why))"
proof -
  obtain g g1 where g: "d run = Some g" and m: "gc_mark call TE_Started g = Ok g1" and d1: "d1 = d(run \<mapsto> g1)"
    using started by (auto simp: ld_mark_def with_checkpoint_def split: option.splits sum.splits)
  have "in_doubt call g1"
    using gj.started_in_doubt [OF m] by (auto simp: in_doubt_def)
  then obtain g2 where g2: "journal_run run ops d1 run = Some g2" "in_doubt call g2"
    using in_doubt_run [of d1 run g1 call ops] ops d1 by auto
  have "ip_durability s' run = Some g2"
    using restart g2(1)
    by (auto simp: ip_begin_run_with_checkpoint_def ip_begin_run_def ip_checkpoint_state_def
        ld_checkpoint_def ld_begin_def begin_handle_def Let_def)
  with recover_in_doubt [OF g2(2)] show ?thesis
    by (auto simp: ld_recover_def with_checkpoint_def)
qed

definition demo_execution :: staged_tool_execution where
  "demo_execution = \<lparr>se_call_id = ''c'', se_name = ''bash'', se_args_json = ''{}'', se_status = TE_Authorizing\<rparr>"

definition demo_durability :: durability where
  "demo_durability = [''r'' \<mapsto> governance_checkpoint_default\<lparr>gc_pending_tool_executions := [demo_execution]\<rparr>]"

theorem started_effect_not_replayed_witness:
  "\<exists>why. ld_recover (ip_durability (fst (ip_begin_run_with_checkpoint
      (governance_from_config None_Governance []) ''r'' None
      (ip_checkpoint_state ((governance_from_config None_Governance [])
         \<lparr>ip_durability := journal_run ''r'' [JO_Mark ''c'' TE_Completed]
            (fst (journal_step ''r'' (JO_Mark ''c'' TE_Started) demo_durability))\<rparr>) ''r'')))) ''r''
    = (ip_durability (fst (ip_begin_run_with_checkpoint
      (governance_from_config None_Governance []) ''r'' None
      (ip_checkpoint_state ((governance_from_config None_Governance [])
         \<lparr>ip_durability := journal_run ''r'' [JO_Mark ''c'' TE_Completed]
            (fst (journal_step ''r'' (JO_Mark ''c'' TE_Started) demo_durability))\<rparr>) ''r''))),
       Err (GE_Denied why))"
proof (rule started_effect_not_replayed)
  have "snd (journal_step ''r'' (JO_Mark ''c'' TE_Started) demo_durability) = Ok ()"
    by (simp add: demo_durability_def demo_execution_def ld_mark_def with_checkpoint_def gc_mark_def)
  then show "journal_step ''r'' (JO_Mark ''c'' TE_Started) demo_durability =
      (fst (journal_step ''r'' (JO_Mark ''c'' TE_Started) demo_durability), Ok ())"
    by (metis prod.collapse)
  show "\<forall>op\<in>set [JO_Mark ''c'' TE_Completed]. \<not> resets_marker ''c'' op" by simp
qed (rule prod.collapse [symmetric])

subsection \<open>What a parked approval allows\<close>

text \<open>
  \<^bold>\<open>C19\<close>: a parked approval releases exactly the call it parked, and only on the authority's
  word: with the digest recorded at the park and no collision between the two argument strings,
  binding the resumed call and resolving the wait both succeed if and only if the authority says
  approved and the call has the parked tool name and the parked arguments; the local clock and
  scratch never approve.
\<close>

theorem approval_releases_parked_call:
  assumes "ap_arguments_digest park = park_arguments_digest c args0"
    and "cd_sha c args0 \<noteq> []"
    and "cd_sha c args = cd_sha c args0 \<Longrightarrow> args = args0"
  shows "(bind_parked_call c park name args = Ok () \<and> resolve_approval_wait park st now_ms = Ok ())
      \<longleftrightarrow> (name = ap_tool_name park \<and> args = args0 \<and> (\<exists>permit. st = AS_Approved permit))"
proof -
  have "park_arguments_digest c args0 \<noteq> []"
    using assms(2) hex_lower_inject [of "cd_sha c args0" "[]"]
    by (simp add: park_arguments_digest_def sha256_hex_def hex_lower_def)
  moreover have "park_arguments_digest c args = park_arguments_digest c args0 \<longleftrightarrow> args = args0"
    using assms(3) by (auto simp: park_arguments_digest_def sha256_hex_def hex_lower_inject)
  moreover have "resolve_approval_wait park st now_ms = Ok () \<longleftrightarrow> (\<exists>permit. st = AS_Approved permit)"
    by (cases st) (simp_all add: resolve_approval_wait_def Let_def)
  ultimately show ?thesis
    using assms(1) by (auto simp: bind_parked_call_def)
qed

definition demo_park :: approval_park where
  "demo_park = \<lparr>ap_approval_id = ''a'', ap_call_id = ''c'', ap_tool_name = ''bash'',
     ap_authorization_id = ''z'', ap_request_digest = [],
     ap_arguments_digest = park_arguments_digest demo_codec ''{}'', ap_expires_at_ms = 10,
     ap_parked_at_ms = 0, ap_deadline_ms = 10\<rparr>"

theorem approval_releases_parked_call_witness:
  "bind_parked_call demo_codec demo_park ''bash'' ''{}'' = Ok () \<and>
    resolve_approval_wait demo_park (AS_Approved ''p'') 11 = Ok ()"
  using approval_releases_parked_call [of demo_park demo_codec "''{}''" "''{}''" "''bash''" "AS_Approved ''p''" 11]
  by (simp add: demo_park_def demo_codec_def)

end
