(* ===== verification/Events.thy ===== *)
theory Events
  imports Shared_Types Json
begin

section \<open>Harness events (crates/shikigami-engine/src/events.rs, registry.rs)\<close>

text \<open>
  The events a run emits and the compact projection of each that the run's journal keeps: its
  name, its detail and its call id. The record of an edit outcome is a JSON document here.
\<close>

datatype harness_event =
    HE_Status string
  | HE_ToolStart string string string nat string \<comment> \<open>name, arguments, run id, turn, call id\<close>
  | HE_ToolEnd string bool string string nat string \<comment> \<open>name, ok, detail, run id, turn, call id\<close>
  | HE_EditOutcome json
  | HE_ModelTurn nat string
  | HE_ContentTurn nat nat "string list" "string list"
  | HE_Message string string
  | HE_RunFinished string bool string
  | HE_Prompt string
  | HE_ContextCompacted nat nat
  | HE_TodosUpdated string nat
  | HE_HandoffBrief string "string list" "string list" "string list"
  | HE_SessionMode string string "string option" "string list"

definition bool_text :: "bool \<Rightarrow> string" where
  "bool_text b = (if b then ''true'' else ''false'')"

fun event_name :: "harness_event \<Rightarrow> string" where
  "event_name (HE_Status _) = ''status''"
| "event_name (HE_ToolStart _ _ _ _ _) = ''tool_start''"
| "event_name (HE_ToolEnd _ _ _ _ _ _) = ''tool_end''"
| "event_name (HE_EditOutcome _) = ''edit_outcome''"
| "event_name (HE_ModelTurn _ _) = ''model_turn''"
| "event_name (HE_ContentTurn _ _ _ _) = ''content_turn''"
| "event_name (HE_Message _ _) = ''message''"
| "event_name (HE_RunFinished _ _ _) = ''run_finished''"
| "event_name (HE_Prompt _) = ''prompt''"
| "event_name (HE_ContextCompacted _ _) = ''context_compacted''"
| "event_name (HE_TodosUpdated _ _) = ''todos_updated''"
| "event_name (HE_HandoffBrief _ _ _ _) = ''handoff_brief''"
| "event_name (HE_SessionMode _ _ _ _) = ''session_mode''"

fun event_detail :: "harness_event \<Rightarrow> string option" where
  "event_detail (HE_EditOutcome _) = None"
| "event_detail (HE_Status status) = Some status"
| "event_detail (HE_ToolStart name _ _ _ call) =
     Some (if call = [] then name else name @ '' call_id='' @ call)"
| "event_detail (HE_ToolEnd name ok _ _ _ call) =
     Some (if call = [] then name @ '' ok='' @ bool_text ok
           else name @ '' ok='' @ bool_text ok @ '' call_id='' @ call)"
| "event_detail (HE_ModelTurn turn _) = Some (''turn='' @ dec_string turn)"
| "event_detail (HE_ContentTurn turn parts _ _) =
     Some (''turn='' @ dec_string turn @ '' parts='' @ dec_string parts)"
| "event_detail (HE_Message level _) = Some (''['' @ level @ '']'')"
| "event_detail (HE_RunFinished run ok _) = Some (''run='' @ run @ '' success='' @ bool_text ok)"
| "event_detail (HE_Prompt prompt_id) = Some prompt_id"
| "event_detail (HE_ContextCompacted before after) =
     Some (''before='' @ dec_string before @ '' after='' @ dec_string after)"
| "event_detail (HE_TodosUpdated _ item_count) = Some (''items='' @ dec_string item_count)"
| "event_detail (HE_HandoffBrief task _ files _) =
     Some (''task_chars='' @ dec_string (chars_count task) @ '' files='' @ dec_string (length files))"
| "event_detail (HE_SessionMode mode model _ _) = Some (''mode='' @ mode @ '' model='' @ model)"

fun event_call_id :: "harness_event \<Rightarrow> string option" where
  "event_call_id (HE_ToolStart _ _ _ _ call) = (if call = [] then None else Some call)"
| "event_call_id (HE_ToolEnd _ _ _ _ _ call) = (if call = [] then None else Some call)"
| "event_call_id _ = None"

record run_event_record =
  ev_schema_version :: nat
  ev_timestamp_ms :: nat
  ev_event :: string
  ev_detail :: "string option"
  ev_call_id :: "string option"
  ev_edit_outcome :: "json option"

definition event_record :: "nat \<Rightarrow> harness_event \<Rightarrow> run_event_record" where
  "event_record now e = \<lparr>ev_schema_version = 1, ev_timestamp_ms = now, ev_event = event_name e,
     ev_detail = event_detail e, ev_call_id = event_call_id e,
     ev_edit_outcome = (case e of HE_EditOutcome r \<Rightarrow> Some r | _ \<Rightarrow> None)\<rparr>"

end
