(* ===== verification/Registry.thy ===== *)
theory Registry
  imports Run_Types Events
begin

section \<open>The durable run registry (crates/shikigami-engine/src/registry.rs)\<close>

text \<open>
  The host-local record of every run, its ownership lease, its cancel markers and its tool
  execution claims. The state is what the operations keep on disk: per run the directory under
  \<open>runs\<close> (absent, or the files in it), and the markers under \<open>run-controls\<close>. A file's age is
  its modification time in milliseconds. \<open>io n\<close> says whether the \<open>n\<close>th kind of system call
  succeeds, and the temporary file of an atomic write is not part of the state. The per-run
  lock makes each operation atomic within one process; the interleaving of two processes
  that take over one lease is a step relation of its own. The watch channels by which one
  process wakes its own waiters are not modelled.
\<close>

definition RUN_REGISTRY_SCHEMA_VERSION :: nat where "RUN_REGISTRY_SCHEMA_VERSION = 1"

definition ACTIVE_HEARTBEAT_TTL_MS :: nat where "ACTIVE_HEARTBEAT_TTL_MS = 120000"

datatype registry_error = RGE_Io | RGE_Parse | RGE_InvalidRunId | RGE_Missing string | RGE_Active string
  | RGE_NotActive string | RGE_CancelledBeforeStart string | RGE_AlreadyClaimed string string

record run_record =
  rn_schema_version :: nat
  rn_run_id :: string
  rn_status :: string
  rn_success :: "bool option"
  rn_termination :: "string option"
  rn_summary :: string
  rn_task_digest :: string
  rn_logical_operation_id :: "string option"
  rn_workspace :: "string option"
  rn_artifact_dir :: "string option"
  rn_started_at_ms :: nat
  rn_last_started_at_ms :: nat
  rn_finished_at_ms :: "nat option"
  rn_process_id :: nat
  rn_last_heartbeat_at_ms :: nat
  rn_turns :: nat
  rn_usage :: token_usage
  rn_cost :: "cost_estimate option"
  rn_cancel_requested :: bool

record run_files =
  rf_record :: "string option"
  rf_owner :: "nat option"
  rf_local_cancel :: bool
  rf_claims :: "string list"
  rf_events :: string

definition empty_run_files :: run_files where
  "empty_run_files = \<lparr>rf_record = None, rf_owner = None, rf_local_cancel = False, rf_claims = [],
     rf_events = []\<rparr>"

record registry =
  rg_runs :: "string \<rightharpoonup> run_files"
  rg_cancel :: "string \<Rightarrow> bool"

record reg_env =
  en_encode :: "run_record \<Rightarrow> string option"
  en_decode :: "string \<Rightarrow> run_record option"
  en_encode_event :: "run_event_record \<Rightarrow> string option"
  en_sha :: "string \<Rightarrow> string"
  en_pid :: nat
  en_io :: "nat \<Rightarrow> bool"

subsection \<open>Reading\<close>

definition active_status :: "string \<Rightarrow> bool" where
  "active_status s \<longleftrightarrow> s = ''starting'' \<or> s = ''running''"

definition files_of :: "registry \<Rightarrow> string \<Rightarrow> run_files" where
  "files_of r run = (case rg_runs r run of Some f \<Rightarrow> f | None \<Rightarrow> empty_run_files)"

definition set_files :: "string \<Rightarrow> run_files \<Rightarrow> registry \<Rightarrow> registry" where
  "set_files run f r = r\<lparr>rg_runs := (rg_runs r)(run \<mapsto> f)\<rparr>"

definition mkdir :: "string \<Rightarrow> registry \<Rightarrow> registry" where
  "mkdir run r = set_files run (files_of r run) r"

definition cancel_requested :: "registry \<Rightarrow> string \<Rightarrow> bool" where
  "cancel_requested r run \<longleftrightarrow> rg_cancel r run \<or> (is_safe_run_id run \<and> rf_local_cancel (files_of r run))"

definition load_unlocked :: "reg_env \<Rightarrow> registry \<Rightarrow> string \<Rightarrow> (run_record, registry_error) result" where
  "load_unlocked en r run =
     (if \<not> is_safe_run_id run then Err RGE_InvalidRunId
      else case rf_record (files_of r run) of
        None \<Rightarrow> Err (RGE_Missing run)
      | Some raw \<Rightarrow>
        if \<not> en_io en 0 then Err RGE_Io
        else case en_decode en raw of
          None \<Rightarrow> Err RGE_Parse
        | Some rec \<Rightarrow> Ok (rec\<lparr>rn_cancel_requested :=
            active_status (rn_status rec) \<and> cancel_requested r run\<rparr>))"

definition registry_load :: "reg_env \<Rightarrow> registry \<Rightarrow> string \<Rightarrow> (run_record, registry_error) result" where
  "registry_load en r run = load_unlocked en r run"

text \<open>A modification time in the future has no elapsed time.\<close>

definition elapsed :: "nat \<Rightarrow> nat \<Rightarrow> nat option" where
  "elapsed now mtime = (if mtime \<le> now then Some (now - mtime) else None)"

definition owner_lease_is_live :: "nat \<Rightarrow> registry \<Rightarrow> string \<Rightarrow> run_record \<Rightarrow> bool" where
  "owner_lease_is_live now r run rec \<longleftrightarrow>
     now - rn_last_heartbeat_at_ms rec < ACTIVE_HEARTBEAT_TTL_MS \<or>
     (case rf_owner (files_of r run) of
        None \<Rightarrow> False
      | Some m \<Rightarrow> (case elapsed now m of None \<Rightarrow> False | Some age \<Rightarrow> age < ACTIVE_HEARTBEAT_TTL_MS))"

definition run_is_active :: "reg_env \<Rightarrow> nat \<Rightarrow> registry \<Rightarrow> string \<Rightarrow> (bool, registry_error) result" where
  "run_is_active en now r run = and_then (load_unlocked en r run)
     (\<lambda>rec. Ok (active_status (rn_status rec) \<and> owner_lease_is_live now r run rec))"

text \<open>Listing reads every run directory, in the order \<open>entries\<close> of the directory, and sorts by
  the last start, newest first.\<close>

fun read_records :: "reg_env \<Rightarrow> registry \<Rightarrow> string list \<Rightarrow> (run_record list, registry_error) result" where
  "read_records en r [] = Ok []"
| "read_records en r (run # runs) =
     (case rg_runs r run of
        None \<Rightarrow> read_records en r runs
      | Some f \<Rightarrow> (case rf_record f of
          None \<Rightarrow> read_records en r runs
        | Some raw \<Rightarrow>
          if \<not> en_io en 0 then Err RGE_Io
          else (case en_decode en raw of
            None \<Rightarrow> Err RGE_Parse
          | Some rec \<Rightarrow> and_then (read_records en r runs) (\<lambda>recs.
              Ok (rec\<lparr>rn_cancel_requested := active_status (rn_status rec) \<and>
                    cancel_requested r (rn_run_id rec)\<rparr> # recs)))))"

definition registry_list :: "reg_env \<Rightarrow> registry \<Rightarrow> string list \<Rightarrow> (run_record list, registry_error) result" where
  "registry_list en r entries = and_then (read_records en r entries)
     (\<lambda>recs. Ok (sort_key (\<lambda>rec. - int (rn_last_started_at_ms rec)) recs))"

subsection \<open>Writing\<close>

type_synonym 'a reg_result = "registry \<times> ('a, registry_error) result"

definition write_record :: "reg_env \<Rightarrow> registry \<Rightarrow> run_record \<Rightarrow> unit reg_result" where
  "write_record en r rec =
     (let run = rn_run_id rec in
      if \<not> is_safe_run_id run then (r, Err RGE_InvalidRunId)
      else if \<not> en_io en 1 then (r, Err RGE_Io)
      else let r1 = mkdir run r in
        case en_encode en rec of
          None \<Rightarrow> (r1, Err RGE_Parse)
        | Some raw \<Rightarrow>
          if \<not> en_io en 2 then (r1, Err RGE_Io)
          else (set_files run ((files_of r1 run)\<lparr>rf_record := Some raw\<rparr>) r1, Ok ()))"

definition remove_owner_unlocked :: "reg_env \<Rightarrow> registry \<Rightarrow> string \<Rightarrow> unit reg_result" where
  "remove_owner_unlocked en r run =
     (if \<not> is_safe_run_id run then (r, Err RGE_InvalidRunId)
      else if rf_owner (files_of r run) = None then (r, Ok ())
      else if \<not> en_io en 3 then (r, Err RGE_Io)
      else (set_files run ((files_of r run)\<lparr>rf_owner := None\<rparr>) r, Ok ()))"

definition clear_cancel_unlocked :: "reg_env \<Rightarrow> registry \<Rightarrow> string \<Rightarrow> unit reg_result" where
  "clear_cancel_unlocked en r run =
     (if rg_cancel r run \<and> \<not> en_io en 4 then (r, Err RGE_Io)
      else let r1 = r\<lparr>rg_cancel := (rg_cancel r)(run := False)\<rparr> in
        if \<not> is_safe_run_id run then (r1, Err RGE_InvalidRunId)
        else if \<not> rf_local_cancel (files_of r1 run) then (r1, Ok ())
        else if \<not> en_io en 5 then (r1, Err RGE_Io)
        else (set_files run ((files_of r1 run)\<lparr>rf_local_cancel := False\<rparr>) r1, Ok ()))"

definition clear_cancel :: "reg_env \<Rightarrow> registry \<Rightarrow> string \<Rightarrow> unit reg_result" where
  "clear_cancel en r run =
     (if \<not> is_safe_run_id run then (r, Err RGE_InvalidRunId) else clear_cancel_unlocked en r run)"

text \<open>Truncating the owner file fails when it is not there.\<close>

definition touch_owner_unlocked :: "reg_env \<Rightarrow> nat \<Rightarrow> registry \<Rightarrow> string \<Rightarrow> unit reg_result" where
  "touch_owner_unlocked en now r run =
     (if \<not> is_safe_run_id run then (r, Err RGE_InvalidRunId)
      else if rf_owner (files_of r run) = None \<or> \<not> en_io en 6 then (r, Err RGE_Io)
      else let r1 = set_files run ((files_of r run)\<lparr>rf_owner := Some now\<rparr>) r
        in (r1, if en_io en 7 then Ok () else Err RGE_Io))"

definition owner_is_stale :: "nat \<Rightarrow> nat \<Rightarrow> bool" where
  "owner_is_stale now m \<longleftrightarrow> (case elapsed now m of None \<Rightarrow> False | Some age \<Rightarrow> ACTIVE_HEARTBEAT_TTL_MS \<le> age)"

text \<open>\<open>left\<close> counts the attempts that remain; the lease is removed on the first only.\<close>

fun acquire_loop :: "reg_env \<Rightarrow> nat \<Rightarrow> string \<Rightarrow> nat \<Rightarrow> run_files \<Rightarrow> run_files \<times> (unit, registry_error) result" where
  "acquire_loop en now run 0 f = (f, Err (RGE_Active run))"
| "acquire_loop en now run (Suc left) f =
     (case rf_owner f of
        None \<Rightarrow>
          if \<not> en_io en 8 then (f, Err RGE_Io)
          else (f\<lparr>rf_owner := Some now\<rparr>, if en_io en 9 then Ok () else Err RGE_Io)
      | Some m \<Rightarrow>
          if left = 1 \<and> owner_is_stale now m
          then acquire_loop en now run left (if en_io en 10 then f\<lparr>rf_owner := None\<rparr> else f)
          else (f, Err (RGE_Active run)))"

definition acquire_owner_unlocked :: "reg_env \<Rightarrow> nat \<Rightarrow> registry \<Rightarrow> string \<Rightarrow> unit reg_result" where
  "acquire_owner_unlocked en now r run =
     (if \<not> is_safe_run_id run then (r, Err RGE_InvalidRunId)
      else let (f, res) = acquire_loop en now run 2 (files_of r run) in (set_files run f r, res))"

subsection \<open>Starting a run\<close>

definition nonempty_opt :: "string option \<Rightarrow> string option" where
  "nonempty_opt v = (case v of None \<Rightarrow> None | Some s \<Rightarrow> if s = [] then None else Some s)"

definition fresh_record :: "reg_env \<Rightarrow> nat \<Rightarrow> string \<Rightarrow> string \<Rightarrow> string option \<Rightarrow> string option \<Rightarrow> run_record" where
  "fresh_record en now run task logical workspace =
     \<lparr>rn_schema_version = RUN_REGISTRY_SCHEMA_VERSION, rn_run_id = run, rn_status = ''running'',
      rn_success = None, rn_termination = None, rn_summary = [],
      rn_task_digest = sha256_prefixed (en_sha en) task, rn_logical_operation_id = nonempty_opt logical,
      rn_workspace = workspace, rn_artifact_dir = None, rn_started_at_ms = now,
      rn_last_started_at_ms = now, rn_finished_at_ms = None, rn_process_id = en_pid en,
      rn_last_heartbeat_at_ms = now, rn_turns = 0, rn_usage = usage_zero, rn_cost = None,
      rn_cancel_requested = False\<rparr>"

definition restart_record :: "reg_env \<Rightarrow> nat \<Rightarrow> string \<Rightarrow> string option \<Rightarrow> string option \<Rightarrow> run_record \<Rightarrow> run_record" where
  "restart_record en now task logical workspace rec =
     rec\<lparr>rn_status := ''running'', rn_success := None, rn_termination := None, rn_summary := [],
       rn_task_digest := sha256_prefixed (en_sha en) task,
       rn_logical_operation_id := (case nonempty_opt logical of
          Some l \<Rightarrow> Some l | None \<Rightarrow> rn_logical_operation_id rec),
       rn_workspace := workspace, rn_artifact_dir := None, rn_last_started_at_ms := now,
       rn_finished_at_ms := None, rn_process_id := en_pid en, rn_last_heartbeat_at_ms := now,
       rn_turns := 0, rn_usage := usage_zero, rn_cost := None, rn_cancel_requested := False\<rparr>"

text \<open>
  \<open>late\<close> says that another process wrote the cancel marker between the two looks for it. A
  record that cannot be written gives the owner file back.
\<close>

definition start_write :: "reg_env \<Rightarrow> registry \<Rightarrow> string \<Rightarrow> run_record \<Rightarrow> unit reg_result" where
  "start_write en r run rec =
     (case write_record en r rec of
        (r1, Inl e) \<Rightarrow> (fst (remove_owner_unlocked en r1 run), Err e)
      | (r1, Inr _) \<Rightarrow> (r1, Ok ()))"

definition start_owned :: "reg_env \<Rightarrow> nat \<Rightarrow> bool \<Rightarrow> registry \<Rightarrow> string \<Rightarrow> string \<Rightarrow> string option \<Rightarrow>
    string option \<Rightarrow> run_record option \<Rightarrow> unit reg_result" where
  "start_owned en now late r run task logical workspace existing =
     (case existing of
        Some rec \<Rightarrow>
          (case clear_cancel_unlocked en r run of
             (r1, Inl e) \<Rightarrow> (r1, Err e)
           | (r1, Inr _) \<Rightarrow> start_write en r1 run (restart_record en now task logical workspace rec))
      | None \<Rightarrow>
          (let r0 = (if late then r\<lparr>rg_cancel := (rg_cancel r)(run := True)\<rparr> else r) in
           if rg_cancel r0 run
           then (fst (remove_owner_unlocked en r0 run), Err (RGE_CancelledBeforeStart run))
           else case clear_cancel_unlocked en r0 run of
             (r1, Inl e) \<Rightarrow> (r1, Err e)
           | (r1, Inr _) \<Rightarrow> start_write en r1 run (fresh_record en now run task logical workspace)))"

definition registry_start :: "reg_env \<Rightarrow> nat \<Rightarrow> bool \<Rightarrow> registry \<Rightarrow> string \<Rightarrow> string \<Rightarrow> string option \<Rightarrow>
    string option \<Rightarrow> unit reg_result" where
  "registry_start en now late r run task logical workspace =
     (if \<not> is_safe_run_id run then (r, Err RGE_InvalidRunId)
      else if \<not> en_io en 11 then (r, Err RGE_Io)
      else let r1 = mkdir run r in
        case (case load_unlocked en r1 run of
                Inr rec \<Rightarrow> Ok (Some rec)
              | Inl (RGE_Missing _) \<Rightarrow> Ok None
              | Inl e \<Rightarrow> Err e) of
          Inl e \<Rightarrow> (r1, Err e)
        | Inr existing \<Rightarrow>
          if (case existing of None \<Rightarrow> False
              | Some rec \<Rightarrow> active_status (rn_status rec) \<and>
                  now - rn_last_heartbeat_at_ms rec < ACTIVE_HEARTBEAT_TTL_MS)
          then (r1, Err (RGE_Active run))
          else if existing = None \<and> rg_cancel r1 run then (r1, Err (RGE_CancelledBeforeStart run))
          else case acquire_owner_unlocked en now r1 run of
            (r2, Inl e) \<Rightarrow> (r2, Err e)
          | (r2, Inr _) \<Rightarrow> start_owned en now late r2 run task logical workspace existing)"

subsection \<open>Updating and finishing a run\<close>

definition with_record :: "reg_env \<Rightarrow> registry \<Rightarrow> string \<Rightarrow> (run_record \<Rightarrow> unit reg_result) \<Rightarrow> unit reg_result" where
  "with_record en r run k =
     (case load_unlocked en r run of Inl e \<Rightarrow> (r, Err e) | Inr rec \<Rightarrow> k rec)"

definition then_do :: "unit reg_result \<Rightarrow> (registry \<Rightarrow> unit reg_result) \<Rightarrow> unit reg_result" where
  "then_do res k = (case res of (r, Inl e) \<Rightarrow> (r, Err e) | (r, Inr _) \<Rightarrow> k r)"

definition set_workspace :: "reg_env \<Rightarrow> registry \<Rightarrow> string \<Rightarrow> string \<Rightarrow> unit reg_result" where
  "set_workspace en r run workspace = with_record en r run
     (\<lambda>rec. write_record en r (rec\<lparr>rn_workspace := Some workspace\<rparr>))"

definition update_running :: "reg_env \<Rightarrow> nat \<Rightarrow> registry \<Rightarrow> string \<Rightarrow> string \<Rightarrow> string option \<Rightarrow> string \<Rightarrow>
    nat \<Rightarrow> unit reg_result" where
  "update_running en now r run task logical workspace turns = with_record en r run
     (\<lambda>rec. then_do
        (write_record en r (rec\<lparr>rn_status := ''running'', rn_task_digest := sha256_prefixed (en_sha en) task,
           rn_logical_operation_id := (case nonempty_opt logical of
              Some l \<Rightarrow> Some l | None \<Rightarrow> rn_logical_operation_id rec),
           rn_workspace := Some workspace, rn_turns := turns, rn_last_heartbeat_at_ms := now\<rparr>))
        (\<lambda>r1. touch_owner_unlocked en now r1 run))"

definition heartbeat :: "reg_env \<Rightarrow> nat \<Rightarrow> registry \<Rightarrow> string \<Rightarrow> unit reg_result" where
  "heartbeat en now r run = with_record en r run
     (\<lambda>rec. if \<not> active_status (rn_status rec) then (r, Err (RGE_NotActive run))
       else then_do (write_record en r (rec\<lparr>rn_last_heartbeat_at_ms := now\<rparr>))
         (\<lambda>r1. touch_owner_unlocked en now r1 run))"

definition set_artifact_dir :: "reg_env \<Rightarrow> registry \<Rightarrow> string \<Rightarrow> string \<Rightarrow> unit reg_result" where
  "set_artifact_dir en r run dir = with_record en r run
     (\<lambda>rec. write_record en r (rec\<lparr>rn_artifact_dir := Some dir\<rparr>))"

definition finish_result :: "reg_env \<Rightarrow> nat \<Rightarrow> nat \<Rightarrow> registry \<Rightarrow> run_result \<Rightarrow> unit reg_result" where
  "finish_result en now now' r result = with_record en r (rr_run_id result)
     (\<lambda>rec. then_do (clear_cancel_unlocked en r (rr_run_id result))
        (\<lambda>r1. then_do
          (write_record en r1 (rec\<lparr>rn_status := termination_text (rr_termination result),
             rn_success := Some (rr_success result),
             rn_termination := Some (termination_text (rr_termination result)),
             rn_summary := rr_summary result, rn_workspace := Some (rr_workspace result),
             rn_artifact_dir := rr_artifact_dir result, rn_finished_at_ms := Some now,
             rn_turns := rr_turns result, rn_usage := rr_usage result, rn_cost := rr_cost result,
             rn_cancel_requested := False, rn_last_heartbeat_at_ms := now'\<rparr>))
          (\<lambda>r2. remove_owner_unlocked en r2 (rr_run_id result))))"

text \<open>\<open>shown\<close> is the error's \<open>Display\<close> text.\<close>

definition finish_error :: "reg_env \<Rightarrow> nat \<Rightarrow> nat \<Rightarrow> registry \<Rightarrow> string \<Rightarrow> run_error \<Rightarrow> string \<Rightarrow> unit reg_result" where
  "finish_error en now now' r run error shown = with_record en r run
     (\<lambda>rec. then_do (clear_cancel_unlocked en r run)
        (\<lambda>r1. then_do
          (write_record en r1 (rec\<lparr>rn_status := termination_text (error_termination error),
             rn_success := Some False,
             rn_termination := Some (termination_text (error_termination error)),
             rn_summary := shown, rn_finished_at_ms := Some now, rn_cancel_requested := False,
             rn_last_heartbeat_at_ms := now'\<rparr>))
          (\<lambda>r2. remove_owner_unlocked en r2 run)))"

subsection \<open>Cancelling and cleaning\<close>

definition write_cancel_marker :: "reg_env \<Rightarrow> registry \<Rightarrow> string \<Rightarrow> unit reg_result" where
  "write_cancel_marker en r run =
     (if \<not> en_io en 12 then (r, Err RGE_Io)
      else (r\<lparr>rg_cancel := (rg_cancel r)(run := True)\<rparr>, Ok ()))"

definition registry_cancel :: "reg_env \<Rightarrow> registry \<Rightarrow> string \<Rightarrow> unit reg_result" where
  "registry_cancel en r run = with_record en r run
     (\<lambda>rec. if \<not> active_status (rn_status rec) then (r, Err (RGE_NotActive run))
       else write_cancel_marker en r run)"

definition request_cancel :: "reg_env \<Rightarrow> registry \<Rightarrow> string \<Rightarrow> unit reg_result" where
  "request_cancel en r run =
     (case load_unlocked en r run of
        Inr rec \<Rightarrow> if \<not> active_status (rn_status rec) then (r, Err (RGE_NotActive run))
                   else write_cancel_marker en r run
      | Inl (RGE_Missing _) \<Rightarrow> if \<not> en_io en 13 then (r, Err RGE_Io) else write_cancel_marker en r run
      | Inl e \<Rightarrow> (r, Err e))"

text \<open>A removal that fails half way leaves the files that \<open>keep\<close> selects by name.\<close>

definition left_over :: "(string \<Rightarrow> bool) \<Rightarrow> run_files \<Rightarrow> run_files" where
  "left_over keep f = \<lparr>rf_record = (if keep ''run.json'' then rf_record f else None),
     rf_owner = (if keep ''owner'' then rf_owner f else None),
     rf_local_cancel = (keep ''cancel'' \<and> rf_local_cancel f), rf_claims = filter keep (rf_claims f),
     rf_events = (if keep ''events.jsonl'' then rf_events f else [])\<rparr>"

definition registry_clean :: "reg_env \<Rightarrow> nat \<Rightarrow> (string \<Rightarrow> bool) \<Rightarrow> registry \<Rightarrow> string \<Rightarrow> bool \<Rightarrow> unit reg_result" where
  "registry_clean en now keep r run force = with_record en r run
     (\<lambda>rec. if active_status (rn_status rec) \<and> owner_lease_is_live now r run rec then
          (if \<not> force then (r, Err (RGE_Active run))
           else then_do (write_cancel_marker en r run) (\<lambda>r1. (r1, Err (RGE_Active run))))
        else then_do (clear_cancel_unlocked en r run)
          (\<lambda>r1. if en_io en 14 then (r1\<lparr>rg_runs := (rg_runs r1)(run := None)\<rparr>, Ok ())
                else (set_files run (left_over keep (files_of r1 run)) r1, Err RGE_Io)))"

subsection \<open>Execution claims and the journal\<close>

definition claim_filename :: "reg_env \<Rightarrow> string \<Rightarrow> string" where
  "claim_filename en call = sha256_hex (en_sha en) call @ ''.claim''"

text \<open>A file that exists is a claim, also when its contents could not be written.\<close>

definition claim_tool_execution :: "reg_env \<Rightarrow> registry \<Rightarrow> string \<Rightarrow> string \<Rightarrow> unit reg_result" where
  "claim_tool_execution en r run call =
     (if \<not> is_safe_run_id run then (r, Err RGE_InvalidRunId)
      else if \<not> en_io en 15 then (r, Err RGE_Io)
      else let r1 = mkdir run r; f = files_of r1 run; name = claim_filename en call in
        if name \<in> set (rf_claims f) then (r1, Err (RGE_AlreadyClaimed run call))
        else if \<not> en_io en 16 then (r1, Err RGE_Io)
        else (set_files run (f\<lparr>rf_claims := name # rf_claims f\<rparr>) r1,
              if en_io en 17 then Ok () else Err RGE_Io))"

definition tool_execution_is_claimed :: "reg_env \<Rightarrow> registry \<Rightarrow> string \<Rightarrow> string \<Rightarrow> (bool, registry_error) result" where
  "tool_execution_is_claimed en r run call =
     (if \<not> is_safe_run_id run then Err RGE_InvalidRunId
      else Ok (claim_filename en call \<in> set (rf_claims (files_of r run))))"

definition append_event :: "reg_env \<Rightarrow> nat \<Rightarrow> registry \<Rightarrow> string \<Rightarrow> harness_event \<Rightarrow> registry" where
  "append_event en now r run event =
     (if \<not> is_safe_run_id run \<or> \<not> en_io en 18 then r
      else let r1 = mkdir run r in
        case en_encode_event en (event_record now event) of
          None \<Rightarrow> r1
        | Some line \<Rightarrow>
          if \<not> en_io en 19 then r1
          else let f = files_of r1 run in
            set_files run (f\<lparr>rf_events := rf_events f @ line @ [byte 10]\<rparr>) r1)"

definition event_log :: "reg_env \<Rightarrow> registry \<Rightarrow> string \<Rightarrow> (string, registry_error) result" where
  "event_log en r run = and_then (registry_load en r run)
     (\<lambda>_. if en_io en 20 then Ok (rf_events (files_of r run)) else Err RGE_Io)"

subsection \<open>The record of a run as the decoder sees it\<close>

definition stored :: "reg_env \<Rightarrow> registry \<Rightarrow> string \<rightharpoonup> run_record" where
  "stored en r run = (case rf_record (files_of r run) of None \<Rightarrow> None | Some raw \<Rightarrow> en_decode en raw)"

definition claims :: "registry \<Rightarrow> string \<Rightarrow> string list" where
  "claims r run = rf_claims (files_of r run)"

definition codec_ok :: "reg_env \<Rightarrow> bool" where
  "codec_ok en \<longleftrightarrow> (\<forall>rec raw. en_encode en rec = Some raw \<longrightarrow> en_decode en raw = Some rec)"

definition own_ids :: "reg_env \<Rightarrow> registry \<Rightarrow> bool" where
  "own_ids en r \<longleftrightarrow> (\<forall>run rec. stored en r run = Some rec \<longrightarrow> rn_run_id rec = run)"

lemma files_of_set [simp]: "files_of (set_files a f r) b = (if a = b then f else files_of r b)"
  by (simp add: files_of_def set_files_def)

lemma files_of_mkdir [simp]: "files_of (mkdir a r) b = files_of r b"
  by (simp add: mkdir_def)

lemma files_of_cancel [simp]: "files_of (r\<lparr>rg_cancel := c\<rparr>) b = files_of r b"
  by (simp add: files_of_def)

lemma rg_cancel_set [simp]: "rg_cancel (set_files a f r) = rg_cancel r" "rg_cancel (mkdir a r) = rg_cancel r"
  by (simp_all add: set_files_def mkdir_def)

lemma stored_mkdir [simp]: "stored en (mkdir a r) = stored en r" "claims (mkdir a r) = claims r"
  by (simp_all add: stored_def claims_def fun_eq_iff)

lemma stored_cancel [simp]: "stored en (r\<lparr>rg_cancel := c\<rparr>) = stored en r" "claims (r\<lparr>rg_cancel := c\<rparr>) = claims r"
  by (simp_all add: stored_def claims_def fun_eq_iff)

lemma stored_set_keep:
  "rf_record f = rf_record (files_of r run) \<Longrightarrow> stored en (set_files run f r) = stored en r"
  "rf_claims f = rf_claims (files_of r run) \<Longrightarrow> claims (set_files run f r) = claims r"
  by (simp_all add: stored_def claims_def fun_eq_iff)

lemma load_Ok:
  assumes "load_unlocked en r run = Ok rec"
  shows "is_safe_run_id run \<and> (\<exists>rec0. stored en r run = Some rec0 \<and>
      rec = rec0\<lparr>rn_cancel_requested := active_status (rn_status rec0) \<and> cancel_requested r run\<rparr>)"
  using assms by (auto simp: load_unlocked_def stored_def split: if_splits option.splits)

lemma load_stored:
  assumes "stored en r run = Some rec" and "is_safe_run_id run" and "en_io en 0"
  shows "load_unlocked en r run =
      Ok (rec\<lparr>rn_cancel_requested := active_status (rn_status rec) \<and> cancel_requested r run\<rparr>)"
  using assms by (auto simp: load_unlocked_def stored_def split: option.splits)

lemma load_not_missing:
  assumes "stored en r run = Some rec"
  shows "load_unlocked en r run \<noteq> Err (RGE_Missing m)"
  using assms by (auto simp: load_unlocked_def stored_def split: option.splits if_splits)

lemma stored_write:
  assumes "codec_ok en"
  shows "stored en (fst (write_record en r rec)) =
      (if is_ok (snd (write_record en r rec)) then (stored en r)(rn_run_id rec \<mapsto> rec) else stored en r)"
  using assms
  by (auto simp: write_record_def Let_def codec_ok_def stored_def fun_eq_iff split: option.splits)

lemma stored_remove_owner [simp]: "stored en' (fst (remove_owner_unlocked en r run)) = stored en' r"
  by (simp add: remove_owner_unlocked_def stored_set_keep)

lemma stored_clear_cancel [simp]: "stored en' (fst (clear_cancel_unlocked en r run)) = stored en' r"
  by (simp add: clear_cancel_unlocked_def Let_def stored_set_keep)

lemma stored_touch_owner [simp]: "stored en' (fst (touch_owner_unlocked en now r run)) = stored en' r"
  by (simp add: touch_owner_unlocked_def Let_def stored_set_keep)

lemma acquire_loop_keeps:
  "rf_record (fst (acquire_loop en now run n f)) = rf_record f \<and>
   rf_claims (fst (acquire_loop en now run n f)) = rf_claims f"
  by (induction en now run n f rule: acquire_loop.induct) (auto split: option.splits)

lemma stored_acquire [simp]: "stored en' (fst (acquire_owner_unlocked en now r run)) = stored en' r"
  using acquire_loop_keeps [of en now run 2 "files_of r run"]
  by (auto simp: acquire_owner_unlocked_def stored_set_keep split: prod.splits)

lemma stored_write_cancel [simp]: "stored en' (fst (write_cancel_marker en r run)) = stored en' r"
  by (simp add: write_cancel_marker_def)

lemma claims_write [simp]: "claims (fst (write_record en r rec)) = claims r"
  by (auto simp: write_record_def Let_def claims_def fun_eq_iff split: option.splits)

lemma claims_remove_owner [simp]: "claims (fst (remove_owner_unlocked en r run)) = claims r"
  by (simp add: remove_owner_unlocked_def stored_set_keep)

lemma claims_clear_cancel [simp]: "claims (fst (clear_cancel_unlocked en r run)) = claims r"
  by (simp add: clear_cancel_unlocked_def Let_def stored_set_keep)

lemma claims_touch_owner [simp]: "claims (fst (touch_owner_unlocked en now r run)) = claims r"
  by (simp add: touch_owner_unlocked_def Let_def stored_set_keep)

lemma claims_acquire [simp]: "claims (fst (acquire_owner_unlocked en now r run)) = claims r"
  using acquire_loop_keeps [of en now run 2 "files_of r run"]
  by (auto simp: acquire_owner_unlocked_def stored_set_keep split: prod.splits)

lemma claims_write_cancel [simp]: "claims (fst (write_cancel_marker en r run)) = claims r"
  by (simp add: write_cancel_marker_def)

lemma fst_then_do: "fst (then_do res k) = (if is_ok (snd res) then fst (k (fst res)) else fst res)"
  by (cases res; cases "snd res") (auto simp: then_do_def)

lemma snd_then_do_Ok: "is_ok (snd (then_do res k)) \<longleftrightarrow> is_ok (snd res) \<and> is_ok (snd (k (fst res)))"
  by (cases res; cases "snd res") (auto simp: then_do_def)

subsection \<open>Sequences of operations\<close>

datatype reg_op =
    RO_Start bool string string "string option" "string option"
  | RO_Set_Workspace string string
  | RO_Update string string "string option" string nat
  | RO_Heartbeat string
  | RO_Set_Artifact_Dir string string
  | RO_Finish_Result run_result
  | RO_Finish_Error string run_error string
  | RO_Cancel string
  | RO_Request_Cancel string
  | RO_Clear_Cancel string
  | RO_Clean "string \<Rightarrow> bool" string bool
  | RO_Claim string string
  | RO_Event string harness_event

fun op_run :: "reg_op \<Rightarrow> string" where
  "op_run (RO_Start _ run _ _ _) = run"
| "op_run (RO_Set_Workspace run _) = run"
| "op_run (RO_Update run _ _ _ _) = run"
| "op_run (RO_Heartbeat run) = run"
| "op_run (RO_Set_Artifact_Dir run _) = run"
| "op_run (RO_Finish_Result result) = rr_run_id result"
| "op_run (RO_Finish_Error run _ _) = run"
| "op_run (RO_Cancel run) = run"
| "op_run (RO_Request_Cancel run) = run"
| "op_run (RO_Clear_Cancel run) = run"
| "op_run (RO_Clean _ run _) = run"
| "op_run (RO_Claim run _) = run"
| "op_run (RO_Event run _) = run"

text \<open>An operation at time \<open>now\<close>; each has its own outcome of the system calls.\<close>

fun reg_step :: "reg_env \<Rightarrow> nat \<Rightarrow> reg_op \<Rightarrow> registry \<Rightarrow> unit reg_result" where
  "reg_step en now (RO_Start late run task logical workspace) r = registry_start en now late r run task logical workspace"
| "reg_step en now (RO_Set_Workspace run w) r = set_workspace en r run w"
| "reg_step en now (RO_Update run task logical w turns) r = update_running en now r run task logical w turns"
| "reg_step en now (RO_Heartbeat run) r = heartbeat en now r run"
| "reg_step en now (RO_Set_Artifact_Dir run dir) r = set_artifact_dir en r run dir"
| "reg_step en now (RO_Finish_Result result) r = finish_result en now now r result"
| "reg_step en now (RO_Finish_Error run e shown) r = finish_error en now now r run e shown"
| "reg_step en now (RO_Cancel run) r = registry_cancel en r run"
| "reg_step en now (RO_Request_Cancel run) r = request_cancel en r run"
| "reg_step en now (RO_Clear_Cancel run) r = clear_cancel en r run"
| "reg_step en now (RO_Clean keep run force) r = registry_clean en now keep r run force"
| "reg_step en now (RO_Claim run call) r = claim_tool_execution en r run call"
| "reg_step en now (RO_Event run e) r = (append_event en now r run e, Ok ())"

record reg_call =
  rl_now :: nat
  rl_pid :: nat
  rl_io :: "nat \<Rightarrow> bool"
  rl_op :: reg_op

definition reg_call_step :: "reg_env \<Rightarrow> reg_call \<Rightarrow> registry \<Rightarrow> unit reg_result" where
  "reg_call_step en l r = reg_step (en\<lparr>en_pid := rl_pid l, en_io := rl_io l\<rparr>) (rl_now l) (rl_op l) r"

fun reg_run :: "reg_env \<Rightarrow> reg_call list \<Rightarrow> registry \<Rightarrow> registry" where
  "reg_run en [] r = r"
| "reg_run en (l # ls) r = reg_run en ls (fst (reg_call_step en l r))"

subsection \<open>What each operation does to the records\<close>

lemma stored_env [simp]:
  "stored (en\<lparr>en_pid := p, en_io := i\<rparr>) = stored en" "codec_ok (en\<lparr>en_pid := p, en_io := i\<rparr>) = codec_ok en"
  "own_ids (en\<lparr>en_pid := p, en_io := i\<rparr>) r = own_ids en r"
  by (simp_all add: stored_def codec_ok_def own_ids_def fun_eq_iff cong: option.case_cong)

text \<open>\<open>record_step P en r run r'\<close>: the records are unchanged, or exactly the record of \<open>run\<close> was
  replaced, in a way that \<open>P\<close> allows.\<close>

definition record_step :: "(run_record \<Rightarrow> run_record \<Rightarrow> bool) \<Rightarrow> reg_env \<Rightarrow> registry \<Rightarrow> string \<Rightarrow> registry \<Rightarrow> bool" where
  "record_step P en r run r' \<longleftrightarrow> stored en r' = stored en r \<or>
     (\<exists>rec rec'. stored en r run = Some rec \<and> stored en r' = (stored en r)(run \<mapsto> rec') \<and>
        rn_run_id rec' = rn_run_id rec \<and> P rec rec')"

lemma record_step_same: "stored en r' = stored en r \<Longrightarrow> record_step P en r run r'"
  by (simp add: record_step_def)

lemma record_step_mono: "record_step P en r run r' \<Longrightarrow> (\<And>a b. P a b \<Longrightarrow> Q a b) \<Longrightarrow> record_step Q en r run r'"
  unfolding record_step_def by blast

lemma record_step_write:
  assumes "codec_ok en" and "own_ids en r" and "load_unlocked en r run = Ok rec"
    and "stored en r1 = stored en r"
    and "rn_run_id new = rn_run_id rec"
    and "\<And>rec0. rn_run_id rec0 = run \<Longrightarrow>
      rec = rec0\<lparr>rn_cancel_requested := active_status (rn_status rec0) \<and> cancel_requested r run\<rparr> \<Longrightarrow> P rec0 new"
  shows "record_step P en r run (fst (write_record en r1 new))"
proof -
  obtain rec0 where 0: "stored en r run = Some rec0"
      "rec = rec0\<lparr>rn_cancel_requested := active_status (rn_status rec0) \<and> cancel_requested r run\<rparr>"
    using load_Ok [OF assms(3)] by blast
  have id: "rn_run_id rec0 = run" using assms(2) 0(1) by (simp add: own_ids_def)
  have id': "rn_run_id new = run" using id 0(2) assms(5) by simp
  have P: "P rec0 new" using assms(6) [OF id 0(2)] .
  show ?thesis
  proof (cases "is_ok (snd (write_record en r1 new))")
    case True
    then have "stored en (fst (write_record en r1 new)) = (stored en r)(run \<mapsto> new)"
      using stored_write [OF assms(1), of r1 "new"] id' assms(4) by simp
    then show ?thesis unfolding record_step_def using 0(1) P id id' by auto
  next
    case False
    then show ?thesis using stored_write [OF assms(1), of r1 "new"] assms(4) by (simp add: record_step_same)
  qed
qed

lemma record_step_with_record:
  assumes "\<And>rec. load_unlocked en r run = Ok rec \<Longrightarrow> record_step P en r run (fst (k rec))"
  shows "record_step P en r run (fst (with_record en r run k))"
  using assms by (cases "load_unlocked en r run") (auto simp: with_record_def record_step_same)

lemma record_step_then_same:
  assumes "record_step P en r run (fst res)" and "\<And>r1. stored en (fst (k r1)) = stored en r1"
  shows "record_step P en r run (fst (then_do res k))"
  using assms by (auto simp: fst_then_do record_step_def)

definition keeps_lease :: "nat \<Rightarrow> run_record \<Rightarrow> run_record \<Rightarrow> bool" where
  "keeps_lease t a b \<longleftrightarrow> (active_status (rn_status a) \<longrightarrow> active_status (rn_status b)) \<and>
     (rn_last_heartbeat_at_ms b = rn_last_heartbeat_at_ms a \<or> t \<le> rn_last_heartbeat_at_ms b)"

lemma update_keeps_lease:
  assumes "codec_ok en" and "own_ids en r" and "t \<le> now"
  shows "record_step (keeps_lease t) en r run (fst (set_workspace en r run w))"
    and "record_step (keeps_lease t) en r run (fst (set_artifact_dir en r run d))"
    and "record_step (keeps_lease t) en r run (fst (update_running en now r run task logical w turns))"
    and "record_step (keeps_lease t) en r run (fst (heartbeat en now r run))"
  unfolding set_workspace_def set_artifact_dir_def update_running_def heartbeat_def
  by (rule record_step_with_record, fastforce intro!: record_step_then_same record_step_write [OF assms(1,2)]
        simp: keeps_lease_def active_status_def assms(3) record_step_same)+

definition own_effect :: "reg_env \<Rightarrow> registry \<Rightarrow> string \<Rightarrow> registry \<Rightarrow> bool" where
  "own_effect en r run r' \<longleftrightarrow> (\<exists>v. stored en r' = (stored en r)(run := v) \<and>
     (\<forall>rec. v = Some rec \<longrightarrow> rn_run_id rec = run))"

lemma own_effect_same: "own_ids en r \<Longrightarrow> stored en r' = stored en r \<Longrightarrow> own_effect en r run r'"
  unfolding own_effect_def own_ids_def by (rule exI [of _ "stored en r run"]) simp

lemma own_effect_record_step: "own_ids en r \<Longrightarrow> record_step P en r run r' \<Longrightarrow> own_effect en r run r'"
  unfolding record_step_def
  by (elim disjE exE conjE, simp add: own_effect_same, force simp: own_effect_def own_ids_def)

lemma start_write_effect:
  assumes "codec_ok en" and "own_ids en r" and "rn_run_id rec = run"
  shows "own_effect en r run (fst (start_write en r run rec))"
proof (cases "write_record en r rec")
  case (Pair r1 res)
  have "stored en (fst (start_write en r run rec)) = stored en r1"
    using Pair by (cases res) (simp_all add: start_write_def)
  moreover have "stored en r1 = (if is_ok res then (stored en r)(run \<mapsto> rec) else stored en r)"
    using stored_write [OF assms(1), of r rec] Pair assms(3) by simp
  ultimately show ?thesis
    using assms(2,3) own_effect_same [OF assms(2)] by (cases "is_ok res") (auto simp: own_effect_def)
qed

lemma own_effect_pre: "stored en r1 = stored en r \<Longrightarrow> own_effect en r1 run r' \<Longrightarrow> own_effect en r run r'"
  by (simp add: own_effect_def)

lemma own_ids_pre: "stored en r1 = stored en r \<Longrightarrow> own_ids en r1 = own_ids en r"
  by (simp add: own_ids_def)

lemma start_owned_effect:
  assumes "codec_ok en" and "own_ids en r" and "\<And>rec. existing = Some rec \<Longrightarrow> rn_run_id rec = run"
  shows "own_effect en r run (fst (start_owned en now late r run task logical w existing))"
proof -
  define r0 where "r0 = (if late then r\<lparr>rg_cancel := (rg_cancel r)(run := True)\<rparr> else r)"
  have s0: "stored en r0 = stored en r" by (simp add: r0_def)
  have cleared: "own_effect en r run (fst (case clear_cancel_unlocked en r2 run of
      (r1, Inl e) \<Rightarrow> (r1, Err e) | (r1, Inr _) \<Rightarrow> start_write en r1 run rec))"
    if "stored en r2 = stored en r" and "rn_run_id rec = run" for r2 rec
  proof (cases "clear_cancel_unlocked en r2 run")
    case (Pair r1 res)
    then have s1: "stored en r1 = stored en r" using stored_clear_cancel [of en en r2 run] that(1) by simp
    show ?thesis
      using own_effect_pre [OF s1 start_write_effect [OF assms(1) _ that(2)]] own_ids_pre [OF s1] assms(2)
        own_effect_same [OF assms(2) s1] Pair
      by (cases res) simp_all
  qed
  show ?thesis
  proof (cases existing)
    case None
    then show ?thesis
      using cleared [OF s0, of "fresh_record en now run task logical w"] own_effect_same [OF assms(2)]
      by (auto simp: start_owned_def r0_def [symmetric] fresh_record_def s0 Let_def)
  next
    case (Some rec)
    then show ?thesis
      using cleared [OF refl, of "restart_record en now task logical w rec"] assms(3)
      by (simp add: start_owned_def restart_record_def)
  qed
qed

lemma existing_id:
  "own_ids en r \<Longrightarrow> load_unlocked en r run = Ok rec \<Longrightarrow> rn_run_id rec = run"
  by (auto dest!: load_Ok simp: own_ids_def)

lemma start_effect:
  assumes "codec_ok en" and "own_ids en r"
  shows "own_effect en r run (fst (registry_start en now late r run task logical w))"
proof -
  have m: "own_ids en (mkdir run r)" using assms(2) own_ids_pre [of en "mkdir run r" r] by simp
  have go: "own_effect en r run (fst (case acquire_owner_unlocked en now (mkdir run r) run of
      (r2, Inl e) \<Rightarrow> (r2, Err e)
    | (r2, Inr _) \<Rightarrow> start_owned en now late r2 run task logical w existing))"
    if "\<And>rec. existing = Some rec \<Longrightarrow> rn_run_id rec = run" for existing
  proof (cases "acquire_owner_unlocked en now (mkdir run r) run")
    case (Pair r2 res)
    then have s2: "stored en r2 = stored en r"
      using stored_acquire [of en en now "mkdir run r" run] by simp
    show ?thesis
      using own_effect_pre [OF s2 start_owned_effect [OF assms(1) _ that]] own_ids_pre [OF s2] assms(2)
        own_effect_same [OF assms(2) s2] Pair
      by (cases res) simp_all
  qed
  have same: "own_effect en r run r" "own_effect en r run (mkdir run r)"
    using own_effect_same [OF assms(2)] by simp_all
  show ?thesis
  proof (cases "load_unlocked en (mkdir run r) run")
    case (Inr rec)
    with existing_id [OF m] go [of "Some rec"] same show ?thesis
      by (auto simp: registry_start_def Let_def)
  next
    case (Inl e)
    with go [of None] same show ?thesis
      by (cases e) (auto simp: registry_start_def Let_def)
  qed
qed

lemma stored_cancels [simp]:
  "stored en' (fst (registry_cancel en r run)) = stored en' r"
  "stored en' (fst (request_cancel en r run)) = stored en' r"
  "stored en' (fst (clear_cancel en r run)) = stored en' r"
  by (auto simp: registry_cancel_def request_cancel_def clear_cancel_def with_record_def
      split: sum.splits registry_error.splits)

lemma stored_claim [simp]: "stored en' (fst (claim_tool_execution en r run call)) = stored en' r"
  by (auto simp: claim_tool_execution_def Let_def stored_set_keep)

lemma stored_event [simp]: "stored en' (append_event en now r run e) = stored en' r"
  by (auto simp: append_event_def Let_def stored_set_keep split: option.splits)

lemma finish_effect:
  assumes "codec_ok en" and "own_ids en r"
  shows "own_effect en r (rr_run_id result) (fst (finish_result en now now' r result))"
    and "own_effect en r run (fst (finish_error en now now' r run e shown))"
proof -
  have inner: "record_step (\<lambda>_ _. True) en r run
      (fst (then_do (clear_cancel_unlocked en r run) (\<lambda>r1. then_do (write_record en r1 new)
         (\<lambda>r2. remove_owner_unlocked en r2 run))))"
    if "load_unlocked en r run = Ok rec" and "rn_run_id new = rn_run_id rec" for run rec new
    by (auto simp: fst_then_do [of "clear_cancel_unlocked en r run"] record_step_same
        intro!: record_step_then_same record_step_write [OF assms that(1) _ that(2)])
  show "own_effect en r (rr_run_id result) (fst (finish_result en now now' r result))"
    unfolding finish_result_def
    by (rule own_effect_record_step [OF assms(2)], rule record_step_with_record, erule inner) simp
  show "own_effect en r run (fst (finish_error en now now' r run e shown))"
    unfolding finish_error_def
    by (rule own_effect_record_step [OF assms(2)], rule record_step_with_record, erule inner) simp
qed

lemma clean_effect:
  assumes "own_ids en r"
  shows "own_effect en r run (fst (registry_clean en now keep r run force))"
proof -
  have same: "own_effect en r run r'" if "stored en r' = stored en r" for r'
    using own_effect_same [OF assms that] .
  have removed: "own_effect en r run (fst (if en_io en 14 then (r1\<lparr>rg_runs := (rg_runs r1)(run := None)\<rparr>, Ok ())
      else (set_files run (left_over keep (files_of r1 run)) r1, Err RGE_Io)))"
    if "stored en r1 = stored en r" for r1
  proof (rule own_effect_pre [OF that])
    have "own_ids en r1" using own_ids_pre [OF that] assms by simp
    moreover have "stored en (r1\<lparr>rg_runs := (rg_runs r1)(run := None)\<rparr>) = (stored en r1)(run := None)"
      by (auto simp: stored_def files_of_def empty_run_files_def fun_eq_iff)
    moreover have "stored en (set_files run (left_over keep (files_of r1 run)) r1) =
        (stored en r1)(run := (if keep ''run.json'' then stored en r1 run else None))"
      by (auto simp: stored_def left_over_def fun_eq_iff)
    ultimately show "own_effect en r1 run (fst (if en_io en 14 then (r1\<lparr>rg_runs := (rg_runs r1)(run := None)\<rparr>, Ok ())
      else (set_files run (left_over keep (files_of r1 run)) r1, Err RGE_Io)))"
      unfolding own_effect_def own_ids_def by fastforce
  qed
  show ?thesis
    by (auto simp: registry_clean_def with_record_def fst_then_do same removed split: sum.splits)
qed

lemma step_effect:
  assumes "codec_ok en" and "own_ids en r"
  shows "own_effect en r (op_run op) (fst (reg_step en now op r))"
proof (cases op)
  case (RO_Set_Workspace run w)
  then show ?thesis
    using own_effect_record_step [OF assms(2) update_keeps_lease(1) [OF assms, of 0]] by simp
next
  case (RO_Set_Artifact_Dir run d)
  then show ?thesis
    using own_effect_record_step [OF assms(2) update_keeps_lease(2) [OF assms, of 0]] by simp
next
  case (RO_Update run task logical w turns)
  then show ?thesis
    using own_effect_record_step [OF assms(2) update_keeps_lease(3) [OF assms, of 0]] by simp
next
  case (RO_Heartbeat run)
  then show ?thesis
    using own_effect_record_step [OF assms(2) update_keeps_lease(4) [OF assms, of 0]] by simp
qed (use assms in \<open>simp_all add: start_effect finish_effect clean_effect own_effect_same\<close>)

lemma own_ids_step:
  assumes "codec_ok en" and "own_ids en r"
  shows "own_ids en (fst (reg_step en now op r))"
  using step_effect [OF assms, of op now] assms(2) by (auto simp: own_effect_def own_ids_def split: if_splits)

lemma step_frame:
  assumes "codec_ok en" and "own_ids en r" and "op_run op \<noteq> run"
  shows "stored en (fst (reg_step en now op r)) run = stored en r run"
  using step_effect [OF assms(1,2), of op now] assms(3) by (auto simp: own_effect_def)

subsection \<open>The lease\<close>

definition held :: "reg_env \<Rightarrow> nat \<Rightarrow> registry \<Rightarrow> string \<Rightarrow> bool" where
  "held en t r run \<longleftrightarrow> (\<exists>rec. stored en r run = Some rec \<and> active_status (rn_status rec) \<and>
     t \<le> rn_last_heartbeat_at_ms rec)"

fun finishes :: "string \<Rightarrow> reg_op \<Rightarrow> bool" where
  "finishes run (RO_Finish_Result result) = (rr_run_id result = run)"
| "finishes run (RO_Finish_Error run' _ _) = (run' = run)"
| "finishes _ _ = False"

lemma lease_recent: "t \<le> hb \<Longrightarrow> now < t + ACTIVE_HEARTBEAT_TTL_MS \<Longrightarrow> now - hb < ACTIVE_HEARTBEAT_TTL_MS"
  by (simp add: ACTIVE_HEARTBEAT_TTL_MS_def)

lemma start_refused:
  assumes "held en t r run" and "now < t + ACTIVE_HEARTBEAT_TTL_MS"
  shows "\<not> is_ok (snd (registry_start en now late r run task logical w))"
    and "stored en (fst (registry_start en now late r run task logical w)) = stored en r"
proof -
  obtain rec where rec: "stored en (mkdir run r) run = Some rec" "active_status (rn_status rec)"
      "t \<le> rn_last_heartbeat_at_ms rec"
    using assms(1) by (auto simp: held_def)
  note recent = lease_recent [OF rec(3) assms(2)]
  have "\<not> is_ok (snd (registry_start en now late r run task logical w)) \<and>
      stored en (fst (registry_start en now late r run task logical w)) = stored en r"
  proof (cases "load_unlocked en (mkdir run r) run")
    case (Inl e)
    then have "\<nexists>m. e = RGE_Missing m" using load_not_missing [OF rec(1)] by blast
    with Inl show ?thesis by (cases e) (auto simp: registry_start_def Let_def)
  next
    case (Inr rec')
    then have "active_status (rn_status rec')" "rn_last_heartbeat_at_ms rec' = rn_last_heartbeat_at_ms rec"
      using load_Ok [OF Inr] rec by auto
    with Inr recent show ?thesis by (auto simp: registry_start_def Let_def)
  qed
  then show "\<not> is_ok (snd (registry_start en now late r run task logical w))"
    and "stored en (fst (registry_start en now late r run task logical w)) = stored en r" by blast+
qed

lemma clean_refused:
  assumes "held en t r run" and "now < t + ACTIVE_HEARTBEAT_TTL_MS"
  shows "\<not> is_ok (snd (registry_clean en now keep r run force))"
    and "stored en (fst (registry_clean en now keep r run force)) = stored en r"
    and "claims (fst (registry_clean en now keep r run force)) = claims r"
proof -
  obtain rec where rec: "stored en r run = Some rec" "active_status (rn_status rec)"
      "t \<le> rn_last_heartbeat_at_ms rec"
    using assms(1) by (auto simp: held_def)
  note recent = lease_recent [OF rec(3) assms(2)]
  have "\<not> is_ok (snd (registry_clean en now keep r run force)) \<and>
      stored en (fst (registry_clean en now keep r run force)) = stored en r \<and>
      claims (fst (registry_clean en now keep r run force)) = claims r"
  proof (cases "load_unlocked en r run")
    case (Inl e)
    then show ?thesis by (simp add: registry_clean_def with_record_def)
  next
    case (Inr rec')
    then have "active_status (rn_status rec')" "rn_last_heartbeat_at_ms rec' = rn_last_heartbeat_at_ms rec"
      using load_Ok [OF Inr] rec by auto
    with Inr recent show ?thesis
      by (auto simp: registry_clean_def with_record_def owner_lease_is_live_def fst_then_do snd_then_do_Ok)
  qed
  then show "\<not> is_ok (snd (registry_clean en now keep r run force))"
    and "stored en (fst (registry_clean en now keep r run force)) = stored en r"
    and "claims (fst (registry_clean en now keep r run force)) = claims r" by blast+
qed

lemma held_record_step: "record_step (keeps_lease t) en r run r' \<Longrightarrow> held en t r run \<Longrightarrow> held en t r' run"
  by (auto simp: record_step_def held_def keeps_lease_def)

lemma held_step:
  assumes "codec_ok en" and "own_ids en r" and "held en t r run"
    and "t \<le> now" and "now < t + ACTIVE_HEARTBEAT_TTL_MS" and "\<not> finishes run op"
  shows "held en t (fst (reg_step en now op r)) run"
proof (cases "op_run op = run")
  case False
  then show ?thesis using step_frame [OF assms(1,2) False] assms(3) by (simp add: held_def)
next
  case True
  note upd = update_keeps_lease [OF assms(1,2,4), THEN held_record_step [OF _ assms(3)]]
  show ?thesis
    using True assms(3,6) upd start_refused(2) [OF assms(3,5)] clean_refused(2) [OF assms(3,5)]
    by (cases op) (simp_all add: held_def)
qed

lemma held_run:
  assumes "codec_ok en" and "own_ids en r" and "held en t r run"
    and "\<forall>l\<in>set ls. t \<le> rl_now l \<and> rl_now l < t + ACTIVE_HEARTBEAT_TTL_MS \<and> \<not> finishes run (rl_op l)"
  shows "held en t (reg_run en ls r) run \<and> own_ids en (reg_run en ls r)"
  using assms(2-)
proof (induction ls arbitrary: r)
  case (Cons l ls)
  let ?en = "en\<lparr>en_pid := rl_pid l, en_io := rl_io l\<rparr>"
  have h: "held ?en t r run = held en t r run" for r by (simp add: held_def)
  have "own_ids en (fst (reg_call_step en l r))"
    using own_ids_step [of ?en r "rl_now l" "rl_op l"] assms(1) Cons.prems(1) by (simp add: reg_call_step_def)
  moreover have "held en t (fst (reg_call_step en l r)) run"
    using held_step [of ?en r t run "rl_now l" "rl_op l"] assms(1) Cons.prems h by (simp add: reg_call_step_def)
  ultimately show ?case using Cons.IH Cons.prems(3) by simp
qed simp

lemma started_fields:
  "rn_run_id (fresh_record en now run task logical w) = run"
  "rn_status (fresh_record en now run task logical w) = ''running''"
  "rn_last_heartbeat_at_ms (fresh_record en now run task logical w) = now"
  "rn_run_id (restart_record en now task logical w rec) = rn_run_id rec"
  "rn_status (restart_record en now task logical w rec) = ''running''"
  "rn_last_heartbeat_at_ms (restart_record en now task logical w rec) = now"
  by (simp_all add: fresh_record_def restart_record_def)

lemma start_Ok_owned:
  assumes "registry_start en now late r run task logical w = (r', Ok ())"
  shows "\<exists>r2 existing. start_owned en now late r2 run task logical w existing = (r', Ok ()) \<and>
    (\<forall>rec. existing = Some rec \<longrightarrow> load_unlocked en (mkdir run r) run = Ok rec)"
proof (cases "load_unlocked en (mkdir run r) run")
  case (Inr rec)
  with assms have "\<exists>r2. start_owned en now late r2 run task logical w (Some rec) = (r', Ok ())"
    by (auto simp: registry_start_def Let_def split: if_splits sum.splits prod.splits)
  with Inr show ?thesis by auto
next
  case (Inl e)
  with assms have "\<exists>r2. start_owned en now late r2 run task logical w None = (r', Ok ())"
    by (cases e) (auto simp: registry_start_def Let_def split: if_splits sum.splits prod.splits)
  then show ?thesis by auto
qed

lemma start_holds:
  assumes "codec_ok en" and "own_ids en r"
    and "registry_start en now late r run task logical w = (r', Ok ())"
  shows "held en now r' run \<and> own_ids en r'"
proof -
  have own: "own_ids en r'"
    using own_ids_step [OF assms(1,2), of now "RO_Start late run task logical w"] assms(3) by simp
  have fin: "held en now r' run" if w: "start_write en r1 run rec = (r', Ok ())"
    and rec: "rn_run_id rec = run" "rn_status rec = ''running''" "rn_last_heartbeat_at_ms rec = now" for r1 rec
  proof -
    have "write_record en r1 rec = (r', Ok ())"
      using w by (auto simp: start_write_def split: prod.splits sum.splits)
    then show ?thesis
      using stored_write [OF assms(1), of r1 rec] rec by (simp add: held_def active_status_def)
  qed
  note [simp] = started_fields
  have owned: "held en now r' run" if so: "start_owned en now late r2 run task logical w existing = (r', Ok ())"
    and "\<And>rec. existing = Some rec \<Longrightarrow> rn_run_id rec = run" for r2 existing
  proof (cases existing)
    case None
    with that(1) show ?thesis
      by (auto simp: start_owned_def Let_def elim!: fin split: prod.splits sum.splits if_splits)
  next
    case (Some rec)
    have id: "rn_run_id rec = run" using that(2) Some .
    obtain r1 where "start_write en r1 run (restart_record en now task logical w rec) = (r', Ok ())"
      using so Some by (auto simp: start_owned_def split: prod.splits sum.splits)
    then show ?thesis by (rule fin) (simp_all add: id)
  qed
  have ex: "load_unlocked en (mkdir run r) run = Ok rec \<Longrightarrow> rn_run_id rec = run" for rec
    using existing_id [of en "mkdir run r"] own_ids_pre [of en "mkdir run r" r] assms(2) by simp
  obtain r2 existing where so: "start_owned en now late r2 run task logical w existing = (r', Ok ())"
    and "\<forall>rec. existing = Some rec \<longrightarrow> load_unlocked en (mkdir run r) run = Ok rec"
    using start_Ok_owned [OF assms(3)] by blast
  with ex have "held en now r' run" by (intro owned [OF so]) blast
  with own show ?thesis by blast
qed

text \<open>
  \<^bold>\<open>C18\<close>: a started run is owned exclusively until it finishes or its lease runs out. After a
  start succeeds at time \<open>t\<close>, and as long as every operation falls within the lease and none
  finishes the run, whatever other operations on any runs are made, under whatever failures,
  every further start of the run and every cleanup of it, forced or not, is refused and leaves
  its record in place, active, with a heartbeat no older than \<open>t\<close>.
\<close>

theorem lease_exclusive:
  assumes codec: "codec_ok en" and ids: "own_ids en r"
    and start: "registry_start en t late r run task logical w = (r0, Ok ())"
    and ops: "\<forall>l\<in>set ls. t \<le> rl_now l \<and> rl_now l < t + ACTIVE_HEARTBEAT_TTL_MS \<and> \<not> finishes run (rl_op l)"
    and time: "t \<le> now" "now < t + ACTIVE_HEARTBEAT_TTL_MS"
    and op: "op = RO_Start late' run task' logical' w' \<or> op = RO_Clean keep run force"
  shows "\<not> is_ok (snd (reg_step en now op (reg_run en ls r0))) \<and>
    stored en (fst (reg_step en now op (reg_run en ls r0))) run = stored en (reg_run en ls r0) run \<and>
    (\<exists>rec. stored en (reg_run en ls r0) run = Some rec \<and> active_status (rn_status rec) \<and>
       t \<le> rn_last_heartbeat_at_ms rec)"
proof -
  have h: "held en t (reg_run en ls r0) run"
    using held_run [OF codec _ _ ops] start_holds [OF codec ids start] by blast
  with op start_refused [OF h time(2)] clean_refused [OF h time(2)] show ?thesis
    by (auto simp: held_def)
qed

subsection \<open>Claims\<close>

lemma claims_with_record:
  assumes "\<And>rec. claims (fst (k rec)) = claims r"
  shows "claims (fst (with_record en r run k)) = claims r"
  using assms by (simp add: with_record_def split: sum.splits)

lemma claims_start_write: "claims (fst (start_write en r run rec)) = claims r"
  using claims_write [of en r rec]
  by (cases "write_record en r rec"; cases "snd (write_record en r rec)") (simp_all add: start_write_def)

lemma claims_start_owned: "claims (fst (start_owned en now late r run task logical w existing)) = claims r"
proof -
  have "claims (fst (case clear_cancel_unlocked en r2 run of
      (r1, Inl e) \<Rightarrow> (r1, Err e) | (r1, Inr _) \<Rightarrow> start_write en r1 run rec)) = claims r2" for r2 rec
    using claims_clear_cancel [of en r2 run]
    by (cases "clear_cancel_unlocked en r2 run"; cases "snd (clear_cancel_unlocked en r2 run)")
      (simp_all add: claims_start_write)
  then show ?thesis by (auto simp: start_owned_def Let_def split: option.split)
qed

lemma claims_start: "claims (fst (registry_start en now late r run task logical w)) = claims r"
proof -
  have "claims (fst (case acquire_owner_unlocked en now (mkdir run r) run of
      (r2, Inl e) \<Rightarrow> (r2, Err e)
    | (r2, Inr _) \<Rightarrow> start_owned en now late r2 run task logical w existing)) = claims r" for existing
    using claims_acquire [of en now "mkdir run r" run]
    by (cases "acquire_owner_unlocked en now (mkdir run r) run";
        cases "snd (acquire_owner_unlocked en now (mkdir run r) run)") (simp_all add: claims_start_owned)
  then show ?thesis by (auto simp: registry_start_def Let_def split: sum.split)
qed

fun cleans :: "string \<Rightarrow> reg_op \<Rightarrow> bool" where
  "cleans run (RO_Clean _ run' _) = (run' = run)"
| "cleans _ _ = False"

lemma claims_claim: "set (claims r run) \<subseteq> set (claims (fst (claim_tool_execution en r run' call)) run)"
  by (auto simp: claim_tool_execution_def Let_def claims_def)

lemma claims_clean_other:
  assumes "run' \<noteq> run"
  shows "claims (fst (registry_clean en now keep r run' force)) run = claims r run"
proof -
  have "claims (fst (if en_io en 14 then (r1\<lparr>rg_runs := (rg_runs r1)(run' := None)\<rparr>, Ok ())
      else (set_files run' (left_over keep (files_of r1 run')) r1, Err RGE_Io))) run = claims r1 run" for r1
    using assms by (auto simp: claims_def files_of_def set_files_def)
  then show ?thesis by (auto simp: registry_clean_def with_record_def fst_then_do split: sum.splits)
qed

lemma claims_step:
  assumes "\<not> cleans run op"
  shows "set (claims r run) \<subseteq> set (claims (fst (reg_step en now op r)) run)"
proof -
  have event: "claims (append_event en now r run' e) = claims r" for run' e
    by (auto simp: append_event_def Let_def stored_set_keep split: option.splits)
  have cancels: "claims (fst (registry_cancel en r run')) = claims r"
    "claims (fst (request_cancel en r run')) = claims r" "claims (fst (clear_cancel en r run')) = claims r" for run'
    by (auto simp: registry_cancel_def request_cancel_def clear_cancel_def with_record_def
        split: sum.splits registry_error.splits)
  have updates: "claims (fst (set_workspace en r run' w)) = claims r"
    "claims (fst (set_artifact_dir en r run' w)) = claims r"
    "claims (fst (update_running en now r run' task logical w turns)) = claims r"
    "claims (fst (heartbeat en now r run')) = claims r" for run' w task logical turns
    by (auto simp: set_workspace_def set_artifact_dir_def update_running_def heartbeat_def fst_then_do
        intro!: claims_with_record)
  have finishes: "claims (fst (finish_result en now now r result)) = claims r"
    "claims (fst (finish_error en now now r run' e shown)) = claims r" for run' result e shown
    by (auto simp: finish_result_def finish_error_def fst_then_do intro!: claims_with_record)
  show ?thesis
    using assms claims_claim claims_clean_other
    by (cases op) (simp_all add: event cancels updates finishes claims_start)
qed

lemma claims_run:
  assumes "\<forall>l\<in>set ls. \<not> cleans run (rl_op l)"
  shows "set (claims r run) \<subseteq> set (claims (reg_run en ls r) run)"
  using assms
proof (induction ls arbitrary: r)
  case (Cons l ls)
  then have "set (claims r run) \<subseteq> set (claims (fst (reg_call_step en l r)) run)"
    using claims_step by (simp add: reg_call_step_def)
  moreover have "set (claims (fst (reg_call_step en l r)) run)
      \<subseteq> set (claims (reg_run en ls (fst (reg_call_step en l r))) run)"
    using Cons by simp
  ultimately show ?case by simp
qed simp

text \<open>
  \<^bold>\<open>C2\<close>: a durable effect is claimed at most once in the life of a run. Once a claim of a call
  has been attempted so far that it succeeded, or failed while writing the claim's contents, every later
  claim of the same call fails, whatever operations short of cleaning the run (restarts by
  other processes, finishing and resuming included) come between, and the call reads as claimed.
\<close>

theorem tool_claim_once:
  assumes first: "claim_tool_execution (en\<lparr>en_pid := p, en_io := io\<rparr>) r run call = (r0, res)"
    and created: "is_ok res \<or> (is_safe_run_id run \<and> io 15 \<and> io 16)"
    and ops: "\<forall>l\<in>set ls. \<not> cleans run (rl_op l)"
    and again: "rl_op l = RO_Claim run call"
  shows "\<not> is_ok (snd (reg_call_step en l (reg_run en ls r0))) \<and>
    tool_execution_is_claimed en (reg_run en ls r0) run call = Ok True"
proof -
  have safe: "is_safe_run_id run" and "claim_filename en call \<in> set (claims r0 run)"
    using first created
    by (auto simp: claim_tool_execution_def claim_filename_def claims_def Let_def split: if_splits)
  then have c: "claim_filename en call \<in> set (claims (reg_run en ls r0) run)"
    using claims_run [OF ops] by blast
  with safe again show ?thesis
    by (auto simp: reg_call_step_def claim_tool_execution_def claim_filename_def claims_def
        tool_execution_is_claimed_def Let_def)
qed

subsection \<open>Concrete runs\<close>

definition demo_record :: run_record where
  "demo_record = \<lparr>rn_schema_version = 1, rn_run_id = ''r1'', rn_status = ''running'',
     rn_success = None, rn_termination = None, rn_summary = [], rn_task_digest = sha256_prefixed (\<lambda>bs. bs) ''t'',
     rn_logical_operation_id = None, rn_workspace = None, rn_artifact_dir = None,
     rn_started_at_ms = 5, rn_last_started_at_ms = 5, rn_finished_at_ms = None, rn_process_id = 1,
     rn_last_heartbeat_at_ms = 5, rn_turns = 0, rn_usage = usage_zero, rn_cost = None,
     rn_cancel_requested = False\<rparr>"

definition demo_env :: reg_env where
  "demo_env = \<lparr>en_encode = (\<lambda>rec. if rec = demo_record then Some ''j'' else None),
     en_decode = (\<lambda>raw. if raw = ''j'' then Some demo_record else None),
     en_encode_event = (\<lambda>_. Some ''e''), en_sha = (\<lambda>bs. bs), en_pid = 1, en_io = (\<lambda>_. True)\<rparr>"

definition empty_registry :: registry where
  "empty_registry = \<lparr>rg_runs = Map.empty, rg_cancel = (\<lambda>_. False)\<rparr>"

lemma demo_env_ok: "codec_ok demo_env" "own_ids demo_env empty_registry"
  by (auto simp: codec_ok_def demo_env_def own_ids_def stored_def files_of_def empty_registry_def
      empty_run_files_def)

lemma demo_safe: "is_safe_run_id ''r1''"
  by (simp add: is_safe_run_id_def is_ascii_alphanumeric_def)

lemma demo_fresh: "fresh_record demo_env 5 ''r1'' ''t'' None None = demo_record"
  by (simp add: fresh_record_def demo_record_def demo_env_def nonempty_opt_def
      RUN_REGISTRY_SCHEMA_VERSION_def)

definition demo_started :: registry where
  "demo_started = fst (registry_start demo_env 5 False empty_registry ''r1'' ''t'' None None)"

lemma demo_start:
  "registry_start demo_env 5 False empty_registry ''r1'' ''t'' None None = (demo_started, Ok ())"
proof -
  have ex: "load_unlocked demo_env (mkdir ''r1'' empty_registry) ''r1'' = Err (RGE_Missing ''r1'')"
    by (simp add: load_unlocked_def demo_safe) (simp add: files_of_def empty_registry_def empty_run_files_def)
  have io: "en_io demo_env n" for n by (simp add: demo_env_def)
  have f0: "files_of empty_registry ''r1'' = empty_run_files" by (simp add: files_of_def empty_registry_def)
  have acq: "acquire_owner_unlocked demo_env 5 (mkdir ''r1'' empty_registry) ''r1'' =
      (set_files ''r1'' (empty_run_files\<lparr>rf_owner := Some 5\<rparr>) (mkdir ''r1'' empty_registry), Ok ())"
    by (simp add: acquire_owner_unlocked_def demo_safe f0 io numeral_2_eq_2 empty_run_files_def)
  have enc: "en_encode demo_env demo_record = Some ''j''" by (simp add: demo_env_def)
  have id: "rn_run_id demo_record = ''r1''" by (simp add: demo_record_def)
  have c: "\<not> rg_cancel empty_registry ''r1''" by (simp add: empty_registry_def)
  have "snd (registry_start demo_env 5 False empty_registry ''r1'' ''t'' None None) = Ok ()"
    by (simp add: registry_start_def demo_safe io ex acq Let_def start_owned_def c clear_cancel_unlocked_def
        demo_fresh start_write_def write_record_def id enc empty_run_files_def)
  then show ?thesis by (metis demo_started_def prod.collapse)
qed

theorem lease_exclusive_witness:
  "\<not> is_ok (snd (reg_step demo_env 6 (RO_Clean (\<lambda>_. True) ''r1'' True) demo_started))"
  using lease_exclusive [OF demo_env_ok demo_start, of "[]" 6 "RO_Clean (\<lambda>_. True) ''r1'' True"]
  by (simp add: ACTIVE_HEARTBEAT_TTL_MS_def)

definition demo_claim :: reg_call where
  "demo_claim = \<lparr>rl_now = 7, rl_pid = 2, rl_io = (\<lambda>_. True), rl_op = RO_Claim ''r1'' ''call''\<rparr>"

theorem tool_claim_once_witness:
  "\<not> is_ok (snd (reg_call_step demo_env demo_claim
      (fst (claim_tool_execution (demo_env\<lparr>en_pid := 1, en_io := \<lambda>_. True\<rparr>) empty_registry ''r1'' ''call''))))"
proof -
  let ?c = "claim_tool_execution (demo_env\<lparr>en_pid := 1, en_io := \<lambda>_. True\<rparr>) empty_registry ''r1'' ''call''"
  have "\<not> is_ok (snd (reg_call_step demo_env demo_claim (reg_run demo_env [] (fst ?c)))) \<and>
      tool_execution_is_claimed demo_env (reg_run demo_env [] (fst ?c)) ''r1'' ''call'' = Ok True"
    by (rule tool_claim_once [OF prod.collapse [symmetric]]) (simp_all add: demo_safe demo_claim_def)
  then show ?thesis by simp
qed

subsection \<open>Two processes and one lease\<close>

text \<open>
  The per-run lock serialises the callers of one process only. Between processes the system calls of
  \<open>acquire_owner_unlocked\<close> interleave: creating the file exclusively, looking at its age,
  removing it. Each process has its own program counter; time passes between steps.
\<close>

datatype acq_pc = AQ_Open nat | AQ_Stat nat | AQ_Remove | AQ_Owner | AQ_Refused

record acq_state =
  aq_owner :: "nat option"
  aq_now :: nat
  aq_pc :: "nat \<Rightarrow> acq_pc"

inductive acq_step :: "acq_state \<Rightarrow> acq_state \<Rightarrow> bool" where
  create: "aq_pc s p = AQ_Open a \<Longrightarrow> aq_owner s = None \<Longrightarrow>
     acq_step s (s\<lparr>aq_owner := Some (aq_now s), aq_pc := (aq_pc s)(p := AQ_Owner)\<rparr>)"
| exists: "aq_pc s p = AQ_Open a \<Longrightarrow> aq_owner s = Some m \<Longrightarrow>
     acq_step s (s\<lparr>aq_pc := (aq_pc s)(p := AQ_Stat a)\<rparr>)"
| stale: "aq_pc s p = AQ_Stat 0 \<Longrightarrow> aq_owner s = Some m \<Longrightarrow> owner_is_stale (aq_now s) m \<Longrightarrow>
     acq_step s (s\<lparr>aq_pc := (aq_pc s)(p := AQ_Remove)\<rparr>)"
| refuse: "aq_pc s p = AQ_Stat a \<Longrightarrow>
     a \<noteq> 0 \<or> aq_owner s = None \<or> (\<exists>m. aq_owner s = Some m \<and> \<not> owner_is_stale (aq_now s) m) \<Longrightarrow>
     acq_step s (s\<lparr>aq_pc := (aq_pc s)(p := AQ_Refused)\<rparr>)"
| remove: "aq_pc s p = AQ_Remove \<Longrightarrow>
     acq_step s (s\<lparr>aq_owner := None, aq_pc := (aq_pc s)(p := AQ_Open 1)\<rparr>)"
| tick: "acq_step s (s\<lparr>aq_now := aq_now s + d\<rparr>)"

inductive_cases acq_stepE: "acq_step s s'"

definition acq_init :: "nat option \<Rightarrow> nat \<Rightarrow> acq_state" where
  "acq_init owner now = \<lparr>aq_owner = owner, aq_now = now, aq_pc = (\<lambda>_. AQ_Open 0)\<rparr>"

definition acq_inv :: "nat \<Rightarrow> acq_state \<Rightarrow> bool" where
  "acq_inv t s \<longleftrightarrow> t \<le> aq_now s \<and>
     (\<forall>m. aq_owner s = Some m \<longrightarrow> t \<le> m) \<and>
     (\<forall>p. aq_pc s p \<noteq> AQ_Remove) \<and>
     (\<forall>p. aq_pc s p = AQ_Owner \<longrightarrow> aq_owner s \<noteq> None) \<and>
     (\<forall>p q. aq_pc s p = AQ_Owner \<longrightarrow> aq_pc s q = AQ_Owner \<longrightarrow> p = q)"

lemma acq_inv_step:
  assumes "acq_step s s'" and "acq_inv t s" and "aq_now s' < t + ACTIVE_HEARTBEAT_TTL_MS"
  shows "acq_inv t s'"
  using assms
proof cases
  case (stale p m)
  with assms have False by (auto simp: acq_inv_def owner_is_stale_def elapsed_def split: if_splits)
  then show ?thesis ..
qed (use assms(2) in \<open>auto simp: acq_inv_def split: if_splits\<close>)

lemma acq_now_mono: "acq_step\<^sup>*\<^sup>* s s' \<Longrightarrow> aq_now s \<le> aq_now s'"
  by (induction rule: rtranclp_induct) (auto elim!: acq_step.cases)

lemma acq_inv_reach:
  assumes "acq_step\<^sup>*\<^sup>* s s'" and "acq_inv t s" and "aq_now s' < t + ACTIVE_HEARTBEAT_TTL_MS"
  shows "acq_inv t s'"
  using assms
proof (induction rule: rtranclp_induct)
  case (step y z)
  then have "aq_now y \<le> aq_now z" using acq_now_mono by blast
  with step show ?case using acq_inv_step by fastforce
qed

text \<open>
  Exclusive creation of the owner file admits one owner. When no lease is older than
  \<open>t\<close> and less than the lease time has passed since \<open>t\<close>, then however many processes
  interleave their calls, at most one of them has become the owner, and its lease is on disk.
\<close>

theorem owner_acquire_exclusive:
  assumes "acq_step\<^sup>*\<^sup>* (acq_init owner now) s"
    and "t \<le> now" and "\<And>m. owner = Some m \<Longrightarrow> t \<le> m"
    and "aq_now s < t + ACTIVE_HEARTBEAT_TTL_MS"
    and "aq_pc s p = AQ_Owner"
  shows "aq_owner s \<noteq> None \<and> (\<forall>q. aq_pc s q = AQ_Owner \<longleftrightarrow> q = p)"
proof -
  have "acq_inv t (acq_init owner now)"
    using assms(2,3) by (auto simp: acq_inv_def acq_init_def)
  from acq_inv_reach [OF assms(1) this assms(4)] assms(5) show ?thesis
    unfolding acq_inv_def by blast
qed

theorem owner_acquire_exclusive_witness:
  "\<exists>s. acq_step\<^sup>*\<^sup>* (acq_init None 5) s \<and> aq_owner s \<noteq> None \<and> (\<forall>q. aq_pc s q = AQ_Owner \<longleftrightarrow> q = 1)"
proof -
  define s where "s = (acq_init None 5)\<lparr>aq_owner := Some 5, aq_pc := (\<lambda>_. AQ_Open 0)(1 := AQ_Owner)\<rparr>"
  have "acq_step (acq_init None 5) ((acq_init None 5)\<lparr>aq_owner := Some (aq_now (acq_init None 5)),
      aq_pc := (aq_pc (acq_init None 5))(1 := AQ_Owner)\<rparr>)"
    by (rule acq_step.create [where a = 0]) (simp_all add: acq_init_def)
  then have step: "acq_step\<^sup>*\<^sup>* (acq_init None 5) s" by (simp add: s_def acq_init_def)
  have "aq_owner s \<noteq> None \<and> (\<forall>q. aq_pc s q = AQ_Owner \<longleftrightarrow> q = 1)"
    by (rule owner_acquire_exclusive [OF step, of 5])
      (simp_all add: s_def acq_init_def ACTIVE_HEARTBEAT_TTL_MS_def)
  with step show ?thesis by blast
qed

text \<open>
  \<^bold>\<open>C39\<close>: taking over an expired lease is not exclusive. From an owner file whose lease has run
  out, two processes can both become the owner: the second may remove the lease that
  the first has just created, because it decided on the age of the file that was there before.
\<close>

theorem owner_takeover_race:
  "\<exists>s. acq_step\<^sup>*\<^sup>* (acq_init (Some 0) 120000) s \<and> aq_pc s 1 = AQ_Owner \<and> aq_pc s 2 = AQ_Owner"
proof -
  define at where "at owner f = \<lparr>aq_owner = owner, aq_now = 120000, aq_pc = f\<rparr>"
    for owner :: "nat option" and f :: "nat \<Rightarrow> acq_pc"
  define init where "init = (\<lambda>_ :: nat. AQ_Open 0)"
  have ex: "f p = AQ_Open 0 \<Longrightarrow> acq_step (at (Some m) f) (at (Some m) (f(p := AQ_Stat 0)))" for f p m
    using acq_step.exists [of "at (Some m) f" p 0 m] by (simp add: at_def)
  have st: "f p = AQ_Stat 0 \<Longrightarrow> acq_step (at (Some 0) f) (at (Some 0) (f(p := AQ_Remove)))" for f p
    using acq_step.stale [of "at (Some 0) f" p 0]
    by (simp add: at_def owner_is_stale_def elapsed_def ACTIVE_HEARTBEAT_TTL_MS_def)
  have rm: "f p = AQ_Remove \<Longrightarrow> acq_step (at ow f) (at None (f(p := AQ_Open 1)))" for ow f p
    using acq_step.remove [of "at ow f" p] by (simp add: at_def)
  have cr: "f p = AQ_Open 1 \<Longrightarrow> acq_step (at None f) (at (Some 120000) (f(p := AQ_Owner)))" for f p
    using acq_step.create [of "at None f" p 1] by (simp add: at_def)
  note step = rtranclp.rtrancl_into_rtrancl [where r = acq_step]
  have "acq_step\<^sup>*\<^sup>* (at (Some 0) init) (at (Some 0) (init(1 := AQ_Stat 0)))"
    by (rule step [OF rtranclp.rtrancl_refl ex]) (simp add: init_def)
  from step [OF this ex, of 2]
  have "acq_step\<^sup>*\<^sup>* (at (Some 0) init) (at (Some 0) (init(1 := AQ_Stat 0, 2 := AQ_Stat 0)))"
    by (simp add: init_def)
  from step [OF this st, of 1]
  have "acq_step\<^sup>*\<^sup>* (at (Some 0) init) (at (Some 0) (init(1 := AQ_Remove, 2 := AQ_Stat 0)))"
    by (simp add: fun_upd_twist)
  from step [OF this st, of 2]
  have "acq_step\<^sup>*\<^sup>* (at (Some 0) init) (at (Some 0) (init(1 := AQ_Remove, 2 := AQ_Remove)))" by simp
  from step [OF this rm, of 1]
  have "acq_step\<^sup>*\<^sup>* (at (Some 0) init) (at None (init(1 := AQ_Open 1, 2 := AQ_Remove)))"
    by (simp add: fun_upd_twist)
  from step [OF this cr, of 1]
  have "acq_step\<^sup>*\<^sup>* (at (Some 0) init) (at (Some 120000) (init(1 := AQ_Owner, 2 := AQ_Remove)))"
    by (simp add: fun_upd_twist)
  from step [OF this rm, of 2]
  have "acq_step\<^sup>*\<^sup>* (at (Some 0) init) (at None (init(1 := AQ_Owner, 2 := AQ_Open 1)))" by simp
  from step [OF this cr, of 2]
  have "acq_step\<^sup>*\<^sup>* (at (Some 0) init) (at (Some 120000) (init(1 := AQ_Owner, 2 := AQ_Owner)))" by simp
  moreover have "acq_init (Some 0) 120000 = at (Some 0) init"
    by (simp add: acq_init_def at_def init_def)
  ultimately show ?thesis by (intro exI [of _ "at (Some 120000) (init(1 := AQ_Owner, 2 := AQ_Owner))"]) (simp add: at_def)
qed

end
