(* ===== verification/Security_Finder.thy ===== *)
theory Security_Finder
  imports Shared_Types Json
begin

section \<open>Security-finder reports (crates/shikigami-engine/src/security_finder.rs)\<close>

text \<open>
  The reviewer roles and the canonical form of a successful report: every finding is stamped
  with the signature of its measured facts, every hypothesis is bound to a finding, and the
  findings are ordered by signature. Reading a report from JSON and writing it back are the
  arguments \<open>parse\<close> and \<open>render\<close>; \<open>to_string\<close> writes the JSON tuple that a signature hashes.
\<close>

definition PACKAGE_ID :: string where "PACKAGE_ID = ''pkg:security.finding-exposure/v1''"

definition READ_TOOLS :: "string list" where
  "READ_TOOLS = [''read_file'', ''glob'', ''grep'', ''report'']"

record finder_role =
  fo_name :: string
  fo_tools :: "string list"
  fo_max_turns :: nat
  fo_timeout_secs :: nat

definition ROLES :: "finder_role list" where
  "ROLES =
    [\<lparr>fo_name = ''dependency-advisory'', fo_tools = READ_TOOLS, fo_max_turns = 12, fo_timeout_secs = 600\<rparr>,
     \<lparr>fo_name = ''source-change'', fo_tools = READ_TOOLS, fo_max_turns = 24, fo_timeout_secs = 900\<rparr>,
     \<lparr>fo_name = ''deployment-manifest'', fo_tools = READ_TOOLS, fo_max_turns = 16, fo_timeout_secs = 600\<rparr>,
     \<lparr>fo_name = ''authorization-boundary'', fo_tools = READ_TOOLS, fo_max_turns = 16, fo_timeout_secs = 600\<rparr>]"

definition FINDING_SOURCES :: "string list" where
  "FINDING_SOURCES = [''probe'', ''review'', ''scanner'', ''agent'', ''advisory'']"

definition finder_role_of :: "string \<Rightarrow> finder_role option" where
  "finder_role_of name = find (\<lambda>r. fo_name r = name) ROLES"

record coverage =
  cv_complete :: bool
  cv_summary :: string

record finding =
  fg_source :: string
  fg_component :: string
  fg_version_range :: string
  fg_problem_signature :: string
  fg_reported_severity :: string
  fg_evidence_refs :: string
  fg_finding_class :: string
  fg_advisory_id :: string

record hypothesis =
  hy_problem_signature :: string
  hy_finding_index :: "nat option"
  hy_statement :: string

record finder_report =
  fr_package :: string
  fr_role :: string
  fr_coverage :: coverage
  fr_findings :: "finding list"
  fr_hypotheses :: "hypothesis list"

record finder_env =
  fe_sha :: "string \<Rightarrow> string"
  fe_to_string :: "json \<Rightarrow> string"
  fe_parse :: "string \<Rightarrow> finder_report option"
  fe_render :: "finder_report \<Rightarrow> string option"

datatype finder_error = FE_Parse | FE_Package string | FE_Role_Mismatch string string | FE_Unknown_Role string
  | FE_Incomplete | FE_No_Coverage_Summary | FE_Source string | FE_Required string | FE_Duplicate
  | FE_Statement | FE_Unmatched_Signature | FE_Index_Range nat | FE_Unbound | FE_Serialize

definition problem_signature :: "finder_env \<Rightarrow> string \<Rightarrow> string \<Rightarrow> string \<Rightarrow> string \<Rightarrow> string" where
  "problem_signature en component version_range finding_class advisory_id =
     (let class = (if finding_class = [] then ''unclassified'' else finding_class)
      in sha256_prefixed (fe_sha en) (fe_to_string en
           (JArr [JStr PACKAGE_ID, JStr component, JStr version_range, JStr class, JStr advisory_id])))"

definition finding_signature :: "finder_env \<Rightarrow> finding \<Rightarrow> string" where
  "finding_signature en f = problem_signature en (fg_component f) (fg_version_range f)
     (fg_finding_class f) (fg_advisory_id f)"

definition validate_finding :: "finding \<Rightarrow> (unit, finder_error) result" where
  "validate_finding f =
     (if fg_source f \<notin> set FINDING_SOURCES then Err (FE_Source (fg_source f))
      else if trim (fg_component f) = [] then Err (FE_Required ''component'')
      else if trim (fg_version_range f) = [] then Err (FE_Required ''version_range'')
      else if trim (fg_reported_severity f) = [] then Err (FE_Required ''reported_severity'')
      else Ok ())"

fun stamp_findings :: "finder_env \<Rightarrow> finding list \<Rightarrow> (finding list, finder_error) result" where
  "stamp_findings en [] = Ok []"
| "stamp_findings en (f # fs) =
     and_then (validate_finding f) (\<lambda>_.
       and_then (stamp_findings en fs) (\<lambda>gs. Ok (f\<lparr>fg_problem_signature := finding_signature en f\<rparr> # gs)))"

definition bind_hypothesis :: "finding list \<Rightarrow> hypothesis \<Rightarrow> (hypothesis, finder_error) result" where
  "bind_hypothesis findings h =
     (if trim (hy_statement h) = [] then Err FE_Statement
      else and_then
        (if hy_problem_signature h \<noteq> [] then
           (case find (\<lambda>s. s = hy_problem_signature h) (map fg_problem_signature findings) of
              None \<Rightarrow> Err FE_Unmatched_Signature | Some s \<Rightarrow> Ok s)
         else case hy_finding_index h of
           Some i \<Rightarrow> if i < length findings then Ok (fg_problem_signature (findings ! i)) else Err (FE_Index_Range i)
         | None \<Rightarrow> Err FE_Unbound)
        (\<lambda>s. Ok (h\<lparr>hy_problem_signature := s, hy_finding_index := None\<rparr>)))"

fun bind_hypotheses :: "finding list \<Rightarrow> hypothesis list \<Rightarrow> (hypothesis list, finder_error) result" where
  "bind_hypotheses fs [] = Ok []"
| "bind_hypotheses fs (h # hs) =
     and_then (bind_hypothesis fs h) (\<lambda>g. and_then (bind_hypotheses fs hs) (\<lambda>gs. Ok (g # gs)))"

text \<open>\<open>canonical\<close> is the part of \<open>canonicalize_report\<close> between reading and writing JSON.\<close>

definition canonical :: "finder_env \<Rightarrow> string \<Rightarrow> finder_report \<Rightarrow> (finder_report, finder_error) result" where
  "canonical en expected_role r =
     (if fr_package r \<noteq> PACKAGE_ID then Err (FE_Package (fr_package r))
      else if fr_role r \<noteq> expected_role then Err (FE_Role_Mismatch (fr_role r) expected_role)
      else if finder_role_of (fr_role r) = None then Err (FE_Unknown_Role (fr_role r))
      else if \<not> cv_complete (fr_coverage r) then Err FE_Incomplete
      else if trim (cv_summary (fr_coverage r)) = [] then Err FE_No_Coverage_Summary
      else and_then (stamp_findings en (fr_findings r)) (\<lambda>fs.
        let signatures = remdups_adj (sort (map fg_problem_signature fs)) in
        if length signatures \<noteq> length fs then Err FE_Duplicate
        else and_then (bind_hypotheses fs (fr_hypotheses r)) (\<lambda>hs.
          Ok (r\<lparr>fr_findings := sort_key fg_problem_signature fs, fr_hypotheses := hs\<rparr>))))"

definition canonicalize_report :: "finder_env \<Rightarrow> string \<Rightarrow> string \<Rightarrow> (string, finder_error) result" where
  "canonicalize_report en summary expected_role =
     (case fe_parse en summary of
        None \<Rightarrow> Err FE_Parse
      | Some r \<Rightarrow> and_then (canonical en expected_role r) (\<lambda>r'.
          case fe_render en r' of None \<Rightarrow> Err FE_Serialize | Some s \<Rightarrow> Ok s))"

definition canonicalize_recovered_summary :: "finder_env \<Rightarrow> string \<Rightarrow> bool \<Rightarrow> string option \<Rightarrow>
    (string, finder_error) result" where
  "canonicalize_recovered_summary en summary success expected_role =
     (case expected_role of
        Some role \<Rightarrow> if success then canonicalize_report en summary role else Ok summary
      | None \<Rightarrow> Ok summary)"

subsection \<open>Properties\<close>

lemma stamp_Ok: "stamp_findings en fs = Ok gs \<longleftrightarrow>
    list_all (\<lambda>f. validate_finding f = Ok ()) fs \<and>
    gs = map (\<lambda>f. f\<lparr>fg_problem_signature := finding_signature en f\<rparr>) fs"
  by (induction fs arbitrary: gs) (auto simp: and_then_eq_Ok)

lemma stamp_signature: "finding_signature en (f\<lparr>fg_problem_signature := s\<rparr>) = finding_signature en f"
  by (simp add: finding_signature_def)

lemma validate_stamp: "validate_finding (f\<lparr>fg_problem_signature := s\<rparr>) = validate_finding f"
  by (simp add: validate_finding_def)

definition bound_to :: "finding list \<Rightarrow> hypothesis \<Rightarrow> bool" where
  "bound_to fs h \<longleftrightarrow> hy_finding_index h = None \<and> trim (hy_statement h) \<noteq> [] \<and>
     hy_problem_signature h \<in> fg_problem_signature ` set fs"

lemma bind_bound:
  assumes "bind_hypothesis fs h = Ok h'"
  shows "bound_to fs h' \<and> hy_statement h' = hy_statement h"
  using assms
  by (auto simp: bind_hypothesis_def and_then_eq_Ok bound_to_def dest: find_Some_in split: if_splits option.splits)

lemma find_eq: "s \<in> set xs \<Longrightarrow> find (\<lambda>x. x = s) xs = Some s"
  by (induction xs) auto

lemma bind_again:
  assumes "bound_to fs h" and "\<And>f. f \<in> set fs \<Longrightarrow> fg_problem_signature f \<noteq> []"
  shows "bind_hypothesis fs h = Ok h"
  using assms by (cases h) (auto simp: bind_hypothesis_def bound_to_def find_eq)

lemma binds_Ok: "bind_hypotheses fs hs = Ok gs \<longleftrightarrow> list_all2 (\<lambda>h g. bind_hypothesis fs h = Ok g) hs gs"
  by (induction hs arbitrary: gs) (auto simp: and_then_eq_Ok list_all2_Cons1)

lemma remdups_adj_full: "sorted xs \<Longrightarrow> length (remdups_adj xs) = length xs \<Longrightarrow> distinct xs"
  by (metis card_distinct distinct_card sorted_remdups_adj_distinct remdups_adj_set)

lemma canonical_Ok:
  assumes "canonical en role r = Ok r'"
  shows "fr_package r = PACKAGE_ID \<and> fr_role r = role \<and> finder_role_of role \<noteq> None \<and>
    cv_complete (fr_coverage r) \<and> trim (cv_summary (fr_coverage r)) \<noteq> [] \<and>
    (\<exists>fs hs. stamp_findings en (fr_findings r) = Ok fs \<and> distinct (map fg_problem_signature fs) \<and>
       bind_hypotheses fs (fr_hypotheses r) = Ok hs \<and>
       r' = r\<lparr>fr_findings := sort_key fg_problem_signature fs, fr_hypotheses := hs\<rparr>)"
proof -
  have "length (remdups_adj (sort (map fg_problem_signature fs))) = length fs \<Longrightarrow>
      distinct (map fg_problem_signature fs)" for fs
    using remdups_adj_full [of "sort (map fg_problem_signature fs)"] by simp
  with assms show ?thesis
    by (auto simp: canonical_def and_then_eq_Ok Let_def split: if_splits)
qed

lemma sorted_strict: "sorted xs \<Longrightarrow> distinct xs \<Longrightarrow> sorted_wrt (<) (xs :: string list)"
  by (simp add: strict_sorted_iff)

text \<open>
  The canonical form of a report is canonical. Whenever a report is accepted, its role
  is a configured role and its coverage complete, the findings are strictly ordered by signature,
  each signature is the hash of the measured facts (whatever the model wrote there), every
  hypothesis names the signature of one of the findings, and canonicalising the result again changes nothing.
\<close>

theorem finder_report_canonical:
  assumes "canonical en role r = Ok r'"
  shows "finder_role_of role \<noteq> None \<and> cv_complete (fr_coverage r') \<and>
    sorted_wrt (<) (map fg_problem_signature (fr_findings r')) \<and>
    (\<forall>f\<in>set (fr_findings r'). fg_problem_signature f = finding_signature en f \<and> validate_finding f = Ok ()) \<and>
    (\<forall>h\<in>set (fr_hypotheses r'). bound_to (fr_findings r') h) \<and>
    canonical en role r' = Ok r'"
proof -
  obtain fs hs where role: "finder_role_of role \<noteq> None" "fr_role r = role" "fr_package r = PACKAGE_ID"
    and cov: "cv_complete (fr_coverage r)" "trim (cv_summary (fr_coverage r)) \<noteq> []"
    and fs: "stamp_findings en (fr_findings r) = Ok fs" and dist: "distinct (map fg_problem_signature fs)"
    and hs: "bind_hypotheses fs (fr_hypotheses r) = Ok hs"
    and r': "r' = r\<lparr>fr_findings := sort_key fg_problem_signature fs, fr_hypotheses := hs\<rparr>"
    using canonical_Ok [OF assms] by blast
  let ?gs = "sort_key fg_problem_signature fs"
  have sig: "\<forall>f\<in>set fs. fg_problem_signature f = finding_signature en f \<and> validate_finding f = Ok ()"
    using fs by (auto simp: stamp_Ok stamp_signature validate_stamp list_all_iff)
  have dist': "distinct (map fg_problem_signature ?gs)"
    using dist by (metis distinct_map distinct_sort set_sort)
  have "sorted (map fg_problem_signature ?gs)" by simp
  with dist' have strict: "sorted_wrt (<) (map fg_problem_signature ?gs)" by (simp only: sorted_strict)
  have bound: "\<forall>h\<in>set hs. bound_to ?gs h"
  proof
    fix h assume "h \<in> set hs"
    then obtain h0 where "bind_hypothesis fs h0 = Ok h"
      using hs by (auto simp: binds_Ok list_all2_conv_all_nth in_set_conv_nth)
    then show "bound_to ?gs h" using bind_bound [of fs h0 h] by (auto simp: bound_to_def)
  qed
  have stamp: "stamp_findings en ?gs = Ok ?gs"
    using sig by (auto simp: stamp_Ok list_all_iff intro!: map_idI [symmetric])
  have "\<forall>f\<in>set ?gs. fg_problem_signature f \<noteq> []"
    using sig by (simp add: finding_signature_def problem_signature_def Let_def sha256_prefixed_nonempty)
  with bound have binds: "bind_hypotheses ?gs hs = Ok hs"
    by (auto simp: binds_Ok list_all2_same intro!: bind_again)
  have len: "length (remdups_adj (sort (map fg_problem_signature ?gs))) = length ?gs"
    using dist' by (simp add: remdups_adj_distinct)
  have "canonical en role r' = Ok r'"
    using role cov stamp binds len by (simp add: canonical_def r' Let_def sort_key_id_if_sorted)
  with role cov strict sig bound show ?thesis by (simp add: r')
qed

definition demo_finder_env :: finder_env where
  "demo_finder_env = \<lparr>fe_sha = (\<lambda>bs. bs), fe_to_string = (\<lambda>_. ''tuple''),
     fe_parse = (\<lambda>_. None), fe_render = (\<lambda>_. None)\<rparr>"

definition demo_report :: finder_report where
  "demo_report = \<lparr>fr_package = PACKAGE_ID, fr_role = ''source-change'',
     fr_coverage = \<lparr>cv_complete = True, cv_summary = ''s''\<rparr>,
     fr_findings = [\<lparr>fg_source = ''review'', fg_component = ''c'', fg_version_range = ''1'',
       fg_problem_signature = ''invented'', fg_reported_severity = ''high'', fg_evidence_refs = [],
       fg_finding_class = [], fg_advisory_id = []\<rparr>],
     fr_hypotheses = [\<lparr>hy_problem_signature = [], hy_finding_index = Some 0, hy_statement = ''h''\<rparr>]\<rparr>"

theorem finder_report_canonical_witness:
  "\<exists>r'. canonical demo_finder_env ''source-change'' demo_report = Ok r' \<and>
     canonical demo_finder_env ''source-change'' r' = Ok r' \<and>
     (\<forall>h\<in>set (fr_hypotheses r'). bound_to (fr_findings r') h)"
proof -
  have t: "trim ''s'' \<noteq> []" "trim ''c'' \<noteq> []" "trim ''1'' \<noteq> []" "trim ''high'' \<noteq> []" "trim ''h'' \<noteq> []"
    by (simp_all add: trim_visible visible_def)
  have role: "finder_role_of ''source-change'' \<noteq> None"
    by (simp add: finder_role_of_def ROLES_def)
  have "\<exists>r'. canonical demo_finder_env ''source-change'' demo_report = Ok r'"
    using t role
    by (simp add: canonical_def demo_report_def stamp_findings.simps validate_finding_def FINDING_SOURCES_def
        bind_hypothesis_def Let_def)
  then obtain r' where r': "canonical demo_finder_env ''source-change'' demo_report = Ok r'" by blast
  from finder_report_canonical [OF r'] r' show ?thesis by blast
qed

end
