(* ===== verification/Config.thy ===== *)
theory Config
  imports Evidence_Queue Security_Finder
begin

section \<open>Settings (crates/shikigami-engine/src/config.rs, config/resolution.rs)\<close>

text \<open>
  The versioned settings of the harness: their data and defaults, the presets of the profiles,
  the environment and model overrides, the session modes, and the validation that every
  resolution ends with. Reading TOML is the argument \<open>parse\<close>, the environment is a function
  from names to values, the URL parser of the \<open>url\<close> crate gives a URL's host.
\<close>

datatype permission_mode = PM_Custom | PM_Read | PM_Workspace | PM_WorkspaceExec

datatype mcp_framing = MF_ContentLength | MF_Newline

datatype sandbox_backend = SB_None | SB_Rlimit | SB_LinuxNative

datatype tool_sockets = TK_Deny | TK_Host

datatype egress_mode = EM_Unrestricted | EM_Deny | EM_Allowlist

record hook_settings =
  hk_event :: string
  hk_command :: string
  hk_args :: "string list"
  hk_timeout_ms :: nat
  hk_fail_closed :: bool

record delayed_evidence_settings =
  de_enabled :: bool
  de_max_entries :: nat
  de_retention_ms :: nat
  de_allow_test_signatures :: bool

record governance_settings =
  gs_adapter :: string
  gs_endpoint :: "string option"
  gs_principal :: string
  gs_fail_closed :: bool
  gs_namespace :: string
  gs_token_env :: "string option"
  gs_client_secret_env :: "string option"
  gs_allow_insecure_remote :: bool
  gs_delayed_evidence :: delayed_evidence_settings

record workspace_settings =
  ws_adapter :: string
  ws_root :: string
  ws_branch_prefix :: string
  ws_snapshot :: bool

record mcp_gateway_settings =
  mg_url :: string
  mg_timeout_secs :: nat

record mcp_server_settings =
  ms_name :: string
  ms_command :: string
  ms_args :: "string list"
  ms_transport :: string
  ms_url :: "string option"
  ms_token_env :: "string option"
  ms_framing :: mcp_framing
  ms_timeout_secs :: nat

record tools_settings =
  tl_enabled :: "string list"
  tl_mode :: permission_mode
  tl_bash_timeout_secs :: nat
  tl_respect_ignore :: bool
  tl_mcp_servers :: "mcp_server_settings list"
  tl_mcp_gateway :: "mcp_gateway_settings option"

record tool_authority_summary =
  ta_configured_enabled :: "string list"
  ta_preset_enabled :: "string list"
  ta_excluded_by_intersection :: "string list"
  ta_effective_enabled :: "string list"

record run_settings =
  rs_max_turns :: nat
  rs_tool_concurrency :: nat
  rs_timeout_secs :: "nat option"
  rs_compact_after_messages :: "nat option"
  rs_compact_keep_tail :: nat
  rs_plan_jail :: bool
  rs_nested :: bool
  rs_nested_max_depth :: nat
  rs_nested_max_children :: nat

record sandbox_settings =
  sb_backend :: sandbox_backend
  sb_cpu_time_secs :: "nat option"
  sb_memory_mb :: "nat option"
  sb_user_processes :: "nat option"
  sb_file_size_mb :: "nat option"
  sb_open_files :: "nat option"
  sb_read_only_paths :: "string list"
  sb_tool_sockets :: tool_sockets

record tracing_settings =
  ts_enabled :: bool
  ts_exporter :: string
  ts_endpoint :: "string option"

record model_fallback_settings =
  mf_enabled :: bool
  mf_adapter :: "string option"
  mf_artifact_path :: "string option"
  mf_script_json :: "string option"
  mf_allow_test_signatures :: bool

record model_settings =
  mo_adapter :: string
  mo_base_url :: "string option"
  mo_model :: string
  mo_effort :: "string option"
  mo_api_key_env :: string
  mo_script_json :: "string option"
  mo_input_rate :: "nat option"
  mo_output_rate :: "nat option"
  mo_fallback :: model_fallback_settings

record session_mode_mapping =
  sm_model :: "string option"
  sm_effort :: "string option"
  sm_prompt :: "string option"
  sm_tools :: "string list option"

text \<open>The modes are a \<open>BTreeMap\<close>: a list of entries in the order of the names.\<close>

record session_settings =
  ss_modes :: "(string \<times> session_mode_mapping) list"
  ss_selected :: "string option"

record context_settings =
  cx_load_project_rules :: bool
  cx_rules_filenames :: "string list"
  cx_max_rules_bytes :: nat
  cx_skills_root :: "string option"
  cx_skills :: "string list"
  cx_max_skill_bytes :: nat
  cx_session_prompt :: "string option"

record network_settings =
  nw_egress :: egress_mode
  nw_allow_hosts :: "string list"

record config =
  cf_version :: nat
  cf_profile :: string
  cf_governance :: governance_settings
  cf_workspace :: workspace_settings
  cf_tools :: tools_settings
  cf_run :: run_settings
  cf_events_adapter :: string
  cf_tracing :: tracing_settings
  cf_model :: model_settings
  cf_session :: session_settings
  cf_finder_role :: "string option"
  cf_context :: context_settings
  cf_network :: network_settings
  cf_sandbox :: sandbox_settings
  cf_hooks :: "hook_settings list"

datatype config_error = CF_Read | CF_Parse | CF_UnsupportedVersion nat nat
  | CF_UnknownGovernanceAdapter string | CF_UnknownWorkspaceAdapter string
  | CF_UnknownEventsAdapter string | CF_UnknownModelAdapter string | CF_MissingGovernanceEndpoint
  | CF_Invalid string

subsection \<open>Defaults\<close>

definition default_delayed_evidence :: delayed_evidence_settings where
  "default_delayed_evidence = \<lparr>de_enabled = False, de_max_entries = DEFAULT_MAX_ENTRIES,
     de_retention_ms = nat DEFAULT_RETENTION_MS, de_allow_test_signatures = False\<rparr>"

definition default_governance :: governance_settings where
  "default_governance = \<lparr>gs_adapter = ''none'', gs_endpoint = None, gs_principal = ''shikigami'',
     gs_fail_closed = False, gs_namespace = [], gs_token_env = None, gs_client_secret_env = None,
     gs_allow_insecure_remote = False, gs_delayed_evidence = default_delayed_evidence\<rparr>"

definition default_workspace :: workspace_settings where
  "default_workspace = \<lparr>ws_adapter = ''directory'', ws_root = ''.'', ws_branch_prefix = ''shikigami/'',
     ws_snapshot = False\<rparr>"

definition default_tools :: tools_settings where
  "default_tools = \<lparr>tl_enabled = [], tl_mode = PM_Custom, tl_bash_timeout_secs = 60,
     tl_respect_ignore = True, tl_mcp_servers = [], tl_mcp_gateway = None\<rparr>"

definition default_run :: run_settings where
  "default_run = \<lparr>rs_max_turns = 50, rs_tool_concurrency = 4, rs_timeout_secs = None,
     rs_compact_after_messages = None, rs_compact_keep_tail = 8, rs_plan_jail = False,
     rs_nested = False, rs_nested_max_depth = 1, rs_nested_max_children = 4\<rparr>"

definition default_sandbox :: sandbox_settings where
  "default_sandbox = \<lparr>sb_backend = SB_None, sb_cpu_time_secs = None, sb_memory_mb = None,
     sb_user_processes = None, sb_file_size_mb = None, sb_open_files = None,
     sb_read_only_paths = [], sb_tool_sockets = TK_Deny\<rparr>"

definition default_tracing :: tracing_settings where
  "default_tracing = \<lparr>ts_enabled = False, ts_exporter = ''none'', ts_endpoint = None\<rparr>"

definition default_model_fallback :: model_fallback_settings where
  "default_model_fallback = \<lparr>mf_enabled = False, mf_adapter = None, mf_artifact_path = None,
     mf_script_json = None, mf_allow_test_signatures = False\<rparr>"

definition default_model :: model_settings where
  "default_model = \<lparr>mo_adapter = ''scripted'', mo_base_url = None, mo_model = ''auto'', mo_effort = None,
     mo_api_key_env = ''OPENAI_API_KEY'', mo_script_json = None, mo_input_rate = None,
     mo_output_rate = None, mo_fallback = default_model_fallback\<rparr>"

definition default_context :: context_settings where
  "default_context = \<lparr>cx_load_project_rules = True,
     cx_rules_filenames = [''AGENTS.md'', ''shikigami.rules.md''], cx_max_rules_bytes = 32 * 1024,
     cx_skills_root = None, cx_skills = [], cx_max_skill_bytes = 32 * 1024, cx_session_prompt = None\<rparr>"

definition CURRENT_VERSION :: nat where "CURRENT_VERSION = 1"

definition default_config :: config where
  "default_config = \<lparr>cf_version = CURRENT_VERSION, cf_profile = ''local'',
     cf_governance = default_governance, cf_workspace = default_workspace, cf_tools = default_tools,
     cf_run = default_run, cf_events_adapter = ''stderr'', cf_tracing = default_tracing,
     cf_model = default_model, cf_session = \<lparr>ss_modes = [], ss_selected = None\<rparr>,
     cf_finder_role = None, cf_context = default_context,
     cf_network = \<lparr>nw_egress = EM_Unrestricted, nw_allow_hosts = []\<rparr>,
     cf_sandbox = default_sandbox, cf_hooks = []\<rparr>"

definition mcp_stdio :: "string \<Rightarrow> string \<Rightarrow> string list \<Rightarrow> mcp_server_settings" where
  "mcp_stdio name command args = \<lparr>ms_name = name, ms_command = command, ms_args = args,
     ms_transport = ''stdio'', ms_url = None, ms_token_env = None, ms_framing = MF_Newline,
     ms_timeout_secs = 30\<rparr>"

subsection \<open>Tools\<close>

definition default_coding_tools :: "string list" where
  "default_coding_tools = [''read_file'', ''write_file'', ''edit'', ''multi_edit'', ''apply_patch'',
     ''glob'', ''grep'', ''todo_write'', ''handoff'', ''report'', ''escalate'']"

fun tools_for_mode :: "permission_mode \<Rightarrow> string list" where
  "tools_for_mode PM_Custom = default_coding_tools"
| "tools_for_mode PM_Read =
     [''read_file'', ''glob'', ''grep'', ''todo_write'', ''handoff'', ''report'', ''escalate'']"
| "tools_for_mode PM_Workspace = default_coding_tools"
| "tools_for_mode PM_WorkspaceExec = default_coding_tools @ [''bash'']"

definition effective_enabled :: "tools_settings \<Rightarrow> string list" where
  "effective_enabled t =
     (let base = (if tl_mode t = PM_Custom
                  then (if tl_enabled t = [] then default_coding_tools else tl_enabled t)
                  else tools_for_mode (tl_mode t))
      in if tl_mode t = PM_Custom \<or> tl_enabled t = [] then base
         else filter (\<lambda>x. x \<in> set (tl_enabled t)) base)"

definition authority_summary :: "tools_settings \<Rightarrow> tool_authority_summary" where
  "authority_summary t =
     \<lparr>ta_configured_enabled = tl_enabled t, ta_preset_enabled = tools_for_mode (tl_mode t),
      ta_excluded_by_intersection =
        (if tl_mode t = PM_Custom \<or> tl_enabled t = [] then []
         else filter (\<lambda>x. x \<notin> set (effective_enabled t)) (tools_for_mode (tl_mode t))),
      ta_effective_enabled = effective_enabled t\<rparr>"

definition mcp_is_http :: "mcp_server_settings \<Rightarrow> bool" where
  "mcp_is_http s \<longleftrightarrow> ms_transport s = ''http'' \<or>
     (ms_url s \<noteq> None \<and> (ms_transport s = ''stdio'' \<or> ms_transport s = []))"

definition MCP_GATEWAY_NAME :: string where "MCP_GATEWAY_NAME = ''gateway''"

fun check_gateway_servers :: "mcp_server_settings list \<Rightarrow> (unit, string) result" where
  "check_gateway_servers [] = Ok ()"
| "check_gateway_servers (s # ss) =
     (if mcp_is_http s then Err (''tools.mcp_servers `'' @ ms_name s @
        ''`: direct remote MCP server refused while tools.mcp_gateway is set'')
      else if ms_name s = MCP_GATEWAY_NAME then Err (''tools.mcp_servers `'' @ MCP_GATEWAY_NAME @
        ''`: name is reserved for tools.mcp_gateway'')
      else check_gateway_servers ss)"

subsection \<open>Profiles, environment, session modes\<close>

definition is_site_agent_profile :: "string \<Rightarrow> bool" where
  "is_site_agent_profile name \<longleftrightarrow> name = ''site-agent'' \<or> name = ''security-triage''"

definition remote_governance_configured :: "config \<Rightarrow> bool" where
  "remote_governance_configured c \<longleftrightarrow>
     gs_adapter (cf_governance c) \<in> {''sekai-chisei'', ''http-callback'', ''host-authz''}"

definition requires_governance :: "config \<Rightarrow> bool" where
  "requires_governance c \<longleftrightarrow> gs_fail_closed (cf_governance c) \<or> cf_profile c = ''governed'' \<or>
     is_site_agent_profile (cf_profile c) \<or> remote_governance_configured c"

definition uses_plane_model :: "config \<Rightarrow> bool" where
  "uses_plane_model c \<longleftrightarrow> gs_adapter (cf_governance c) = ''sekai-chisei'' \<or> mo_adapter (cf_model c) = ''plane''"

definition governance_endpoint_required :: "config \<Rightarrow> (unit, config_error) result" where
  "governance_endpoint_required c =
     (if gs_adapter (cf_governance c) = ''sekai-chisei'' \<and>
        (case gs_endpoint (cf_governance c) of None \<Rightarrow> True | Some s \<Rightarrow> trim s = [])
      then Err CF_MissingGovernanceEndpoint else Ok ())"

definition bash_enabled :: "config \<Rightarrow> bool" where
  "bash_enabled c \<longleftrightarrow> ''bash'' \<in> set (effective_enabled (cf_tools c))"

definition apply_profile_presets :: "config \<Rightarrow> config" where
  "apply_profile_presets c =
     (if cf_profile c = ''governed'' \<or> is_site_agent_profile (cf_profile c) then
        let g = cf_governance c;
            g1 = (if gs_adapter g = ''none'' then g\<lparr>gs_adapter := ''sekai-chisei''\<rparr> else g);
            m = cf_model c
        in c\<lparr>cf_governance := g1\<lparr>gs_fail_closed := True\<rparr>,
             cf_model := (if mo_adapter m = ''scripted'' then m\<lparr>mo_adapter := ''plane''\<rparr> else m)\<rparr>
      else c)"

definition parse_env_flag :: "string \<Rightarrow> bool option" where
  "parse_env_flag value =
     (let v = to_ascii_lowercase (trim value) in
      if v \<in> {''1'', ''true'', ''yes'', ''on''} then Some True
      else if v \<in> {''0'', ''false'', ''no'', ''off''} then Some False
      else None)"

type_synonym env = "string \<Rightarrow> string option"

definition env_text :: "env \<Rightarrow> string \<Rightarrow> (string \<Rightarrow> config \<Rightarrow> config) \<Rightarrow> config \<Rightarrow> config" where
  "env_text e name f c = (case e name of None \<Rightarrow> c | Some v \<Rightarrow> if v = [] then c else f v c)"

definition env_flag :: "env \<Rightarrow> string \<Rightarrow> (bool \<Rightarrow> config \<Rightarrow> config) \<Rightarrow> config \<Rightarrow> config" where
  "env_flag e name f c = (case e name of None \<Rightarrow> c
     | Some v \<Rightarrow> (case parse_env_flag v of None \<Rightarrow> c | Some b \<Rightarrow> f b c))"

definition apply_env :: "env \<Rightarrow> config \<Rightarrow> config" where
  "apply_env e c0 =
     (let c1 = env_text e ''SHIKIGAMI_PROFILE'' (\<lambda>v c. apply_profile_presets (c\<lparr>cf_profile := v\<rparr>)) c0;
          c2 = env_text e ''SHIKIGAMI_GOVERNANCE_ADAPTER''
                 (\<lambda>v c. c\<lparr>cf_governance := (cf_governance c)\<lparr>gs_adapter := v\<rparr>\<rparr>) c1;
          c3 = env_text e ''SHIKIGAMI_CONTROL_PLANE''
                 (\<lambda>v c. c\<lparr>cf_governance := (cf_governance c)\<lparr>gs_endpoint := Some v\<rparr>\<rparr>) c2;
          c4 = env_text e ''SHIKIGAMI_GOVERNANCE_NAMESPACE''
                 (\<lambda>v c. c\<lparr>cf_governance := (cf_governance c)\<lparr>gs_namespace := v\<rparr>\<rparr>) c3;
          c5 = env_flag e ''SHIKIGAMI_GOVERNANCE_ALLOW_INSECURE_REMOTE''
                 (\<lambda>b c. c\<lparr>cf_governance := (cf_governance c)\<lparr>gs_allow_insecure_remote := b\<rparr>\<rparr>) c4;
          c6 = env_text e ''SHIKIGAMI_MODEL_ADAPTER'' (\<lambda>v c. c\<lparr>cf_model := (cf_model c)\<lparr>mo_adapter := v\<rparr>\<rparr>) c5;
          c7 = env_text e ''SHIKIGAMI_MODEL_SCRIPT'' (\<lambda>v c. c\<lparr>cf_model := (cf_model c)\<lparr>mo_script_json := Some v\<rparr>\<rparr>) c6;
          c8 = env_flag e ''SHIKIGAMI_RUN_PLAN_JAIL'' (\<lambda>b c. c\<lparr>cf_run := (cf_run c)\<lparr>rs_plan_jail := b\<rparr>\<rparr>) c7
      in env_flag e ''SHIKIGAMI_RUN_NESTED'' (\<lambda>b c. c\<lparr>cf_run := (cf_run c)\<lparr>rs_nested := b\<rparr>\<rparr>) c8)"

definition SESSION_MODE_CATALOG :: "string list" where
  "SESSION_MODE_CATALOG = [''low'', ''medium'', ''high'', ''ultra'']"

text \<open>The settings are changed in place: an error leaves the fields set before it.\<close>

definition session_mode_tools :: "config \<Rightarrow> string \<Rightarrow> string list option \<Rightarrow> config \<times> (unit, config_error) result" where
  "session_mode_tools c mode tools =
     (case tools of
        None \<Rightarrow> (c, Ok ())
      | Some ts \<Rightarrow>
        if ts = [] then (c, Err (CF_Invalid (''session mode `'' @ mode @ ''` tools must not be empty'')))
        else let host = effective_enabled (cf_tools c);
                 intersection = filter (\<lambda>t. t \<in> set host) ts
          in if intersection = []
             then (c, Err (CF_Invalid (''session mode `'' @ mode @ ''` tools do not intersect the host tool set'')))
             else (c\<lparr>cf_tools := (cf_tools c)\<lparr>tl_enabled := intersection\<rparr>\<rparr>, Ok ()))"

definition apply_session_mode :: "config \<Rightarrow> string \<Rightarrow> config \<times> (unit, config_error) result" where
  "apply_session_mode c mode =
     (if mode \<notin> set SESSION_MODE_CATALOG then (c, Err (CF_Invalid (''unknown session mode `'' @ mode @ ''`'')))
      else
        let c1 = c\<lparr>cf_session := (cf_session c)\<lparr>ss_selected := Some mode\<rparr>\<rparr> in
        case map_of (ss_modes (cf_session c)) mode of
          None \<Rightarrow> (c1, Ok ())
        | Some mapping \<Rightarrow>
          let c2 = (case sm_model mapping of None \<Rightarrow> c1
                    | Some m \<Rightarrow> if trim m = [] then c1 else c1\<lparr>cf_model := (cf_model c1)\<lparr>mo_model := m\<rparr>\<rparr>);
              c3 = (if sm_effort mapping = None then c2
                    else c2\<lparr>cf_model := (cf_model c2)\<lparr>mo_effort := sm_effort mapping\<rparr>\<rparr>);
              c4 = (if sm_prompt mapping = None then c3
                    else c3\<lparr>cf_context := (cf_context c3)\<lparr>cx_session_prompt := sm_prompt mapping\<rparr>\<rparr>)
          in session_mode_tools c4 mode (sm_tools mapping))"

subsection \<open>Validation\<close>

text \<open>What the build and the host decide: the operating system, the \<open>model-http\<close> feature, the
  URL parser. An absolute path is a Unix one.\<close>

record platform =
  pf_unix :: bool
  pf_linux :: bool
  pf_model_http :: bool
  pf_url_host :: "string \<Rightarrow> string option"

definition check_http_url :: "platform \<Rightarrow> network_settings \<Rightarrow> string \<Rightarrow> (unit, string) result" where
  "check_http_url pf n url =
     (case nw_egress n of
        EM_Unrestricted \<Rightarrow> Ok ()
      | EM_Deny \<Rightarrow> Err ''network egress denied by settings (egress=deny)''
      | EM_Allowlist \<Rightarrow>
          (case map_option to_ascii_lowercase (pf_url_host pf url) of
             None \<Rightarrow> Err (''cannot parse host from URL for egress check: '' @ url)
           | Some host \<Rightarrow>
             if list_ex (\<lambda>h. to_ascii_lowercase h = to_ascii_lowercase host) (nw_allow_hosts n) then Ok ()
             else Err (''host `'' @ host @ ''` not in network.allow_hosts (egress=allowlist)'')))"

definition require :: "bool \<Rightarrow> 'e \<Rightarrow> (unit, 'e) result" where
  "require b e = (if b then Ok () else Err e)"

lemma require_Ok [simp]: "require b e = Ok u \<longleftrightarrow> b"
  by (simp add: require_def)

definition blank :: "string option \<Rightarrow> bool" where
  "blank v = (case v of None \<Rightarrow> True | Some s \<Rightarrow> trim s = [])"

definition validate_tracing :: "platform \<Rightarrow> config \<Rightarrow> (unit, config_error) result" where
  "validate_tracing pf c =
     (let t = cf_tracing c in
      if ts_exporter t \<notin> {''none'', ''otlp''}
      then Err (CF_Invalid (''unknown tracing.exporter `'' @ ts_exporter t @ ''`''))
      else if \<not> ts_enabled t then Ok ()
      else if ts_exporter t \<noteq> ''otlp''
      then Err (CF_Invalid ''tracing.enabled requires tracing.exporter = \"otlp\"'')
      else if blank (ts_endpoint t) then Err (CF_Invalid ''tracing.enabled requires tracing.endpoint'')
      else let endpoint = trim (the (ts_endpoint t)) in
        if starts_with ''http://'' endpoint \<or> starts_with ''https://'' endpoint
        then (if \<not> pf_model_http pf
              then Err (CF_Invalid ''otlp HTTP export requires the model-http feature'')
              else map_err CF_Invalid (check_http_url pf (cf_network c) endpoint))
        else Ok ())"

definition validate_governed_bash_controls :: "config \<Rightarrow> (unit, config_error) result" where
  "validate_governed_bash_controls c =
     (if \<not> requires_governance c \<or> \<not> bash_enabled c then Ok ()
      else if sb_backend (cf_sandbox c) = SB_None
      then Err (CF_Invalid ''governed/fail-closed profile with bash (or tools.mode=workspace_exec) requires sandbox.backend=rlimit or linux_native; sandbox.backend=none refuses bash'')
      else if nw_egress (cf_network c) = EM_Unrestricted
      then Err (CF_Invalid ''governed/fail-closed profile with bash (or tools.mode=workspace_exec) requires network.egress=deny or allowlist; unrestricted refuses bash'')
      else Ok ())"

definition site_agent_tool :: "string \<Rightarrow> bool" where
  "site_agent_tool t \<longleftrightarrow> t = ''report'' \<or> t = ''escalate'' \<or> starts_with (''mcp.'' @ MCP_GATEWAY_NAME @ ''.'') t"

definition refuse :: "string \<Rightarrow> string \<Rightarrow> ('a, config_error) result" where
  "refuse profile why = Err (CF_Invalid (''profile `'' @ profile @ ''`: '' @ why))"

lemma refuse_not_Ok [simp]: "refuse p w = Inr u \<longleftrightarrow> False"
  by (simp add: refuse_def)

definition validate_site_agent :: "config \<Rightarrow> (unit, config_error) result" where
  "validate_site_agent c =
     (let p = cf_profile c in
      if gs_adapter (cf_governance c) \<noteq> ''sekai-chisei'' \<or> \<not> gs_fail_closed (cf_governance c)
      then refuse p ''requires governance adapter `sekai-chisei` with fail_closed''
      else if tl_mcp_gateway (cf_tools c) = None
      then refuse p ''requires tools.mcp_gateway; tools reach the site only through it''
      else if rs_nested (cf_run c)
      then refuse p ''refuses run.nested; a child run would reach past the gateway''
      else if tl_mcp_servers (cf_tools c) \<noteq> []
      then refuse p ''refuses tools.mcp_servers; use the governed gateway''
      else if tl_mode (cf_tools c) \<noteq> PM_Custom
      then refuse p ''requires tools.mode = \"custom\" with an explicit tools.enabled list''
      else if tl_enabled (cf_tools c) = []
      then refuse p ''requires an explicit tools.enabled list''
      else case find (\<lambda>t. \<not> site_agent_tool t) (tl_enabled (cf_tools c)) of
          Some t \<Rightarrow> refuse p (''tool `'' @ t @ ''` is not allowed; enable only mcp.'' @ MCP_GATEWAY_NAME @
                      ''.* tools, report and escalate'')
        | None \<Rightarrow> Ok ())"

definition validate_security_triage :: "config \<Rightarrow> (unit, config_error) result" where
  "validate_security_triage c =
     (if ''report'' \<notin> set (tl_enabled (cf_tools c))
      then refuse ''security-triage'' ''requires `report` in tools.enabled''
      else if ''security-triage'' \<notin> set (cx_skills (cf_context c))
      then refuse ''security-triage'' ''requires context.skills to include `security-triage`''
      else Ok ())"

definition validate_security_finder :: "config \<Rightarrow> (unit, config_error) result" where
  "validate_security_finder c =
     (let no = refuse ''security-finder'' in
      if blank (cf_finder_role c) then no ''requires security_finder.role''
      else let role_name = the (cf_finder_role c) in
        if role_name \<noteq> trim role_name
        then no ''security_finder.role must not have surrounding whitespace''
        else case finder_role_of role_name of
          None \<Rightarrow> no (''unknown role `'' @ role_name @ ''`'')
        | Some role \<Rightarrow>
          if rs_nested (cf_run c) then no ''refuses run.nested; a child run would write''
          else if tl_mcp_servers (cf_tools c) \<noteq> [] then no ''refuses tools.mcp_servers; the reviewer is read-only''
          else if tl_mcp_gateway (cf_tools c) \<noteq> None then no ''refuses tools.mcp_gateway; the reviewer is read-only''
          else if tl_mode (cf_tools c) \<noteq> PM_Read
          then no ''requires tools.mode = \"read\" with an explicit tools.enabled list''
          else if tl_enabled (cf_tools c) = [] then no ''requires an explicit tools.enabled list''
          else case find (\<lambda>t. t \<notin> set (fo_tools role)) (tl_enabled (cf_tools c)) of
            Some t \<Rightarrow> no (''tool `'' @ t @ ''` is not allowed for role `'' @ role_name @ ''`'')
          | None \<Rightarrow>
            if ''report'' \<notin> set (tl_enabled (cf_tools c)) then no ''requires `report` in tools.enabled''
            else if rs_max_turns (cf_run c) > fo_max_turns role
            then no (''run.max_turns '' @ dec_string (rs_max_turns (cf_run c)) @ '' exceeds role `'' @ role_name @
                     ''` budget '' @ dec_string (fo_max_turns role))
            else case rs_timeout_secs (cf_run c) of
              None \<Rightarrow> no ''requires run.timeout_secs as the role wall-clock budget''
            | Some timeout \<Rightarrow>
              if timeout > 0 \<and> timeout \<le> fo_timeout_secs role then Ok ()
              else no (''run.timeout_secs '' @ dec_string timeout @ '' exceeds role `'' @ role_name @
                       ''` budget '' @ dec_string (fo_timeout_secs role)))"

fun validate_modes :: "(string \<times> session_mode_mapping) list \<Rightarrow> (unit, config_error) result" where
  "validate_modes [] = Ok ()"
| "validate_modes ((name, mapping) # ms) =
     (if name \<notin> set SESSION_MODE_CATALOG then Err (CF_Invalid (''unknown session mode `'' @ name @ ''`''))
      else if sm_tools mapping = Some [] then Err (CF_Invalid (''session mode `'' @ name @ ''` tools must not be empty''))
      else validate_modes ms)"

definition validate_fallback :: "model_fallback_settings \<Rightarrow> (unit, config_error) result" where
  "validate_fallback f =
     (case mf_adapter f of
        None \<Rightarrow> Ok ()
      | Some a \<Rightarrow>
        if a \<noteq> ''scripted'' \<and> a \<noteq> ''http'' then Err (CF_Invalid (''unknown model.fallback.adapter `'' @ a @ ''`''))
        else if a = ''http'' \<and> blank (mf_artifact_path f)
        then Err (CF_Invalid ''model.fallback.adapter `http` requires model.fallback.artifact_path so the local digest binds immutable bytes'')
        else Ok ())"

fun positive_limits :: "(string \<times> nat option) list \<Rightarrow> (unit, config_error) result" where
  "positive_limits [] = Ok ()"
| "positive_limits ((name, value) # ls) =
     (if value = Some 0 then Err (CF_Invalid (name @ '' must be greater than zero'')) else positive_limits ls)"

fun absolute_paths :: "string list \<Rightarrow> (unit, config_error) result" where
  "absolute_paths [] = Ok ()"
| "absolute_paths (p # ps) =
     (if \<not> starts_with ''/'' p
      then Err (CF_Invalid (''sandbox.read_only_paths entry `'' @ p @ ''` must be an absolute path''))
      else absolute_paths ps)"

definition validate_sandbox :: "platform \<Rightarrow> sandbox_settings \<Rightarrow> (unit, config_error) result" where
  "validate_sandbox pf s =
     and_then (positive_limits [(''sandbox.cpu_time_secs'', sb_cpu_time_secs s),
         (''sandbox.memory_mb'', sb_memory_mb s), (''sandbox.user_processes'', sb_user_processes s),
         (''sandbox.file_size_mb'', sb_file_size_mb s), (''sandbox.open_files'', sb_open_files s)]) (\<lambda>_.
     if sb_backend s = SB_Rlimit \<and> \<not> pf_unix pf
     then Err (CF_Invalid ''sandbox.backend=rlimit is supported only on Unix'')
     else if sb_backend s = SB_LinuxNative \<and> \<not> pf_linux pf
     then Err (CF_Invalid ''sandbox.backend=linux_native is supported only on Linux'')
     else and_then (absolute_paths (sb_read_only_paths s)) (\<lambda>_.
       if sb_read_only_paths s \<noteq> [] \<and> sb_backend s \<noteq> SB_LinuxNative
       then Err (CF_Invalid ''sandbox.read_only_paths is only applied by sandbox.backend=linux_native'')
       else Ok ()))"

fun positive_timeouts :: "mcp_server_settings list \<Rightarrow> (unit, config_error) result" where
  "positive_timeouts [] = Ok ()"
| "positive_timeouts (s # ss) =
     (if ms_timeout_secs s = 0
      then Err (CF_Invalid (''tools.mcp_servers `'' @ ms_name s @ ''`: timeout_secs must be greater than zero''))
      else positive_timeouts ss)"

definition validate_gateway :: "tools_settings \<Rightarrow> (unit, config_error) result" where
  "validate_gateway t =
     (case tl_mcp_gateway t of
        None \<Rightarrow> Ok ()
      | Some g \<Rightarrow>
        if mg_timeout_secs g = 0
        then Err (CF_Invalid ''tools.mcp_gateway: timeout_secs must be greater than zero'')
        else map_err CF_Invalid (check_gateway_servers (tl_mcp_servers t)))"

definition validate_profile :: "config \<Rightarrow> (unit, config_error) result" where
  "validate_profile c =
     and_then (if is_site_agent_profile (cf_profile c) then validate_site_agent c else Ok ()) (\<lambda>_.
     and_then (if cf_profile c = ''security-triage'' then validate_security_triage c else Ok ()) (\<lambda>_.
     if cf_profile c = ''security-finder'' then validate_security_finder c
     else require (cf_finder_role c = None \<or> cf_finder_role c = Some [])
       (CF_Invalid ''security_finder.role is only valid with profile `security-finder`'')))"

definition validate_governance :: "config \<Rightarrow> (unit, config_error) result" where
  "validate_governance c =
     (let g = cf_governance c; a = gs_adapter g in
      if a \<notin> {''none'', ''local'', ''sekai-chisei'', ''http-callback'', ''host-authz''}
      then Err (CF_UnknownGovernanceAdapter a)
      else if (a = ''http-callback'' \<or> a = ''host-authz'') \<and> blank (gs_endpoint g)
      then Err (CF_Invalid ''governance adapter `http-callback` requires governance.endpoint'')
      else if a = ''sekai-chisei'' \<and> gs_token_env g \<noteq> None
      then Err (CF_Invalid ''governance.token_env (static bearer) is no longer supported for `sekai-chisei`; register the worker as a service principal and set governance.client_secret_env'')
      else if remote_governance_configured c \<and> trim (gs_namespace g) = []
      then Err (CF_Invalid (''governance adapter `'' @ a @ ''` requires an explicit governance.namespace''))
      else Ok ())"

definition validate_workspace :: "config \<Rightarrow> (unit, config_error) result" where
  "validate_workspace c =
     (let w = cf_workspace c in
      if ws_adapter w \<notin> {''directory'', ''inplace'', ''directory-inplace'', ''git-worktree''}
      then Err (CF_UnknownWorkspaceAdapter (ws_adapter w))
      else if ws_snapshot w \<and> ws_adapter w \<in> {''inplace'', ''directory-inplace''}
      then Err (CF_Invalid ''workspace.snapshot cannot be used with adapter `inplace`'')
      else if cf_events_adapter c \<notin> {''stderr'', ''jsonl'', ''none''}
      then Err (CF_UnknownEventsAdapter (cf_events_adapter c))
      else Ok ())"

definition validate_run_model :: "config \<Rightarrow> (unit, config_error) result" where
  "validate_run_model c =
     (if rs_nested_max_depth (cf_run c) = 0
      then Err (CF_Invalid ''run.nested_max_depth must be greater than zero'')
      else if rs_nested_max_children (cf_run c) = 0
      then Err (CF_Invalid ''run.nested_max_children must be greater than zero'')
      else if mo_adapter (cf_model c) \<notin> {''scripted'', ''http'', ''plane''}
      then Err (CF_UnknownModelAdapter (mo_adapter (cf_model c)))
      else Ok ())"

definition validate_delayed_evidence :: "config \<Rightarrow> (unit, config_error) result" where
  "validate_delayed_evidence c =
     (if de_max_entries (gs_delayed_evidence (cf_governance c)) = 0
      then Err (CF_Invalid ''governance.delayed_evidence.max_entries must be greater than zero'')
      else if de_retention_ms (gs_delayed_evidence (cf_governance c)) = 0
      then Err (CF_Invalid ''governance.delayed_evidence.retention_ms must be greater than zero'')
      else Ok ())"

definition validate :: "platform \<Rightarrow> config \<Rightarrow> (unit, config_error) result" where
  "validate pf c =
     and_then (validate_profile c) (\<lambda>_. and_then (validate_governance c) (\<lambda>_.
     and_then (validate_workspace c) (\<lambda>_. and_then (validate_tracing pf c) (\<lambda>_.
     and_then (validate_run_model c) (\<lambda>_. and_then (validate_modes (ss_modes (cf_session c))) (\<lambda>_.
     and_then (validate_fallback (mo_fallback (cf_model c))) (\<lambda>_.
     and_then (validate_sandbox pf (cf_sandbox c)) (\<lambda>_.
     and_then (validate_governed_bash_controls c) (\<lambda>_.
     and_then (positive_timeouts (tl_mcp_servers (cf_tools c))) (\<lambda>_.
     and_then (validate_gateway (cf_tools c)) (\<lambda>_. validate_delayed_evidence c)))))))))))"

subsection \<open>Resolution\<close>

datatype config_source = CS_Defaults | CS_File string

text \<open>The files are a map; \<open>parse\<close> reads the TOML of one.\<close>

definition config_load :: "(string \<Rightarrow> config option) \<Rightarrow> (string \<rightharpoonup> string) \<Rightarrow> string \<Rightarrow> (config, config_error) result" where
  "config_load parse files path =
     (case files path of
        None \<Rightarrow> Err CF_Read
      | Some raw \<Rightarrow> (case parse raw of
          None \<Rightarrow> Err CF_Parse
        | Some c \<Rightarrow> if cf_version c \<noteq> CURRENT_VERSION
                    then Err (CF_UnsupportedVersion (cf_version c) CURRENT_VERSION)
                    else Ok (apply_profile_presets c)))"

definition apply_model_override :: "config \<Rightarrow> string option \<Rightarrow> (config, config_error) result" where
  "apply_model_override c model =
     (case map_option trim model of
        None \<Rightarrow> Ok c
      | Some m \<Rightarrow> if m = [] then Err (CF_Invalid ''model override must not be empty'')
                  else Ok (c\<lparr>cf_model := (cf_model c)\<lparr>mo_model := m\<rparr>\<rparr>))"

definition resolve :: "platform \<Rightarrow> (string \<Rightarrow> config option) \<Rightarrow> (string \<rightharpoonup> string) \<Rightarrow> env \<Rightarrow> string \<Rightarrow>
    string option \<Rightarrow> (config \<times> config_source, config_error) result" where
  "resolve pf parse files e path model_override =
     and_then (if files path \<noteq> None
               then and_then (config_load parse files path) (\<lambda>c. Ok (c, CS_File path))
               else Ok (default_config, CS_Defaults)) (\<lambda>(c, source).
     and_then (apply_model_override (apply_env e (apply_profile_presets c)) model_override) (\<lambda>c'.
     and_then (validate pf c') (\<lambda>_. Ok (c', source))))"

definition resolve_search :: "platform \<Rightarrow> (string \<Rightarrow> config option) \<Rightarrow> (string \<rightharpoonup> string) \<Rightarrow> env \<Rightarrow>
    string option \<Rightarrow> string \<Rightarrow> (config \<times> config_source, config_error) result" where
  "resolve_search pf parse files e explicit state_root =
     (let path = (case explicit of
          Some p \<Rightarrow> p
        | None \<Rightarrow> (case e ''SHIKIGAMI_CONFIG'' of
            None \<Rightarrow> state_root @ ''/shikigami.toml''
          | Some p \<Rightarrow> if p = [] then state_root @ ''/shikigami.toml'' else p))
      in resolve pf parse files e path None)"

definition resolve_search_with_model :: "platform \<Rightarrow> (string \<Rightarrow> config option) \<Rightarrow> (string \<rightharpoonup> string) \<Rightarrow> env \<Rightarrow>
    string option \<Rightarrow> string \<Rightarrow> string option \<Rightarrow> (config \<times> config_source, config_error) result" where
  "resolve_search_with_model pf parse files e explicit state_root model =
     and_then (resolve_search pf parse files e explicit state_root) (\<lambda>(c, source).
     and_then (apply_model_override c model) (\<lambda>c'. and_then (validate pf c') (\<lambda>_. Ok (c', source))))"

text \<open>Credential names are sorted by their uppercase form and deduplicated in it.\<close>

definition to_ascii_uppercase :: "string \<Rightarrow> string" where
  "to_ascii_uppercase s = map (\<lambda>c. let n = (of_char c :: nat) in
     if 97 \<le> n \<and> n \<le> 122 then char_of (n - 32) else c) s"

text \<open>\<open>dedup_by\<close> keeps the first of a run of equal elements.\<close>

fun dedup_by :: "('a \<Rightarrow> 'a \<Rightarrow> bool) \<Rightarrow> 'a list \<Rightarrow> 'a list" where
  "dedup_by same [] = []"
| "dedup_by same [x] = [x]"
| "dedup_by same (x # y # zs) = (if same y x then dedup_by same (x # zs) else x # dedup_by same (y # zs))"

definition opt_list :: "'a option \<Rightarrow> 'a list" where
  "opt_list v = (case v of None \<Rightarrow> [] | Some x \<Rightarrow> [x])"

definition protected_tool_environment_names :: "config \<Rightarrow> string list" where
  "protected_tool_environment_names c =
     (let names = opt_list (gs_token_env (cf_governance c)) @
            opt_list (gs_client_secret_env (cf_governance c)) @
            (if mo_adapter (cf_model c) = ''http'' then [mo_api_key_env (cf_model c)] else []) @
            List.map_filter ms_token_env (tl_mcp_servers (cf_tools c)) @
            [''SHIKIGAMI_JOB_TOKEN'', ''SHIKIGAMI_JOB_TENANT'', ''SHIKIGAMI_JOB_NAMESPACE'']
      in dedup_by (\<lambda>a b. to_ascii_lowercase a = to_ascii_lowercase b) (sort_key to_ascii_uppercase names))"

subsection \<open>Properties\<close>

lemma validate_parts:
  assumes "validate pf c = Ok u"
  shows "validate_profile c = Ok ()" "validate_governance c = Ok ()" "validate_governed_bash_controls c = Ok ()"
    "validate_modes (ss_modes (cf_session c)) = Ok ()" "validate_gateway (cf_tools c) = Ok ()"
  using assms by (auto simp: validate_def and_then_eq_Ok)

lemma resolve_validates:
  assumes "resolve_search_with_model pf parse files e explicit root model = Ok (c, source)"
  shows "validate pf c = Ok ()"
  using assms by (auto simp: resolve_search_with_model_def and_then_eq_Ok split: prod.splits)

lemma site_agent_tool_not_host:
  "site_agent_tool t \<Longrightarrow> t \<notin> {''bash'', ''write_file'', ''edit'', ''multi_edit'', ''apply_patch'', ''read_file'',
     ''glob'', ''grep'', ''child_run'', ''child_status''}"
  by (auto simp: site_agent_tool_def starts_with_iff MCP_GATEWAY_NAME_def)

lemma validate_site_agent_Ok:
  "validate_site_agent c = Ok u \<longleftrightarrow>
     gs_adapter (cf_governance c) = ''sekai-chisei'' \<and> gs_fail_closed (cf_governance c) \<and>
     tl_mcp_gateway (cf_tools c) \<noteq> None \<and> \<not> rs_nested (cf_run c) \<and> tl_mcp_servers (cf_tools c) = [] \<and>
     tl_mode (cf_tools c) = PM_Custom \<and> tl_enabled (cf_tools c) \<noteq> [] \<and>
     (\<forall>t\<in>set (tl_enabled (cf_tools c)). site_agent_tool t)"
  by (auto simp: validate_site_agent_def Let_def find_None_all dest: find_Some_in split: option.splits)

text \<open>
  \<^bold>\<open>C25\<close>: a site-agent turn reaches the site through the governed gateway only. Whatever the
  file, the environment and the host override say, a resolved configuration with a site-agent profile is
  governed by sekai-chisei and fails closed, has the gateway and no other MCP server, starts no
  child run, and every tool in its effective set is a gateway tool, \<open>report\<close> or \<open>escalate\<close>: no
  shell, file-system or child-run tool.
\<close>

theorem site_agent_gateway_only:
  assumes "resolve_search_with_model pf parse files e explicit root model = Ok (c, source)"
    and "is_site_agent_profile (cf_profile c)"
  shows "gs_adapter (cf_governance c) = ''sekai-chisei'' \<and> gs_fail_closed (cf_governance c) \<and>
    requires_governance c \<and> tl_mcp_gateway (cf_tools c) \<noteq> None \<and> tl_mcp_servers (cf_tools c) = [] \<and>
    \<not> rs_nested (cf_run c) \<and>
    (\<forall>t\<in>set (effective_enabled (cf_tools c)). site_agent_tool t \<and>
       t \<notin> {''bash'', ''write_file'', ''edit'', ''multi_edit'', ''apply_patch'', ''read_file'', ''glob'', ''grep'',
            ''child_run'', ''child_status''})"
proof -
  have "validate_site_agent c = Ok ()"
    using validate_parts(1) [OF resolve_validates [OF assms(1)]] assms(2)
    by (auto simp: validate_profile_def and_then_eq_Ok)
  then show ?thesis
    using assms(2) site_agent_tool_not_host
    by (auto simp: validate_site_agent_Ok requires_governance_def effective_enabled_def Let_def)
qed

definition demo_platform :: platform where
  "demo_platform = \<lparr>pf_unix = True, pf_linux = True, pf_model_http = True, pf_url_host = (\<lambda>_. None)\<rparr>"

definition demo_site_config :: config where
  "demo_site_config = default_config\<lparr>cf_profile := ''site-agent'',
     cf_governance := default_governance\<lparr>gs_adapter := ''sekai-chisei'', gs_fail_closed := True,
       gs_namespace := ''n''\<rparr>,
     cf_tools := default_tools\<lparr>tl_enabled := [''report'', ''mcp.gateway.search''],
       tl_mcp_gateway := Some \<lparr>mg_url = ''u'', mg_timeout_secs = 5\<rparr>\<rparr>,
     cf_model := default_model\<lparr>mo_adapter := ''plane''\<rparr>\<rparr>"

lemmas demo_config_defs = default_config_def default_governance_def default_tools_def default_run_def
  default_model_def default_model_fallback_def default_context_def default_sandbox_def default_tracing_def
  default_workspace_def default_delayed_evidence_def CURRENT_VERSION_def

lemma demo_presets: "apply_profile_presets demo_site_config = demo_site_config"
  by (simp add: apply_profile_presets_def demo_site_config_def demo_config_defs Let_def is_site_agent_profile_def)

lemma demo_site_valid: "validate demo_platform demo_site_config = Ok ()"
proof -
  have sa: "validate_site_agent demo_site_config = Ok ()"
    unfolding validate_site_agent_Ok
    by (simp add: demo_site_config_def demo_config_defs site_agent_tool_def starts_with_def MCP_GATEWAY_NAME_def)
  have "cf_profile demo_site_config = ''site-agent''" "cf_finder_role demo_site_config = None"
    by (simp_all add: demo_site_config_def demo_config_defs)
  with sa have "validate_profile demo_site_config = Ok ()"
    by (simp add: validate_profile_def is_site_agent_profile_def require_def)
  moreover have "trim ''n'' \<noteq> []" by (simp add: trim_visible visible_def)
  then have "validate_governance demo_site_config = Ok ()"
      "validate_workspace demo_site_config = Ok ()" "validate_tracing demo_platform demo_site_config = Ok ()"
      "validate_run_model demo_site_config = Ok ()" "validate_modes (ss_modes (cf_session demo_site_config)) = Ok ()"
      "validate_fallback (mo_fallback (cf_model demo_site_config)) = Ok ()"
      "validate_sandbox demo_platform (cf_sandbox demo_site_config) = Ok ()"
      "validate_governed_bash_controls demo_site_config = Ok ()"
      "positive_timeouts (tl_mcp_servers (cf_tools demo_site_config)) = Ok ()"
      "validate_gateway (cf_tools demo_site_config) = Ok ()" "validate_delayed_evidence demo_site_config = Ok ()"
    by (simp_all add: demo_site_config_def demo_config_defs validate_governance_def
      validate_workspace_def validate_tracing_def validate_run_model_def validate_fallback_def
      validate_sandbox_def validate_governed_bash_controls_def validate_gateway_def
      validate_delayed_evidence_def Let_def bash_enabled_def effective_enabled_def
      DEFAULT_MAX_ENTRIES_def DEFAULT_RETENTION_MS_def)
  ultimately show ?thesis by (simp add: validate_def)
qed

lemma demo_resolve:
  "resolve_search_with_model demo_platform (\<lambda>_. Some demo_site_config) [''s/shikigami.toml'' \<mapsto> ''x''] (\<lambda>_. None)
     None ''s'' None = Ok (demo_site_config, CS_File ''s/shikigami.toml'')"
proof -
  have "apply_env (\<lambda>_. None) c = c" for c by (simp add: apply_env_def env_text_def env_flag_def)
  moreover have "cf_version demo_site_config = CURRENT_VERSION" by (simp add: demo_site_config_def default_config_def)
  ultimately show ?thesis
    by (simp add: resolve_search_with_model_def resolve_search_def resolve_def config_load_def demo_presets
        apply_model_override_def demo_site_valid)
qed

theorem site_agent_gateway_only_witness:
  "set (effective_enabled (cf_tools demo_site_config)) \<subseteq> Collect site_agent_tool \<and>
   requires_governance demo_site_config"
  using site_agent_gateway_only [OF demo_resolve]
  by (simp add: demo_site_config_def is_site_agent_profile_def subset_iff)

lemma finder_tools:
  assumes "finder_role_of n = Some role"
  shows "fo_tools role = READ_TOOLS"
proof -
  have "role \<in> set ROLES" using assms find_Some_in unfolding finder_role_of_def by metis
  then show ?thesis by (auto simp: ROLES_def)
qed

lemma effective_in_enabled:
  "tl_enabled t \<noteq> [] \<Longrightarrow> set (effective_enabled t) \<subseteq> set (tl_enabled t)"
  by (auto simp: effective_enabled_def Let_def simp del: tools_for_mode.simps)

lemma effective_intersect:
  assumes "xs \<noteq> []" and "set xs \<subseteq> set (effective_enabled t)"
  shows "set (effective_enabled (t\<lparr>tl_enabled := xs\<rparr>)) \<subseteq> set (effective_enabled t)"
proof -
  have "set (effective_enabled (t\<lparr>tl_enabled := xs\<rparr>)) \<subseteq> set xs"
    using effective_in_enabled [of "t\<lparr>tl_enabled := xs\<rparr>"] assms(1) by simp
  with assms(2) show ?thesis by blast
qed

lemma validate_security_finder_Ok:
  assumes "validate_security_finder c = Ok u"
  shows "\<exists>role timeout. finder_role_of (the (cf_finder_role c)) = Some role \<and> cf_finder_role c \<noteq> None \<and>
    \<not> rs_nested (cf_run c) \<and> tl_mcp_servers (cf_tools c) = [] \<and> tl_mcp_gateway (cf_tools c) = None \<and>
    tl_mode (cf_tools c) = PM_Read \<and> set (tl_enabled (cf_tools c)) \<subseteq> set (fo_tools role) \<and>
    ''report'' \<in> set (tl_enabled (cf_tools c)) \<and> rs_max_turns (cf_run c) \<le> fo_max_turns role \<and>
    rs_timeout_secs (cf_run c) = Some timeout \<and> 0 < timeout \<and> timeout \<le> fo_timeout_secs role"
proof -
  obtain name where name: "cf_finder_role c = Some name" "\<not> blank (Some name)"
  proof -
    have "\<not> blank (cf_finder_role c)" using assms by (auto simp: validate_security_finder_def)
    then show ?thesis using that by (cases "cf_finder_role c") (auto simp: blank_def)
  qed
  obtain role where role: "finder_role_of name = Some role"
    using assms name by (cases "finder_role_of name")
      (simp_all add: validate_security_finder_def Let_def split: if_split_asm)
  obtain timeout where timeout: "rs_timeout_secs (cf_run c) = Some timeout"
    using assms name role by (cases "rs_timeout_secs (cf_run c)")
      (simp_all add: validate_security_finder_def Let_def split: if_split_asm option.split_asm)
  show ?thesis
    using assms name role timeout
    by (simp add: validate_security_finder_def Let_def find_None_all subset_iff split: if_split_asm option.split_asm)
qed

text \<open>
  A security finder is read-only and bounded. A resolved configuration with the
  security-finder profile names a configured role; its effective tools are reading, searching and
  reporting tools and include \<open>report\<close>; it attaches no MCP server and starts no child run; and
  its turns and its wall-clock time are within the budget of the role.
\<close>

theorem security_finder_read_only:
  assumes "resolve_search_with_model pf parse files e explicit root model = Ok (c, source)"
    and "cf_profile c = ''security-finder''"
  shows "\<exists>role timeout. finder_role_of (the (cf_finder_role c)) = Some role \<and>
    set (effective_enabled (cf_tools c)) \<subseteq> {''read_file'', ''glob'', ''grep'', ''report''} \<and>
    ''report'' \<in> set (effective_enabled (cf_tools c)) \<and> \<not> bash_enabled c \<and>
    tl_mcp_servers (cf_tools c) = [] \<and> tl_mcp_gateway (cf_tools c) = None \<and> \<not> rs_nested (cf_run c) \<and>
    rs_max_turns (cf_run c) \<le> fo_max_turns role \<and> rs_timeout_secs (cf_run c) = Some timeout \<and>
    0 < timeout \<and> timeout \<le> fo_timeout_secs role"
proof -
  have "validate_security_finder c = Ok ()"
    using validate_parts(1) [OF resolve_validates [OF assms(1)]] assms(2)
    by (auto simp: validate_profile_def and_then_eq_Ok)
  then obtain role timeout where v: "finder_role_of (the (cf_finder_role c)) = Some role"
      "\<not> rs_nested (cf_run c)" "tl_mcp_servers (cf_tools c) = []" "tl_mcp_gateway (cf_tools c) = None"
      "tl_mode (cf_tools c) = PM_Read" "set (tl_enabled (cf_tools c)) \<subseteq> set (fo_tools role)"
      "''report'' \<in> set (tl_enabled (cf_tools c))" "rs_max_turns (cf_run c) \<le> fo_max_turns role"
      "rs_timeout_secs (cf_run c) = Some timeout" "0 < timeout" "timeout \<le> fo_timeout_secs role"
    using validate_security_finder_Ok by blast
  have "set (fo_tools role) = {''read_file'', ''glob'', ''grep'', ''report''}"
    using finder_tools [OF v(1)] by (simp add: READ_TOOLS_def)
  moreover have "set (effective_enabled (cf_tools c)) \<subseteq> set (tl_enabled (cf_tools c))"
    using v(7) by (intro effective_in_enabled) auto
  ultimately have eff: "set (effective_enabled (cf_tools c)) \<subseteq> {''read_file'', ''glob'', ''grep'', ''report''}"
    using v(6) by blast
  have ne: "tl_enabled (cf_tools c) \<noteq> []" using v(7) by (metis empty_iff list.set(1))
  have "''report'' \<in> set (tools_for_mode PM_Read)" by simp
  with v(7) have "''report'' \<in> set (filter (\<lambda>x. x \<in> set (tl_enabled (cf_tools c))) (tools_for_mode PM_Read))"
    by (simp only: set_filter mem_Collect_eq simp_thms)
  moreover have "effective_enabled (cf_tools c) =
      filter (\<lambda>x. x \<in> set (tl_enabled (cf_tools c))) (tools_for_mode PM_Read)"
    by (simp only: effective_enabled_def v(5) ne Let_def permission_mode.distinct if_False simp_thms)
  ultimately have rep: "''report'' \<in> set (effective_enabled (cf_tools c))" by metis
  have "''bash'' \<notin> {''read_file'', ''glob'', ''grep'', ''report''}" by simp
  with eff have nb: "\<not> bash_enabled c" unfolding bash_enabled_def by (rule contra_subsetD)
  show ?thesis
    by (rule exI [of _ role], rule exI [of _ timeout], intro conjI) (rule v eff rep nb)+
qed

definition demo_finder_config :: config where
  "demo_finder_config = default_config\<lparr>cf_profile := ''security-finder'', cf_finder_role := Some ''source-change'',
     cf_tools := default_tools\<lparr>tl_enabled := [''report'', ''grep''], tl_mode := PM_Read\<rparr>,
     cf_run := default_run\<lparr>rs_max_turns := 20, rs_timeout_secs := Some 600\<rparr>\<rparr>"

lemma demo_finder_valid: "validate demo_platform demo_finder_config = Ok ()"
proof -
  have role: "finder_role_of ''source-change'' = Some \<lparr>fo_name = ''source-change'', fo_tools = READ_TOOLS,
      fo_max_turns = 24, fo_timeout_secs = 900\<rparr>"
    by (simp add: finder_role_of_def ROLES_def)
  have t: "trim ''source-change'' = ''source-change''" by (simp add: trim_visible visible_def)
  have "validate_security_finder demo_finder_config = Ok ()"
    by (simp add: validate_security_finder_def demo_finder_config_def demo_config_defs Let_def blank_def t role
        READ_TOOLS_def)
  moreover have "cf_profile demo_finder_config = ''security-finder''"
    by (simp add: demo_finder_config_def demo_config_defs)
  ultimately have "validate_profile demo_finder_config = Ok ()"
    by (simp add: validate_profile_def is_site_agent_profile_def)
  moreover have "validate_governance demo_finder_config = Ok ()"
      "validate_workspace demo_finder_config = Ok ()" "validate_tracing demo_platform demo_finder_config = Ok ()"
      "validate_run_model demo_finder_config = Ok ()" "validate_modes (ss_modes (cf_session demo_finder_config)) = Ok ()"
      "validate_fallback (mo_fallback (cf_model demo_finder_config)) = Ok ()"
      "validate_sandbox demo_platform (cf_sandbox demo_finder_config) = Ok ()"
      "validate_governed_bash_controls demo_finder_config = Ok ()"
      "positive_timeouts (tl_mcp_servers (cf_tools demo_finder_config)) = Ok ()"
      "validate_gateway (cf_tools demo_finder_config) = Ok ()" "validate_delayed_evidence demo_finder_config = Ok ()"
    by (simp_all add: demo_finder_config_def demo_config_defs validate_governance_def
      validate_workspace_def validate_tracing_def validate_run_model_def validate_fallback_def
      validate_sandbox_def validate_governed_bash_controls_def validate_gateway_def
      validate_delayed_evidence_def Let_def bash_enabled_def effective_enabled_def
      DEFAULT_MAX_ENTRIES_def DEFAULT_RETENTION_MS_def remote_governance_configured_def)
  ultimately show ?thesis by (simp add: validate_def)
qed

lemma demo_finder_resolve:
  "resolve_search_with_model demo_platform (\<lambda>_. Some demo_finder_config) [''s/shikigami.toml'' \<mapsto> ''x''] (\<lambda>_. None)
     None ''s'' None = Ok (demo_finder_config, CS_File ''s/shikigami.toml'')"
proof -
  have "apply_env (\<lambda>_. None) c = c" for c by (simp add: apply_env_def env_text_def env_flag_def)
  moreover have "cf_version demo_finder_config = CURRENT_VERSION" by (simp add: demo_finder_config_def default_config_def)
  moreover have "apply_profile_presets demo_finder_config = demo_finder_config"
    by (simp add: apply_profile_presets_def demo_finder_config_def is_site_agent_profile_def)
  ultimately show ?thesis
    by (simp add: resolve_search_with_model_def resolve_search_def resolve_def config_load_def
        apply_model_override_def demo_finder_valid)
qed

theorem security_finder_read_only_witness:
  "set (effective_enabled (cf_tools demo_finder_config)) \<subseteq> {''read_file'', ''glob'', ''grep'', ''report''}"
proof -
  have "cf_profile demo_finder_config = ''security-finder''" by (simp add: demo_finder_config_def)
  from security_finder_read_only [OF demo_finder_resolve this] show ?thesis by blast
qed

text \<open>
  \<^bold>\<open>C24\<close>: a shell never runs uncontained under governance. In every resolved configuration
  that requires governance and whose effective tools include \<open>bash\<close>, child processes run under a
  limiting or isolating backend and the harness's own network egress is restricted.
\<close>

theorem governed_bash_contained:
  assumes "resolve_search_with_model pf parse files e explicit root model = Ok (c, source)"
    and "requires_governance c" and "''bash'' \<in> set (effective_enabled (cf_tools c))"
  shows "sb_backend (cf_sandbox c) \<noteq> SB_None \<and> nw_egress (cf_network c) \<noteq> EM_Unrestricted"
  using validate_parts(3) [OF resolve_validates [OF assms(1)]] assms(2,3)
  by (auto simp: validate_governed_bash_controls_def bash_enabled_def split: if_splits)

definition demo_bash_config :: config where
  "demo_bash_config = default_config\<lparr>cf_governance := default_governance\<lparr>gs_adapter := ''local'', gs_fail_closed := True\<rparr>,
     cf_tools := default_tools\<lparr>tl_mode := PM_WorkspaceExec\<rparr>,
     cf_sandbox := default_sandbox\<lparr>sb_backend := SB_Rlimit\<rparr>,
     cf_network := \<lparr>nw_egress = EM_Deny, nw_allow_hosts = []\<rparr>\<rparr>"

lemma demo_bash_resolve:
  "resolve_search_with_model demo_platform (\<lambda>_. Some demo_bash_config) [''s/shikigami.toml'' \<mapsto> ''x''] (\<lambda>_. None)
     None ''s'' None = Ok (demo_bash_config, CS_File ''s/shikigami.toml'')"
proof -
  have "validate_profile demo_bash_config = Ok ()" "validate_governance demo_bash_config = Ok ()"
      "validate_workspace demo_bash_config = Ok ()" "validate_tracing demo_platform demo_bash_config = Ok ()"
      "validate_run_model demo_bash_config = Ok ()" "validate_modes (ss_modes (cf_session demo_bash_config)) = Ok ()"
      "validate_fallback (mo_fallback (cf_model demo_bash_config)) = Ok ()"
      "validate_sandbox demo_platform (cf_sandbox demo_bash_config) = Ok ()"
      "validate_governed_bash_controls demo_bash_config = Ok ()"
      "positive_timeouts (tl_mcp_servers (cf_tools demo_bash_config)) = Ok ()"
      "validate_gateway (cf_tools demo_bash_config) = Ok ()" "validate_delayed_evidence demo_bash_config = Ok ()"
    by (simp_all add: demo_bash_config_def demo_config_defs validate_governance_def validate_profile_def
      is_site_agent_profile_def require_def demo_platform_def
      validate_workspace_def validate_tracing_def validate_run_model_def validate_fallback_def
      validate_sandbox_def validate_governed_bash_controls_def validate_gateway_def
      validate_delayed_evidence_def Let_def DEFAULT_MAX_ENTRIES_def DEFAULT_RETENTION_MS_def
      remote_governance_configured_def)
  then have "validate demo_platform demo_bash_config = Ok ()" by (simp add: validate_def)
  moreover have "apply_env (\<lambda>_. None) c = c" for c by (simp add: apply_env_def env_text_def env_flag_def)
  moreover have "cf_version demo_bash_config = CURRENT_VERSION" by (simp add: demo_bash_config_def default_config_def)
  moreover have "apply_profile_presets demo_bash_config = demo_bash_config"
    by (simp add: apply_profile_presets_def demo_bash_config_def default_config_def is_site_agent_profile_def)
  ultimately show ?thesis
    by (simp add: resolve_search_with_model_def resolve_search_def resolve_def config_load_def
        apply_model_override_def)
qed

theorem governed_bash_contained_witness: "nw_egress (cf_network demo_bash_config) \<noteq> EM_Unrestricted"
proof -
  have "requires_governance demo_bash_config" "''bash'' \<in> set (effective_enabled (cf_tools demo_bash_config))"
    by (simp_all add: requires_governance_def demo_bash_config_def default_tools_def effective_enabled_def)
  with governed_bash_contained [OF demo_bash_resolve] show ?thesis by blast
qed

text \<open>The fields that decide what a run may reach.\<close>

definition same_authority :: "config \<Rightarrow> config \<Rightarrow> bool" where
  "same_authority c c' \<longleftrightarrow> cf_profile c' = cf_profile c \<and> cf_governance c' = cf_governance c \<and>
     cf_sandbox c' = cf_sandbox c \<and> cf_network c' = cf_network c \<and> cf_run c' = cf_run c \<and>
     cf_hooks c' = cf_hooks c \<and> tl_mode (cf_tools c') = tl_mode (cf_tools c) \<and>
     tl_mcp_servers (cf_tools c') = tl_mcp_servers (cf_tools c) \<and>
     tl_mcp_gateway (cf_tools c') = tl_mcp_gateway (cf_tools c)"

lemma same_authority_step: "same_authority c (fst (session_mode_tools c mode tools)) \<and>
    set (effective_enabled (cf_tools (fst (session_mode_tools c mode tools)))) \<subseteq> set (effective_enabled (cf_tools c))"
proof (cases tools)
  case (Some ts)
  let ?xs = "filter (\<lambda>t. t \<in> set (effective_enabled (cf_tools c))) ts"
  have "?xs \<noteq> [] \<Longrightarrow> set (effective_enabled ((cf_tools c)\<lparr>tl_enabled := ?xs\<rparr>)) \<subseteq> set (effective_enabled (cf_tools c))"
    by (rule effective_intersect) auto
  with Some show ?thesis by (simp add: session_mode_tools_def same_authority_def Let_def)
qed (simp add: session_mode_tools_def same_authority_def)

text \<open>
  Session modes only ever narrow. Whatever the mapping says, and also when applying it
  fails half way, selecting any sequence of modes leaves the profile, governance, sandbox, network, run
  and MCP settings as they were, and every effective tool was an effective tool before.
\<close>

theorem session_mode_narrows:
  "same_authority c (fold (\<lambda>mode c. fst (apply_session_mode c mode)) modes c) \<and>
   set (effective_enabled (cf_tools (fold (\<lambda>mode c. fst (apply_session_mode c mode)) modes c)))
     \<subseteq> set (effective_enabled (cf_tools c))"
proof (induction modes arbitrary: c)
  case Nil
  show ?case by (simp add: same_authority_def)
next
  case (Cons mode modes)
  have one: "same_authority c (fst (apply_session_mode c mode)) \<and>
      set (effective_enabled (cf_tools (fst (apply_session_mode c mode)))) \<subseteq> set (effective_enabled (cf_tools c))"
  proof (cases "mode \<in> set SESSION_MODE_CATALOG \<and> map_of (ss_modes (cf_session c)) mode \<noteq> None")
    case True
    then obtain m where m: "map_of (ss_modes (cf_session c)) mode = Some m" by blast
    show ?thesis
    proof -
      obtain c4 where c4: "apply_session_mode c mode = session_mode_tools c4 mode (sm_tools m)"
        and same: "same_authority c c4" "cf_tools c4 = cf_tools c"
        using True m
        by (auto simp: apply_session_mode_def Let_def same_authority_def split: option.splits if_splits intro: that)
      from same_authority_step [of c4 mode "sm_tools m"] same show ?thesis
        by (auto simp: c4 same_authority_def)
    qed
  next
    case False
    then show ?thesis by (auto simp: apply_session_mode_def same_authority_def split: option.splits)
  qed
  with Cons [of "fst (apply_session_mode c mode)"] show ?case
    by (auto simp: same_authority_def)
qed

end
