(* ===== verification/Serve_Queue.thy ===== *)
theory Serve_Queue
  imports Run_Types "HOL-Library.Product_Lexorder"
begin

section \<open>The serve queue (src/serve.rs, src/serve/queue.rs, src/serve/serve_loop.rs)\<close>

text \<open>
  The local queue of the daemon: job files move from \<open>inbox\<close> to \<open>processing\<close> to \<open>done\<close> or
  \<open>failed\<close>. A directory is the list of its files in the order in which it is listed. Random
  identifiers are arguments, \<open>io n\<close> says whether the \<open>n\<close>th kind of system call succeeds, the
  JSON codec of jobs and the harness are parameters. The admission lock makes each operation
  atomic; \<open>claim_next\<close> takes no lock, and its two looks at the inbox are a step relation below.
\<close>

subsection \<open>Data\<close>

record queue_job =
  qj_job_id :: "string option"
  qj_task :: string
  qj_priority :: int
  qj_attempt :: nat
  qj_keep_workspace :: bool
  qj_logical_operation_id :: "string option"
  qj_timeout_secs :: "nat option"

record queue_result =
  qr_job_path :: string
  qr_job_id :: "string option"
  qr_attempt :: nat
  qr_run_id :: string
  qr_success :: bool
  qr_termination :: string
  qr_summary :: string
  qr_turns :: nat
  qr_artifact_dir :: "string option"

record health_status =
  hs_ok :: bool
  hs_queue_inbox :: nat
  hs_running :: bool
  hs_last_run_id :: "string option"
  hs_running_jobs :: nat
  hs_queue_capacity :: nat
  hs_queue_over_capacity :: bool

record serve_runtime =
  sv_concurrency :: nat
  sv_queue_capacity :: nat
  sv_retry_limit :: nat

datatype serve_error = SE_Harness string | SE_Io | SE_Json | SE_Job string | SE_Message string

type_synonym dir = "(string \<times> string) list"

record queue_state =
  qs_inbox :: dir
  qs_processing :: dir
  qs_done :: dir
  qs_failed :: dir
  qs_mtime :: nat
  qs_idle :: bool
  qs_idle_mtime :: "nat option"
  qs_health :: "string option"
  qs_last_health :: "string option"

record queue_env =
  qe_to_vec :: "queue_job \<Rightarrow> string option"
  qe_from_str :: "string \<Rightarrow> queue_job option"
  qe_result :: "queue_result \<Rightarrow> string option"
  qe_health :: "health_status \<Rightarrow> string option"
  qe_io :: "nat \<Rightarrow> bool"
  qe_now :: nat

subsection \<open>File names\<close>

text \<open>\<open>Path::extension\<close> and \<open>Path::file_stem\<close> of a file name.\<close>

definition file_extension :: "string \<Rightarrow> string option" where
  "file_extension name = (case rsplit_once_str ''.'' name of
     None \<Rightarrow> None | Some (a, b) \<Rightarrow> if a = [] then None else Some b)"

definition file_stem :: "string \<Rightarrow> string" where
  "file_stem name = (case rsplit_once_str ''.'' name of
     None \<Rightarrow> name | Some (a, b) \<Rightarrow> if a = [] then name else a)"

definition is_json :: "string \<Rightarrow> bool" where
  "is_json name \<longleftrightarrow> file_extension name = Some ''json''"

definition i32_max :: int where "i32_max = 2 ^ 31 - 1"
definition i32_min :: int where "i32_min = - (2 ^ 31)"

definition inbox_priority_key :: "int \<Rightarrow> nat" where
  "inbox_priority_key p = nat (i32_max - p)"

definition inbox_filename :: "int \<Rightarrow> string \<Rightarrow> string" where
  "inbox_filename p uuid = ''p'' @ pad_dec 10 (inbox_priority_key p) @ ''-'' @ uuid @ ''.json''"

definition as_i32 :: "int \<Rightarrow> int" where
  "as_i32 x = (x + 2 ^ 31) mod 2 ^ 32 - 2 ^ 31"

definition priority_from_inbox_name :: "string \<Rightarrow> int" where
  "priority_from_inbox_name name =
     (case strip_prefix ''p'' name of
        None \<Rightarrow> 0
      | Some rest \<Rightarrow> (case split_once CHR ''-'' rest of
          None \<Rightarrow> 0
        | Some (key, _) \<Rightarrow>
          if length key \<noteq> 10 then 0
          else (case parse_unsigned u32_max key of
              None \<Rightarrow> 0
            | Some k \<Rightarrow> as_i32 (i32_max - int k))))"

definition processing_name :: "string \<Rightarrow> string \<Rightarrow> string" where
  "processing_name original uuid = original @ ''.processing-'' @ uuid @ ''.json''"

definition original_job_filename :: "string \<Rightarrow> string" where
  "original_job_filename name = (case rsplit_once_str ''.processing-'' name of
     None \<Rightarrow> name | Some (original, _) \<Rightarrow> original)"

definition original_job_stem :: "string \<Rightarrow> string" where
  "original_job_stem name = file_stem (original_job_filename name)"

subsection \<open>Directories\<close>

definition names :: "dir \<Rightarrow> string list" where "names d = map fst d"

definition dir_remove :: "string \<Rightarrow> dir \<Rightarrow> dir" where
  "dir_remove n d = filter (\<lambda>e. fst e \<noteq> n) d"

text \<open>Writing or renaming onto a name replaces what is there.\<close>

definition dir_put :: "string \<Rightarrow> string \<Rightarrow> dir \<Rightarrow> dir" where
  "dir_put n raw d = dir_remove n d @ [(n, raw)]"

definition count_inbox :: "dir \<Rightarrow> nat \<times> nat" where
  "count_inbox d = (length d, length (filter is_json (names d)))"

definition count_json :: "dir \<Rightarrow> nat" where
  "count_json d = snd (count_inbox d)"

definition depth :: "queue_state \<Rightarrow> nat" where
  "depth q = count_json (qs_inbox q) + count_json (qs_processing q)"

definition set_inbox :: "nat \<Rightarrow> dir \<Rightarrow> queue_state \<Rightarrow> queue_state" where
  "set_inbox now d q = q\<lparr>qs_inbox := d, qs_mtime := now\<rparr>"

definition invalidate_inbox_cache :: "queue_state \<Rightarrow> queue_state" where
  "invalidate_inbox_cache q = q\<lparr>qs_idle := False, qs_idle_mtime := None, qs_last_health := None\<rparr>"

definition mark_inbox_idle :: "queue_state \<Rightarrow> queue_state" where
  "mark_inbox_idle q = q\<lparr>qs_idle := True, qs_idle_mtime := Some (qs_mtime q)\<rparr>"

definition inbox_is_idle :: "queue_state \<Rightarrow> bool" where
  "inbox_is_idle q \<longleftrightarrow> qs_idle q \<and> qs_idle_mtime q = Some (qs_mtime q)"

subsection \<open>Admission\<close>

datatype admission = AM_Accepted queue_job | AM_MissingTask | AM_Full

text \<open>Writing a job file: a temporary file with the extension \<open>json.tmp\<close>, then a rename.\<close>

definition put_inbox :: "queue_env \<Rightarrow> queue_state \<Rightarrow> string \<Rightarrow> string \<Rightarrow> queue_state \<times> (unit, serve_error) result" where
  "put_inbox en q name raw =
     (let tmp = file_stem name @ ''.json.tmp'' in
      if \<not> qe_io en 0 then (q, Err SE_Io)
      else if \<not> qe_io en 1 then (set_inbox (qe_now en) (dir_put tmp raw (qs_inbox q)) q, Err SE_Io)
      else (set_inbox (qe_now en) (dir_put name raw (dir_remove tmp (qs_inbox q))) q, Ok ()))"

definition admit :: "queue_env \<Rightarrow> queue_state \<Rightarrow> queue_job \<Rightarrow> nat \<Rightarrow> string \<Rightarrow> string \<Rightarrow>
    queue_state \<times> (admission, serve_error) result" where
  "admit en q job capacity id_uuid name_uuid =
     (if trim (qj_task job) = [] then (q, Ok AM_MissingTask)
      else if \<not> qe_io en 2 then (q, Err SE_Io)
      else if depth q \<ge> max 1 capacity then (q, Ok AM_Full)
      else
        let job' = (if qj_job_id job = None then job\<lparr>qj_job_id := Some id_uuid\<rparr> else job);
            name = inbox_filename (qj_priority job') name_uuid
        in case qe_to_vec en job' of
          None \<Rightarrow> (q, Err SE_Json)
        | Some raw \<Rightarrow> (case put_inbox en q name raw of
            (q1, Inl e) \<Rightarrow> (q1, Err e)
          | (q1, Inr _) \<Rightarrow> (invalidate_inbox_cache q1, Ok (AM_Accepted job'))))"

subsection \<open>Claiming\<close>

record claimed_job =
  cl_path :: string
  cl_job :: "queue_job option"

definition file_order :: "string \<Rightarrow> int \<times> string" where
  "file_order n = (- priority_from_inbox_name n, n)"

definition prioritized :: "dir \<Rightarrow> string list" where
  "prioritized d = sort_key file_order (filter is_json (names d))"

definition claim_next :: "queue_env \<Rightarrow> queue_state \<Rightarrow> string \<Rightarrow> queue_state \<times> (claimed_job option, serve_error) result" where
  "claim_next en q uuid =
     (if inbox_is_idle q then (q, Ok None)
      else if \<not> qe_io en 3 then (q, Err SE_Io)
      else case prioritized (qs_inbox q) of
        [] \<Rightarrow> (mark_inbox_idle q, Ok None)
      | source # _ \<Rightarrow>
        if \<not> qe_io en 4 then (q, Err SE_Io)
        else let destination = processing_name source uuid;
                 raw = the (map_of (qs_inbox q) source);
                 q1 = set_inbox (qe_now en) (dir_remove source (qs_inbox q)) q;
                 q2 = invalidate_inbox_cache (q1\<lparr>qs_processing := dir_put destination raw (qs_processing q1)\<rparr>)
          in if \<not> qe_io en 5 then (q2, Err SE_Io)
             else (q2, Ok (Some \<lparr>cl_path = destination, cl_job = qe_from_str en raw\<rparr>)))"

subsection \<open>Running a claimed job\<close>

datatype archive_dir = Done | Failed

definition get_archive :: "archive_dir \<Rightarrow> queue_state \<Rightarrow> dir" where
  "get_archive a q = (case a of Done \<Rightarrow> qs_done q | Failed \<Rightarrow> qs_failed q)"

definition set_archive :: "archive_dir \<Rightarrow> dir \<Rightarrow> queue_state \<Rightarrow> queue_state" where
  "set_archive a d q = (case a of Done \<Rightarrow> q\<lparr>qs_done := d\<rparr> | Failed \<Rightarrow> q\<lparr>qs_failed := d\<rparr>)"

definition archive_unlocked :: "queue_env \<Rightarrow> queue_state \<Rightarrow> string \<Rightarrow> archive_dir \<Rightarrow> string \<Rightarrow>
    queue_state \<times> (string, serve_error) result" where
  "archive_unlocked en q job_path a suffix =
     (let preferred = original_job_filename job_path;
          destination = (if preferred \<in> set (names (get_archive a q))
                         then original_job_stem job_path @ ''-'' @ suffix @ ''.json'' else preferred)
      in case map_of (qs_processing q) job_path of
        None \<Rightarrow> (q, Err SE_Io)
      | Some raw \<Rightarrow>
        if \<not> qe_io en 6 then (q, Err SE_Io)
        else let q1 = q\<lparr>qs_processing := dir_remove job_path (qs_processing q)\<rparr>
          in (set_archive a (dir_put destination raw (get_archive a q1)) q1, Ok destination))"

definition write_error_text :: "queue_env \<Rightarrow> queue_state \<Rightarrow> string \<Rightarrow> string \<Rightarrow> queue_state" where
  "write_error_text en q destination text =
     (if qe_io en 7 then q\<lparr>qs_failed := dir_put (file_stem destination @ ''.error.txt'') text (qs_failed q)\<rparr> else q)"

definition job_request :: "queue_job \<Rightarrow> run_request" where
  "job_request job = (run_request_new (qj_task job))\<lparr>rq_keep_workspace := qj_keep_workspace job,
     rq_logical_operation_id := qj_logical_operation_id job,
     rq_timeout := map_option ((*) 1000) (qj_timeout_secs job)\<rparr>"

definition job_result :: "string \<Rightarrow> queue_job \<Rightarrow> run_result \<Rightarrow> queue_result" where
  "job_result path job r = \<lparr>qr_job_path = path, qr_job_id = qj_job_id job, qr_attempt = qj_attempt job,
     qr_run_id = rr_run_id r, qr_success = rr_success r, qr_termination = termination_text (rr_termination r),
     qr_summary = rr_summary r, qr_turns = rr_turns r, qr_artifact_dir = rr_artifact_dir r\<rparr>"

definition next_attempt :: "queue_job \<Rightarrow> queue_job" where
  "next_attempt job = job\<lparr>qj_attempt := u32_saturating_add (qj_attempt job) 1\<rparr>"

definition retry_job :: "queue_env \<Rightarrow> queue_state \<Rightarrow> string \<Rightarrow> queue_job \<Rightarrow> string \<Rightarrow>
    queue_state \<times> (run_result option, serve_error) result" where
  "retry_job en q path job uuid =
     (let retry = next_attempt job in
      case qe_to_vec en retry of
        None \<Rightarrow> (q, Err SE_Json)
      | Some raw \<Rightarrow> (case put_inbox en q (inbox_filename (qj_priority retry) uuid) raw of
          (q1, Inl e) \<Rightarrow> (q1, Err e)
        | (q1, Inr _) \<Rightarrow>
          if \<not> qe_io en 8 \<or> path \<notin> set (names (qs_processing q1)) then (q1, Err SE_Io)
          else (invalidate_inbox_cache (q1\<lparr>qs_processing := dir_remove path (qs_processing q1)\<rparr>), Ok None)))"

definition archive_result :: "queue_env \<Rightarrow> queue_state \<Rightarrow> string \<Rightarrow> queue_job \<Rightarrow> run_result \<Rightarrow> string \<Rightarrow>
    queue_state \<times> (run_result option, serve_error) result" where
  "archive_result en q path job r suffix =
     (let a = (if rr_success r \<and> rr_termination r \<noteq> RT_Parked then Done else Failed);
          stem = original_job_stem path;
          preferred = stem @ ''.result.json'';
          result_name = (if preferred \<in> set (names (get_archive a q))
                         then stem @ ''-'' @ suffix @ ''.result.json'' else preferred)
      in case qe_result en (job_result path job r) of
        None \<Rightarrow> (q, Err SE_Json)
      | Some raw \<Rightarrow>
        if \<not> qe_io en 9 then (q, Err SE_Io)
        else let q1 = set_archive a (dir_put result_name raw (get_archive a q)) q
          in case archive_unlocked en q1 path a suffix of
            (q2, Inl e) \<Rightarrow> (q2, Err e)
          | (q2, Inr _) \<Rightarrow> (q2, Ok (Some r)))"

text \<open>\<open>run\<close> is the harness; an error is its text. \<open>shown\<close> is the text of a JSON error.\<close>

definition run_claimed :: "queue_env \<Rightarrow> queue_state \<Rightarrow> (run_request \<Rightarrow> (run_result, string) result) \<Rightarrow> claimed_job \<Rightarrow>
    nat \<Rightarrow> string \<Rightarrow> string \<Rightarrow> queue_state \<times> (run_result option, serve_error) result" where
  "run_claimed en q run claimed retry_limit uuid shown =
     (let path = cl_path claimed in
      case cl_job claimed of
        None \<Rightarrow> (case archive_unlocked en q path Failed uuid of
            (q1, Inl e) \<Rightarrow> (q1, Err e)
          | (q1, Inr destination) \<Rightarrow> (write_error_text en q1 destination shown, Err (SE_Job path)))
      | Some job \<Rightarrow> (case run (job_request job) of
          Inl error \<Rightarrow>
            if qj_attempt job < retry_limit then retry_job en q path job uuid
            else (case archive_unlocked en q path Failed uuid of
                (q1, Inl e) \<Rightarrow> (q1, Err e)
              | (q1, Inr destination) \<Rightarrow> (write_error_text en q1 destination error, Err (SE_Harness error)))
        | Inr result \<Rightarrow> archive_result en q path job result uuid))"

subsection \<open>Health\<close>

definition health_status_of :: "queue_state \<Rightarrow> bool \<Rightarrow> nat \<Rightarrow> string option \<Rightarrow> serve_runtime \<Rightarrow> health_status" where
  "health_status_of q running running_jobs last_run_id rt =
     \<lparr>hs_ok = True, hs_queue_inbox = fst (count_inbox (qs_inbox q)), hs_running = running,
      hs_last_run_id = last_run_id, hs_running_jobs = running_jobs,
      hs_queue_capacity = sv_queue_capacity rt, hs_queue_over_capacity = depth q > sv_queue_capacity rt\<rparr>"

definition write_health :: "queue_env \<Rightarrow> queue_state \<Rightarrow> bool \<Rightarrow> nat \<Rightarrow> string option \<Rightarrow> serve_runtime \<Rightarrow>
    queue_state \<times> (unit, serve_error) result" where
  "write_health en q running running_jobs last_run_id rt =
     (if \<not> qe_io en 2 then (q, Err SE_Io)
      else case qe_health en (health_status_of q running running_jobs last_run_id rt) of
        None \<Rightarrow> (q, Err SE_Json)
      | Some raw \<Rightarrow>
        if qs_last_health q = Some raw then (q, Ok ())
        else let q1 = q\<lparr>qs_last_health := Some raw\<rparr>
          in if qe_io en 10 then (q1\<lparr>qs_health := Some raw\<rparr>, Ok ()) else (q1, Err SE_Io))"

subsection \<open>Lemmas on names and directories\<close>

definition uuid_ok :: "string \<Rightarrow> bool" where
  "uuid_ok u \<longleftrightarrow> u \<noteq> [] \<and> (\<forall>c\<in>set u. is_hexdigit c \<or> c = CHR ''-'')"

lemma split_once_str_char: "c \<notin> set x \<Longrightarrow> split_once_str [c] (x @ c # b) = Some (x, b)"
  by (induction x) auto

lemma split_once_str_first:
  assumes "g \<notin> set x" and "c \<noteq> g"
  shows "split_once_str (c # g # p) (x @ (c # g # p) @ b) = Some (x, b)"
  using assms(1)
proof (induction x)
  case Nil
  have "strip_prefix (c # g # p) ((c # g # p) @ b) = Some b" by (rule strip_prefix_append)
  then show ?case by simp
next
  case (Cons y x)
  have "strip_prefix (c # g # p) ((y # x) @ (c # g # p) @ b) = None"
    using Cons.prems assms(2) by (cases x) auto
  with Cons show ?case by simp
qed

lemma hexdigit_not: "is_hexdigit c \<Longrightarrow> c \<noteq> CHR ''g'' \<and> c \<noteq> CHR ''.'' \<and> c \<noteq> CHR ''-''"
  by (auto simp: is_hexdigit_def Let_def)

lemma original_of_processing:
  assumes "uuid_ok uuid"
  shows "original_job_filename (processing_name original uuid) = original"
proof -
  have g: "CHR ''g'' \<notin> set (rev (uuid @ ''.json''))"
    using assms hexdigit_not by (auto simp: uuid_ok_def)
  have "split_once_str (CHR ''-'' # CHR ''g'' # rev ''.processin'')
      (rev (uuid @ ''.json'') @ (CHR ''-'' # CHR ''g'' # rev ''.processin'') @ rev original)
      = Some (rev (uuid @ ''.json''), rev original)"
    by (rule split_once_str_first [OF g]) simp
  then show ?thesis
    by (simp add: original_job_filename_def processing_name_def rsplit_once_str_def)
qed

lemma extension_json: "stem \<noteq> [] \<Longrightarrow> file_extension (stem @ ''.json'') = Some ''json''"
  using split_once_str_char [of "CHR ''.''" "rev ''json''" "rev stem"]
  by (simp add: file_extension_def rsplit_once_str_def)

lemma stem_json: "stem \<noteq> [] \<Longrightarrow> file_stem (stem @ ''.json'') = stem"
  using split_once_str_char [of "CHR ''.''" "rev ''json''" "rev stem"]
  by (simp add: file_stem_def rsplit_once_str_def)

lemma extension_tmp: "file_extension (stem @ ''.json.tmp'') = Some ''tmp''"
  using split_once_str_char [of "CHR ''.''" "rev ''tmp''" "rev (stem @ ''.json'')"]
  by (simp add: file_extension_def rsplit_once_str_def)

lemma extension_error: "file_extension (stem @ ''.error.txt'') = Some ''txt''"
  using split_once_str_char [of "CHR ''.''" "rev ''txt''" "rev (stem @ ''.error'')"]
  by (simp add: file_extension_def rsplit_once_str_def)

lemma is_json_simps [simp]:
  "is_json (inbox_filename p u)" "is_json (processing_name n u)"
  "\<not> is_json (s @ ''.json.tmp'')" "\<not> is_json (s @ ''.error.txt'')"
proof -
  show "is_json (inbox_filename p u)"
    using extension_json [of "''p'' @ pad_dec 10 (inbox_priority_key p) @ ''-'' @ u"]
    by (simp add: is_json_def inbox_filename_def)
  show "is_json (processing_name n u)"
    using extension_json [of "n @ ''.processing-'' @ u"]
    by (simp add: is_json_def processing_name_def)
qed (simp_all add: is_json_def extension_tmp extension_error)

lemma dir_lookup_remove: "map_of (dir_remove n d) = (map_of d)(n := None)"
  by (induction d) (auto simp: dir_remove_def fun_eq_iff)

lemma dir_lookup_put: "map_of (dir_put n raw d) = (map_of d)(n \<mapsto> raw)"
  by (auto simp: dir_put_def dir_lookup_remove map_add_def fun_eq_iff split: option.splits)

lemma names_remove: "names (dir_remove n d) = filter (\<lambda>m. m \<noteq> n) (names d)"
  by (induction d) (auto simp: names_def dir_remove_def)

lemma names_put: "names (dir_put n raw d) = filter (\<lambda>m. m \<noteq> n) (names d) @ [n]"
proof -
  have "names (dir_put n raw d) = names (dir_remove n d) @ [n]" by (simp add: names_def dir_put_def)
  then show ?thesis by (simp add: names_remove)
qed

lemma names_lookup: "n \<in> set (names d) \<longleftrightarrow> map_of d n \<noteq> None"
  by (simp add: names_def map_of_eq_None_iff)

lemma count_json_names: "count_json d = length (filter is_json (names d))"
  by (simp add: count_json_def count_inbox_def)

subsection \<open>Priorities in file names\<close>

lemma priority_key_bound: "i32_min \<le> p \<Longrightarrow> p \<le> i32_max \<Longrightarrow> inbox_priority_key p \<le> u32_max"
  by (simp add: inbox_priority_key_def i32_min_def i32_max_def u32_max_def)

text \<open>
  The file name carries the priority exactly. For every priority of the 32-bit range
  the name of an admitted job reads back as that priority, so the offset by the maximum neither
  overflows nor loses the sign at the ends.
\<close>

theorem priority_roundtrip:
  assumes "i32_min \<le> p" and "p \<le> i32_max"
  shows "priority_from_inbox_name (inbox_filename p uuid) = p"
proof -
  let ?k = "inbox_priority_key p"
  have bound: "?k \<le> u32_max" by (rule priority_key_bound [OF assms])
  then have len: "length (pad_dec 10 ?k) = 10"
    by (intro length_pad_dec) (simp_all add: u32_max_def)
  have "CHR ''-'' \<notin> set (pad_dec 10 ?k)"
    using pad_dec_digits digit_char_not_special by metis
  then have split: "split_once CHR ''-'' (pad_dec 10 ?k @ CHR ''-'' # uuid @ ''.json'') =
      Some (pad_dec 10 ?k, uuid @ ''.json'')"
    by (rule split_once_append)
  have "parse_unsigned u32_max (pad_dec 10 ?k) = Some ?k" using bound by (intro parse_pad_dec) (simp_all add: u32_max_def)
  moreover have "as_i32 (i32_max - int ?k) = p"
    using assms by (simp add: inbox_priority_key_def as_i32_def i32_max_def i32_min_def)
  ultimately show ?thesis
    using split len by (simp add: priority_from_inbox_name_def inbox_filename_def)
qed

theorem priority_roundtrip_witness:
  "priority_from_inbox_name (inbox_filename (-2147483648) ''ab'') = -2147483648"
  by (rule priority_roundtrip) (simp_all add: i32_min_def i32_max_def)

subsection \<open>What admission and claiming do\<close>

lemma prioritized_first:
  assumes "prioritized d = source # rest"
  shows "source \<in> set (names d) \<and> is_json source \<and>
    (\<forall>n\<in>set (names d). is_json n \<longrightarrow> file_order source \<le> file_order n)"
proof -
  have set: "set (source # rest) = {n \<in> set (names d). is_json n}"
    using arg_cong [OF assms, of set] by (auto simp: prioritized_def)
  have "sorted (map file_order (source # rest))"
    using assms sorted_sort_key [of file_order "filter is_json (names d)"]
    by (simp add: prioritized_def)
  with set show ?thesis by auto
qed

lemma prioritized_Nil: "prioritized d = [] \<longleftrightarrow> (\<forall>n\<in>set (names d). \<not> is_json n)"
proof -
  have "sort_key file_order xs = [] \<longleftrightarrow> xs = []" for xs by (metis length_0_conv length_sort)
  then show ?thesis by (auto simp: prioritized_def filter_empty_conv)
qed

text \<open>
  Claiming takes the most urgent job, whatever order the directory is listed in. A
  claimed job was a job file of the inbox; every other job file of the inbox has a lower priority, or the
  same priority and a greater name; the file has left the inbox and is in \<open>processing\<close> with its contents
  unchanged, under a name from which its original name is recovered; every other file stays where it was.
\<close>

theorem claim_most_urgent:
  assumes claim: "claim_next en q uuid = (q', Ok (Some claimed))" and uuid: "uuid_ok uuid"
  shows "\<exists>source raw. map_of (qs_inbox q) source = Some raw \<and> is_json source \<and>
    (\<forall>n\<in>set (names (qs_inbox q)). is_json n \<longrightarrow> n \<noteq> source \<longrightarrow>
       priority_from_inbox_name n < priority_from_inbox_name source \<or>
       priority_from_inbox_name n = priority_from_inbox_name source \<and> source < n) \<and>
    map_of (qs_inbox q') = (map_of (qs_inbox q))(source := None) \<and>
    map_of (qs_processing q') = (map_of (qs_processing q))(cl_path claimed \<mapsto> raw) \<and>
    original_job_filename (cl_path claimed) = source \<and> cl_job claimed = qe_from_str en raw \<and>
    qs_done q' = qs_done q \<and> qs_failed q' = qs_failed q"
proof -
  obtain source rest where p: "prioritized (qs_inbox q) = source # rest"
    using claim by (auto simp: claim_next_def split: if_splits list.splits)
  note first = prioritized_first [OF p]
  obtain raw where raw: "map_of (qs_inbox q) source = Some raw"
    using first names_lookup by fastforce
  have q': "map_of (qs_inbox q') = (map_of (qs_inbox q))(source := None)"
      "map_of (qs_processing q') = (map_of (qs_processing q))(cl_path claimed \<mapsto> raw)"
      "cl_path claimed = processing_name source uuid" "cl_job claimed = qe_from_str en raw"
      "qs_done q' = qs_done q" "qs_failed q' = qs_failed q"
    using claim p raw
    by (auto simp: claim_next_def Let_def set_inbox_def invalidate_inbox_cache_def dir_lookup_remove
        dir_lookup_put split: if_splits)
  have "\<forall>n\<in>set (names (qs_inbox q)). is_json n \<longrightarrow> n \<noteq> source \<longrightarrow>
       priority_from_inbox_name n < priority_from_inbox_name source \<or>
       priority_from_inbox_name n = priority_from_inbox_name source \<and> source < n"
    using first by (fastforce simp: file_order_def less_eq_prod_def order.order_iff_strict)
  with raw first q' original_of_processing [OF uuid] show ?thesis by auto
qed

definition demo_queue_env :: queue_env where
  "demo_queue_env = \<lparr>qe_to_vec = (\<lambda>_. Some ''j''), qe_from_str = (\<lambda>_. None), qe_result = (\<lambda>_. Some ''r''),
     qe_health = (\<lambda>_. Some ''h''), qe_io = (\<lambda>_. True), qe_now = 7\<rparr>"

definition demo_queue :: queue_state where
  "demo_queue = \<lparr>qs_inbox = [(''b.json'', ''raw'')], qs_processing = [], qs_done = [], qs_failed = [],
     qs_mtime = 3, qs_idle = False, qs_idle_mtime = None, qs_health = None, qs_last_health = None\<rparr>"

lemma demo_json: "is_json ''b.json''"
  using extension_json [of "''b''"] by (simp add: is_json_def)

lemma demo_prioritized: "prioritized (qs_inbox demo_queue) = [''b.json'']"
  by (simp add: prioritized_def demo_queue_def names_def demo_json)

lemma demo_claim_Ok:
  "\<exists>q'. claim_next demo_queue_env demo_queue ''ab'' =
     (q', Ok (Some \<lparr>cl_path = processing_name ''b.json'' ''ab'', cl_job = None\<rparr>))"
  using demo_prioritized
  by (simp add: claim_next_def Let_def) (simp add: demo_queue_env_def demo_queue_def inbox_is_idle_def)

theorem claim_most_urgent_witness:
  "\<exists>source raw. map_of (qs_inbox demo_queue) source = Some raw \<and> is_json source"
proof -
  obtain q' where c: "claim_next demo_queue_env demo_queue ''ab'' =
     (q', Ok (Some \<lparr>cl_path = processing_name ''b.json'' ''ab'', cl_job = None\<rparr>))"
    using demo_claim_Ok by blast
  have "uuid_ok ''ab''" by (simp add: uuid_ok_def is_hexdigit_def)
  from claim_most_urgent [OF c this] show ?thesis by blast
qed

lemma depth_put_inbox:
  assumes "put_inbox en q (inbox_filename p u) raw = (q', r)"
  shows "depth q' \<le> depth q + 1" and "is_ok r \<or> depth q' = depth q"
proof -
  have "length (filter is_json (filter (\<lambda>m. m \<noteq> n) xs)) \<le> length (filter is_json xs)" for n and xs :: "string list"
    by (induction xs) auto
  moreover have "length (filter is_json (filter (\<lambda>m. m \<noteq> t @ ''.json.tmp'') xs)) = length (filter is_json xs)"
    for t and xs :: "string list"
    by (induction xs) auto
  moreover have "length (filter is_json (filter (\<lambda>m. m \<noteq> n) (filter (\<lambda>m. m \<noteq> t @ ''.json.tmp'') xs)))
      \<le> length (filter is_json xs)" for n t and xs :: "string list"
    by (induction xs) auto
  ultimately show "depth q' \<le> depth q + 1" and "is_ok r \<or> depth q' = depth q"
    using assms
    by (auto simp: put_inbox_def Let_def depth_def count_json_names names_put names_remove set_inbox_def
        split: if_splits)
qed

text \<open>
  Admission is bounded. Whatever the outcome and whatever fails, an admission never takes
  the queue above its capacity; a refusal or an error admits no job; a job without a task is never
  admitted; and an accepted job keeps the caller's fields and has an id.
\<close>

theorem admission_bounded:
  assumes "admit en q job capacity id_uuid name_uuid = (q', r)"
  shows "depth q' \<le> max (depth q) (max 1 capacity) \<and>
    (case r of
       Inl _ \<Rightarrow> depth q' = depth q
     | Inr AM_MissingTask \<Rightarrow> q' = q \<and> trim (qj_task job) = []
     | Inr AM_Full \<Rightarrow> q' = q \<and> max 1 capacity \<le> depth q
     | Inr (AM_Accepted job') \<Rightarrow> depth q < max 1 capacity \<and> trim (qj_task job') \<noteq> [] \<and>
         qj_job_id job' \<noteq> None \<and> job'\<lparr>qj_job_id := qj_job_id job\<rparr> = job)"
proof -
  define job' where "job' = (if qj_job_id job = None then job\<lparr>qj_job_id := Some id_uuid\<rparr> else job)"
  have j: "qj_job_id job' \<noteq> None" "job'\<lparr>qj_job_id := qj_job_id job\<rparr> = job" "qj_task job' = qj_task job"
    by (auto simp: job'_def)
  show ?thesis
  proof (cases "trim (qj_task job) = [] \<or> \<not> qe_io en 2 \<or> max 1 capacity \<le> depth q \<or> qe_to_vec en job' = None")
    case True
    with assms show ?thesis
      by (auto simp: admit_def Let_def job'_def [symmetric] split: if_splits)
  next
    case False
    then obtain raw where raw: "qe_to_vec en job' = Some raw" by blast
    obtain q1 r1 where put: "put_inbox en q (inbox_filename (qj_priority job') name_uuid) raw = (q1, r1)"
      by fastforce
    note d = depth_put_inbox [OF put]
    have "depth (invalidate_inbox_cache q1) = depth q1" by (simp add: depth_def invalidate_inbox_cache_def)
    with False raw put d j assms show ?thesis
      by (cases r1) (auto simp: admit_def Let_def job'_def [symmetric])
  qed
qed

theorem admission_bounded_witness:
  "depth (fst (admit demo_queue_env demo_queue
      \<lparr>qj_job_id = None, qj_task = ''t'', qj_priority = 0, qj_attempt = 0, qj_keep_workspace = False,
       qj_logical_operation_id = None, qj_timeout_secs = None\<rparr> 4 ''ab'' ''cd''))
    \<le> max (depth demo_queue) (max 1 4)"
  using admission_bounded [OF prod.collapse [symmetric]] by blast

subsection \<open>No job is lost\<close>

definition in_archive :: "queue_state \<Rightarrow> string \<Rightarrow> bool" where
  "in_archive q raw \<longleftrightarrow> (\<exists>a n. map_of (get_archive a q) n = Some raw)"

definition requeued :: "queue_env \<Rightarrow> queue_state \<Rightarrow> queue_job \<Rightarrow> bool" where
  "requeued en q job \<longleftrightarrow> (\<exists>n raw. map_of (qs_inbox q) n = Some raw \<and> is_json n \<and>
     qe_to_vec en (next_attempt job) = Some raw)"

text \<open>What run_claimed leaves alone: other claimed jobs, and the job files already archived.\<close>

definition others_kept :: "string \<Rightarrow> queue_state \<Rightarrow> queue_state \<Rightarrow> bool" where
  "others_kept path q q' \<longleftrightarrow>
     (\<forall>n. n \<noteq> path \<longrightarrow> map_of (qs_processing q') n = map_of (qs_processing q) n) \<and>
     (\<forall>a n v. is_json n \<longrightarrow> map_of (get_archive a q) n = Some v \<longrightarrow> map_of (get_archive a q') n = Some v) \<and>
     (\<forall>n v. map_of (qs_inbox q) n = Some v \<longrightarrow> map_of (qs_inbox q') n = Some v)"

text \<open>The random identifier occurs in no file name of the queue.\<close>

definition fresh_uuid :: "queue_state \<Rightarrow> string \<Rightarrow> bool" where
  "fresh_uuid q uuid \<longleftrightarrow> uuid_ok uuid \<and>
     (\<forall>n\<in>set (names (qs_inbox q)) \<union> set (names (qs_done q)) \<union> set (names (qs_failed q)). \<not> contains uuid n)"

lemma contains_mid [simp]: "contains u (a @ u @ b)"
  by (auto simp: contains_iff)

lemma get_set_archive [simp]:
  "get_archive a (set_archive b d q) = (if a = b then d else get_archive a q)"
  "qs_processing (set_archive b d q) = qs_processing q" "qs_inbox (set_archive b d q) = qs_inbox q"
  "get_archive a (q\<lparr>qs_processing := p\<rparr>) = get_archive a q"
  by (cases a; cases b; simp add: get_archive_def set_archive_def)+

lemma fresh_suffix:
  assumes "fresh_uuid q u"
  shows "map_of (get_archive a q) (x @ ''-'' @ u @ y) = None" "map_of (qs_inbox q) (x @ u @ y) = None"
proof -
  have "contains u (x @ ''-'' @ u @ y)" using contains_mid [of u "x @ ''-''" y] by simp
  then show "map_of (get_archive a q) (x @ ''-'' @ u @ y) = None"
    using assms by (cases a) (auto simp: fresh_uuid_def get_archive_def names_lookup)
  show "map_of (qs_inbox q) (x @ u @ y) = None"
    by (metis UnI1 assms contains_mid fresh_uuid_def names_lookup)
qed

lemma archive_unlocked_keeps:
  assumes arch: "archive_unlocked en q path a u = (q', r)"
    and fresh: "map_of (get_archive a q) (original_job_stem path @ ''-'' @ u @ ''.json'') = None"
    and json: "is_json (original_job_filename path)"
    and raw: "map_of (qs_processing q) path = Some raw"
  shows "others_kept path q q' \<and> qs_inbox q' = qs_inbox q \<and>
    (case r of Inl _ \<Rightarrow> q' = q
     | Inr _ \<Rightarrow> (\<exists>n. is_json n \<and> map_of (get_archive a q') n = Some raw) \<and> map_of (qs_processing q') path = None)"
proof -
  define dest where "dest = (if original_job_filename path \<in> set (names (get_archive a q))
    then original_job_stem path @ ''-'' @ u @ ''.json'' else original_job_filename path)"
  have none: "map_of (get_archive a q) dest = None"
    using fresh names_lookup by (simp add: dest_def)
  show ?thesis
  proof (cases "qe_io en 6")
    case False
    with arch raw show ?thesis
      by (auto simp: archive_unlocked_def Let_def others_kept_def)
  next
    case True
    then have q': "q' = set_archive a (dir_put dest raw (get_archive a q)) (q\<lparr>qs_processing := dir_remove path (qs_processing q)\<rparr>)"
        "r = Ok dest"
      using arch raw by (auto simp: archive_unlocked_def Let_def dest_def)
    have "is_json dest"
      using json extension_json [of "original_job_stem path @ ''-'' @ u"] by (simp add: dest_def is_json_def)
    then have "\<exists>n. is_json n \<and> map_of (get_archive a q') n = Some raw"
      unfolding q' by (intro exI [of _ dest]) (simp add: dir_lookup_put)
    with none q' show ?thesis
      by (auto simp: others_kept_def dir_lookup_put dir_lookup_remove)
  qed
qed

lemma write_error_text_keeps:
  "others_kept path q (write_error_text en q d t) \<and> qs_processing (write_error_text en q d t) = qs_processing q \<and>
   qs_inbox (write_error_text en q d t) = qs_inbox q"
  by (auto simp: write_error_text_def others_kept_def get_archive_def dir_lookup_put split: archive_dir.splits)

lemma write_error_text_archive:
  assumes "map_of (get_archive a q) n = Some raw" and "is_json n"
  shows "map_of (get_archive a (write_error_text en q d t)) n = Some raw"
  using assms by (auto simp: write_error_text_def get_archive_def dir_lookup_put split: archive_dir.splits)

lemma others_kept_trans: "others_kept p a b \<Longrightarrow> others_kept p b c \<Longrightarrow> others_kept p a c"
  by (auto simp: others_kept_def)

lemma others_kept_refl [simp]: "others_kept p a a"
  by (simp add: others_kept_def)

lemma retry_job_keeps:
  assumes retry: "retry_job en q path job u = (q', r)" and fresh: "fresh_uuid q u"
    and raw: "map_of (qs_processing q) path = Some raw"
  shows "others_kept path q q' \<and>
    (map_of (qs_processing q') path = Some raw \<or> requeued en q' job) \<and>
    (is_ok r \<longrightarrow> map_of (qs_processing q') path = None)"
proof -
  define retry' where "retry' = next_attempt job"
  show ?thesis
  proof (cases "qe_to_vec en retry'")
    case None
    with retry raw show ?thesis by (auto simp: retry_job_def retry'_def [symmetric] Let_def)
  next
    case (Some out)
    let ?name = "inbox_filename (qj_priority retry') u"
    let ?stem = "''p'' @ pad_dec 10 (inbox_priority_key (qj_priority retry')) @ ''-'' @ u"
    have stem: "file_stem ?name = ?stem"
      using stem_json [of ?stem] by (simp add: inbox_filename_def)
    have none: "map_of (qs_inbox q) ?name = None" "map_of (qs_inbox q) (?stem @ ''.json.tmp'') = None"
      using fresh_suffix(2) [OF fresh, of "''p'' @ pad_dec 10 (inbox_priority_key (qj_priority retry')) @ ''-''"]
      by (simp_all add: inbox_filename_def)
    obtain q1 r1 where put: "put_inbox en q ?name out = (q1, r1)" by fastforce
    have q1: "others_kept path q q1" "qs_processing q1 = qs_processing q"
        "is_ok r1 \<Longrightarrow> map_of (qs_inbox q1) ?name = Some out"
      using put none stem
      by (auto simp: put_inbox_def Let_def others_kept_def set_inbox_def get_archive_def dir_lookup_put
          dir_lookup_remove split: if_splits archive_dir.splits)
    have req: "is_ok r1 \<Longrightarrow> qs_inbox q'' = qs_inbox q1 \<Longrightarrow> requeued en q'' job" for q''
      unfolding requeued_def using q1(3) Some
      by (intro exI [of _ ?name] exI [of _ out]) (simp add: retry'_def)
    define q2 where "q2 = invalidate_inbox_cache (q1\<lparr>qs_processing := dir_remove path (qs_processing q1)\<rparr>)"
    have q2: "others_kept path q1 q2" "map_of (qs_processing q2) path = None" "qs_inbox q2 = qs_inbox q1"
      by (auto simp: q2_def others_kept_def invalidate_inbox_cache_def get_archive_def dir_lookup_remove
          split: archive_dir.splits)
    show ?thesis
    proof (cases "is_ok r1 \<and> qe_io en 8")
      case True
      then have "q' = q2" "r = Ok None"
        using retry Some put raw q1(2)
        by (auto simp: retry_job_def retry'_def [symmetric] Let_def is_ok_iff q2_def names_lookup)
      with True q2 req others_kept_trans [OF q1(1) q2(1)] show ?thesis by auto
    next
      case False
      then have "q' = q1" "\<not> is_ok r"
        using retry Some put
        by (auto simp: retry_job_def retry'_def [symmetric] Let_def is_ok_def split: sum.splits if_splits)
      with q1 raw show ?thesis by auto
    qed
  qed
qed

lemma archive_result_keeps:
  assumes arch: "archive_result en q path job res u = (q', r)" and fresh: "fresh_uuid q u"
    and json: "is_json (original_job_filename path)" and raw: "map_of (qs_processing q) path = Some raw"
  shows "others_kept path q q' \<and>
    (map_of (qs_processing q') path = Some raw \<or> (\<exists>a n. is_json n \<and> map_of (get_archive a q') n = Some raw)) \<and>
    (is_ok r \<longrightarrow> map_of (qs_processing q') path = None)"
proof -
  define a where "a = (if rr_success res \<and> rr_termination res \<noteq> RT_Parked then Done else Failed)"
  define stem where "stem = original_job_stem path"
  define rname where "rname = (if stem @ ''.result.json'' \<in> set (names (get_archive a q))
    then stem @ ''-'' @ u @ ''.result.json'' else stem @ ''.result.json'')"
  have none: "map_of (get_archive a q) rname = None"
    using fresh_suffix(1) [OF fresh, of a stem "''.result.json''"] by (simp add: rname_def names_lookup)
  have ne: "rname \<noteq> stem @ ''-'' @ u @ ''.json''" by (simp add: rname_def)
  show ?thesis
  proof (cases "qe_result en (job_result path job res) = None \<or> \<not> qe_io en 9")
    case True
    with arch raw show ?thesis
      by (auto simp: archive_result_def Let_def a_def [symmetric] split: option.splits)
  next
    case False
    then obtain out where out: "qe_result en (job_result path job res) = Some out" by auto
    define q1 where "q1 = set_archive a (dir_put rname out (get_archive a q)) q"
    have q1: "others_kept path q q1" "map_of (qs_processing q1) path = Some raw"
        "map_of (get_archive a q1) (stem @ ''-'' @ u @ ''.json'') = None"
      using none raw ne fresh_suffix(1) [OF fresh, of a stem "''.json''"]
      by (auto simp: q1_def others_kept_def dir_lookup_put)
    obtain q2 r2 where un: "archive_unlocked en q1 path a u = (q2, r2)" by fastforce
    have "q' = q2" "is_ok r = is_ok r2"
      using arch False out un
      by (auto simp: archive_result_def Let_def a_def [symmetric] stem_def [symmetric] rname_def [symmetric]
          q1_def [symmetric] split: sum.splits)
    moreover note archive_unlocked_keeps [OF un q1(3) [unfolded stem_def] json q1(2)]
    ultimately show ?thesis
      using others_kept_trans [OF q1(1)] q1(2) by (cases r2) auto
  qed
qed

text \<open>
  \<^bold>\<open>C21\<close>: no job is lost. However the run of a claimed job ends and whatever call fails on the
  way, the job's file is still in \<open>processing\<close>, or archived unchanged in \<open>done\<close> or \<open>failed\<close>, or the
  inbox holds its retry; every other claimed job, every job file of the inbox and every job file already
  archived is untouched; and when the operation reports success the job has left \<open>processing\<close>.
\<close>

theorem run_claimed_conserves:
  assumes run: "run_claimed en q run claimed retry_limit uuid shown = (q', r)"
    and path: "cl_path claimed = processing_name source u0" "uuid_ok u0" "is_json source"
    and raw: "map_of (qs_processing q) (cl_path claimed) = Some raw"
    and fresh: "fresh_uuid q uuid"
  shows "others_kept (cl_path claimed) q q' \<and>
    (map_of (qs_processing q') (cl_path claimed) = Some raw \<or> in_archive q' raw \<or>
     (\<exists>job. cl_job claimed = Some job \<and> qj_attempt job < retry_limit \<and> requeued en q' job)) \<and>
    (is_ok r \<longrightarrow> map_of (qs_processing q') (cl_path claimed) = None)"
proof -
  let ?p = "cl_path claimed"
  have json: "is_json (original_job_filename ?p)" using path original_of_processing by simp
  have fail: "others_kept ?p q q' \<and> (map_of (qs_processing q') ?p = Some raw \<or> in_archive q' raw) \<and>
      (is_ok r \<longrightarrow> map_of (qs_processing q') ?p = None)"
    if "(case archive_unlocked en q ?p Failed uuid of (q1, Inl e) \<Rightarrow> (q1, Err e)
          | (q1, Inr d) \<Rightarrow> (write_error_text en q1 d why, Err err)) = (q', r)" for why err
  proof -
    obtain q1 r1 where un: "archive_unlocked en q ?p Failed uuid = (q1, r1)" by fastforce
    note k = archive_unlocked_keeps [OF un fresh_suffix(1) [OF fresh] json raw]
    show ?thesis
    proof (cases r1)
      case (Inl e)
      with that un k raw show ?thesis by auto
    next
      case (Inr d)
      then have q': "q' = write_error_text en q1 d why" "\<not> is_ok r" using that un by auto
      obtain n where "is_json n" "map_of (get_archive Failed q1) n = Some raw" using k Inr by auto
      then have "in_archive q' raw" using write_error_text_archive q'(1) in_archive_def by metis
      moreover have "others_kept ?p q q'"
        using k others_kept_trans write_error_text_keeps q'(1) by metis
      ultimately show ?thesis using q'(2) by simp
    qed
  qed
  show ?thesis
  proof (cases "cl_job claimed")
    case None
    with fail run show ?thesis by (simp add: run_claimed_def Let_def)
  next
    case (Some job)
    show ?thesis
    proof (cases "run (job_request job)")
      case (Inl e)
      show ?thesis
      proof (cases "qj_attempt job < retry_limit")
        case True
        then have "retry_job en q ?p job uuid = (q', r)" using run Some Inl by (simp add: run_claimed_def Let_def)
        from retry_job_keeps [OF this fresh raw] Some True show ?thesis by auto
      next
        case False
        with fail run Some Inl show ?thesis by (simp add: run_claimed_def Let_def)
      qed
    next
      case (Inr res)
      then have "archive_result en q ?p job res uuid = (q', r)" using run Some by (simp add: run_claimed_def Let_def)
      from archive_result_keeps [OF this fresh json raw] show ?thesis unfolding in_archive_def by blast
    qed
  qed
qed

definition demo_processing :: queue_state where
  "demo_processing = demo_queue\<lparr>qs_inbox := [], qs_processing := [(processing_name ''b.json'' ''ab'', ''raw'')]\<rparr>"

theorem run_claimed_conserves_witness:
  "in_archive (fst (run_claimed demo_queue_env demo_processing (\<lambda>_. Err ''e'')
      \<lparr>cl_path = processing_name ''b.json'' ''ab'', cl_job = None\<rparr> 0 ''cd'' ''bad'')) ''raw'' \<or>
   map_of (qs_processing (fst (run_claimed demo_queue_env demo_processing (\<lambda>_. Err ''e'')
      \<lparr>cl_path = processing_name ''b.json'' ''ab'', cl_job = None\<rparr> 0 ''cd'' ''bad'')))
     (processing_name ''b.json'' ''ab'') = Some ''raw''"
proof -
  let ?c = "\<lparr>cl_path = processing_name ''b.json'' ''ab'', cl_job = None\<rparr> :: claimed_job"
  have u: "uuid_ok ''ab''" "uuid_ok ''cd''" by (simp_all add: uuid_ok_def is_hexdigit_def)
  have "fresh_uuid demo_processing ''cd''"
    using u by (simp add: fresh_uuid_def demo_processing_def demo_queue_def names_def)
  moreover have "map_of (qs_processing demo_processing) (cl_path ?c) = Some ''raw''"
    by (simp add: demo_processing_def)
  moreover have "cl_path ?c = processing_name ''b.json'' ''ab''" by simp
  ultimately show ?thesis
    using run_claimed_conserves [where en = demo_queue_env and q = demo_processing and run = "\<lambda>_. Err ''e''"
        and claimed = ?c and retry_limit = 0 and uuid = "''cd''" and shown = "''bad''" and raw = "''raw''",
        OF prod.collapse [symmetric] _ u(1) demo_json]
    by auto
qed

subsection \<open>The serve loop\<close>

text \<open>
  \<open>run_until_shutdown\<close> as a step relation: it claims while there is room, joins a finished job,
  notices the shutdown (or the limit) and drains. A retried job counts neither as active nor as completed.
\<close>

datatype join_outcome = JN_Result string | JN_Retried | JN_Failed

record loop_state =
  lp_completed :: nat
  lp_active :: nat
  lp_last_run_id :: "string option"
  lp_stopping :: bool
  lp_done :: bool

definition below_limit :: "nat option \<Rightarrow> nat \<Rightarrow> bool" where
  "below_limit limit n \<longleftrightarrow> (case limit of None \<Rightarrow> True | Some m \<Rightarrow> n < m)"

definition loop_join :: "join_outcome \<Rightarrow> loop_state \<Rightarrow> loop_state" where
  "loop_join out s = (let s1 = s\<lparr>lp_active := lp_active s - 1\<rparr> in
     case out of
       JN_Result run_id \<Rightarrow> s1\<lparr>lp_completed := lp_completed s1 + 1, lp_last_run_id := Some run_id\<rparr>
     | JN_Retried \<Rightarrow> s1
     | JN_Failed \<Rightarrow> s1\<lparr>lp_completed := lp_completed s1 + 1\<rparr>)"

inductive loop_step :: "nat \<Rightarrow> nat option \<Rightarrow> loop_state \<Rightarrow> loop_state \<Rightarrow> bool"
  for concurrency :: nat and limit :: "nat option" where
  claim: "\<not> lp_done s \<Longrightarrow> \<not> lp_stopping s \<Longrightarrow> lp_active s < concurrency \<Longrightarrow>
     below_limit limit (lp_completed s + lp_active s) \<Longrightarrow>
     loop_step concurrency limit s (s\<lparr>lp_active := lp_active s + 1\<rparr>)"
| join: "\<not> lp_done s \<Longrightarrow> 0 < lp_active s \<Longrightarrow> loop_step concurrency limit s (loop_join out s)"
| shutdown: "\<not> lp_done s \<Longrightarrow> loop_step concurrency limit s (s\<lparr>lp_stopping := True\<rparr>)"
| limit_reached: "\<not> lp_done s \<Longrightarrow> \<not> lp_stopping s \<Longrightarrow> lp_active s = 0 \<Longrightarrow>
     \<not> below_limit limit (lp_completed s) \<Longrightarrow> loop_step concurrency limit s (s\<lparr>lp_done := True\<rparr>)"
| drained: "\<not> lp_done s \<Longrightarrow> lp_stopping s \<Longrightarrow> lp_active s = 0 \<Longrightarrow>
     loop_step concurrency limit s (s\<lparr>lp_done := True\<rparr>)"

inductive_cases loop_stepE: "loop_step c m s s'"

definition loop_init :: loop_state where
  "loop_init = \<lparr>lp_completed = 0, lp_active = 0, lp_last_run_id = None, lp_stopping = False, lp_done = False\<rparr>"

definition loop_inv :: "nat \<Rightarrow> nat option \<Rightarrow> loop_state \<Rightarrow> bool" where
  "loop_inv concurrency limit s \<longleftrightarrow> lp_active s \<le> concurrency \<and>
     (\<forall>m. limit = Some m \<longrightarrow> lp_completed s + lp_active s \<le> m) \<and>
     (lp_done s \<longrightarrow> lp_active s = 0 \<and> (lp_stopping s \<or> limit = Some (lp_completed s)))"

lemma loop_inv_step: "loop_step c m s s' \<Longrightarrow> loop_inv c m s \<Longrightarrow> loop_inv c m s'"
  by (erule loop_stepE)
    (auto simp: loop_inv_def below_limit_def loop_join_def Let_def split: option.splits join_outcome.splits)

text \<open>
  The serve loop keeps its bounds. In every reachable state at most \<open>concurrency\<close>
  jobs run; with a job limit, completed and running jobs together never exceed it; and the loop ends only
  when no job is running, after a shutdown or with exactly the limit completed.
\<close>

theorem serve_loop_bounds:
  assumes "(loop_step concurrency limit)\<^sup>*\<^sup>* loop_init s"
  shows "lp_active s \<le> concurrency \<and> (\<forall>m. limit = Some m \<longrightarrow> lp_completed s + lp_active s \<le> m) \<and>
    (lp_done s \<longrightarrow> lp_active s = 0 \<and> (lp_stopping s \<or> limit = Some (lp_completed s)))"
proof -
  have "loop_inv concurrency limit s"
    using assms
  proof (induction rule: rtranclp_induct)
    case base
    show ?case by (simp add: loop_inv_def loop_init_def)
  qed (rule loop_inv_step)
  then show ?thesis by (simp add: loop_inv_def)
qed

theorem serve_loop_bounds_witness:
  "\<exists>s. (loop_step 2 (Some 1))\<^sup>*\<^sup>* loop_init s \<and> lp_active s = 1 \<and> lp_completed s + lp_active s \<le> 1"
proof -
  have "loop_step 2 (Some 1) loop_init (loop_init\<lparr>lp_active := lp_active loop_init + 1\<rparr>)"
    by (rule loop_step.claim) (simp_all add: loop_init_def below_limit_def)
  then have run: "(loop_step 2 (Some 1))\<^sup>*\<^sup>* loop_init (loop_init\<lparr>lp_active := 1\<rparr>)"
    by (simp add: loop_init_def)
  from serve_loop_bounds [OF this]
  have "lp_completed (loop_init\<lparr>lp_active := 1\<rparr>) + lp_active (loop_init\<lparr>lp_active := 1\<rparr>) \<le> 1" by blast
  with run show ?thesis by (intro exI [of _ "loop_init\<lparr>lp_active := 1\<rparr>"]) simp
qed

subsection \<open>Marking the inbox idle\<close>

text \<open>
  \<open>claim_next\<close> lists the inbox and, when it finds no job, records the directory's modification
  time as the one at which the inbox was idle. It reads that time after the listing: a file
  delivered in between is covered by the mark, and the queue does not look at the inbox again until the
  directory changes once more.
\<close>

inductive idle_step :: "queue_state \<times> bool \<Rightarrow> queue_state \<times> bool \<Rightarrow> bool" where
  scan: "\<not> inbox_is_idle q \<Longrightarrow> prioritized (qs_inbox q) = [] \<Longrightarrow> idle_step (q, False) (q, True)"
| mark: "idle_step (q, True) (mark_inbox_idle q, False)"
| deliver: "qs_mtime q < now \<Longrightarrow> idle_step (q, b) (set_inbox now (dir_put n raw (qs_inbox q)) q, b)"

lemma idle_claims_nothing: "inbox_is_idle q \<Longrightarrow> claim_next en q uuid = (q, Ok None)"
  by (simp add: claim_next_def)

lemma mark_is_idle: "inbox_is_idle (mark_inbox_idle q)"
  by (simp add: inbox_is_idle_def mark_inbox_idle_def)

text \<open>
  \<^bold>\<open>C40\<close>: the idle mark can hide a job. From an empty inbox there is an interleaving of one scan,
  one delivery and the mark after which a delivered job file is in the inbox and every claim, under
  every outcome of the system calls, finds nothing and changes nothing.
\<close>

theorem idle_mark_hides_job:
  "\<exists>q. idle_step\<^sup>*\<^sup>* (demo_queue\<lparr>qs_inbox := []\<rparr>, False) (q, False) \<and>
     map_of (qs_inbox q) ''b.json'' = Some ''raw'' \<and> is_json ''b.json'' \<and>
     (\<forall>en uuid. claim_next en q uuid = (q, Ok None))"
proof -
  define q0 where "q0 = demo_queue\<lparr>qs_inbox := []\<rparr>"
  define q1 where "q1 = set_inbox 4 (dir_put ''b.json'' ''raw'' (qs_inbox q0)) q0"
  have "idle_step (q0, False) (q0, True)"
    by (rule idle_step.scan) (simp_all add: q0_def demo_queue_def inbox_is_idle_def prioritized_def names_def)
  moreover have "idle_step (q0, True) (q1, True)"
    unfolding q1_def by (rule idle_step.deliver) (simp add: q0_def demo_queue_def)
  moreover have "idle_step (q1, True) (mark_inbox_idle q1, False)" by (rule idle_step.mark)
  ultimately have "idle_step\<^sup>*\<^sup>* (q0, False) (mark_inbox_idle q1, False)"
    by (meson converse_rtranclp_into_rtranclp r_into_rtranclp)
  moreover have "map_of (qs_inbox (mark_inbox_idle q1)) ''b.json'' = Some ''raw''"
    by (simp add: mark_inbox_idle_def q1_def set_inbox_def dir_lookup_put)
  ultimately show ?thesis
    using demo_json mark_is_idle idle_claims_nothing unfolding q0_def by blast
qed

end
