(* ===== verification/Tool_Paths.thy ===== *)
theory Tool_Paths
  imports Checkpoint
begin

section \<open>Tool catalog, path jail and bounded arguments (crates/shikigami-engine/src/tools)\<close>

text \<open>
  The lexical rules that decide what a tool call may touch: path components and the relative
  path check (\<open>path.rs\<close>), the ignore patterns and their glob matcher, the classes of builtin
  tools and the plan write-jail (\<open>catalog.rs\<close>), and the bounded arguments of \<open>todo_write\<close> and
  \<open>handoff\<close> (\<open>todo.rs\<close>, \<open>handoff.rs\<close>). Paths are Unix paths; parsing JSON is the argument
  \<open>from_str\<close>, parsing typed arguments the argument \<open>parse\<close>.
\<close>

subsection \<open>Errors and outcomes (crates/shikigami-engine/src/tools/mod.rs)\<close>

datatype tool_error = TL_InvalidArguments string | TL_UnsafePath string | TL_PathEscape string
  | TL_NotRegular string | TL_FileTooLarge string | TL_EditMatch nat | TL_MultiEditMatch nat nat
  | TL_MultiEditEmpty | TL_EditOverlap nat nat | TL_ApplyPatch string | TL_ApplyPatchLimit string
  | TL_ApplyPatchMatch string nat nat | TL_BashTimeout nat | TL_BashOutputLimit | TL_BashFailed string string
  | TL_Disabled string | TL_UnknownTool string | TL_InvalidPattern string | TL_SearchTruncated nat | TL_Io
  | TL_Message string

datatype edit_outcome = EO_Applied | EO_AppliedNormalized | EO_NoMatch | EO_Ambiguous | EO_Overlap
  | EO_InvalidInput | EO_Limit | EO_Io

fun edit_outcome_of :: "tool_error \<Rightarrow> edit_outcome \<times> nat option" where
  "edit_outcome_of (TL_EditMatch n) = (if n = 0 then EO_NoMatch else EO_Ambiguous, Some n)"
| "edit_outcome_of (TL_MultiEditMatch _ n) = (if n = 0 then EO_NoMatch else EO_Ambiguous, Some n)"
| "edit_outcome_of (TL_ApplyPatchMatch _ _ n) = (if n = 0 then EO_NoMatch else EO_Ambiguous, Some n)"
| "edit_outcome_of (TL_FileTooLarge _) = (EO_Limit, None)"
| "edit_outcome_of (TL_ApplyPatchLimit _) = (EO_Limit, None)"
| "edit_outcome_of (TL_EditOverlap _ _) = (EO_Overlap, None)"
| "edit_outcome_of TL_Io = (EO_Io, None)"
| "edit_outcome_of _ = (EO_InvalidInput, None)"

subsection \<open>Path components\<close>

datatype path_component = PC_Root | PC_Cur | PC_Parent | PC_Normal string

text \<open>\<open>Path::components\<close>: empty and interior \<open>.\<close> segments are dropped.\<close>

definition segment_component :: "string \<Rightarrow> path_component" where
  "segment_component w = (if w = ''..'' then PC_Parent else PC_Normal w)"

definition is_absolute :: "string \<Rightarrow> bool" where
  "is_absolute p \<longleftrightarrow> starts_with ''/'' p"

definition path_components :: "string \<Rightarrow> path_component list" where
  "path_components p =
     (let segs = split_on CHR ''/'' p in
      (if is_absolute p then [PC_Root] else if hd segs = ''.'' then [PC_Cur] else []) @
      map segment_component (filter (\<lambda>w. w \<noteq> [] \<and> w \<noteq> ''.'') segs))"

definition is_unsafe_relative_path :: "string \<Rightarrow> bool" where
  "is_unsafe_relative_path p \<longleftrightarrow>
     is_absolute p \<or> list_ex (\<lambda>c. c = PC_Parent \<or> c = PC_Root) (path_components p)"

text \<open>The lexical meaning of joining a path below a base directory.\<close>

fun resolve_step :: "string list \<Rightarrow> path_component \<Rightarrow> string list" where
  "resolve_step base PC_Root = []"
| "resolve_step base PC_Cur = base"
| "resolve_step base PC_Parent = butlast base"
| "resolve_step base (PC_Normal w) = base @ [w]"

definition resolve_path :: "string list \<Rightarrow> string \<Rightarrow> string list" where
  "resolve_path base p = foldl resolve_step base (path_components p)"

definition normal_parts :: "string \<Rightarrow> string list" where
  "normal_parts p = filter (\<lambda>w. w \<noteq> [] \<and> w \<noteq> ''.'') (split_on CHR ''/'' p)"

definition normalize_rel_path :: "string \<Rightarrow> string option" where
  "normalize_rel_path p =
     (if is_unsafe_relative_path p then None
      else if normal_parts p = [] then None
      else Some (join_with CHR ''/'' (normal_parts p)))"

lemma safe_components:
  assumes "\<not> is_unsafe_relative_path p"
  shows "''..'' \<notin> set (normal_parts p) \<and>
    path_components p = (if hd (split_on CHR ''/'' p) = ''.'' then [PC_Cur] else []) @ map PC_Normal (normal_parts p)"
proof -
  have parent: "''..'' \<notin> set (normal_parts p)"
  proof
    assume "''..'' \<in> set (normal_parts p)"
    then have "PC_Parent \<in> set (path_components p)"
      by (auto simp: path_components_def normal_parts_def segment_component_def Let_def intro: rev_image_eqI)
    with assms show False by (auto simp: is_unsafe_relative_path_def list_ex_iff)
  qed
  then have "map segment_component (normal_parts p) = map PC_Normal (normal_parts p)"
    by (auto simp: segment_component_def)
  with assms parent show ?thesis
    by (auto simp: path_components_def is_unsafe_relative_path_def normal_parts_def Let_def)
qed

lemma foldl_normal: "foldl resolve_step base (map PC_Normal ws) = base @ ws"
  by (induction ws arbitrary: base) auto

lemma resolve_safe: "\<not> is_unsafe_relative_path p \<Longrightarrow> resolve_path base p = base @ normal_parts p"
  using safe_components [of p] by (auto simp: resolve_path_def foldl_normal)

lemma normal_parts_no_sep: "w \<in> set (normal_parts p) \<Longrightarrow> CHR ''/'' \<notin> set w"
  using split_on_no_sep by (fastforce simp: normal_parts_def)

lemma normalize_resolves:
  assumes "normalize_rel_path p = Some q"
  shows "resolve_path base p = base @ split_on CHR ''/'' q"
proof -
  have safe: "\<not> is_unsafe_relative_path p" and ne: "normal_parts p \<noteq> []"
    and q: "q = join_with CHR ''/'' (normal_parts p)"
    using assms by (auto simp: normalize_rel_path_def split: if_splits)
  have "split_on CHR ''/'' q = normal_parts p"
    unfolding q by (rule split_join [OF ne normal_parts_no_sep])
  with resolve_safe [OF safe] show ?thesis by simp
qed

subsection \<open>Glob patterns\<close>

text \<open>The characters of a string, each as its UTF-8 bytes.\<close>

function chars_of :: "string \<Rightarrow> string list" where
  "chars_of [] = []"
| "chars_of (c # cs) = (c # takeWhile is_continuation cs) # chars_of (dropWhile is_continuation cs)"
  by pat_completeness auto
termination
  by (relation "measure length") (auto intro: le_imp_less_Suc length_dropWhile_le)

text \<open>
  The matching loop of one segment: \<open>i\<close> and \<open>j\<close> are the positions in the pattern and the text,
  \<open>star\<close> and \<open>sj\<close> the last star passed and the text position it is tried at.
\<close>

function segment_loop :: "string list \<Rightarrow> string list \<Rightarrow> nat \<Rightarrow> nat \<Rightarrow> nat option \<Rightarrow> nat \<Rightarrow> bool" where
  "segment_loop pb sb i j star sj =
     (if j < length sb then
        if i < length pb \<and> (pb ! i = ''?'' \<or> pb ! i = sb ! j) then segment_loop pb sb (i + 1) (j + 1) star sj
        else if i < length pb \<and> pb ! i = ''*'' then segment_loop pb sb (i + 1) j (Some i) j
        else (case star of
            Some si \<Rightarrow> segment_loop pb sb (si + 1) (sj + 1) star (sj + 1)
          | None \<Rightarrow> False)
      else list_all (\<lambda>p. p = ''*'') (drop i pb))"
  by pat_completeness auto
termination
  by (relation "measures [\<lambda>(pb, sb, i, j, star, sj). (if (\<exists>si. star = Some si \<and> i \<le> si) \<or> j < sj then 1 else 0),
      \<lambda>(pb, sb, i, j, star, sj). (case star of None \<Rightarrow> length pb + 1 | Some si \<Rightarrow> length pb - si),
      \<lambda>(pb, sb, i, j, star, sj). length sb - sj, \<lambda>(pb, sb, i, j, star, sj). length sb - j]")
    (auto split: option.splits if_splits)

declare segment_loop.simps [simp del]

definition segment_match :: "string \<Rightarrow> string \<Rightarrow> bool" where
  "segment_match pat seg \<longleftrightarrow>
     (if pat = ''*'' \<or> pat = ''**'' then True
      else segment_loop (chars_of pat) (chars_of seg) 0 0 None 0)"

fun glob_match_segs :: "string list \<Rightarrow> string list \<Rightarrow> bool" where
  "glob_match_segs [] [] = True"
| "glob_match_segs [] (s # ss) = False"
| "glob_match_segs (p # ps) [] =
     (if p = ''**'' then glob_match_segs ps [] else list_all (\<lambda>q. q = ''**'') (p # ps))"
| "glob_match_segs (p # ps) (s # ss) =
     (if p = ''**'' then glob_match_segs ps (s # ss) \<or> glob_match_segs (p # ps) ss
      else segment_match p s \<and> glob_match_segs ps ss)"

definition path_segments :: "string \<Rightarrow> string list" where
  "path_segments p = filter (\<lambda>w. w \<noteq> []) (split_on CHR ''/'' (replace_char CHR 0x5C CHR ''/'' p))"

definition glob_match :: "string \<Rightarrow> string \<Rightarrow> bool" where
  "glob_match pattern path = glob_match_segs (path_segments pattern) (path_segments path)"

definition pattern_ignores :: "string \<Rightarrow> string \<Rightarrow> bool" where
  "pattern_ignores s raw =
     (let pat = trim_end_matches CHR ''/'' (trim_start_matches CHR ''/'' (trim raw)) in
      pat \<noteq> [] \<and>
      (glob_match pat s \<or> glob_match (''**/'' @ pat) s \<or> starts_with (pat @ ''/'') s \<or>
       list_ex (glob_match pat) (split_on CHR ''/'' s)))"

definition path_is_ignored :: "string \<Rightarrow> string list \<Rightarrow> bool" where
  "path_is_ignored rel patterns =
     (let s = trim_start_str ''./'' (replace_char CHR 0x5C CHR ''/'' rel) in
      patterns \<noteq> [] \<and> s \<noteq> [] \<and> list_ex (pattern_ignores s) patterns)"

definition builtin_ignore_patterns :: "string list" where
  "builtin_ignore_patterns = [''.git'', ''node_modules'', ''target'', ''dist'', ''build'', ''.venv'', ''venv'',
     ''__pycache__'', ''.DS_Store'', ''*.pyc'', ''.shikigami-state'']"

text \<open>\<open>str::lines\<close>: a line ends at a newline, with one carriage return before it removed.\<close>

definition text_lines :: "string \<Rightarrow> string list" where
  "text_lines raw =
     (let ls = split_on (CHR 0x0A) raw; ls' = (if last ls = [] then butlast ls else ls)
      in map (\<lambda>l. if l \<noteq> [] \<and> last l = CHR 0x0D then butlast l else l) ls')"

definition ignore_line :: "string \<Rightarrow> string option" where
  "ignore_line raw =
     (let line = trim raw in
      if line = [] \<or> starts_with ''#'' line \<or> starts_with ''!'' line then None
      else let l = trim_end_matches CHR ''/'' line in if l = [] then None else Some l)"

definition load_ignore_patterns :: "(string \<Rightarrow> string option) \<Rightarrow> string list" where
  "load_ignore_patterns read =
     builtin_ignore_patterns @
     concat (map (\<lambda>name. case read name of
         None \<Rightarrow> []
       | Some raw \<Rightarrow> List.map_filter ignore_line (text_lines raw)) [''.shikigamiignore'', ''.gitignore''])"

text \<open>
  The specification: \<open>?\<close> stands for any one character, \<open>*\<close> for any run of characters, every
  other character for itself.
\<close>

fun wildcard :: "string list \<Rightarrow> string list \<Rightarrow> bool" where
  "wildcard [] ss = (ss = [])"
| "wildcard (p # ps) ss =
     (if p = ''*'' then (\<exists>k\<le>length ss. wildcard ps (drop k ss))
      else (case ss of [] \<Rightarrow> False | s # ss' \<Rightarrow> (p = ''?'' \<or> p = s) \<and> wildcard ps ss'))"

lemma wildcard_star_drop: "wildcard (''*'' # R) (drop m ss) \<Longrightarrow> j \<le> m \<Longrightarrow> m \<le> length ss \<Longrightarrow> wildcard (''*'' # R) (drop j ss)"
proof -
  assume w: "wildcard (''*'' # R) (drop m ss)" and le: "j \<le> m" "m \<le> length ss"
  from w obtain k where "k \<le> length ss - m" "wildcard R (drop (k + m) ss)"
    by (auto simp: add.commute)
  with le show ?thesis by (auto simp: intro!: exI [of _ "k + m - j"])
qed

lemma wildcard_fixed:
  "list_all (\<lambda>p. p \<noteq> ''*'') M \<Longrightarrow> wildcard (M @ R) ss \<Longrightarrow> length M \<le> length ss \<and> wildcard R (drop (length M) ss)"
  by (induction M arbitrary: ss) (auto split: list.splits)

lemma wildcard_Nil: "wildcard ps [] = list_all (\<lambda>p. p = ''*'') ps"
  by (induction ps) auto

text \<open>What the loop's variables mean while it runs.\<close>

definition star_inv :: "string list \<Rightarrow> string list \<Rightarrow> nat \<Rightarrow> nat \<Rightarrow> nat option \<Rightarrow> nat \<Rightarrow> bool" where
  "star_inv pb sb i j star sj \<longleftrightarrow> i \<le> length pb \<and> j \<le> length sb \<and>
     (\<forall>si. star = Some si \<longrightarrow> si < i \<and> sj \<le> j \<and> i - Suc si = j - sj \<and>
        list_all (\<lambda>p. p \<noteq> ''*'') (take (i - Suc si) (drop (Suc si) pb)))"

definition retry :: "string list \<Rightarrow> string list \<Rightarrow> nat option \<Rightarrow> nat \<Rightarrow> bool" where
  "retry pb sb star sj \<longleftrightarrow> (\<exists>si k. star = Some si \<and> sj < k \<and> k \<le> length sb \<and> wildcard (drop (Suc si) pb) (drop k sb))"

lemma retry_skips:
  assumes inv: "star_inv pb sb i j star sj" and r: "retry pb sb star sj"
  shows "\<exists>m>j. m \<le> length sb \<and> wildcard (drop i pb) (drop m sb)"
proof -
  obtain si k where s: "star = Some si" "sj < k" "k \<le> length sb" "wildcard (drop (Suc si) pb) (drop k sb)"
    using r by (auto simp: retry_def)
  let ?M = "take (i - Suc si) (drop (Suc si) pb)"
  have i: "si < i" "i \<le> length pb" "sj \<le> j" "i - Suc si = j - sj" "list_all (\<lambda>p. p \<noteq> ''*'') ?M"
    using inv s(1) by (auto simp: star_inv_def)
  have "drop (Suc si) pb = ?M @ drop i pb"
    using i(1) by (metis Suc_leI append_take_drop_id drop_drop le_add_diff_inverse2)
  with s(4) wildcard_fixed [OF i(5)] have len: "length ?M \<le> length (drop k sb)"
    and w: "wildcard (drop i pb) (drop (length ?M) (drop k sb))" by metis+
  have "length ?M = j - sj" using i by simp
  with len w s i show ?thesis by (intro exI [of _ "k + (j - sj)"]) (auto simp: add.commute)
qed

lemma take_snoc_drop: "a \<le> b \<Longrightarrow> b < length xs \<Longrightarrow> take (Suc b - a) (drop a xs) = take (b - a) (drop a xs) @ [xs ! b]"
  by (simp add: Suc_diff_le take_Suc_conv_app_nth)

lemma star_inv_advance:
  assumes "star_inv pb sb i j star sj" "i < length pb" "j < length sb" "pb ! i \<noteq> ''*''"
  shows "star_inv pb sb (i + 1) (j + 1) star sj"
  using assms take_snoc_drop [of "Suc si" i pb for si] by (auto simp: star_inv_def Suc_diff_le)

lemma ex_shift:
  fixes P :: "nat \<Rightarrow> bool"
  assumes "j \<le> n"
  shows "(\<exists>k\<le>n - j. P (k + j)) \<longleftrightarrow> P j \<or> (\<exists>m>j. m \<le> n \<and> P m)"
proof
  assume "\<exists>k\<le>n - j. P (k + j)"
  then obtain k where k: "k \<le> n - j" "P (k + j)" by blast
  with assms show "P j \<or> (\<exists>m>j. m \<le> n \<and> P m)"
    by (cases k) (auto intro!: exI [of _ "k + j"])
next
  assume "P j \<or> (\<exists>m>j. m \<le> n \<and> P m)"
  then obtain m where "j \<le> m" "m \<le> n" "P m" using assms by (auto dest: less_imp_le)
  then show "\<exists>k\<le>n - j. P (k + j)" by (intro exI [of _ "m - j"]) simp
qed

lemma segment_loop_correct:
  assumes "star_inv pb sb i j star sj" and "''*'' \<notin> set sb"
  shows "segment_loop pb sb i j star sj \<longleftrightarrow> wildcard (drop i pb) (drop j sb) \<or> retry pb sb star sj"
  using assms
proof (induction pb sb i j star sj rule: segment_loop.induct)
  case (1 pb sb i j star sj)
  note inv = \<open>star_inv pb sb i j star sj\<close> and lit = \<open>''*'' \<notin> set sb\<close>
  consider (stop) "\<not> j < length sb"
    | (one) "j < length sb" "i < length pb" "pb ! i = ''?'' \<or> pb ! i = sb ! j"
    | (star) "j < length sb" "i < length pb" "\<not> (pb ! i = ''?'' \<or> pb ! i = sb ! j)" "pb ! i = ''*''"
    | (miss) "j < length sb" "\<not> (i < length pb \<and> (pb ! i = ''?'' \<or> pb ! i = sb ! j))"
        "\<not> (i < length pb \<and> pb ! i = ''*'')"
    by blast
  then show ?case
  proof cases
    case stop
    then have "drop j sb = []" and "j = length sb" using inv by (auto simp: star_inv_def)
    then show ?thesis using retry_skips [OF inv] stop
      by (subst segment_loop.simps) (auto simp: wildcard_Nil)
  next
    case one
    have ns: "pb ! i \<noteq> ''*''" using one lit by (auto dest: nth_mem)
    have "wildcard (drop i pb) (drop j sb) = wildcard (drop (i + 1) pb) (drop (j + 1) sb)"
      using one ns by (simp add: Cons_nth_drop_Suc [symmetric])
    then show ?thesis using "1.IH"(1) [OF one(1) _ star_inv_advance [OF inv one(2,1) ns] lit] one
      by (subst segment_loop.simps) simp
  next
    case star
    have inv': "star_inv pb sb (i + 1) j (Some i) j" using inv star by (auto simp: star_inv_def)
    have d: "drop i pb = ''*'' # drop (Suc i) pb" using star by (metis Cons_nth_drop_Suc)
    have new: "wildcard (drop i pb) (drop j sb) \<longleftrightarrow>
        wildcard (drop (i + 1) pb) (drop j sb) \<or> retry pb sb (Some i) j"
      using ex_shift [of j "length sb" "\<lambda>m. wildcard (drop (Suc i) pb) (drop m sb)"] star(1)
      by (simp add: d retry_def)
    have "retry pb sb star sj \<Longrightarrow> wildcard (drop i pb) (drop j sb)"
      using retry_skips [OF inv] wildcard_star_drop d by (metis less_imp_le)
    then show ?thesis using "1.IH"(2) [OF star(1) _ _ inv' lit] star new
      by (subst segment_loop.simps) auto
  next
    case miss
    have no: "\<not> wildcard (drop i pb) (drop j sb)"
    proof (cases "i < length pb")
      case True
      then have "drop i pb = pb ! i # drop (Suc i) pb" by (simp add: Cons_nth_drop_Suc)
      with True miss show ?thesis by (simp add: Cons_nth_drop_Suc [symmetric])
    qed (use miss in simp)
    show ?thesis
    proof (cases star)
      case None
      with miss no show ?thesis by (subst segment_loop.simps) (auto simp: retry_def)
    next
      case (Some si)
      have inv': "star_inv pb sb (si + 1) (sj + 1) star (sj + 1)"
        using inv miss Some by (auto simp: star_inv_def)
      have sj: "sj + 1 \<le> length sb" using inv miss Some by (auto simp: star_inv_def)
      have "retry pb sb star sj \<longleftrightarrow> wildcard (drop (si + 1) pb) (drop (sj + 1) sb) \<or> retry pb sb star (sj + 1)"
        using sj Some by (auto simp: retry_def) (metis Suc_lessI, meson Suc_lessD)
      then show ?thesis using "1.IH"(3) [OF miss(1) _ _ Some inv' lit] miss no Some
        by (subst segment_loop.simps) auto
    qed
  qed
qed

lemma concat_chars_of: "concat (chars_of s) = s"
  by (induction s rule: chars_of.induct) auto

lemma chars_of_star: "CHR ''*'' \<notin> set s \<Longrightarrow> ''*'' \<notin> set (chars_of s)"
  using concat_chars_of [of s] by (metis UN_I list.set_intros(1) set_concat)

lemma chars_of_stars: "chars_of ''*'' = [''*'']" "chars_of ''**'' = [''*'', ''*'']"
  by (simp_all add: is_continuation_def)

text \<open>
  The segment matcher is the wildcard match. For every pattern and every file name
  without a literal star, the loop that remembers only the last star gives the same answer as the
  specification that tries every run of characters for every star: one remembered star is enough.
\<close>

theorem segment_match_wildcard:
  assumes "CHR ''*'' \<notin> set seg"
  shows "segment_match pat seg \<longleftrightarrow> wildcard (chars_of pat) (chars_of seg)"
proof (cases "pat = ''*'' \<or> pat = ''**''")
  case True
  have one: "wildcard [''*''] ss" for ss by (simp add: exI [of _ "length ss"])
  then have "wildcard [''*'', ''*''] ss" for ss by (simp only: wildcard.simps(2) [of "''*''" "[''*'']"]) auto
  with one True show ?thesis by (simp only: segment_match_def) (metis chars_of_stars)
next
  case False
  have "star_inv (chars_of pat) (chars_of seg) 0 0 None 0" by (simp add: star_inv_def)
  from segment_loop_correct [OF this chars_of_star [OF assms]] False show ?thesis
    by (simp add: segment_match_def retry_def)
qed

theorem segment_match_wildcard_witness:
  "segment_match ''a*b?'' ''aabbc'' \<longleftrightarrow> wildcard (chars_of ''a*b?'') (chars_of ''aabbc'')"
  by (rule segment_match_wildcard) simp


subsection \<open>Classes of builtin tools (crates/shikigami-engine/src/tools/catalog.rs)\<close>

definition mutates_workspace :: "string \<Rightarrow> bool" where
  "mutates_workspace name \<longleftrightarrow>
     name \<in> set [''write_file'', ''edit'', ''multi_edit'', ''apply_patch'', ''bash'', ''bash_background'']"

definition must_be_exclusive_batch :: "string \<Rightarrow> bool" where
  "must_be_exclusive_batch name \<longleftrightarrow> name = ''report'' \<or> name = ''escalate''"

definition is_parallel_safe_tool :: "string \<Rightarrow> bool" where
  "is_parallel_safe_tool name \<longleftrightarrow> name \<in> set [''read_file'', ''glob'', ''grep'', ''web_fetch'']"

datatype replay_tool_authority = RA_Observation | RA_Terminal | RA_Denied

definition replay_authority_of :: "string \<Rightarrow> replay_tool_authority" where
  "replay_authority_of name =
     (if name \<in> set [''read_file'', ''glob'', ''grep''] then RA_Observation
      else if name = ''report'' then RA_Terminal else RA_Denied)"

definition BASH_HELPER_TOOLS :: "string list" where
  "BASH_HELPER_TOOLS = [''bash_background'', ''bash_job_status'', ''bash_job_logs'']"

definition builtin_names :: "string list" where
  "builtin_names = [''read_file'', ''write_file'', ''edit'', ''multi_edit'', ''apply_patch'', ''glob'', ''grep'',
     ''bash'', ''bash_background'', ''bash_job_status'', ''bash_job_logs'', ''report'', ''escalate'', ''todo_write'',
     ''handoff'', ''web_fetch'', ''child_run'', ''child_status'']"

definition definitions_for_enabled :: "string list \<Rightarrow> string list" where
  "definitions_for_enabled enabled = filter (\<lambda>d. d \<in> set enabled) builtin_names"

definition builtin_is_authorized :: "string list \<Rightarrow> string \<Rightarrow> bool" where
  "builtin_is_authorized enabled name =
     (if name \<in> set BASH_HELPER_TOOLS then ''bash'' \<in> set enabled else name \<in> set enabled)"

definition with_bash_helpers :: "string list \<Rightarrow> string list" where
  "with_bash_helpers enabled =
     filter (\<lambda>t. t \<notin> set BASH_HELPER_TOOLS) enabled @ (if ''bash'' \<in> set enabled then BASH_HELPER_TOOLS else [])"

definition model_visible_builtins :: "string list \<Rightarrow> string list" where
  "model_visible_builtins enabled = definitions_for_enabled (with_bash_helpers enabled)"

text \<open>
  \<open>ToolRegistry\<close>: \<open>external\<close> are the names of the registered external tools.
\<close>

definition tool_is_enabled :: "string list \<Rightarrow> string list \<Rightarrow> string \<Rightarrow> bool" where
  "tool_is_enabled enabled external name \<longleftrightarrow> builtin_is_authorized enabled name \<or> name \<in> set external"

definition registry_definitions :: "string list \<Rightarrow> string list \<Rightarrow> string list" where
  "registry_definitions enabled external = model_visible_builtins enabled @ external"

text \<open>What the model is shown is what may run: every advertised tool is enabled.\<close>

lemma advertised_is_enabled: "n \<in> set (registry_definitions enabled external) \<Longrightarrow> tool_is_enabled enabled external n"
  by (auto simp: registry_definitions_def model_visible_builtins_def definitions_for_enabled_def
      with_bash_helpers_def tool_is_enabled_def builtin_is_authorized_def split: if_splits)

lemma enabled_builtin_is_advertised:
  "n \<in> set builtin_names \<Longrightarrow> tool_is_enabled enabled external n \<Longrightarrow>
   n \<in> set (registry_definitions enabled external)"
  by (auto simp: registry_definitions_def model_visible_builtins_def definitions_for_enabled_def
      with_bash_helpers_def tool_is_enabled_def builtin_is_authorized_def split: if_splits)

subsection \<open>The plan write-jail\<close>

definition PLAN_JAIL_PATH :: string where "PLAN_JAIL_PATH = ''.shikigami/plan.md''"

definition is_plan_path :: "json \<Rightarrow> bool" where
  "is_plan_path v \<longleftrightarrow> (case json_as_str v of None \<Rightarrow> False | Some p \<Rightarrow> normalize_rel_path p = Some PLAN_JAIL_PATH)"

definition json_path_is_plan :: "(string \<Rightarrow> json option) \<Rightarrow> string \<Rightarrow> string \<Rightarrow> bool" where
  "json_path_is_plan from_str args field =
     (case from_str args of None \<Rightarrow> False
      | Some v \<Rightarrow> (case json_get field v of None \<Rightarrow> False | Some p \<Rightarrow> is_plan_path p))"

definition json_as_arr :: "json \<Rightarrow> json list option" where
  "json_as_arr v = (case v of JArr vs \<Rightarrow> Some vs | _ \<Rightarrow> None)"

definition apply_patch_is_plan :: "(string \<Rightarrow> json option) \<Rightarrow> string \<Rightarrow> bool" where
  "apply_patch_is_plan from_str args =
     (case from_str args of None \<Rightarrow> False
      | Some v \<Rightarrow> (case json_get ''patches'' v of None \<Rightarrow> False
        | Some ps \<Rightarrow> (case json_as_arr ps of None \<Rightarrow> False
          | Some patches \<Rightarrow> patches \<noteq> [] \<and> list_all (\<lambda>patch.
              case json_get ''path'' patch of None \<Rightarrow> False | Some p \<Rightarrow> is_plan_path p) patches)))"

definition child_run_plan_jail_ok :: "(string \<Rightarrow> json option) \<Rightarrow> string \<Rightarrow> bool" where
  "child_run_plan_jail_ok from_str args =
     (case from_str args of None \<Rightarrow> False | Some v \<Rightarrow> json_get ''worktree'' v \<noteq> Some (JBool True))"

definition plan_jail_allows :: "(string \<Rightarrow> json option) \<Rightarrow> string \<Rightarrow> string \<Rightarrow> bool" where
  "plan_jail_allows from_str name args =
     (if name \<in> set [''read_file'', ''glob'', ''grep'', ''web_fetch'', ''todo_write'', ''handoff'', ''report'',
           ''escalate'', ''bash_job_status'', ''bash_job_logs'', ''child_status''] then True
      else if name = ''child_run'' then child_run_plan_jail_ok from_str args
      else if name \<in> set [''write_file'', ''edit'', ''multi_edit''] then json_path_is_plan from_str args ''path''
      else if name = ''apply_patch'' then apply_patch_is_plan from_str args
      else False)"

text \<open>What a call of a mutating builtin writes, as the executor reads its arguments.\<close>

definition path_argument :: "json \<Rightarrow> string list" where
  "path_argument v = (case json_get ''path'' v of Some (JStr p) \<Rightarrow> [p] | _ \<Rightarrow> [])"

definition written_paths :: "string \<Rightarrow> json \<Rightarrow> string list" where
  "written_paths name v =
     (if name = ''apply_patch''
      then (case json_get ''patches'' v of Some (JArr ps) \<Rightarrow> concat (map path_argument ps) | _ \<Rightarrow> [])
      else path_argument v)"

lemma plan_path_resolves:
  assumes "is_plan_path v" and "v = JStr p"
  shows "resolve_path base p = base @ [''.shikigami'', ''plan.md'']"
proof -
  have "normalize_rel_path p = Some PLAN_JAIL_PATH" using assms by (simp add: is_plan_path_def json_as_str_def)
  from normalize_resolves [OF this] show ?thesis by (simp add: PLAN_JAIL_PATH_def)
qed

text \<open>
  The plan jail confines writing to the plan. A call that the jail allows and that is of
  a mutating tool is never a shell, and every path it writes, however it is spelled, is lexically
  the plan file below the workspace and nothing else.
\<close>

theorem plan_jail_writes_plan_only:
  assumes allowed: "plan_jail_allows from_str name args" and mutates: "mutates_workspace name"
    and parsed: "from_str args = Some v" and path: "p \<in> set (written_paths name v)"
  shows "name \<notin> {''bash'', ''bash_background''} \<and> resolve_path base p = base @ [''.shikigami'', ''plan.md'']"
proof -
  have names: "name \<in> {''write_file'', ''edit'', ''multi_edit'', ''apply_patch''}"
    using allowed mutates by (simp add: plan_jail_allows_def mutates_workspace_def split: if_splits) auto
  show ?thesis
  proof (cases "name = ''apply_patch''")
    case True
    then have "apply_patch_is_plan from_str args" using allowed by (simp add: plan_jail_allows_def)
    then obtain ps where ps: "json_get ''patches'' v = Some (JArr ps)"
      and all: "\<forall>q\<in>set ps. case json_get ''path'' q of None \<Rightarrow> False | Some p \<Rightarrow> is_plan_path p"
      using parsed by (auto simp: apply_patch_is_plan_def json_as_arr_def list_all_iff split: option.splits json.splits)
    obtain q where q: "q \<in> set ps" "p \<in> set (path_argument q)" using path True ps by (auto simp: written_paths_def)
    then have "json_get ''path'' q = Some (JStr p)" by (auto simp: path_argument_def split: option.splits json.splits)
    with all q have "is_plan_path (JStr p)" by fastforce
    with True show ?thesis using plan_path_resolves by simp
  next
    case False
    then have "json_path_is_plan from_str args ''path''" using allowed names by (auto simp: plan_jail_allows_def)
    moreover have "json_get ''path'' v = Some (JStr p)"
      using path False by (auto simp: written_paths_def path_argument_def split: option.splits json.splits)
    ultimately have "is_plan_path (JStr p)" using parsed by (simp add: json_path_is_plan_def)
    with names show ?thesis using plan_path_resolves by auto
  qed
qed

definition demo_from_str :: "string \<Rightarrow> json option" where
  "demo_from_str s = (if s = ''p'' then Some (JObj [(''path'', JStr ''./.shikigami//plan.md'')]) else None)"

theorem plan_jail_writes_plan_only_witness:
  "resolve_path [''w''] ''./.shikigami//plan.md'' = [''w'', ''.shikigami'', ''plan.md'']"
proof -
  have n: "normalize_rel_path ''./.shikigami//plan.md'' = Some PLAN_JAIL_PATH" by code_simp
  have "plan_jail_allows demo_from_str ''write_file'' ''p''"
    by (simp add: plan_jail_allows_def json_path_is_plan_def demo_from_str_def json_get_def is_plan_path_def
        json_as_str_def n)
  from plan_jail_writes_plan_only [OF this, of "JObj [(''path'', JStr ''./.shikigami//plan.md'')]"
      "''./.shikigami//plan.md''" "[''w'']"]
  show ?thesis
    by (simp add: mutates_workspace_def demo_from_str_def written_paths_def path_argument_def json_get_def)
qed

subsection \<open>The todo list (crates/shikigami-engine/src/tools/todo.rs)\<close>

definition MAX_TODO_ITEMS :: nat where "MAX_TODO_ITEMS = 32"
definition MAX_TODO_CONTENT_CHARS :: nat where "MAX_TODO_CONTENT_CHARS = 512"
definition MAX_TODO_ID_CHARS :: nat where "MAX_TODO_ID_CHARS = 64"

fun todo_status_text :: "todo_status \<Rightarrow> string" where
  "todo_status_text TS_Pending = ''pending''"
| "todo_status_text TS_InProgress = ''in_progress''"
| "todo_status_text TS_Completed = ''completed''"
| "todo_status_text TS_Cancelled = ''cancelled''"

definition todo_status_parse :: "string \<Rightarrow> todo_status option" where
  "todo_status_parse s =
     (if s = ''pending'' then Some TS_Pending else if s = ''in_progress'' then Some TS_InProgress
      else if s = ''completed'' then Some TS_Completed else if s = ''cancelled'' then Some TS_Cancelled else None)"

lemma todo_status_roundtrip: "todo_status_parse s = Some st \<longleftrightarrow> s = todo_status_text st"
  by (cases st) (auto simp: todo_status_parse_def)

record todo_wire =
  tw_id :: string
  tw_content :: string
  tw_status :: string

definition bounded_chars :: "nat \<Rightarrow> string \<Rightarrow> bool" where
  "bounded_chars m s \<longleftrightarrow> s \<noteq> [] \<and> chars_count s \<le> m"

fun todo_items :: "string list \<Rightarrow> todo_wire list \<Rightarrow> (todo_item list, tool_error) result" where
  "todo_items seen [] = Ok []"
| "todo_items seen (raw # rest) =
     (let tid = trim (tw_id raw); content = trim (tw_content raw) in
      if \<not> bounded_chars MAX_TODO_ID_CHARS tid
      then Err (TL_Message (''todo_write: id must be 1..'' @ dec_string MAX_TODO_ID_CHARS @ '' characters''))
      else if tid \<in> set seen then Err (TL_Message (''todo_write: duplicate id `'' @ tid @ ''`''))
      else if \<not> bounded_chars MAX_TODO_CONTENT_CHARS content
      then Err (TL_Message (''todo_write: content must be 1..'' @ dec_string MAX_TODO_CONTENT_CHARS @ '' characters''))
      else case todo_status_parse (tw_status raw) of
          None \<Rightarrow> Err (TL_Message (''todo_write: invalid status `'' @ tw_status raw @ ''`''))
        | Some st \<Rightarrow> and_then (todo_items (tid # seen) rest)
            (\<lambda>items. Ok (\<lparr>ti_id = tid, ti_content = content, ti_status = st\<rparr> # items)))"

definition apply_todo_write :: "(string \<Rightarrow> (todo_wire list, tool_error) result) \<Rightarrow> string \<Rightarrow>
    (todo_item list, tool_error) result" where
  "apply_todo_write parse args =
     and_then (parse args) (\<lambda>items.
       if length items > MAX_TODO_ITEMS
       then Err (TL_Message (''todo_write: at most '' @ dec_string MAX_TODO_ITEMS @ '' items''))
       else todo_items [] items)"

definition format_todo_summary :: "todo_item list \<Rightarrow> string" where
  "format_todo_summary items =
     (if items = [] then ''todos: (empty)''
      else join_with (CHR 0x0A) ((''todos: '' @ dec_string (length items) @ '' item(s)'') #
        map (\<lambda>t. ''- ['' @ todo_status_text (ti_status t) @ ''] '' @ ti_id t @ '': '' @ ti_content t) items))"

definition todo_ok :: "todo_item \<Rightarrow> bool" where
  "todo_ok t \<longleftrightarrow> bounded_chars MAX_TODO_ID_CHARS (ti_id t) \<and> bounded_chars MAX_TODO_CONTENT_CHARS (ti_content t)"

lemma todo_items_Ok:
  "todo_items seen ws = Ok items \<Longrightarrow>
     length items = length ws \<and> list_all todo_ok items \<and> distinct (map ti_id items) \<and>
     set (map ti_id items) \<inter> set seen = {} \<and>
     list_all2 (\<lambda>w t. trim (tw_id w) = ti_id t \<and> trim (tw_content w) = ti_content t \<and>
        tw_status w = todo_status_text (ti_status t)) ws items"
proof (induction seen ws arbitrary: items rule: todo_items.induct)
  case (2 seen raw rest)
  let ?tid = "trim (tw_id raw)" and ?content = "trim (tw_content raw)"
  from "2.prems" obtain st xs where
    ok: "bounded_chars MAX_TODO_ID_CHARS ?tid" "?tid \<notin> set seen" "bounded_chars MAX_TODO_CONTENT_CHARS ?content"
      "todo_status_parse (tw_status raw) = Some st" "todo_items (?tid # seen) rest = Ok xs"
      "items = \<lparr>ti_id = ?tid, ti_content = ?content, ti_status = st\<rparr> # xs"
    by (auto simp: Let_def and_then_eq_Ok split: if_splits option.splits)
  from "2.IH" [OF refl refl _ _ _ ok(4,5)] ok show ?case
    by (auto simp: todo_ok_def todo_status_roundtrip)
qed simp

text \<open>
  The model's todo list is taken as it is or not at all. An accepted \<open>todo_write\<close> has at
  most 32 items, one for each item of the request in the same order with the same status, with
  trimmed, non-empty and bounded ids and contents, and no id twice.
\<close>

theorem todo_write_bounded:
  assumes "apply_todo_write parse args = Ok items" and "parse args = Ok ws"
  shows "length items \<le> 32 \<and> list_all todo_ok items \<and> distinct (map ti_id items) \<and>
    list_all2 (\<lambda>w t. trim (tw_id w) = ti_id t \<and> trim (tw_content w) = ti_content t \<and>
       tw_status w = todo_status_text (ti_status t)) ws items"
  using assms todo_items_Ok [of "[]" ws items]
  by (auto simp: apply_todo_write_def MAX_TODO_ITEMS_def split: if_splits)

theorem todo_write_bounded_witness:
  "\<exists>items. apply_todo_write (\<lambda>_. Ok [\<lparr>tw_id = ''a'', tw_content = ''b'', tw_status = ''pending''\<rparr>]) ''x'' = Ok items
     \<and> length items \<le> 32 \<and> distinct (map ti_id items)"
proof -
  have t: "trim ''a'' = ''a''" "trim ''b'' = ''b''" by (rule trim_visible; simp add: visible_def)+
  have "apply_todo_write (\<lambda>_. Ok [\<lparr>tw_id = ''a'', tw_content = ''b'', tw_status = ''pending''\<rparr>]) ''x'' =
      Ok [\<lparr>ti_id = ''a'', ti_content = ''b'', ti_status = TS_Pending\<rparr>]"
    by (simp add: apply_todo_write_def t bounded_chars_def chars_count_def MAX_TODO_ITEMS_def MAX_TODO_ID_CHARS_def
        MAX_TODO_CONTENT_CHARS_def todo_status_parse_def Let_def)
  from this todo_write_bounded [OF this refl] show ?thesis by blast
qed

subsection \<open>The handoff brief (crates/shikigami-engine/src/tools/handoff.rs)\<close>

definition MAX_HANDOFF_TEXT_CHARS :: nat where "MAX_HANDOFF_TEXT_CHARS = 4096"
definition MAX_HANDOFF_LIST_ITEMS :: nat where "MAX_HANDOFF_LIST_ITEMS = 32"
definition MAX_HANDOFF_FILES :: nat where "MAX_HANDOFF_FILES = 32"
definition MAX_HANDOFF_PATH_CHARS :: nat where "MAX_HANDOFF_PATH_CHARS = 512"

record handoff_brief =
  hb_task :: string
  hb_decisions :: "string list"
  hb_files :: "string list"
  hb_ignore :: "string list"

definition bounded_text :: "string \<Rightarrow> string \<Rightarrow> (string, tool_error) result" where
  "bounded_text field raw =
     (let s = trim raw in
      if \<not> bounded_chars MAX_HANDOFF_TEXT_CHARS s
      then Err (TL_Message (''handoff: '' @ field @ '' must be 1..'' @ dec_string MAX_HANDOFF_TEXT_CHARS @ '' characters''))
      else Ok s)"

fun map_result :: "('a \<Rightarrow> ('b, 'e) result) \<Rightarrow> 'a list \<Rightarrow> ('b list, 'e) result" where
  "map_result f [] = Ok []"
| "map_result f (x # xs) = and_then (f x) (\<lambda>y. and_then (map_result f xs) (\<lambda>ys. Ok (y # ys)))"

definition bounded_text_list :: "string \<Rightarrow> string list \<Rightarrow> (string list, tool_error) result" where
  "bounded_text_list field items =
     (if length items > MAX_HANDOFF_LIST_ITEMS
      then Err (TL_Message (''handoff: at most '' @ dec_string MAX_HANDOFF_LIST_ITEMS @ '' '' @ field @ '' items''))
      else map_result (bounded_text field) items)"

definition bounded_file :: "string \<Rightarrow> (string, tool_error) result" where
  "bounded_file raw =
     (let path = trim raw in
      if \<not> bounded_chars MAX_HANDOFF_PATH_CHARS path
      then Err (TL_Message (''handoff: file path must be 1..'' @ dec_string MAX_HANDOFF_PATH_CHARS @ '' characters''))
      else if is_unsafe_relative_path path
      then Err (TL_Message (''handoff: file path must be workspace-relative: '' @ path))
      else Ok path)"

definition bounded_files :: "string list \<Rightarrow> (string list, tool_error) result" where
  "bounded_files items =
     (if length items > MAX_HANDOFF_FILES
      then Err (TL_Message (''handoff: at most '' @ dec_string MAX_HANDOFF_FILES @ '' files''))
      else map_result bounded_file items)"

definition apply_handoff :: "(string \<Rightarrow> (handoff_brief, tool_error) result) \<Rightarrow> string \<Rightarrow>
    (handoff_brief, tool_error) result" where
  "apply_handoff parse args =
     and_then (parse args) (\<lambda>a.
       and_then (bounded_text ''task'' (hb_task a)) (\<lambda>task.
         and_then (bounded_text_list ''decisions'' (hb_decisions a)) (\<lambda>decisions.
           and_then (bounded_text_list ''ignore'' (hb_ignore a)) (\<lambda>ignored.
             and_then (bounded_files (hb_files a)) (\<lambda>files.
               Ok \<lparr>hb_task = task, hb_decisions = decisions, hb_files = files, hb_ignore = ignored\<rparr>)))))"

definition join_strings :: "string \<Rightarrow> string list \<Rightarrow> string" where
  "join_strings sep ws = (case ws of [] \<Rightarrow> [] | w # ws' \<Rightarrow> w @ concat (map (\<lambda>x. sep @ x) ws'))"

definition format_handoff_summary :: "handoff_brief \<Rightarrow> string" where
  "format_handoff_summary b =
     join_with (CHR 0x0A) ([''handoff recorded (does not start a session)'', ''task: '' @ hb_task b] @
       (if hb_decisions b = [] then [] else [''decisions: '' @ join_strings ''; '' (hb_decisions b)]) @
       (if hb_files b = [] then [] else [''files: '' @ join_strings '', '' (hb_files b)]) @
       (if hb_ignore b = [] then [] else [''ignore: '' @ join_strings ''; '' (hb_ignore b)]))"

lemma map_result_Ok: "map_result f xs = Ok ys \<longleftrightarrow> list_all2 (\<lambda>x y. f x = Ok y) xs ys"
  by (induction xs arbitrary: ys) (auto simp: and_then_eq_Ok list_all2_Cons1)

text \<open>The files of a brief stay below the workspace of whoever receives it.\<close>

lemma handoff_files_safe:
  assumes "apply_handoff parse args = Ok b"
  shows "length (hb_files b) \<le> MAX_HANDOFF_FILES \<and>
    list_all (\<lambda>p. bounded_chars MAX_HANDOFF_PATH_CHARS p \<and> (\<exists>ws. resolve_path base p = base @ ws)) (hb_files b)"
proof -
  obtain fs where fs: "length fs \<le> MAX_HANDOFF_FILES" "list_all2 (\<lambda>x y. bounded_file x = Ok y) fs (hb_files b)"
    using assms by (auto simp: apply_handoff_def bounded_files_def and_then_eq_Ok map_result_Ok not_less split: if_splits)
  have "bounded_file x = Ok y \<Longrightarrow>
      bounded_chars MAX_HANDOFF_PATH_CHARS y \<and> (\<exists>ws. resolve_path base y = base @ ws)" for x y
    using resolve_safe [of y base] by (auto simp: bounded_file_def Let_def split: if_splits)
  with fs show ?thesis
    by (auto simp: list_all2_conv_all_nth list_all_length)
qed

end
