(* ===== verification/Content.thy ===== *)
theory Content
  imports Run_Types Tool_Paths
begin

section \<open>Bounded content (crates/shikigami-engine/src/content.rs)\<close>

text \<open>
  Content parts are kept by a resolver of the host; the harness keeps descriptors only. This
  theory holds the descriptors and their validation, the checks on what a resolver returns and
  stores, the file resolver of the command line, and the two-slot sidecar that a content run
  saves beside its checkpoint. SHA-256 and the JSON codec are the fields of \<open>content_env\<close>, the
  resolver is a record of functions on the state of the host, system calls that may fail consult
  \<open>io\<close>.
\<close>

subsection \<open>Data\<close>

definition CONTENT_SCHEMA_VERSION :: nat where "CONTENT_SCHEMA_VERSION = 1"
definition CONTENT_CONTRACT_VERSION :: string where "CONTENT_CONTRACT_VERSION = ''chisei.content-execution/v1''"
definition MAX_CONTENT_PARTS :: nat where "MAX_CONTENT_PARTS = 32"
definition MAX_CONTENT_PART_BYTES :: nat where "MAX_CONTENT_PART_BYTES = 8 * 1024 * 1024"
definition MAX_CONTENT_AGGREGATE_BYTES :: nat where "MAX_CONTENT_AGGREGATE_BYTES = 16 * 1024 * 1024"
definition SIDECAR_SLOT_A :: string where "SIDECAR_SLOT_A = ''content-checkpoint-a.json''"
definition SIDECAR_SLOT_B :: string where "SIDECAR_SLOT_B = ''content-checkpoint-b.json''"

datatype content_error = CO_Invalid string | CO_Unsupported string | CO_Resolver string | CO_Io | CO_Parse
  | CO_Checkpoint checkpoint_error

datatype part_kind = CK_Text | CK_Image | CK_Audio | CK_Document

fun part_kind_value :: "part_kind \<Rightarrow> int" where
  "part_kind_value CK_Text = 1"
| "part_kind_value CK_Image = 2"
| "part_kind_value CK_Audio = 3"
| "part_kind_value CK_Document = 4"

definition part_kind_from_proto :: "int \<Rightarrow> (part_kind, content_error) result" where
  "part_kind_from_proto v =
     (if v = 1 then Ok CK_Text else if v = 2 then Ok CK_Image else if v = 3 then Ok CK_Audio
      else if v = 4 then Ok CK_Document else Err (CO_Invalid ''unknown content part kind''))"

datatype disclosure_state = DI_Accepted | DI_Redacted | DI_Omitted

fun disclosure_value :: "disclosure_state \<Rightarrow> int" where
  "disclosure_value DI_Accepted = 1"
| "disclosure_value DI_Redacted = 2"
| "disclosure_value DI_Omitted = 3"

definition disclosure_from_proto :: "int \<Rightarrow> (disclosure_state, content_error) result" where
  "disclosure_from_proto v =
     (if v = 1 then Ok DI_Accepted else if v = 2 then Ok DI_Redacted else if v = 3 then Ok DI_Omitted
      else Err (CO_Invalid ''unknown content disclosure state''))"

lemma proto_roundtrip:
  "part_kind_from_proto v = Ok k \<longleftrightarrow> v = part_kind_value k"
  "disclosure_from_proto v = Ok d \<longleftrightarrow> v = disclosure_value d"
  by (cases k; auto simp: part_kind_from_proto_def) (cases d; auto simp: disclosure_from_proto_def)

record content_provenance =
  pv_source :: string
  pv_source_id :: string
  pv_source_version :: string
  pv_observed_at_ms :: int

record part_descriptor =
  pd_part_id :: string
  pd_kind :: part_kind
  pd_media_type :: string
  pd_byte_length :: nat
  pd_sha256_digest :: string
  pd_reference :: string
  pd_provenance :: content_provenance
  pd_disclosure_state :: disclosure_state
  pd_disclosure_reason :: string

record content_message =
  cm_role :: string
  cm_parts :: "part_descriptor list"
  cm_tool_call_id :: string
  cm_tool_calls :: "tool_call list"

record content_capabilities =
  ca_contract_version :: string
  ca_input_kinds :: "part_kind list"
  ca_output_kinds :: "part_kind list"
  ca_media_types :: "string list"
  ca_reference_modes :: "string list"
  ca_max_parts :: nat
  ca_max_part_bytes :: nat
  ca_max_aggregate_bytes :: nat
  ca_streaming :: bool

record content_terminal =
  cz_success :: bool
  cz_termination :: run_termination
  cz_summary_part_id :: string
  cz_summary_digest :: string
  cz_usage :: token_usage
  cz_finalized :: bool
  cz_artifact_dir :: "string option"

record content_checkpoint =
  cc_schema_version :: nat
  cc_run_id :: string
  cc_generation :: nat
  cc_resolver_id :: string
  cc_capabilities :: content_capabilities
  cc_messages :: "content_message list"
  cc_initial_message_count :: nat
  cc_completed_turns :: nat
  cc_usage :: token_usage
  cc_terminal :: "content_terminal option"

datatype resolved_content = RC_Text string | RC_Bytes string

fun resolved_bytes :: "resolved_content \<Rightarrow> string" where
  "resolved_bytes (RC_Text s) = s"
| "resolved_bytes (RC_Bytes s) = s"

record content_to_store =
  cs_part_id :: string
  cs_kind :: part_kind
  cs_media_type :: string
  cs_payload :: resolved_content
  cs_provenance :: content_provenance

text \<open>\<open>ct_pointer_of\<close> and \<open>ct_pointer\<close> parse and print the externalised tool arguments.\<close>

record content_env =
  ct_sha :: "string \<Rightarrow> string"
  ct_pointer_of :: "string \<Rightarrow> string option"
  ct_pointer :: "string \<Rightarrow> string"
  ct_to_vec :: "content_checkpoint \<Rightarrow> string option"
  ct_from_slice :: "string \<Rightarrow> content_checkpoint option"

definition content_digest :: "content_env \<Rightarrow> string \<Rightarrow> string" where
  "content_digest en bs = sha256_prefixed (ct_sha en) bs"

definition project_bounded_text :: "content_env \<Rightarrow> bool \<Rightarrow> string \<Rightarrow> string \<Rightarrow> string" where
  "project_bounded_text en content_run label s =
     (if content_run then label @ '' bytes='' @ dec_string (length s) @ '' digest='' @ content_digest en s else s)"

subsection \<open>Validation\<close>

definition invalid :: "string \<Rightarrow> ('a, content_error) result" where
  "invalid why = Err (CO_Invalid why)"

lemma invalid_not_Ok [simp]: "invalid why \<noteq> Ok x"
  by (simp add: invalid_def)

definition required_text :: "string \<Rightarrow> nat \<Rightarrow> string \<Rightarrow> (unit, content_error) result" where
  "required_text value m field =
     (if value = [] \<or> value \<noteq> trim value \<or> length value > m \<or>
         list_ex (\<lambda>c. c = CHR 0x00 \<or> c = CHR 0x0D \<or> c = CHR 0x0A) value
      then invalid (field @ '' must be bounded single-line text'') else Ok ())"

definition contains_whitespace :: "string \<Rightarrow> bool" where
  "contains_whitespace s \<longleftrightarrow> list_ex (\<lambda>w. contains w s) whitespace_encodings"

definition contains_control :: "string \<Rightarrow> bool" where
  "contains_control s \<longleftrightarrow> list_ex ascii_control s \<or> list_ex (\<lambda>n. contains [byte 194, byte n] s) [128..<160]"

definition reference_byte :: "char \<Rightarrow> bool" where
  "reference_byte c \<longleftrightarrow> is_ascii_alphanumeric c \<or> c \<in> set ''._-:/''"

definition valid_opaque_reference :: "string \<Rightarrow> bool" where
  "valid_opaque_reference value \<longleftrightarrow>
     (let lower = to_ascii_lowercase value in
      8 \<le> length value \<and> length value \<le> 256 \<and> value = trim value \<and>
      \<not> contains_whitespace value \<and> \<not> contains_control value \<and>
      CHR 0x5C \<notin> set value \<and> CHR ''?'' \<notin> set value \<and> CHR ''#'' \<notin> set value \<and> CHR ''@'' \<notin> set value \<and>
      \<not> starts_with ''/'' value \<and> \<not> contains ''://'' value \<and>
      \<not> starts_with ''data:'' lower \<and> \<not> starts_with ''file:'' lower \<and> \<not> contains ''bearer'' lower \<and>
      \<not> contains ''token='' lower \<and> \<not> contains ''key='' lower \<and> \<not> contains ''secret='' lower \<and>
      list_all (\<lambda>w. w \<noteq> [] \<and> w \<noteq> ''.'' \<and> w \<noteq> ''..'') (split_on CHR ''/'' value) \<and>
      list_all reference_byte value)"

definition text_media_types :: "string list" where
  "text_media_types = [''text/plain'', ''text/markdown'', ''application/json'']"

definition image_media_types :: "string list" where
  "image_media_types = [''image/png'', ''image/jpeg'', ''image/gif'', ''image/webp'']"

definition audio_media_types :: "string list" where
  "audio_media_types = [''audio/wav'', ''audio/mpeg'', ''audio/mp4'', ''audio/ogg'']"

definition supported_media_type :: "string \<Rightarrow> bool" where
  "supported_media_type v \<longleftrightarrow> v \<in> set (text_media_types @ image_media_types @ audio_media_types @ [''application/pdf''])"

definition valid_media_type :: "part_kind \<Rightarrow> string \<Rightarrow> bool" where
  "valid_media_type kind v \<longleftrightarrow>
     v = to_ascii_lowercase (trim v) \<and> CHR '';'' \<notin> set v \<and> \<not> contains_whitespace v \<and>
     (case kind of
        CK_Text \<Rightarrow> v \<in> set text_media_types
      | CK_Image \<Rightarrow> v \<in> set image_media_types
      | CK_Audio \<Rightarrow> v \<in> set audio_media_types
      | CK_Document \<Rightarrow> v \<in> set [''application/pdf'', ''text/plain'', ''text/markdown''])"

definition bounded_for :: "content_message list \<Rightarrow> content_capabilities" where
  "bounded_for messages =
     (let parts = concat (map cm_parts messages);
          add = (\<lambda>x xs. if x \<in> set xs then xs else xs @ [x]);
          kinds = fold (\<lambda>d. add (pd_kind d)) parts [];
          types = fold (\<lambda>d ts. if pd_media_type d \<in> set ts then ts else ts @ [pd_media_type d]) parts []
      in \<lparr>ca_contract_version = CONTENT_CONTRACT_VERSION, ca_input_kinds = add CK_Text kinds,
          ca_output_kinds = [CK_Text],
          ca_media_types = (if ''text/plain'' \<in> set types then types else types @ [''text/plain'']),
          ca_reference_modes = [''opaque''], ca_max_parts = MAX_CONTENT_PARTS,
          ca_max_part_bytes = MAX_CONTENT_PART_BYTES, ca_max_aggregate_bytes = MAX_CONTENT_AGGREGATE_BYTES,
          ca_streaming = True\<rparr>)"

definition validate_capabilities :: "content_capabilities \<Rightarrow> (unit, content_error) result" where
  "validate_capabilities c =
     (if ca_contract_version c \<noteq> CONTENT_CONTRACT_VERSION \<or> ca_output_kinds c \<noteq> [CK_Text] \<or>
         ca_reference_modes c \<noteq> [''opaque''] \<or> \<not> ca_streaming c \<or> ca_max_parts c = 0 \<or>
         ca_max_parts c > MAX_CONTENT_PARTS \<or> ca_max_part_bytes c = 0 \<or>
         ca_max_part_bytes c > MAX_CONTENT_PART_BYTES \<or> ca_max_aggregate_bytes c < ca_max_part_bytes c \<or>
         ca_max_aggregate_bytes c > MAX_CONTENT_AGGREGATE_BYTES
      then invalid ''content capabilities exceed or contradict hard bounds''
      else if ca_input_kinds c = [] \<or> length (ca_input_kinds c) > 4 \<or> \<not> distinct (ca_input_kinds c)
      then invalid ''content capability input kinds are invalid''
      else if ca_media_types c = [] \<or> length (ca_media_types c) > 16 \<or> \<not> distinct (ca_media_types c) \<or>
         list_ex (\<lambda>t. length t > 64 \<or> \<not> supported_media_type t) (ca_media_types c)
      then invalid ''content capability media types are unsupported or unbounded''
      else Ok ())"

definition validate_descriptor :: "part_descriptor \<Rightarrow> (unit, content_error) result" where
  "validate_descriptor d =
     and_then (required_text (pd_part_id d) 128 ''part id'') (\<lambda>_.
       if pd_byte_length d > MAX_CONTENT_PART_BYTES \<or> (pd_byte_length d = 0 \<and> pd_kind d \<noteq> CK_Text)
       then invalid ''content part byte length is out of bounds''
       else if \<not> is_sha256_prefixed (pd_sha256_digest d) True then invalid ''content digest must be canonical sha256''
       else if \<not> valid_opaque_reference (pd_reference d)
       then invalid ''content reference must be credential-free and opaque''
       else if \<not> valid_media_type (pd_kind d) (pd_media_type d)
       then invalid ''content media type is unsupported for its kind''
       else and_then (required_text (pv_source (pd_provenance d)) 256 ''provenance source'') (\<lambda>_.
         and_then (required_text (pv_source_id (pd_provenance d)) 256 ''provenance source id'') (\<lambda>_.
           and_then (required_text (pv_source_version (pd_provenance d)) 256 ''provenance source version'') (\<lambda>_.
             if pd_disclosure_state d = DI_Accepted
             then (if pd_disclosure_reason d \<noteq> [] then invalid ''accepted content cannot carry a disclosure reason''
                   else Ok ())
             else required_text (pd_disclosure_reason d) 512 ''disclosure reason''))))"

text \<open>The running state of \<open>validate_messages\<close>: the sets of seen identities and the counters.\<close>

record message_check =
  mk_ids :: "string list"
  mk_count :: nat
  mk_aggregate :: nat
  mk_accepted :: nat
  mk_call_ids :: "string list"

definition check_part :: "content_capabilities \<Rightarrow> message_check \<Rightarrow> part_descriptor \<Rightarrow> (message_check, content_error) result" where
  "check_part c k d =
     and_then (validate_descriptor d) (\<lambda>_.
       if Suc (mk_count k) > ca_max_parts c \<or> pd_part_id d \<in> set (mk_ids k) \<or>
          pd_kind d \<notin> set (ca_input_kinds c) \<or> pd_media_type d \<notin> set (ca_media_types c) \<or>
          pd_byte_length d > ca_max_part_bytes c
       then invalid ''content identity or capability mismatch''
       else case u64_checked_add (mk_aggregate k) (pd_byte_length d) of
         None \<Rightarrow> invalid ''content size overflow''
       | Some agg \<Rightarrow>
           if agg > ca_max_aggregate_bytes c then invalid ''content aggregate exceeds configured bound''
           else Ok (k\<lparr>mk_ids := pd_part_id d # mk_ids k, mk_count := Suc (mk_count k), mk_aggregate := agg,
                      mk_accepted := mk_accepted k + (if pd_disclosure_state d = DI_Accepted then 1 else 0)\<rparr>))"

definition arguments_bound :: "content_message \<Rightarrow> string \<Rightarrow> bool" where
  "arguments_bound message part_id \<longleftrightarrow>
     list_ex (\<lambda>d. pd_part_id d = part_id \<and> pd_kind d = CK_Text \<and> pd_disclosure_state d = DI_Accepted \<and>
       pv_source (pd_provenance d) = ''model-tool-arguments'') (cm_parts message)"

definition check_call :: "content_env \<Rightarrow> content_message \<Rightarrow> message_check \<Rightarrow> tool_call \<Rightarrow> (message_check, content_error) result" where
  "check_call en message k call =
     and_then (if tc_id call = [] then Ok k
               else and_then (required_text (tc_id call) 128 ''tool call id'') (\<lambda>_.
                 if tc_id call \<in> set (mk_call_ids k) then invalid ''duplicate tool call id''
                 else Ok (k\<lparr>mk_call_ids := tc_id call # mk_call_ids k\<rparr>))) (\<lambda>k1.
       and_then (required_text (tc_name call) 128 ''tool name'') (\<lambda>_.
         case ct_pointer_of en (tc_args_json call) of
           None \<Rightarrow> invalid ''content tool arguments must use an externalized part pointer''
         | Some part_id \<Rightarrow>
             if arguments_bound message part_id then Ok k1
             else invalid ''content tool argument pointer is not bound to accepted text''))"

fun fold_result :: "('s \<Rightarrow> 'a \<Rightarrow> ('s, 'e) result) \<Rightarrow> 's \<Rightarrow> 'a list \<Rightarrow> ('s, 'e) result" where
  "fold_result f s [] = Ok s"
| "fold_result f s (x # xs) = and_then (f s x) (\<lambda>s1. fold_result f s1 xs)"

definition check_role :: "content_message \<Rightarrow> (unit, content_error) result" where
  "check_role message =
     (if cm_role message \<notin> set [''user'', ''assistant'', ''tool''] then invalid ''unsupported content role''
      else if cm_parts message = [] \<and> cm_tool_calls message = [] then invalid ''content messages cannot be empty''
      else and_then (if cm_tool_call_id message \<noteq> [] then required_text (cm_tool_call_id message) 128 ''tool call id''
                     else Ok ()) (\<lambda>_.
        if cm_role message = ''user'' \<and> (cm_tool_call_id message \<noteq> [] \<or> cm_tool_calls message \<noteq> [])
        then invalid ''user content messages cannot carry tool metadata''
        else if cm_role message = ''tool'' \<and> (cm_tool_call_id message = [] \<or> cm_tool_calls message \<noteq> [])
        then invalid ''tool content messages require exactly one call binding''
        else Ok ()))"

definition check_message :: "content_env \<Rightarrow> content_capabilities \<Rightarrow> message_check \<Rightarrow> content_message \<Rightarrow>
    (message_check, content_error) result" where
  "check_message en c k message =
     and_then (check_role message) (\<lambda>_.
       and_then (fold_result (check_part c) k (cm_parts message)) (\<lambda>k1.
         fold_result (check_call en message) k1 (cm_tool_calls message)))"

definition message_check_new :: message_check where
  "message_check_new = \<lparr>mk_ids = [], mk_count = 0, mk_aggregate = 0, mk_accepted = 0, mk_call_ids = []\<rparr>"

definition validate_messages :: "content_env \<Rightarrow> content_message list \<Rightarrow> content_capabilities \<Rightarrow> (unit, content_error) result" where
  "validate_messages en messages c =
     and_then (validate_capabilities c) (\<lambda>_.
       if messages = [] then invalid ''at least one content message is required''
       else and_then (fold_result (check_message en c) message_check_new messages) (\<lambda>k.
         if mk_accepted k = 0 then invalid ''at least one accepted content part is required'' else Ok ()))"

definition initial_messages_match :: "content_checkpoint \<Rightarrow> content_message list \<Rightarrow> bool" where
  "initial_messages_match sidecar requested \<longleftrightarrow>
     cc_initial_message_count sidecar = length requested \<and>
     cc_initial_message_count sidecar \<le> length (cc_messages sidecar) \<and>
     take (cc_initial_message_count sidecar) (cc_messages sidecar) = requested"

subsection \<open>What validation guarantees\<close>

definition all_parts :: "content_message list \<Rightarrow> part_descriptor list" where
  "all_parts messages = concat (map cm_parts messages)"

text \<open>The bounds that hold of the messages checked so far.\<close>

definition check_inv :: "content_capabilities \<Rightarrow> part_descriptor list \<Rightarrow> message_check \<Rightarrow> bool" where
  "check_inv c ps k \<longleftrightarrow>
     set (mk_ids k) = pd_part_id ` set ps \<and> distinct (map pd_part_id ps) \<and>
     mk_count k = length ps \<and> mk_count k \<le> ca_max_parts c \<and>
     mk_aggregate k = sum_list (map pd_byte_length ps) \<and> mk_aggregate k \<le> ca_max_aggregate_bytes c \<and>
     mk_accepted k = length (filter (\<lambda>d. pd_disclosure_state d = DI_Accepted) ps) \<and>
     (\<forall>d\<in>set ps. validate_descriptor d = Ok () \<and> pd_byte_length d \<le> ca_max_part_bytes c \<and>
        pd_kind d \<in> set (ca_input_kinds c) \<and> pd_media_type d \<in> set (ca_media_types c))"

lemma check_part_inv:
  assumes "check_inv c ps k" "check_part c k d = Ok k1"
  shows "check_inv c (ps @ [d]) k1"
proof -
  from assms(2) have "validate_descriptor d = Ok ()"
    by (cases "validate_descriptor d") (auto simp: check_part_def)
  with assms show ?thesis
    by (auto simp: check_part_def check_inv_def invalid_def u64_checked_add_def
        split: if_splits option.splits)
qed

lemma fold_result_inv:
  assumes "\<And>ps s x s1. P ps s \<Longrightarrow> f s x = Ok s1 \<Longrightarrow> P (ps @ g x) s1"
    and "P ps s" "fold_result f s xs = Ok s1"
  shows "P (ps @ concat (map g xs)) s1"
  using assms(2,3)
proof (induction xs arbitrary: ps s)
  case (Cons x xs)
  from Cons.prems(2) obtain s2 where "f s x = Ok s2" "fold_result f s2 xs = Ok s1"
    by (auto simp: and_then_eq_Ok)
  with Cons.IH [of "ps @ g x" s2] Cons.prems(1) assms(1) show ?case by simp
qed simp

lemma check_call_keeps:
  assumes "check_call en message k call = Ok k1"
  shows "check_inv c ps k1 = check_inv c ps k"
    and "\<exists>p. ct_pointer_of en (tc_args_json call) = Some p \<and> arguments_bound message p"
  using assms
  by (auto simp: check_call_def check_inv_def invalid_def and_then_eq_Ok split: if_splits option.splits)

lemma check_calls_keep:
  assumes "fold_result (check_call en message) k calls = Ok k1"
  shows "check_inv c ps k1 = check_inv c ps k"
    and "\<forall>call\<in>set calls. \<exists>p. ct_pointer_of en (tc_args_json call) = Some p \<and> arguments_bound message p"
proof -
  have "check_inv c ps k1 = check_inv c ps k \<and>
    (\<forall>call\<in>set calls. \<exists>p. ct_pointer_of en (tc_args_json call) = Some p \<and> arguments_bound message p)"
    using assms
  proof (induction calls arbitrary: k)
    case (Cons call calls)
    then obtain k2 where k2: "check_call en message k call = Ok k2" "fold_result (check_call en message) k2 calls = Ok k1"
      by (auto simp: and_then_eq_Ok)
    from Cons.IH [OF k2(2)] check_call_keeps [OF k2(1)] show ?case by simp
  qed simp
  then show "check_inv c ps k1 = check_inv c ps k"
    "\<forall>call\<in>set calls. \<exists>p. ct_pointer_of en (tc_args_json call) = Some p \<and> arguments_bound message p" by simp_all
qed

definition calls_bound :: "content_env \<Rightarrow> content_message \<Rightarrow> bool" where
  "calls_bound en message \<longleftrightarrow>
     list_all (\<lambda>call. case ct_pointer_of en (tc_args_json call) of None \<Rightarrow> False | Some p \<Rightarrow> arguments_bound message p)
       (cm_tool_calls message)"

lemma check_message_inv:
  assumes "check_inv c ps k" "check_message en c k message = Ok k1"
  shows "check_inv c (ps @ cm_parts message) k1" "calls_bound en message"
proof -
  from assms(2) obtain k2 where k2: "fold_result (check_part c) k (cm_parts message) = Ok k2"
    "fold_result (check_call en message) k2 (cm_tool_calls message) = Ok k1"
    by (auto simp: check_message_def and_then_eq_Ok)
  have "check_inv c (ps @ concat (map (\<lambda>d. [d]) (cm_parts message))) k2"
    by (rule fold_result_inv [where P = "check_inv c", OF _ assms(1) k2(1)]) (rule check_part_inv)
  then have "check_inv c (ps @ cm_parts message) k2" by simp
  with check_calls_keep(1) [OF k2(2)] show "check_inv c (ps @ cm_parts message) k1" by simp
  show "calls_bound en message"
    using check_calls_keep(2) [OF k2(2)] by (fastforce simp: calls_bound_def list_all_iff split: option.splits)
qed

lemma check_messages_inv:
  assumes "check_inv c ps k" "fold_result (check_message en c) k messages = Ok k1"
  shows "check_inv c (ps @ all_parts messages) k1 \<and> (\<forall>message\<in>set messages. calls_bound en message)"
  using assms
proof (induction messages arbitrary: ps k)
  case (Cons message messages)
  then obtain k2 where k2: "check_message en c k message = Ok k2" "fold_result (check_message en c) k2 messages = Ok k1"
    by (auto simp: and_then_eq_Ok)
  from Cons.IH [OF check_message_inv(1) [OF Cons.prems(1) k2(1)] k2(2)] check_message_inv(2) [OF Cons.prems(1) k2(1)]
  show ?case by (simp add: all_parts_def)
qed (simp add: all_parts_def)

lemma validate_capabilities_bounds:
  "validate_capabilities c = Ok () \<Longrightarrow>
     ca_max_parts c \<le> MAX_CONTENT_PARTS \<and> ca_max_part_bytes c \<le> MAX_CONTENT_PART_BYTES \<and>
     ca_max_aggregate_bytes c \<le> MAX_CONTENT_AGGREGATE_BYTES"
  by (auto simp: validate_capabilities_def invalid_def split: if_splits)

lemma validate_calls_bound:
  assumes "validate_messages en messages c = Ok ()"
  shows "\<forall>message\<in>set messages. calls_bound en message"
proof -
  from assms obtain k where "fold_result (check_message en c) message_check_new messages = Ok k"
    by (auto simp: validate_messages_def and_then_eq_Ok invalid_def split: if_splits)
  moreover have "check_inv c [] message_check_new" by (simp add: check_inv_def message_check_new_def)
  ultimately show ?thesis using check_messages_inv by blast
qed

text \<open>
  Messages that pass validation, whatever the host or a stored sidecar supplies, stay
  within the hard bounds of the contract: at most 32 parts with distinct identities, at most
  16 MiB together, every part valid for a declared kind and media type, at least one part
  accepted, and every tool call refers to its arguments through a pointer bound to an accepted
  text part of the same message, so no message carries tool arguments inline.
\<close>

theorem content_messages_bounded:
  assumes "validate_messages en messages c = Ok ()"
  shows "length (all_parts messages) \<le> MAX_CONTENT_PARTS \<and>
    sum_list (map pd_byte_length (all_parts messages)) \<le> MAX_CONTENT_AGGREGATE_BYTES \<and>
    distinct (map pd_part_id (all_parts messages)) \<and>
    list_all (\<lambda>d. validate_descriptor d = Ok () \<and> pd_kind d \<in> set (ca_input_kinds c) \<and>
           pd_media_type d \<in> set (ca_media_types c)) (all_parts messages) \<and>
    list_ex (\<lambda>d. pd_disclosure_state d = DI_Accepted) (all_parts messages) \<and>
    list_all (calls_bound en) messages"
proof -
  from assms obtain k where caps: "validate_capabilities c = Ok ()"
    and k: "fold_result (check_message en c) message_check_new messages = Ok k" and acc: "mk_accepted k \<noteq> 0"
    by (auto simp: validate_messages_def and_then_eq_Ok invalid_def split: if_splits)
  have "check_inv c [] message_check_new" by (simp add: check_inv_def message_check_new_def)
  from check_messages_inv [OF this k]
  have inv: "check_inv c (all_parts messages) k" and calls: "\<forall>message\<in>set messages. calls_bound en message" by simp_all
  note bounds = validate_capabilities_bounds [OF caps]
  from inv bounds have parts: "length (all_parts messages) \<le> MAX_CONTENT_PARTS"
    "sum_list (map pd_byte_length (all_parts messages)) \<le> MAX_CONTENT_AGGREGATE_BYTES"
    "distinct (map pd_part_id (all_parts messages))"
    "list_all (\<lambda>d. validate_descriptor d = Ok () \<and> pd_kind d \<in> set (ca_input_kinds c) \<and>
           pd_media_type d \<in> set (ca_media_types c)) (all_parts messages)"
    by (auto simp: check_inv_def list_all_iff)
  from inv acc have "filter (\<lambda>d. pd_disclosure_state d = DI_Accepted) (all_parts messages) \<noteq> []"
    by (simp add: check_inv_def)
  then have "list_ex (\<lambda>d. pd_disclosure_state d = DI_Accepted) (all_parts messages)"
    by (auto simp: filter_empty_conv list_ex_iff)
  moreover from calls have "list_all (calls_bound en) messages" by (simp add: list_all_iff)
  ultimately show ?thesis using parts by blast
qed

subsection \<open>Resolving and storing\<close>

text \<open>A resolver of the host reads its state; storing changes it. Errors of the host are replaced.\<close>

fun payload_matches_kind :: "part_kind \<Rightarrow> resolved_content \<Rightarrow> bool" where
  "payload_matches_kind CK_Text (RC_Text _) = True"
| "payload_matches_kind CK_Text (RC_Bytes _) = False"
| "payload_matches_kind _ (RC_Text _) = False"
| "payload_matches_kind _ (RC_Bytes _) = True"

definition validate_resolved :: "content_env \<Rightarrow> part_descriptor \<Rightarrow> resolved_content \<Rightarrow> (unit, content_error) result" where
  "validate_resolved en d payload =
     (if length (resolved_bytes payload) \<noteq> pd_byte_length d \<or>
         content_digest en (resolved_bytes payload) \<noteq> pd_sha256_digest d \<or>
         \<not> payload_matches_kind (pd_kind d) payload
      then Err (CO_Resolver (''resolved payload does not match descriptor `'' @ pd_part_id d @ ''`'')) else Ok ())"

type_synonym resolve_fun = "part_descriptor \<Rightarrow> (resolved_content, content_error) result"

definition resolve_one :: "content_env \<Rightarrow> resolve_fun \<Rightarrow> part_descriptor \<Rightarrow>
    (part_descriptor \<times> resolved_content, content_error) result" where
  "resolve_one en resolve d =
     and_then (map_err (\<lambda>_. CO_Resolver (''failed to resolve part `'' @ pd_part_id d @ ''`'')) (resolve d)) (\<lambda>payload.
       and_then (validate_resolved en d payload) (\<lambda>_. Ok (d, payload)))"

definition accepted_parts :: "content_message list \<Rightarrow> part_descriptor list" where
  "accepted_parts messages = filter (\<lambda>d. pd_disclosure_state d = DI_Accepted) (concat (map cm_parts messages))"

definition resolve_accepted :: "content_env \<Rightarrow> resolve_fun \<Rightarrow> content_message list \<Rightarrow>
    ((part_descriptor \<times> resolved_content) list, content_error) result" where
  "resolve_accepted en resolve messages = map_result (resolve_one en resolve) (accepted_parts messages)"

definition store_text :: "content_env \<Rightarrow> ('h \<Rightarrow> content_to_store \<Rightarrow> 'h \<times> (part_descriptor, content_error) result) \<Rightarrow>
    ('h \<Rightarrow> resolve_fun) \<Rightarrow> int \<Rightarrow> 'h \<Rightarrow> string \<Rightarrow> string \<Rightarrow> string \<Rightarrow> string \<Rightarrow>
    'h \<times> (part_descriptor, content_error) result" where
  "store_text en store resolve now h part_id s source source_id =
     (if length s > MAX_CONTENT_PART_BYTES then (h, invalid ''stored text byte length is out of bounds'')
      else case store h \<lparr>cs_part_id = part_id, cs_kind = CK_Text, cs_media_type = ''text/plain'', cs_payload = RC_Text s,
             cs_provenance = \<lparr>pv_source = source, pv_source_id = source_id, pv_source_version = ''v1'', pv_observed_at_ms = now\<rparr>\<rparr> of
        (h1, Inl _) \<Rightarrow> (h1, Err (CO_Resolver (''failed to store part `'' @ part_id @ ''`'')))
      | (h1, Inr d) \<Rightarrow> (h1,
          and_then (validate_descriptor d) (\<lambda>_.
            if pd_part_id d \<noteq> part_id \<or> pd_kind d \<noteq> CK_Text \<or> pd_disclosure_state d \<noteq> DI_Accepted
            then Err (CO_Resolver ''stored text descriptor changed required identity'')
            else and_then (map_err (\<lambda>_. CO_Resolver (''failed to verify stored part `'' @ part_id @ ''`'')) (resolve h1 d)) (\<lambda>payload.
              and_then (validate_resolved en d payload) (\<lambda>_. Ok d)))))"

lemma validate_resolved_Ok:
  "validate_resolved en d payload = Ok u \<longleftrightarrow>
     length (resolved_bytes payload) = pd_byte_length d \<and> content_digest en (resolved_bytes payload) = pd_sha256_digest d \<and>
     payload_matches_kind (pd_kind d) payload"
  by (simp add: validate_resolved_def)

lemma resolve_one_Ok:
  "resolve_one en resolve d = Ok y \<longleftrightarrow>
     fst y = d \<and> resolve d = Ok (snd y) \<and> validate_resolved en d (snd y) = Ok ()"
  by (cases y) (auto simp: resolve_one_def and_then_eq_Ok map_err_Ok)

lemma resolve_accepted_exact:
  assumes "resolve_accepted en resolve messages = Ok parts"
  shows "map fst parts = accepted_parts messages"
    and "\<forall>y\<in>set parts. resolve (fst y) = Ok (snd y) \<and> validate_resolved en (fst y) (snd y) = Ok ()"
proof -
  have all: "list_all2 (\<lambda>x y. resolve_one en resolve x = Ok y) (accepted_parts messages) parts"
    using assms by (simp add: resolve_accepted_def map_result_Ok)
  show "map fst parts = accepted_parts messages"
    using all by (auto simp: list_all2_conv_all_nth resolve_one_Ok intro: nth_equalityI)
  show "\<forall>y\<in>set parts. resolve (fst y) = Ok (snd y) \<and> validate_resolved en (fst y) (snd y) = Ok ()"
  proof
    fix y assume "y \<in> set parts"
    then obtain i where "i < length parts" "y = parts ! i" by (auto simp: in_set_conv_nth)
    with all obtain x where "resolve_one en resolve x = Ok y" by (blast dest: list_all2_nthD2)
    then show "resolve (fst y) = Ok (snd y) \<and> validate_resolved en (fst y) (snd y) = Ok ()"
      by (simp add: resolve_one_Ok)
  qed
qed

definition summary_part :: "content_message list \<Rightarrow> string \<Rightarrow> part_descriptor option" where
  "summary_part messages part_id = find (\<lambda>d. pd_part_id d = part_id) (concat (map cm_parts messages))"

definition resolve_terminal_summary :: "content_env \<Rightarrow> resolve_fun \<Rightarrow> content_checkpoint \<Rightarrow>
    (string option, content_error) result" where
  "resolve_terminal_summary en resolve sidecar =
     (case cc_terminal sidecar of
        None \<Rightarrow> Ok None
      | Some terminal \<Rightarrow>
          (case summary_part (cc_messages sidecar) (cz_summary_part_id terminal) of
             None \<Rightarrow> invalid ''terminal summary descriptor is missing''
           | Some d \<Rightarrow>
               if pd_kind d \<noteq> CK_Text \<or> pd_disclosure_state d \<noteq> DI_Accepted
               then invalid ''terminal summary descriptor must be accepted text''
               else and_then (map_err (\<lambda>_. CO_Resolver (''failed to resolve terminal part `'' @ pd_part_id d @ ''`'')) (resolve d)) (\<lambda>payload.
                 and_then (validate_resolved en d payload) (\<lambda>_.
                   case payload of
                     RC_Bytes _ \<Rightarrow> invalid ''terminal summary descriptor resolved to bytes''
                   | RC_Text summary \<Rightarrow>
                       if content_digest en summary \<noteq> cz_summary_digest terminal
                       then invalid ''terminal summary digest mismatch'' else Ok (Some summary)))))"

lemma terminal_summary_exact:
  assumes "resolve_terminal_summary en resolve sidecar = Ok (Some s)"
  shows "\<exists>terminal. cc_terminal sidecar = Some terminal \<and> content_digest en s = cz_summary_digest terminal"
proof (cases "cc_terminal sidecar")
  case (Some terminal)
  with assms obtain d payload where "resolve d = Ok payload"
    and t: "(case payload of RC_Bytes _ \<Rightarrow> invalid ''terminal summary descriptor resolved to bytes''
      | RC_Text summary \<Rightarrow> if content_digest en summary \<noteq> cz_summary_digest terminal
          then invalid ''terminal summary digest mismatch'' else Ok (Some summary)) = Ok (Some s)"
    by (auto simp only: resolve_terminal_summary_def and_then_eq_Ok map_err_Ok invalid_not_Ok
        option.case split: option.splits if_splits)
  from t Some show ?thesis by (cases payload) (auto split: if_splits)
qed (use assms in \<open>simp add: resolve_terminal_summary_def\<close>)

subsection \<open>The file resolver of the command line\<close>

text \<open>
  The payload directory is a map from names to entries. \<open>fi_uuid\<close> are the identifiers a store
  draws, \<open>fi_open_fails\<close> says which exclusive creation fails for another reason than an existing
  name, \<open>fi_torn\<close> what a failing write or sync leaves in the new file. A poisoned lock needs a
  panic of another thread and is not modelled.
\<close>

datatype dir_entry = DE_File string | DE_Symlink | DE_Other

record file_host =
  fh_root_is_dir :: bool
  fh_dir :: "string \<rightharpoonup> dir_entry"
  fh_files :: "string \<rightharpoonup> string"

record file_io =
  fi_uuid :: "nat \<Rightarrow> string"
  fi_open_fails :: "nat \<Rightarrow> bool"
  fi_torn :: "string option"

definition CLI_FILE_RESOLVER_ID :: string where "CLI_FILE_RESOLVER_ID = ''cli-file-v1''"

definition relative_payload_filename :: "string \<Rightarrow> (string, content_error) result" where
  "relative_payload_filename name =
     (if name = [] \<or> name = ''.'' \<or> name = ''..'' \<or> is_absolute name \<or> length (path_components name) \<noteq> 1 \<or>
         CHR ''/'' \<in> set name \<or> CHR 0x5C \<in> set name \<or> CHR 0x00 \<in> set name
      then invalid ''payload filename must be a single relative path component'' else Ok name)"

definition add_payload :: "file_host \<Rightarrow> string \<times> string \<Rightarrow> (file_host, content_error) result" where
  "add_payload h pair =
     (let reference = fst pair; cannot = Err (CO_Resolver (''payload `'' @ reference @ ''` cannot be read'')) in
      if \<not> valid_opaque_reference reference then invalid ''content reference must be credential-free and opaque''
      else and_then (relative_payload_filename (snd pair)) (\<lambda>relative.
        case fh_dir h relative of
          None \<Rightarrow> cannot
        | Some (DE_File _) \<Rightarrow> Ok (h\<lparr>fh_files := (fh_files h)(reference \<mapsto> relative)\<rparr>)
        | Some _ \<Rightarrow> Err (CO_Resolver (''payload `'' @ reference @ ''` must be a regular file''))))"

definition file_resolver_new :: "file_host \<Rightarrow> (string \<times> string) list \<Rightarrow> (file_host, content_error) result" where
  "file_resolver_new h payloads =
     (if \<not> fh_root_is_dir h then Err (CO_Resolver ''payload directory is not a directory'')
      else fold_result add_payload (h\<lparr>fh_files := Map.empty\<rparr>) payloads)"

text \<open>Opening refuses links (\<open>O_NOFOLLOW\<close>) and anything that is not a regular file.\<close>

definition open_payload :: "file_host \<Rightarrow> string \<Rightarrow> (string, content_error) result" where
  "open_payload h relative =
     (case fh_dir h relative of
        None \<Rightarrow> Err (CO_Resolver ''payload cannot be opened'')
      | Some DE_Symlink \<Rightarrow> Err (CO_Resolver ''payload cannot be opened'')
      | Some DE_Other \<Rightarrow> Err (CO_Resolver ''payload path must be a regular file'')
      | Some (DE_File bs) \<Rightarrow> Ok bs)"

definition in_range :: "nat \<Rightarrow> nat \<Rightarrow> char \<Rightarrow> bool" where
  "in_range lo hi c \<longleftrightarrow> lo \<le> (of_char c :: nat) \<and> (of_char c :: nat) \<le> hi"

text \<open>The well-formed byte sequences of UTF-8, as \<open>String::from_utf8\<close> accepts them.\<close>

fun valid_utf8 :: "string \<Rightarrow> bool" where
  "valid_utf8 [] = True"
| "valid_utf8 [a] = in_range 0 127 a"
| "valid_utf8 [a, b] =
     (if in_range 0 127 a then valid_utf8 [b] else in_range 194 223 a \<and> in_range 128 191 b)"
| "valid_utf8 [a, b, c] =
     (if in_range 0 127 a then valid_utf8 [b, c]
      else if in_range 194 223 a then in_range 128 191 b \<and> valid_utf8 [c]
      else in_range 224 239 a \<and> in_range (if a = byte 224 then 160 else 128) (if a = byte 237 then 159 else 191) b \<and>
        in_range 128 191 c)"
| "valid_utf8 (a # b # c # d # s) =
     (if in_range 0 127 a then valid_utf8 (b # c # d # s)
      else if in_range 194 223 a then in_range 128 191 b \<and> valid_utf8 (c # d # s)
      else if in_range 224 239 a
      then in_range (if a = byte 224 then 160 else 128) (if a = byte 237 then 159 else 191) b \<and>
        in_range 128 191 c \<and> valid_utf8 (d # s)
      else in_range 240 244 a \<and> in_range (if a = byte 240 then 144 else 128) (if a = byte 244 then 143 else 191) b \<and>
        in_range 128 191 c \<and> in_range 128 191 d \<and> valid_utf8 s)"

definition file_resolve :: "file_host \<Rightarrow> resolve_fun" where
  "file_resolve h d =
     (case fh_files h (pd_reference d) of
        None \<Rightarrow> Err (CO_Resolver ''payload reference is not mapped'')
      | Some relative \<Rightarrow> and_then (open_payload h relative) (\<lambda>bs.
          if length bs > MAX_CONTENT_PART_BYTES then invalid ''payload exceeds the content part byte limit''
          else if pd_kind d = CK_Text
          then (if valid_utf8 bs then Ok (RC_Text bs) else Err (CO_Resolver ''text payload is not valid UTF-8''))
          else Ok (RC_Bytes bs)))"

definition stored_reference :: "content_to_store \<Rightarrow> string \<Rightarrow> string" where
  "stored_reference content uuid = ''cliout-'' @ cs_part_id content @ ''-'' @ uuid"

text \<open>The eight attempts of \<open>store\<close>: \<open>attempts\<close> are left, the next identifier is number \<open>8 - attempts\<close>.\<close>

fun store_attempts :: "content_env \<Rightarrow> file_io \<Rightarrow> nat \<Rightarrow> file_host \<Rightarrow> content_to_store \<Rightarrow>
    file_host \<times> (part_descriptor, content_error) result" where
  "store_attempts en io 0 h content = (h, Err (CO_Resolver ''could not allocate a unique payload file''))"
| "store_attempts en io (Suc left) h content =
     (let bs = resolved_bytes (cs_payload content);
          reference = stored_reference content (fi_uuid io (7 - left)) in
      if \<not> valid_opaque_reference reference
      then (h, invalid ''stored content reference must be credential-free and opaque'')
      else case relative_payload_filename reference of
        Inl e \<Rightarrow> (h, Err e)
      | Inr relative \<Rightarrow>
          if fi_open_fails io (7 - left) then (h, Err CO_Io)
          else if fh_dir h relative \<noteq> None then store_attempts en io left h content
          else (case fi_torn io of
            Some torn \<Rightarrow> (h\<lparr>fh_dir := (fh_dir h)(relative \<mapsto> DE_File torn)\<rparr>, Err CO_Io)
          | None \<Rightarrow>
              (h\<lparr>fh_dir := (fh_dir h)(relative \<mapsto> DE_File bs), fh_files := (fh_files h)(reference \<mapsto> relative)\<rparr>,
               Ok \<lparr>pd_part_id = cs_part_id content, pd_kind = cs_kind content, pd_media_type = cs_media_type content,
                   pd_byte_length = length bs, pd_sha256_digest = content_digest en bs, pd_reference = reference,
                   pd_provenance = cs_provenance content, pd_disclosure_state = DI_Accepted,
                   pd_disclosure_reason = []\<rparr>)))"

definition file_store :: "content_env \<Rightarrow> file_io \<Rightarrow> file_host \<Rightarrow> content_to_store \<Rightarrow>
    file_host \<times> (part_descriptor, content_error) result" where
  "file_store en io h content =
     (if length (resolved_bytes (cs_payload content)) > MAX_CONTENT_PART_BYTES
      then (h, invalid ''stored payload exceeds the content part byte limit'')
      else store_attempts en io 8 h content)"

text \<open>The state of the payload directory every store relies on: a mapped name is one component.\<close>

lemma store_attempts_Ok:
  assumes "store_attempts en io n h content = (h', Ok d)"
  shows "\<exists>i<8. let reference = stored_reference content (fi_uuid io i); bs = resolved_bytes (cs_payload content) in
     fh_dir h reference = None \<and> fh_dir h' = (fh_dir h)(reference \<mapsto> DE_File bs) \<and>
     fh_files h' = (fh_files h)(reference \<mapsto> reference) \<and> pd_reference d = reference \<and>
     pd_kind d = cs_kind content \<and> pd_byte_length d = length bs \<and> pd_sha256_digest d = content_digest en bs"
  using assms
proof (induction n)
  case (Suc n)
  show ?case
  proof (cases "fh_dir h (stored_reference content (fi_uuid io (7 - n))) = None")
    case True
    with Suc.prems show ?thesis
      by (auto simp: Let_def relative_payload_filename_def intro!: exI [of _ "7 - n"]
          split: if_splits sum.splits option.splits)
  next
    case False
    with Suc.prems have "store_attempts en io n h content = (h', Ok d)"
      by (auto simp: Let_def relative_payload_filename_def split: if_splits sum.splits)
    then show ?thesis by (rule Suc.IH)
  qed
qed simp

definition fresh_store :: "file_io \<Rightarrow> file_host \<Rightarrow> content_to_store \<Rightarrow> bool" where
  "fresh_store io h content \<longleftrightarrow> list_all (\<lambda>i. fh_files h (stored_reference content (fi_uuid io i)) = None) [0..<8]"

text \<open>A file that exists keeps its contents and every mapping the host relies on stays.\<close>

lemma store_attempts_frame:
  assumes "store_attempts en io n h content = (h', r)" "fresh_store io h content"
  shows "fh_dir h name = Some e \<Longrightarrow> fh_dir h' name = Some e"
    and "fh_files h reference = Some relative \<Longrightarrow> fh_files h' reference = Some relative"
proof -
  have "(fh_dir h name = Some e \<longrightarrow> fh_dir h' name = Some e) \<and>
    (fh_files h reference = Some relative \<longrightarrow> fh_files h' reference = Some relative)"
    using assms
  proof (induction n)
    case (Suc n)
    have "7 - n \<in> set [0..<8]" by simp
    with Suc.prems(2) have new: "fh_files h (stored_reference content (fi_uuid io (7 - n))) = None"
      by (simp add: fresh_store_def list_all_iff)
    show ?case
    proof (cases "fh_dir h (stored_reference content (fi_uuid io (7 - n))) = None")
      case True
      with Suc.prems new show ?thesis
        by (auto simp: Let_def relative_payload_filename_def split: if_splits sum.splits option.splits)
    next
      case False
      with Suc show ?thesis
        by (auto simp: Let_def relative_payload_filename_def split: if_splits sum.splits)
    qed
  qed simp
  then show "fh_dir h name = Some e \<Longrightarrow> fh_dir h' name = Some e"
    "fh_files h reference = Some relative \<Longrightarrow> fh_files h' reference = Some relative" by simp_all
qed

text \<open>The contract a host's store owes the harness: what is stored resolves to itself, and keeps doing so.\<close>

definition storable :: "content_to_store \<Rightarrow> bool" where
  "storable content \<longleftrightarrow> payload_matches_kind (cs_kind content) (cs_payload content) \<and>
     (cs_kind content = CK_Text \<longrightarrow> valid_utf8 (resolved_bytes (cs_payload content)))"

locale content_store =
  fixes store :: "'io \<Rightarrow> 'h \<Rightarrow> content_to_store \<Rightarrow> 'h \<times> (part_descriptor, content_error) result"
    and resolve :: "'h \<Rightarrow> resolve_fun"
    and fresh :: "'io \<Rightarrow> 'h \<Rightarrow> content_to_store \<Rightarrow> bool"
  assumes stored: "store io h content = (h', Ok d) \<Longrightarrow> storable content \<Longrightarrow> resolve h' d = Ok (cs_payload content)"
    and kept: "store io h content = (h', r) \<Longrightarrow> fresh io h content \<Longrightarrow> resolve h d = Ok payload \<Longrightarrow> resolve h' d = Ok payload"
begin

inductive later :: "'h \<Rightarrow> 'h \<Rightarrow> bool" where
  later_refl: "later h h"
| later_store: "later h h1 \<Longrightarrow> fresh io h1 content \<Longrightarrow> store io h1 content = (h2, r) \<Longrightarrow> later h h2"

lemma later_resolves: "later h h' \<Longrightarrow> resolve h d = Ok payload \<Longrightarrow> resolve h' d = Ok payload"
  by (induction rule: later.induct) (auto intro: kept)

lemma store_text_resolves:
  assumes "store_text en (store io) resolve now h part_id s source source_id = (h', Ok d)" "later h' h''"
  shows "resolve h'' d = Ok (RC_Text s) \<or> \<not> valid_utf8 s"
proof (rule disjCI)
  assume "\<not> \<not> valid_utf8 s"
  let ?c = "\<lparr>cs_part_id = part_id, cs_kind = CK_Text, cs_media_type = ''text/plain'', cs_payload = RC_Text s,
             cs_provenance = \<lparr>pv_source = source, pv_source_id = source_id, pv_source_version = ''v1'', pv_observed_at_ms = now\<rparr>\<rparr>"
  from assms(1) have "store io h ?c = (h', Ok d)"
    by (auto simp: store_text_def and_then_eq_Ok split: if_splits prod.splits sum.splits)
  moreover have "storable ?c" using \<open>\<not> \<not> valid_utf8 s\<close> by (simp add: storable_def)
  ultimately have "resolve h' d = Ok (RC_Text s)" using stored by fastforce
  with assms(2) show "resolve h'' d = Ok (RC_Text s)" by (rule later_resolves)
qed

end

interpretation cli: content_store "file_store en" file_resolve fresh_store
proof
  fix io h content h' d
  assume "file_store en io h content = (h', Ok d)" and ok: "storable content"
  then have small: "length (resolved_bytes (cs_payload content)) \<le> MAX_CONTENT_PART_BYTES"
    and st: "store_attempts en io 8 h content = (h', Ok d)"
    by (auto simp: file_store_def split: if_splits)
  from store_attempts_Ok [OF st] small ok show "file_resolve h' d = Ok (cs_payload content)"
    by (cases "cs_kind content"; cases "cs_payload content")
      (auto simp: Let_def file_resolve_def open_payload_def storable_def)
next
  fix io h content h' r d payload
  assume st: "file_store en io h content = (h', r)" and fr: "fresh_store io h content"
    and res: "file_resolve h d = Ok payload"
  show "file_resolve h' d = Ok payload"
  proof (cases "length (resolved_bytes (cs_payload content)) > MAX_CONTENT_PART_BYTES")
    case True
    with st res show ?thesis by (simp add: file_store_def)
  next
    case False
    with st have st: "store_attempts en io 8 h content = (h', r)" by (simp add: file_store_def)
    from res obtain relative bs where "fh_files h (pd_reference d) = Some relative" "fh_dir h relative = Some (DE_File bs)"
      by (auto simp: file_resolve_def open_payload_def and_then_eq_Ok split: option.splits dir_entry.splits)
    with res store_attempts_frame [OF st fr] show ?thesis
      by (simp add: file_resolve_def open_payload_def)
  qed
qed

text \<open>Further stores of the same process, whatever they return.\<close>

fun file_stores :: "content_env \<Rightarrow> (file_io \<times> content_to_store) list \<Rightarrow> file_host \<Rightarrow> file_host" where
  "file_stores en [] h = h"
| "file_stores en ((io, content) # rest) h = file_stores en rest (fst (file_store en io h content))"

fun stores_fresh :: "content_env \<Rightarrow> (file_io \<times> content_to_store) list \<Rightarrow> file_host \<Rightarrow> bool" where
  "stores_fresh en [] h = True"
| "stores_fresh en ((io, content) # rest) h =
     (fresh_store io h content \<and> stores_fresh en rest (fst (file_store en io h content)))"

lemma file_stores_later: "stores_fresh en ops h1 \<Longrightarrow> cli.later en h h1 \<Longrightarrow> cli.later en h (file_stores en ops h1)"
proof (induction en ops h1 rule: file_stores.induct)
  case (2 en io content rest h1)
  have "cli.later en h (fst (file_store en io h1 content))"
    using 2 by (cases "file_store en io h1 content") (auto intro: cli.later_store)
  with 2 show ?case by simp
qed simp

text \<open>
  Text that the harness externalises into the payload directory of the command line comes
  back unchanged: when \<open>store_text\<close> returns a descriptor, the descriptor is valid and accepted for
  that part, its length and digest are those of the text, and resolving it gives exactly the text,
  also after any further stores of the process, failed ones included. A store that fails never
  changes what an earlier descriptor resolves to. The identifiers drawn for the files are assumed
  not to repeat a reference already mapped, as random identifiers are.
\<close>

theorem stored_text_resolves:
  assumes "store_text en (file_store en io) file_resolve now h part_id s source source_id = (h1, Ok d)"
    and "valid_utf8 s" and "stores_fresh en ops h1"
  shows "file_resolve (file_stores en ops h1) d = Ok (RC_Text s) \<and>
    validate_descriptor d = Ok () \<and> pd_part_id d = part_id \<and> pd_disclosure_state d = DI_Accepted \<and>
    pd_byte_length d = length s \<and> pd_sha256_digest d = content_digest en s"
proof -
  have later: "cli.later en h1 (file_stores en ops h1)"
    by (rule file_stores_later [OF assms(3) cli.later_refl])
  from cli.store_text_resolves [OF assms(1) later] assms(2)
  have same: "file_resolve (file_stores en ops h1) d = Ok (RC_Text s)" by simp
  from cli.store_text_resolves [OF assms(1) cli.later_refl] assms(2)
  have now: "file_resolve h1 d = Ok (RC_Text s)" by simp
  from assms(1) now have d: "validate_descriptor d = Ok ()" "pd_part_id d = part_id"
    "pd_disclosure_state d = DI_Accepted" "validate_resolved en d (RC_Text s) = Ok ()"
    by (auto simp: store_text_def and_then_eq_Ok map_err_Ok split: if_splits prod.splits sum.splits)
  with same show ?thesis by (simp add: validate_resolved_Ok)
qed

definition demo_content_env :: content_env where
  "demo_content_env = \<lparr>ct_sha = (\<lambda>bs. replicate 32 (byte (length bs mod 256))), ct_pointer_of = Some, ct_pointer = id,
     ct_to_vec = (\<lambda>c. Some (dec_string (cc_generation c))), ct_from_slice = (\<lambda>_. None)\<rparr>"

definition demo_file_host :: file_host where
  "demo_file_host = \<lparr>fh_root_is_dir = True, fh_dir = Map.empty, fh_files = Map.empty\<rparr>"

definition demo_file_io :: "string \<Rightarrow> file_io" where
  "demo_file_io uuid = \<lparr>fi_uuid = (\<lambda>_. uuid), fi_open_fails = (\<lambda>_. False), fi_torn = None\<rparr>"

definition demo_stored :: "file_host \<times> (part_descriptor, content_error) result" where
  "demo_stored = store_text demo_content_env (file_store demo_content_env (demo_file_io ''ab'')) file_resolve 5 demo_file_host
     ''p'' ''hi'' ''m'' ''1''"

definition demo_text :: content_to_store where
  "demo_text = \<lparr>cs_part_id = ''p'', cs_kind = CK_Text, cs_media_type = ''text/plain'', cs_payload = RC_Text ''hi'',
     cs_provenance = \<lparr>pv_source = ''m'', pv_source_id = ''1'', pv_source_version = ''v1'', pv_observed_at_ms = 5\<rparr>\<rparr>"

subsection \<open>The sidecar of a content run\<close>

definition slot_path :: "string \<Rightarrow> string \<Rightarrow> string \<Rightarrow> string" where
  "slot_path state_runs run_id slot = state_runs @ ''/'' @ run_id @ ''/'' @ slot"

text \<open>\<open>io\<close>: 0 creates the directory, 1 writes the temporary file (\<open>torn\<close> is what a failing write
  leaves there), 2 renames it, 3 removes it.\<close>

definition next_slot :: "content_binding option \<Rightarrow> string" where
  "next_slot current = (if map_option cb_slot current = Some SIDECAR_SLOT_A then SIDECAR_SLOT_B else SIDECAR_SLOT_A)"

definition next_generation :: "content_binding option \<Rightarrow> nat" where
  "next_generation current = (case current of None \<Rightarrow> 1 | Some b \<Rightarrow> u64_saturating_add (cb_generation b) 1)"

definition save_sidecar :: "content_env \<Rightarrow> (nat \<Rightarrow> bool) \<Rightarrow> string option \<Rightarrow> string \<Rightarrow> disk \<Rightarrow> content_checkpoint \<Rightarrow>
    content_binding option \<Rightarrow> disk \<times> (content_binding, content_error) result" where
  "save_sidecar en io torn state_runs d sidecar0 current =
     (let generation = next_generation current; slot = next_slot current;
          sidecar = sidecar0\<lparr>cc_generation := generation\<rparr>
      in case ct_to_vec en sidecar of
        None \<Rightarrow> (d, Err CO_Parse)
      | Some raw \<Rightarrow>
          if \<not> io 0 then (d, Err CO_Io)
          else let path = slot_path state_runs (cc_run_id sidecar) slot; temporary = path @ ''.tmp''
            in if \<not> io 1 then (d(temporary := torn), Err CO_Io)
            else let d1 = d(temporary \<mapsto> raw)
              in if \<not> io 2 then ((if io 3 then d1(temporary := None) else d1), Err CO_Io)
              else (d1(temporary := None, path \<mapsto> raw),
                Ok \<lparr>cb_schema_version = CONTENT_SCHEMA_VERSION, cb_generation = generation, cb_slot = slot,
                    cb_sha256_digest = content_digest en raw, cb_resolver_id = cc_resolver_id sidecar\<rparr>))"

definition load_sidecar :: "content_env \<Rightarrow> string \<Rightarrow> disk \<Rightarrow> string \<Rightarrow> content_binding \<Rightarrow>
    (content_checkpoint, content_error) result" where
  "load_sidecar en state_runs d run_id binding =
     (if cb_schema_version binding \<noteq> CONTENT_SCHEMA_VERSION \<or>
         cb_slot binding \<notin> set [SIDECAR_SLOT_A, SIDECAR_SLOT_B] \<or> \<not> is_safe_run_id run_id
      then invalid ''invalid content checkpoint binding''
      else case d (slot_path state_runs run_id (cb_slot binding)) of
        None \<Rightarrow> Err CO_Io
      | Some raw \<Rightarrow>
          if content_digest en raw \<noteq> cb_sha256_digest binding then invalid ''content checkpoint digest mismatch''
          else case ct_from_slice en raw of
            None \<Rightarrow> Err CO_Parse
          | Some sidecar \<Rightarrow>
              if cc_schema_version sidecar \<noteq> CONTENT_SCHEMA_VERSION \<or> cc_run_id sidecar \<noteq> run_id \<or>
                 cc_generation sidecar \<noteq> cb_generation binding \<or> cc_resolver_id sidecar \<noteq> cb_resolver_id binding
              then invalid ''content checkpoint identity mismatch''
              else and_then (validate_messages en (cc_messages sidecar) (cc_capabilities sidecar)) (\<lambda>_. Ok sidecar))"

lemma next_slot_known: "next_slot current \<in> set [SIDECAR_SLOT_A, SIDECAR_SLOT_B]"
  by (simp add: next_slot_def)

lemma slots_differ: "SIDECAR_SLOT_A \<noteq> SIDECAR_SLOT_B" "slot \<in> set [SIDECAR_SLOT_A, SIDECAR_SLOT_B] \<Longrightarrow> length slot = 25"
  by (auto simp: SIDECAR_SLOT_A_def SIDECAR_SLOT_B_def)

lemma next_slot_other:
  "cb_slot b \<in> set [SIDECAR_SLOT_A, SIDECAR_SLOT_B] \<Longrightarrow> next_slot (Some b) \<noteq> cb_slot b"
  using slots_differ(1) by (auto simp: next_slot_def)

lemma save_sidecar_frame:
  assumes "save_sidecar en io torn state_runs d sidecar (Some b) = (d', r)"
    and "cb_slot b \<in> set [SIDECAR_SLOT_A, SIDECAR_SLOT_B]" and "cc_run_id sidecar = run_id"
  shows "d' (slot_path state_runs run_id (cb_slot b)) = d (slot_path state_runs run_id (cb_slot b))"
proof -
  let ?p = "slot_path state_runs run_id (next_slot (Some b))"
  have "?p \<noteq> slot_path state_runs run_id (cb_slot b)"
    using next_slot_other [OF assms(2)] by (simp add: slot_path_def)
  moreover have "length (next_slot (Some b)) = length (cb_slot b)"
    using slots_differ(2) [OF next_slot_known] slots_differ(2) [OF assms(2)] by simp
  then have "length (?p @ ''.tmp'') \<noteq> length (slot_path state_runs run_id (cb_slot b))" by (simp add: slot_path_def)
  then have "?p @ ''.tmp'' \<noteq> slot_path state_runs run_id (cb_slot b)" by metis
  ultimately show ?thesis
    using assms(1,3) by (auto simp: save_sidecar_def Let_def split: option.splits if_splits)
qed

lemma save_sidecar_Ok:
  assumes "save_sidecar en io torn state_runs d sidecar current = (d', Ok b')"
  shows "\<exists>raw. ct_to_vec en (sidecar\<lparr>cc_generation := next_generation current\<rparr>) = Some raw \<and>
     d' (slot_path state_runs (cc_run_id sidecar) (next_slot current)) = Some raw \<and>
     b' = \<lparr>cb_schema_version = CONTENT_SCHEMA_VERSION, cb_generation = next_generation current,
           cb_slot = next_slot current, cb_sha256_digest = content_digest en raw, cb_resolver_id = cc_resolver_id sidecar\<rparr>"
  using assms by (auto simp: save_sidecar_def Let_def split: option.splits if_splits)

text \<open>
  \<^bold>\<open>C26\<close> The two-slot sidecar survives any interruption. While the checkpoint of a content run is
  bound to one slot, saving the next sidecar, whether it succeeds or fails at any step, torn
  temporary files included, leaves the bound sidecar loading exactly as before, so a crash before
  the checkpoint is rewritten loses nothing. When the save succeeds it returns a binding of the
  other slot and the next generation, under which the new document loads back as it was saved, given
  that it is valid content of a valid schema and the encoder round-trips on it.
\<close>

theorem sidecar_slots_crash_safe:
  assumes "load_sidecar en state_runs d run_id b = Ok bound"
    and "save_sidecar en io torn state_runs d sidecar (Some b) = (d', r)" and "cc_run_id sidecar = run_id"
  shows "load_sidecar en state_runs d' run_id b = Ok bound \<and>
    (\<forall>b'. r = Ok b' \<longrightarrow> cb_slot b' \<noteq> cb_slot b \<and> cb_generation b' = u64_saturating_add (cb_generation b) 1 \<and>
      (\<forall>new. new = sidecar\<lparr>cc_generation := cb_generation b'\<rparr> \<longrightarrow> cc_schema_version new = CONTENT_SCHEMA_VERSION \<longrightarrow>
         validate_messages en (cc_messages new) (cc_capabilities new) = Ok () \<longrightarrow>
         ct_from_slice en (the (ct_to_vec en new)) = Some new \<longrightarrow>
         load_sidecar en state_runs d' run_id b' = Ok new))"
proof -
  from assms(1) have slot: "cb_slot b \<in> set [SIDECAR_SLOT_A, SIDECAR_SLOT_B]" and safe: "is_safe_run_id run_id"
    by (auto simp: load_sidecar_def split: if_splits)
  have "load_sidecar en state_runs d' run_id b = load_sidecar en state_runs d run_id b"
    by (simp only: load_sidecar_def save_sidecar_frame [OF assms(2) slot assms(3)])
  with assms(1) have "load_sidecar en state_runs d' run_id b = Ok bound" by simp
  moreover have "cb_slot b' \<noteq> cb_slot b \<and> cb_generation b' = u64_saturating_add (cb_generation b) 1 \<and>
      (\<forall>new. new = sidecar\<lparr>cc_generation := cb_generation b'\<rparr> \<longrightarrow> cc_schema_version new = CONTENT_SCHEMA_VERSION \<longrightarrow>
         validate_messages en (cc_messages new) (cc_capabilities new) = Ok () \<longrightarrow>
         ct_from_slice en (the (ct_to_vec en new)) = Some new \<longrightarrow>
         load_sidecar en state_runs d' run_id b' = Ok new)" if "r = Ok b'" for b'
  proof -
    from save_sidecar_Ok assms(2) that assms(3)
    obtain raw where raw: "ct_to_vec en (sidecar\<lparr>cc_generation := next_generation (Some b)\<rparr>) = Some raw"
      "d' (slot_path state_runs run_id (next_slot (Some b))) = Some raw"
      and b': "b' = \<lparr>cb_schema_version = CONTENT_SCHEMA_VERSION, cb_generation = next_generation (Some b),
           cb_slot = next_slot (Some b), cb_sha256_digest = content_digest en raw, cb_resolver_id = cc_resolver_id sidecar\<rparr>"
      by blast
    show ?thesis
      using next_slot_other [OF slot] next_slot_known [of "Some b"] raw safe assms(3)
      by (simp add: b' load_sidecar_def next_generation_def)
  qed
  ultimately show ?thesis by blast
qed

definition demo_part :: "string \<Rightarrow> part_descriptor" where
  "demo_part part_id = \<lparr>pd_part_id = part_id, pd_kind = CK_Text, pd_media_type = ''text/plain'', pd_byte_length = 2,
     pd_sha256_digest = content_digest demo_content_env ''hi'', pd_reference = ''cliout-p-ab'',
     pd_provenance = \<lparr>pv_source = ''m'', pv_source_id = ''1'', pv_source_version = ''v1'', pv_observed_at_ms = 5\<rparr>,
     pd_disclosure_state = DI_Accepted, pd_disclosure_reason = []\<rparr>"

definition demo_messages :: "content_message list" where
  "demo_messages = [\<lparr>cm_role = ''user'', cm_parts = [demo_part ''p1'', demo_part ''p2''], cm_tool_call_id = [], cm_tool_calls = []\<rparr>]"

definition demo_sidecar :: "nat \<Rightarrow> content_checkpoint" where
  "demo_sidecar generation = \<lparr>cc_schema_version = 1, cc_run_id = ''r'', cc_generation = generation, cc_resolver_id = ''cli'',
     cc_capabilities = bounded_for demo_messages, cc_messages = demo_messages, cc_initial_message_count = 1,
     cc_completed_turns = 0, cc_usage = usage_zero, cc_terminal = None\<rparr>"

definition demo_sidecar_env :: content_env where
  "demo_sidecar_env = demo_content_env\<lparr>ct_from_slice :=
     (\<lambda>s. if s = dec_string 1 then Some (demo_sidecar 1) else if s = dec_string 2 then Some (demo_sidecar 2) else None)\<rparr>"

definition demo_binding :: "nat \<Rightarrow> content_binding" where
  "demo_binding generation = \<lparr>cb_schema_version = 1, cb_generation = generation, cb_slot = SIDECAR_SLOT_A,
     cb_sha256_digest = content_digest demo_sidecar_env (dec_string generation), cb_resolver_id = ''cli''\<rparr>"

definition demo_disk :: disk where
  "demo_disk = [slot_path ''s'' ''r'' SIDECAR_SLOT_A \<mapsto> dec_string 1]"

subsection \<open>Instances\<close>

lemma max_bytes: "MAX_CONTENT_PART_BYTES = 8388608" "MAX_CONTENT_AGGREGATE_BYTES = 16777216"
  by (simp_all add: MAX_CONTENT_PART_BYTES_def MAX_CONTENT_AGGREGATE_BYTES_def)

text \<open>Text of visible bytes has no whitespace and no control character.\<close>

lemma visible_no_whitespace:
  assumes "list_all visible s"
  shows "\<not> contains_whitespace s" "\<not> contains_control s"
proof -
  have enc: "p \<noteq> [] \<and> \<not> visible (hd p)" if "p \<in> set whitespace_encodings" for p
    using whitespace_not_visible [OF that] that by (auto simp: whitespace_encodings_def)
  have "hd p \<in> set s" if "contains p s" "p \<noteq> []" for p
    using that by (cases p) (auto simp: contains_iff)
  with enc assms show "\<not> contains_whitespace s"
    by (fastforce simp: contains_whitespace_def list_ex_iff list_all_iff)
  have "byte 194 \<notin> set s" using assms not_visible_byte [of 194] by (auto simp: list_all_iff)
  then have "\<not> contains [byte 194, b] s" for b by (auto simp: contains_iff)
  moreover have "\<not> list_ex ascii_control s"
    using assms by (auto simp: list_ex_iff list_all_iff visible_def ascii_control_def Let_def)
  ultimately show "\<not> contains_control s" by (simp add: contains_control_def list_ex_iff)
qed

lemma demo_reference: "valid_opaque_reference ''cliout-p-ab''"
proof -
  have low: "to_ascii_lowercase ''cliout-p-ab'' = ''cliout-p-ab''" by (simp add: to_ascii_lowercase_def is_uppercase_def)
  have vis: "list_all visible ''cliout-p-ab''" by (simp add: visible_def)
  have bytes: "list_all reference_byte ''cliout-p-ab''" by (simp add: reference_byte_def is_ascii_alphanumeric_def)
  show ?thesis
    unfolding valid_opaque_reference_def low Let_def using visible_no_whitespace [OF vis] bytes
    by (simp add: trim_visible visible_def starts_with_def)
qed

lemma demo_digest: "is_sha256_prefixed (content_digest demo_content_env bs) True"
  by (simp add: content_digest_def is_sha256_prefixed_of_sha demo_content_env_def)

lemma demo_texts: "required_text ''p'' 128 f = Ok ()" "required_text ''p1'' n f = (if n < 2 then invalid (f @ '' must be bounded single-line text'') else Ok ())"
  "required_text ''p2'' n f = (if n < 2 then invalid (f @ '' must be bounded single-line text'') else Ok ())"
  "required_text ''m'' 256 f = Ok ()" "required_text ''1'' 256 f = Ok ()" "required_text ''v1'' 256 f = Ok ()"
  by (simp_all add: required_text_def trim_visible visible_def)

lemma demo_media: "valid_media_type CK_Text ''text/plain''"
proof -
  have "list_all visible ''text/plain''" by (simp add: visible_def)
  with visible_no_whitespace(1) [OF this] show ?thesis
    by (simp add: valid_media_type_def text_media_types_def trim_visible visible_def to_ascii_lowercase_def is_uppercase_def)
qed
lemma demo_part_valid: "p \<in> set [''p1'', ''p2''] \<Longrightarrow> validate_descriptor (demo_part p) = Ok ()"
  by (auto simp: demo_part_def validate_descriptor_def max_bytes demo_texts demo_digest demo_reference demo_media)

lemma demo_part_fields:
  "pd_part_id (demo_part p) = p" "pd_kind (demo_part p) = CK_Text" "pd_media_type (demo_part p) = ''text/plain''"
  "pd_byte_length (demo_part p) = 2" "pd_disclosure_state (demo_part p) = DI_Accepted"
  by (simp_all add: demo_part_def)

lemma demo_capabilities: "bounded_for demo_messages = \<lparr>ca_contract_version = CONTENT_CONTRACT_VERSION, ca_input_kinds = [CK_Text],
          ca_output_kinds = [CK_Text], ca_media_types = [''text/plain''],
          ca_reference_modes = [''opaque''], ca_max_parts = MAX_CONTENT_PARTS,
          ca_max_part_bytes = MAX_CONTENT_PART_BYTES, ca_max_aggregate_bytes = MAX_CONTENT_AGGREGATE_BYTES,
          ca_streaming = True\<rparr>"
  by (simp add: bounded_for_def demo_messages_def demo_part_fields Let_def)

lemma demo_capabilities_valid: "validate_capabilities (bounded_for demo_messages) = Ok ()"
  by (simp add: demo_capabilities validate_capabilities_def max_bytes
      MAX_CONTENT_PARTS_def supported_media_type_def text_media_types_def)

lemma demo_check_part:
  assumes "p \<in> set [''p1'', ''p2'']" "p \<notin> set (mk_ids k)" "mk_count k < 2" "mk_aggregate k < 4"
  shows "check_part (bounded_for demo_messages) k (demo_part p) = Ok (k\<lparr>mk_ids := p # mk_ids k, mk_count := Suc (mk_count k),
      mk_aggregate := mk_aggregate k + 2, mk_accepted := mk_accepted k + 1\<rparr>)"
  using assms unfolding check_part_def demo_part_valid [OF assms(1)]
  by (simp add: demo_capabilities demo_part_fields u64_checked_add_def u64_max_def max_bytes MAX_CONTENT_PARTS_def)

lemma demo_messages_valid: "validate_messages en demo_messages (bounded_for demo_messages) = Ok ()"
proof -
  define c where "c = bounded_for demo_messages"
  note part = demo_check_part [folded c_def]
  have caps: "validate_capabilities c = Ok ()" by (simp add: c_def demo_capabilities_valid)
  show ?thesis
    unfolding c_def [symmetric] validate_messages_def caps
    by (simp add: demo_messages_def check_message_def check_role_def part message_check_new_def)
qed


theorem content_messages_bounded_witness:
  "distinct (map pd_part_id (all_parts demo_messages)) \<and> list_all (calls_bound demo_content_env) demo_messages"
  using content_messages_bounded [OF demo_messages_valid] by blast

lemma demo_sidecar_loads: "load_sidecar demo_sidecar_env ''s'' demo_disk ''r'' (demo_binding 1) = Ok (demo_sidecar 1)"
proof -
  have digest: "content_digest demo_sidecar_env bs = content_digest demo_content_env bs" for bs
    by (simp add: content_digest_def demo_sidecar_env_def)
  have "is_safe_run_id ''r''" by code_simp
  then show ?thesis
    using demo_messages_valid [of demo_sidecar_env]
    by (simp add: load_sidecar_def demo_disk_def demo_binding_def CONTENT_SCHEMA_VERSION_def demo_sidecar_def digest
        demo_sidecar_env_def)
qed

theorem sidecar_slots_crash_safe_witness:
  "load_sidecar demo_sidecar_env ''s'' (fst (save_sidecar demo_sidecar_env (\<lambda>i. i \<noteq> 2) None ''s'' demo_disk (demo_sidecar 1)
      (Some (demo_binding 1)))) ''r'' (demo_binding 1) = Ok (demo_sidecar 1)"
proof -
  obtain d' r where sv: "save_sidecar demo_sidecar_env (\<lambda>i. i \<noteq> 2) None ''s'' demo_disk (demo_sidecar 1)
      (Some (demo_binding 1)) = (d', r)" by fastforce
  have "cc_run_id (demo_sidecar 1) = ''r''" by (simp add: demo_sidecar_def)
  from sidecar_slots_crash_safe [OF demo_sidecar_loads sv this] show ?thesis by (simp only: sv fst_conv)
qed

lemma demo_stored_Ok: "is_ok (snd demo_stored)" "stores_fresh demo_content_env [(demo_file_io ''cd'', demo_text)] (fst demo_stored)"
proof -
  have rel: "relative_payload_filename ''cliout-p-ab'' = Ok ''cliout-p-ab''"
    by code_simp
  have upt: "[0..<8] = [0, 1, 2, 3, 4, 5, 6, 7::nat]" by code_simp
  have eight: "store_attempts en io 8 h c = store_attempts en io (Suc 7) h c" for en io h c by simp
  let ?h = "\<lparr>fh_root_is_dir = True, fh_dir = [''cliout-p-ab'' \<mapsto> DE_File ''hi''], fh_files = [''cliout-p-ab'' \<mapsto> ''cliout-p-ab'']\<rparr>"
  have st: "file_store demo_content_env (demo_file_io ''ab'') demo_file_host
     \<lparr>cs_part_id = ''p'', cs_kind = CK_Text, cs_media_type = ''text/plain'', cs_payload = RC_Text ''hi'',
             cs_provenance = \<lparr>pv_source = ''m'', pv_source_id = ''1'', pv_source_version = ''v1'', pv_observed_at_ms = 5\<rparr>\<rparr> =
     (?h, Ok (demo_part ''p''))"
    using demo_reference rel unfolding file_store_def eight store_attempts.simps(2)
    by (simp add: Let_def max_bytes demo_file_io_def stored_reference_def demo_file_host_def demo_part_def)
  have utf: "in_range 0 127 CHR ''h''" "in_range 0 127 CHR ''i''" by (simp_all add: in_range_def)
  have res: "file_resolve ?h (demo_part ''p'') = Ok (RC_Text ''hi'')"
    by (simp add: file_resolve_def demo_part_def open_payload_def max_bytes utf)
  have val: "validate_descriptor (demo_part ''p'') = Ok ()"
    by (simp add: demo_part_def validate_descriptor_def max_bytes demo_texts demo_digest demo_reference demo_media)
  have check: "validate_resolved demo_content_env (demo_part ''p'') (RC_Text ''hi'') = Ok ()"
    by (simp add: validate_resolved_Ok demo_part_fields) (simp add: demo_part_def)
  have ok: "map_err f (Ok x) = Ok x" for f :: "content_error \<Rightarrow> content_error" and x :: resolved_content
    by (simp add: map_err_def)
  have all: "demo_stored = (?h, Ok (demo_part ''p''))"
    unfolding demo_stored_def store_text_def st prod.case sum.case res ok and_then_Ok val check
    by (simp add: max_bytes demo_part_fields)
  show "is_ok (snd demo_stored)" "stores_fresh demo_content_env [(demo_file_io ''cd'', demo_text)] (fst demo_stored)"
    unfolding all by (simp_all add: fresh_store_def stored_reference_def demo_file_io_def demo_text_def upt)
qed

theorem stored_text_resolves_witness:
  "\<exists>h1 d. demo_stored = (h1, Ok d) \<and>
     file_resolve (file_stores demo_content_env [(demo_file_io ''cd'', demo_text)] h1) d = Ok (RC_Text ''hi'')"
proof -
  obtain h1 r where st: "demo_stored = (h1, r)" by fastforce
  obtain d where d: "demo_stored = (h1, Ok d)" using demo_stored_Ok(1) by (auto simp: st is_ok_iff)
  have "stores_fresh demo_content_env [(demo_file_io ''cd'', demo_text)] h1" using demo_stored_Ok(2) by (simp add: st)
  moreover have "valid_utf8 ''hi''" by code_simp
  ultimately show ?thesis
    using stored_text_resolves [OF d [unfolded demo_stored_def]] d by blast
qed

subsection \<open>Content runs of the command line\<close>

text \<open>The request and its result; the run itself belongs to the run engine. A timeout, a cancel
  signal and the session fields start empty in every request made here.\<close>

definition CONTENT_PROCESS_REQUEST_SCHEMA_VERSION :: nat where "CONTENT_PROCESS_REQUEST_SCHEMA_VERSION = 1"
definition CONTENT_PROCESS_RESULT_SCHEMA_VERSION :: nat where "CONTENT_PROCESS_RESULT_SCHEMA_VERSION = 1"

record 'r content_run_request =
  cn_task :: string
  cn_messages :: "content_message list"
  cn_capabilities :: content_capabilities
  cn_resolver :: 'r
  cn_keep_workspace :: bool
  cn_timeout :: "nat option"
  cn_resume_run_id :: "string option"
  cn_logical_operation_id :: "string option"
  cn_restore_snapshot :: "string option"
  cn_session_wait :: bool
  cn_resume_prompt :: "string option"
  cn_resume_ask :: "ask_decision option"
  cn_resume_plan :: "plan_decision option"
  cn_resume_answer :: "string option"

definition content_run_request_new :: "string \<Rightarrow> content_message list \<Rightarrow> 'r \<Rightarrow> 'r content_run_request" where
  "content_run_request_new task messages resolver = \<lparr>cn_task = task, cn_messages = messages,
     cn_capabilities = bounded_for messages, cn_resolver = resolver, cn_keep_workspace = False, cn_timeout = None,
     cn_resume_run_id = None, cn_logical_operation_id = None, cn_restore_snapshot = None, cn_session_wait = False,
     cn_resume_prompt = None, cn_resume_ask = None, cn_resume_plan = None, cn_resume_answer = None\<rparr>"

record content_process_request =
  cq_schema_version :: nat
  cq_task :: string
  cq_messages :: "content_message list"
  cq_capabilities :: "content_capabilities option"
  cq_keep_workspace :: bool
  cq_resume_run_id :: "string option"
  cq_payloads :: "(string \<times> string) list"

definition into_run_request :: "file_host \<Rightarrow> content_process_request \<Rightarrow> (file_host content_run_request, content_error) result" where
  "into_run_request h q =
     (if cq_schema_version q \<noteq> CONTENT_PROCESS_REQUEST_SCHEMA_VERSION
      then invalid (''unsupported content process request schema version '' @ dec_string (cq_schema_version q) @
        ''; expected '' @ dec_string CONTENT_PROCESS_REQUEST_SCHEMA_VERSION)
      else and_then (file_resolver_new h (cq_payloads q)) (\<lambda>resolver.
        Ok ((content_run_request_new (cq_task q) (cq_messages q) resolver)
          \<lparr>cn_capabilities := case_option (bounded_for (cq_messages q)) id (cq_capabilities q),
           cn_keep_workspace := cq_keep_workspace q, cn_resume_run_id := cq_resume_run_id q\<rparr>)))"

record content_process_result =
  cy_schema_version :: nat
  cy_run_id :: string
  cy_success :: bool
  cy_summary :: string
  cy_turns :: nat
  cy_workspace :: string
  cy_termination :: string
  cy_messages :: "content_message list"

definition content_report :: "run_result \<Rightarrow> content_message list \<Rightarrow> content_process_result" where
  "content_report rr messages = \<lparr>cy_schema_version = CONTENT_PROCESS_RESULT_SCHEMA_VERSION, cy_run_id = rr_run_id rr,
     cy_success = rr_success rr, cy_summary = rr_summary rr, cy_turns = rr_turns rr, cy_workspace = rr_workspace rr,
     cy_termination = termination_text (rr_termination rr), cy_messages = messages\<rparr>"

text \<open>Every payload a request maps is a regular file of the directory under one name component.\<close>

lemma file_resolver_new_regular:
  assumes "file_resolver_new h payloads = Ok h'" "fh_files h' reference = Some relative"
  shows "valid_opaque_reference reference \<and> CHR ''/'' \<notin> set relative \<and> (\<exists>bs. fh_dir h' relative = Some (DE_File bs))"
proof -
  let ?P = "\<lambda>h1. fh_dir h1 = fh_dir h \<and> (\<forall>reference relative. fh_files h1 reference = Some relative \<longrightarrow>
     valid_opaque_reference reference \<and> CHR ''/'' \<notin> set relative \<and> (\<exists>bs. fh_dir h relative = Some (DE_File bs)))"
  have step: "?P h1 \<Longrightarrow> add_payload h1 pair = Ok h2 \<Longrightarrow> ?P h2" for h1 pair h2
    by (auto simp: add_payload_def Let_def and_then_eq_Ok relative_payload_filename_def
        split: if_splits option.splits dir_entry.splits)
  have "fold_result add_payload h1 ps = Ok h2 \<Longrightarrow> ?P h1 \<Longrightarrow> ?P h2" for h1 ps h2
  proof (induction ps arbitrary: h1)
    case (Cons p ps)
    then obtain h3 where h3: "add_payload h1 p = Ok h3" "fold_result add_payload h3 ps = Ok h2"
      by (auto simp: and_then_eq_Ok)
    show ?case by (rule Cons.IH [OF h3(2) step [OF Cons.prems(2) h3(1)]])
  qed simp
  from this [of "h\<lparr>fh_files := Map.empty\<rparr>" payloads h'] assms
  show ?thesis by (simp add: file_resolver_new_def split: if_splits)
qed

end
