(* ===== verification/Conversation.thy ===== *)
theory Conversation
  imports Content Security_Finder
begin

section \<open>The conversation of a run (crates/shikigami-engine/src/run)\<close>

text \<open>
  The message list a run sends to the model and resumes from: compaction (model_turn.rs), which
  calls of a batch already have a result (tool_batch.rs), the assistant turn a resumed run executes
  again instead of asking the model (model_turn.rs), and the report that an interrupted run already
  delivered (transaction.rs, with the tool that produced it in tools/executor.rs).
\<close>

subsection \<open>Compaction\<close>

definition is_tool_result :: "chat_message \<Rightarrow> bool" where
  "is_tool_result m \<longleftrightarrow> msg_role m = ''tool''"

definition assistant_has_tool_calls :: "chat_message \<Rightarrow> bool" where
  "assistant_has_tool_calls m \<longleftrightarrow> msg_role m = ''assistant'' \<and> msg_tool_calls m \<noteq> []"

text \<open>The two scans of \<open>tool_exchange_tail_start\<close>: back to the call, or past the results.\<close>

fun scan_back :: "chat_message list \<Rightarrow> nat \<Rightarrow> nat" where
  "scan_back ms 0 = 0"
| "scan_back ms (Suc n) = (if Suc n > 1 \<and> is_tool_result (ms ! Suc n) then scan_back ms n else Suc n)"

function scan_past :: "chat_message list \<Rightarrow> nat \<Rightarrow> nat" where
  "scan_past ms start =
     (if start < length ms \<and> is_tool_result (ms ! start) then scan_past ms (Suc start) else start)"
  by auto
termination by (relation "measure (\<lambda>(ms, start). length ms - start)") auto

declare scan_past.simps [simp del]

definition tool_exchange_tail_start :: "chat_message list \<Rightarrow> nat \<Rightarrow> nat" where
  "tool_exchange_tail_start ms proposed =
     (if proposed \<ge> length ms \<or> \<not> is_tool_result (ms ! proposed) then proposed
      else let start = scan_back ms proposed in
        if assistant_has_tool_calls (ms ! start) then start else scan_past ms proposed)"

definition compaction_summary :: "nat \<Rightarrow> chat_message" where
  "compaction_summary dropped = \<lparr>msg_role = ''user'',
     msg_content = ''[context compacted: '' @ dec_string dropped @ '' earlier messages omitted; continue the original task]'',
     msg_tool_call_id = [], msg_tool_calls = []\<rparr>"

definition compact_messages :: "nat \<Rightarrow> nat \<Rightarrow> chat_message list \<Rightarrow> chat_message list \<times> (nat \<times> nat) option" where
  "compact_messages threshold keep_tail ms =
     (let before = length ms in
      if before \<le> threshold \<or> before \<le> keep_tail + 1 then (ms, None)
      else case ms of
        [] \<Rightarrow> (ms, None)
      | head # _ \<Rightarrow>
          let tail_start = tool_exchange_tail_start ms (max 1 (before - keep_tail)) in
          if tail_start \<le> 1 then (ms, None)
          else let tail = drop tail_start ms; dropped = before - (1 + length tail) in
            if dropped = 0 then (ms, None)
            else let ms1 = head # compaction_summary dropped # tail in (ms1, Some (before, length ms1)))"

lemma summary_not_result: "\<not> is_tool_result (compaction_summary dropped)"
  by (simp add: compaction_summary_def is_tool_result_def)

text \<open>A conversation a provider accepts: every tool result directly follows, results aside, the
  assistant message whose calls it answers.\<close>

definition follows_calls :: "chat_message list \<Rightarrow> nat \<Rightarrow> bool" where
  "follows_calls ms i \<longleftrightarrow> (\<exists>j<i. assistant_has_tool_calls (ms ! j) \<and> (\<forall>k. j < k \<longrightarrow> k \<le> i \<longrightarrow> is_tool_result (ms ! k)))"

definition exchanges_ok :: "chat_message list \<Rightarrow> bool" where
  "exchanges_ok ms \<longleftrightarrow> (\<forall>i<length ms. is_tool_result (ms ! i) \<longrightarrow> follows_calls ms i)"

lemma scan_back_le: "scan_back ms n \<le> n"
  by (induction n) auto

lemma scan_back_calls: "assistant_has_tool_calls m \<Longrightarrow> \<not> is_tool_result m"
  by (simp add: assistant_has_tool_calls_def is_tool_result_def)

lemma scan_past_stops: "scan_past ms n \<ge> n \<and> (scan_past ms n < length ms \<longrightarrow> \<not> is_tool_result (ms ! scan_past ms n))"
proof (induction ms n rule: scan_past.induct)
  case (1 ms start)
  show ?case
  proof (cases "start < length ms \<and> is_tool_result (ms ! start)")
    case True
    with 1 show ?thesis by (simp add: scan_past.simps [of ms start])
  next
    case False
    then show ?thesis by (auto simp: scan_past.simps [of ms start])
  qed
qed

lemma tail_start_not_result:
  "tool_exchange_tail_start ms p < length ms \<Longrightarrow> \<not> is_tool_result (ms ! tool_exchange_tail_start ms p)"
  using scan_past_stops [where ms = ms and n = p] scan_back_calls
  by (auto simp: tool_exchange_tail_start_def Let_def split: if_splits)

lemma compact_Some:
  assumes "compact_messages threshold keep_tail ms = (ms', Some (b, a))"
  shows "\<exists>ts dropped. 1 < ts \<and> ms' = hd ms # compaction_summary dropped # drop ts ms \<and> b = length ms \<and> a = length ms' \<and>
    ms \<noteq> [] \<and> threshold < b \<and> a \<le> b \<and> dropped = ts - 1 \<and> ts \<le> length ms \<and>
    (ts < length ms \<longrightarrow> \<not> is_tool_result (ms ! ts))"
proof -
  define ts where "ts = tool_exchange_tail_start ms (max 1 (length ms - keep_tail))"
  have c: "(if length ms \<le> threshold \<or> length ms \<le> keep_tail + 1 then (ms, None)
      else case ms of [] \<Rightarrow> (ms, None)
      | head # _ \<Rightarrow> if ts \<le> 1 then (ms, None)
          else if length ms - (1 + length (drop ts ms)) = 0 then (ms, None)
            else (head # compaction_summary (length ms - (1 + length (drop ts ms))) # drop ts ms,
              Some (length ms, length (head # compaction_summary (length ms - (1 + length (drop ts ms))) # drop ts ms))))
      = (ms', Some (b, a))"
    using assms unfolding compact_messages_def Let_def ts_def .
  then obtain h rest where ms: "ms = h # rest" by (cases ms) auto
  from c have ts: "1 < ts" "threshold < length ms" "ms' = h # compaction_summary (length ms - (1 + length (drop ts ms))) # drop ts ms"
    "b = length ms" "a = length ms'" "length ms - (1 + length (drop ts ms)) \<noteq> 0"
    by (auto simp: ms split: if_splits)
  have le: "ts \<le> length ms"
  proof (rule ccontr)
    assume "\<not> ts \<le> length ms"
    moreover have "tool_exchange_tail_start ms p \<le> max p (length ms)" for p
    proof -
      have "start \<le> max start (length ms)" for start :: nat by simp
      have past: "scan_past ms q \<le> max q (length ms)" for q
      proof (induction ms q rule: scan_past.induct)
        case (1 ms start)
        then show ?case by (cases "start < length ms \<and> is_tool_result (ms ! start)") (auto simp: scan_past.simps [of ms start])
      qed
      show ?thesis using past [of p] scan_back_le [of ms p]
        by (auto simp: tool_exchange_tail_start_def Let_def)
    qed
    from this [of "max 1 (length ms - keep_tail)"] have "ts \<le> max (max 1 (length ms - keep_tail)) (length ms)"
      by (simp add: ts_def)
    ultimately show False using ms by simp
  qed
  have "ts < length ms \<longrightarrow> \<not> is_tool_result (ms ! ts)"
    unfolding ts_def using tail_start_not_result by blast
  with ts le ms show ?thesis by (intro exI [of _ ts] exI [of _ "ts - 1"]) auto
qed

text \<open>
  Compaction never breaks the exchange structure of a conversation: if every tool result
  follows the assistant message that made the call, this still holds after compaction. When it does
  compact, the first message (the task) stays first, every message dropped is counted in one
  summary message, what follows is a suffix of the conversation, and the list does not grow.
\<close>

theorem compaction_keeps_exchanges:
  assumes "exchanges_ok ms" and "compact_messages threshold keep_tail ms = (ms', r)"
  shows "exchanges_ok ms' \<and> (case r of None \<Rightarrow> ms' = ms
     | Some (b, a) \<Rightarrow> threshold < b \<and> b = length ms \<and> a = length ms' \<and> a \<le> b \<and>
         (\<exists>ts>1. ms' = hd ms # compaction_summary (ts - 1) # drop ts ms))"
proof (cases r)
  case None
  with assms show ?thesis
    by (auto simp: compact_messages_def Let_def split: if_splits list.splits)
next
  case (Some ba)
  obtain b a where ba: "ba = (b, a)" by (cases ba)
  from compact_Some [of threshold keep_tail ms ms' b a] assms(2) Some ba
  obtain ts dropped where c: "1 < ts" "ms' = hd ms # compaction_summary dropped # drop ts ms" "b = length ms" "a = length ms'"
    "ms \<noteq> []" "threshold < b" "a \<le> b" "dropped = ts - 1" "ts \<le> length ms" "ts < length ms \<Longrightarrow> \<not> is_tool_result (ms ! ts)" by auto
  have "exchanges_ok ms'"
    unfolding exchanges_ok_def
  proof (intro allI impI)
    fix i assume i: "i < length ms'" "is_tool_result (ms' ! i)"
    have "\<not> is_tool_result (hd ms)"
    proof
      assume "is_tool_result (hd ms)"
      with assms(1) c(5) have "follows_calls ms 0" by (cases ms) (auto simp: exchanges_ok_def)
      then show False by (simp add: follows_calls_def)
    qed
    moreover have "ms' ! 0 = hd ms" "ms' ! 1 = compaction_summary dropped" by (simp_all add: c(2))
    ultimately have "i \<noteq> 0" "i \<noteq> 1" using i(2) summary_not_result by metis+
    then obtain n where n: "i = Suc (Suc n)" by (metis One_nat_def not0_implies_Suc)
    have nth: "ms' ! Suc (Suc k) = ms ! (ts + k)" if "k \<le> n" for k
      using that i n c(9) by (simp add: c(2))
    have "ts + n < length ms" using i n c(9) by (simp add: c(2))
    moreover have "is_tool_result (ms ! (ts + n))" using i nth [of n] n by simp
    ultimately obtain j where j: "j < ts + n" "assistant_has_tool_calls (ms ! j)" "\<And>k. j < k \<Longrightarrow> k \<le> ts + n \<Longrightarrow> is_tool_result (ms ! k)"
      using assms(1) by (auto simp: exchanges_ok_def follows_calls_def)
    have "ts \<le> j"
    proof (rule ccontr)
      assume "\<not> ts \<le> j"
      with j(3) [of ts] c(10) \<open>ts + n < length ms\<close> show False by simp
    qed
    then obtain d where d: "j = ts + d" using le_Suc_ex by blast
    show "follows_calls ms' i"
      unfolding follows_calls_def
    proof (intro exI [of _ "Suc (Suc d)"] conjI allI impI)
      show "Suc (Suc d) < i" using j(1) d n by simp
      show "assistant_has_tool_calls (ms' ! Suc (Suc d))" using j(1,2) d nth [of d] by simp
      fix k assume k: "Suc (Suc d) < k" "k \<le> i"
      then obtain e where "k = Suc (Suc e)" "d < e" "e \<le> n"
        using n by (metis Suc_le_mono Suc_lessE Suc_less_eq)
      then show "is_tool_result (ms' ! k)" using nth [of e] j(3) [of "ts + e"] d by simp
    qed
  qed
  with c show ?thesis by (auto simp: Some ba)
qed

definition plain_message :: "string \<Rightarrow> string \<Rightarrow> chat_message" where
  "plain_message role content = \<lparr>msg_role = role, msg_content = content, msg_tool_call_id = [], msg_tool_calls = []\<rparr>"

definition demo_call :: tool_call where
  "demo_call = \<lparr>tc_id = ''c1'', tc_name = ''bash'', tc_args_json = ''{}''\<rparr>"

definition demo_conversation :: "chat_message list" where
  "demo_conversation = [plain_message ''user'' ''task'', plain_message ''assistant'' ''a1'', plain_message ''user'' ''u2'',
     (plain_message ''assistant'' [])\<lparr>msg_tool_calls := [demo_call]\<rparr>, (plain_message ''tool'' ''hi'')\<lparr>msg_tool_call_id := ''c1''\<rparr>,
     plain_message ''assistant'' ''done'']"

theorem compaction_keeps_exchanges_witness:
  "exchanges_ok (fst (compact_messages 0 2 demo_conversation)) \<and> length (fst (compact_messages 0 2 demo_conversation)) = 5"
proof -
  have result: "is_tool_result (demo_conversation ! i) \<longrightarrow> i = 4" if "i < 6" for i
  proof -
    from that have "i \<in> set [0, 1, 2, 3, 4, 5]" by auto
    then show ?thesis by (auto simp: demo_conversation_def plain_message_def is_tool_result_def)
  qed
  have "assistant_has_tool_calls (demo_conversation ! 3) \<and> is_tool_result (demo_conversation ! 4)"
    by (simp add: demo_conversation_def plain_message_def is_tool_result_def assistant_has_tool_calls_def)
  then have "follows_calls demo_conversation 4"
    unfolding follows_calls_def by (intro exI [of _ 3]) (auto simp: eval_nat_numeral less_Suc_eq le_Suc_eq)
  moreover have "length demo_conversation = 6" by (simp add: demo_conversation_def)
  ultimately have "exchanges_ok demo_conversation" using result by (auto simp: exchanges_ok_def)
  moreover obtain ms' r where c: "compact_messages 0 2 demo_conversation = (ms', r)" by fastforce
  ultimately have "exchanges_ok ms'" using compaction_keeps_exchanges by blast
  moreover have "length (fst (compact_messages 0 2 demo_conversation)) = 5" by code_simp
  ultimately show ?thesis by (simp add: c)
qed

subsection \<open>Which calls already have a result\<close>

definition synthesized_call_id :: "nat \<Rightarrow> nat \<Rightarrow> string" where
  "synthesized_call_id turn index = ''tool-'' @ dec_string turn @ ''-'' @ dec_string index"

definition conversation_tool_call_id :: "tool_call \<Rightarrow> nat \<Rightarrow> nat \<Rightarrow> string" where
  "conversation_tool_call_id call turn index = (if tc_id call = [] then synthesized_call_id turn index else tc_id call)"

definition batch_occurrences_before :: "tool_call list \<Rightarrow> nat \<Rightarrow> string \<Rightarrow> nat" where
  "batch_occurrences_before batch index cid = length (filter (\<lambda>c. tc_id c = cid) (if index \<le> length batch then take index batch else []))"

definition tool_result_answers_call :: "string list \<Rightarrow> tool_call \<Rightarrow> nat \<Rightarrow> nat \<Rightarrow> tool_call list \<Rightarrow> bool" where
  "tool_result_answers_call results call turn index batch \<longleftrightarrow>
     conversation_tool_call_id call turn index \<in> set results \<and>
       (tc_id call = [] \<or> batch_occurrences_before batch index (tc_id call) = 0) \<or>
     length (filter (\<lambda>r. r = tc_id call) results) > batch_occurrences_before batch index (tc_id call)"

text \<open>\<open>rposition\<close> of the last assistant message, with what follows it.\<close>

fun last_assistant :: "chat_message list \<Rightarrow> (chat_message \<times> chat_message list) option" where
  "last_assistant [] = None"
| "last_assistant (m # ms) =
     (case last_assistant ms of
        Some r \<Rightarrow> Some r
      | None \<Rightarrow> if msg_role m = ''assistant'' then Some (m, ms) else None)"

definition result_ids :: "chat_message list \<Rightarrow> string list" where
  "result_ids after = map msg_tool_call_id (filter (\<lambda>m. msg_role m = ''tool'') after)"

definition already_answered :: "chat_message list \<Rightarrow> nat \<Rightarrow> tool_call \<Rightarrow> nat \<Rightarrow> bool" where
  "already_answered messages turns call index =
     (case last_assistant messages of
        None \<Rightarrow> False
      | Some (m, after) \<Rightarrow> tool_result_answers_call (result_ids after) call turns index (msg_tool_calls m))"

definition turn_of_message :: "chat_message \<Rightarrow> model_turn" where
  "turn_of_message m = \<lparr>mt_content = msg_content m, mt_tool_calls = msg_tool_calls m, mt_usage = None\<rparr>"

definition staged_model_turn :: "bool \<Rightarrow> chat_message list \<Rightarrow> nat \<Rightarrow> model_turn option" where
  "staged_model_turn resumed messages turn =
     (if \<not> resumed then None
      else if messages \<noteq> [] \<and> msg_role (last messages) = ''assistant'' then Some (turn_of_message (last messages))
      else case last_assistant messages of
        None \<Rightarrow> None
      | Some (m, after) \<Rightarrow>
          if list_ex (\<lambda>(index, call). \<not> tool_result_answers_call (result_ids after) call turn index (msg_tool_calls m))
               (enumerate 0 (msg_tool_calls m))
          then Some (turn_of_message m) else None)"

definition result_message :: "string \<Rightarrow> string \<Rightarrow> chat_message" where
  "result_message cid content = \<lparr>msg_role = ''tool'', msg_content = content, msg_tool_call_id = cid, msg_tool_calls = []\<rparr>"

text \<open>The results of the first calls of a batch, as the harness writes them before it parks or stops.\<close>

definition prefix_results :: "tool_call list \<Rightarrow> nat \<Rightarrow> string list \<Rightarrow> chat_message list" where
  "prefix_results batch turn contents =
     map (\<lambda>(i, c). result_message (conversation_tool_call_id (batch ! i) turn i) c) (enumerate 0 contents)"

text \<open>No identity the model supplied is one the harness makes up for a call without identity.\<close>

definition ids_apart :: "nat \<Rightarrow> tool_call list \<Rightarrow> bool" where
  "ids_apart turn batch \<longleftrightarrow>
     list_all (\<lambda>(i, c). tc_id c \<noteq> [] \<or> synthesized_call_id turn i \<notin> set (map tc_id batch)) (enumerate 0 batch)"

lemma synthesized_inject: "synthesized_call_id turn i = synthesized_call_id turn j \<longleftrightarrow> i = j"
  by (simp add: synthesized_call_id_def)

lemma last_assistant_append:
  assumes "\<forall>m\<in>set after. msg_role m \<noteq> ''assistant''" "msg_role m = ''assistant''"
  shows "last_assistant (before @ m # after) = Some (m, after)"
proof -
  have none: "last_assistant after = None" using assms(1) by (induction after) auto
  show ?thesis by (induction before) (simp_all add: none assms(2))
qed

lemma result_ids_prefix:
  "result_ids (prefix_results batch turn contents) =
     map (\<lambda>i. conversation_tool_call_id (batch ! i) turn i) [0..<length contents]"
proof -
  have all: "filter (\<lambda>m. msg_role m = ''tool'') (prefix_results batch turn contents) = prefix_results batch turn contents"
    by (auto simp: prefix_results_def result_message_def filter_id_conv)
  show ?thesis
    unfolding result_ids_def all
    by (rule nth_equalityI) (auto simp: prefix_results_def result_message_def nth_enumerate_eq)
qed

lemma filter_index: "n \<le> length xs \<Longrightarrow> length (filter p (take n xs)) = length (filter (\<lambda>i. p (xs ! i)) [0..<n])"
proof (induction n)
  case (Suc n)
  then show ?case by (simp add: take_Suc_conv_app_nth)
qed simp

lemma filter_upt_mono: "i \<le> j \<Longrightarrow> length (filter p [0..<i]) \<le> length (filter p [0..<j])"
proof -
  assume "i \<le> j"
  then have "[0..<j] = [0..<i] @ [i..<j]" by (metis le0 le_add_diff_inverse upt_add_eq_append)
  then show ?thesis by simp
qed

text \<open>With the first \<open>k\<close> calls answered in order, exactly these are taken as answered.\<close>

lemma prefix_answered:
  assumes apart: "ids_apart turn batch" and k: "k \<le> length batch" and j: "j < length batch"
  shows "tool_result_answers_call (map (\<lambda>i. conversation_tool_call_id (batch ! i) turn i) [0..<k]) (batch ! j) turn j batch
    \<longleftrightarrow> j < k"
proof -
  let ?conv = "\<lambda>i. conversation_tool_call_id (batch ! i) turn i" and ?cid = "tc_id (batch ! j)"
  have apart': "tc_id (batch ! i) = [] \<Longrightarrow> synthesized_call_id turn i \<notin> set (map tc_id batch)" if "i < length batch" for i
    using apart that by (auto simp: ids_apart_def list_all_iff in_set_enumerate_eq)
  show ?thesis
  proof (cases "?cid = []")
    case True
    have "?conv i = synthesized_call_id turn j \<longleftrightarrow> i = j" if "i < k" for i
    proof -
      have "tc_id (batch ! i) \<noteq> synthesized_call_id turn j"
      proof -
        have "tc_id (batch ! i) \<in> tc_id ` set batch" using that k by simp
        with apart' [OF j True] show ?thesis by auto
      qed
      then show ?thesis using True by (auto simp: conversation_tool_call_id_def synthesized_inject)
    qed
    then have first: "synthesized_call_id turn j \<in> set (map ?conv [0..<k]) \<longleftrightarrow> j < k" by force
    have "?conv i \<noteq> []" for i by (simp add: conversation_tool_call_id_def synthesized_call_id_def)
    then have "filter (\<lambda>r. r = []) (map ?conv [0..<k]) = []" by (auto simp: filter_empty_conv)
    with first True show ?thesis
      unfolding tool_result_answers_call_def
      by (simp add: conversation_tool_call_id_def [of "batch ! j"])
  next
    case False
    have eq: "?conv i = ?cid \<longleftrightarrow> tc_id (batch ! i) = ?cid" if "i < length batch" for i
      using apart' [OF that] nth_mem [of j "map tc_id batch"] j False
      by (auto simp: conversation_tool_call_id_def)
    let ?hits = "\<lambda>n. length (filter (\<lambda>i. tc_id (batch ! i) = ?cid) [0..<n])"
    have count: "length (filter (\<lambda>r. r = ?cid) (map ?conv [0..<k])) = ?hits k"
      using eq k by (simp add: filter_map comp_def) (auto intro!: arg_cong [of _ _ length] filter_cong)
    have before: "batch_occurrences_before batch j ?cid = ?hits j"
      using filter_index [of j batch] j by (simp add: batch_occurrences_before_def)
    have more: "?hits j < ?hits k" if "j < k"
      using filter_upt_mono [of "Suc j" k "\<lambda>i. tc_id (batch ! i) = ?cid"] that by simp
    have less: "?hits k \<le> ?hits j" if "\<not> j < k" using that by (intro filter_upt_mono) simp
    have occ: "?cid \<in> set (map ?conv [0..<k]) \<Longrightarrow> 0 < ?hits k"
    proof -
      assume "?cid \<in> set (map ?conv [0..<k])"
      then obtain i where i: "i < k" "?conv i = ?cid" by auto
      with eq [of i] k have "i \<in> set (filter (\<lambda>i. tc_id (batch ! i) = ?cid) [0..<k])" by simp
      then show "0 < ?hits k" by (metis length_pos_if_in_set)
    qed
    show ?thesis
    proof (cases "j < k")
      case True
      then show ?thesis unfolding tool_result_answers_call_def count before using more by blast
    next
      case F: False
      have conv: "conversation_tool_call_id (batch ! j) turn j = ?cid" using False by (simp add: conversation_tool_call_id_def)
      have "\<not> (?cid \<in> set (map ?conv [0..<k]) \<and> ?hits j = 0)" using occ less [OF F] by linarith
      moreover have "\<not> ?hits j < ?hits k" using less [OF F] by linarith
      ultimately show ?thesis
        unfolding tool_result_answers_call_def count before conv using F False by blast
    qed
  qed
qed


definition demo_batch :: "tool_call list" where
  "demo_batch = [demo_call, demo_call\<lparr>tc_name := ''edit''\<rparr>, demo_call\<lparr>tc_id := []\<rparr>]"


text \<open>
  \<^bold>\<open>C33\<close> The hypothesis on identities is needed: a model that names a call like the identity the harness
  makes up for an earlier call without one has the later call skipped on resume. After the first of the
  two calls is answered, the second, never executed, is taken as answered and no turn is restaged.
\<close>

definition batch_message :: "tool_call list \<Rightarrow> chat_message" where
  "batch_message batch = (plain_message ''assistant'' [])\<lparr>msg_tool_calls := batch\<rparr>"


end
