(* ===== verification/Security_Triage.thy ===== *)
theory Security_Triage
  imports Shared_Types
begin

section \<open>Security-triage reports (crates/shikigami-engine/src/security\_triage.rs)\<close>

text \<open>
  The exposure verdict a security-triage run reports: its required fields, its canonical form, and
  the rule that an unreviewed disposition is never recorded. Reading and writing the JSON text of a
  report are the arguments \<open>parse\<close> and \<open>render\<close>.
\<close>

definition TRIAGE_PACKAGE_ID :: string where "TRIAGE_PACKAGE_ID = ''pkg:security.exposure-verdict/v1''"
definition SEVERITIES :: "string list" where "SEVERITIES = [''low'', ''medium'', ''high'', ''critical'']"
definition DISPOSITION_STATUSES :: "string list" where "DISPOSITION_STATUSES = [''proposed'', ''recorded'']"

fun position_of :: "string \<Rightarrow> string list \<Rightarrow> nat option" where
  "position_of x [] = None"
| "position_of x (y # ys) = (if y = x then Some 0 else map_option Suc (position_of x ys))"

definition severity_rank :: "string \<Rightarrow> nat option" where
  "severity_rank severity = map_option Suc (position_of severity SEVERITIES)"

record proposed_disposition =
  pr_kind :: string
  pr_status :: string
  pr_autonomy_granted :: bool

record triage_report =
  tg_package :: string
  tg_finding_signature :: string
  tg_component :: string
  tg_verdict_severity :: string
  tg_reachable_markings :: "string list"
  tg_environment_criticality :: string
  tg_evidence :: "string list"
  tg_hypotheses :: "string list"
  tg_proposed_disposition :: "proposed_disposition option"

datatype triage_error = TE_Parse | TE_Package string | TE_Required string | TE_Severity string | TE_Evidence
  | TE_Statement | TE_Kind | TE_Disposition_Status string | TE_Unreviewed | TE_Serialize

definition canonical_markings :: "string list \<Rightarrow> string list" where
  "canonical_markings ms = remdups_adj (sort (filter (\<lambda>m. m \<noteq> []) (map trim ms)))"

definition check_disposition :: "proposed_disposition option \<Rightarrow> (unit, triage_error) result" where
  "check_disposition d =
     (case d of
        None \<Rightarrow> Ok ()
      | Some p \<Rightarrow>
          if trim (pr_kind p) = [] then Err TE_Kind
          else if pr_status p \<notin> set DISPOSITION_STATUSES then Err (TE_Disposition_Status (pr_status p))
          else if pr_status p = ''recorded'' \<and> \<not> pr_autonomy_granted p then Err TE_Unreviewed
          else Ok ())"

text \<open>\<open>canonical_verdict\<close> is the part of \<open>canonicalize_report\<close> between reading and writing JSON.\<close>

definition canonical_verdict :: "triage_report \<Rightarrow> (triage_report, triage_error) result" where
  "canonical_verdict r =
     (if tg_package r \<noteq> TRIAGE_PACKAGE_ID then Err (TE_Package (tg_package r))
      else if trim (tg_finding_signature r) = [] then Err (TE_Required ''finding_signature'')
      else if trim (tg_component r) = [] then Err (TE_Required ''component'')
      else if trim (tg_verdict_severity r) = [] then Err (TE_Required ''verdict_severity'')
      else if severity_rank (tg_verdict_severity r) = None then Err (TE_Severity (tg_verdict_severity r))
      else if list_ex (\<lambda>item. trim item = []) (tg_evidence r) then Err TE_Evidence
      else if list_ex (\<lambda>s. trim s = []) (tg_hypotheses r) then Err TE_Statement
      else and_then (check_disposition (tg_proposed_disposition r)) (\<lambda>_.
        Ok (r\<lparr>tg_reachable_markings := canonical_markings (tg_reachable_markings r)\<rparr>)))"

definition canonicalize_verdict :: "(string \<Rightarrow> triage_report option) \<Rightarrow> (triage_report \<Rightarrow> string option) \<Rightarrow> string \<Rightarrow>
    (string, triage_error) result" where
  "canonicalize_verdict parse render summary =
     (case parse summary of
        None \<Rightarrow> Err TE_Parse
      | Some r \<Rightarrow> and_then (canonical_verdict r) (\<lambda>r'. case render r' of None \<Rightarrow> Err TE_Serialize | Some s \<Rightarrow> Ok s))"

definition canonicalize_recovered_verdict :: "(string \<Rightarrow> triage_report option) \<Rightarrow> (triage_report \<Rightarrow> string option) \<Rightarrow>
    string \<Rightarrow> bool \<Rightarrow> (string, triage_error) result" where
  "canonicalize_recovered_verdict parse render summary success =
     (if success then canonicalize_verdict parse render summary else Ok summary)"

subsection \<open>Properties\<close>

lemma canonical_markings_props:
  "sorted (canonical_markings ms)" "distinct (canonical_markings ms)"
  "set (canonical_markings ms) = trim ` set ms - {[]}"
proof -
  have "sorted (sort (filter (\<lambda>m. m \<noteq> []) (map trim ms)))" by simp
  then show "sorted (canonical_markings ms)" "distinct (canonical_markings ms)"
    unfolding canonical_markings_def by (simp_all add: sorted_remdups_adj sorted_remdups_adj_distinct)
  show "set (canonical_markings ms) = trim ` set ms - {[]}" by (auto simp: canonical_markings_def)
qed

lemma canonical_markings_again: "canonical_markings (canonical_markings ms) = canonical_markings ms"
proof -
  have "map trim (canonical_markings ms) = canonical_markings ms"
    using canonical_markings_props(3) [of ms] by (intro map_idI) (auto simp: trim_trim)
  moreover have "filter (\<lambda>m. m \<noteq> []) (canonical_markings ms) = canonical_markings ms"
    using canonical_markings_props(3) [of ms] by (intro filter_True) auto
  ultimately show ?thesis
    using canonical_markings_props(1,2) [of ms]
    unfolding canonical_markings_def [of "canonical_markings ms"]
    by (simp add: sorted_sort_id distinct_adj_altdef remdups_adj_distinct)
qed

text \<open>
  A triage verdict that is accepted names its package, finding, component and a known severity,
  has no empty evidence or hypothesis, and lists the trimmed markings it was given in order without
  repetition. A disposition in it is recorded only with autonomy granted, otherwise it is proposed for
  review. The canonical form is a fixed point, so a verdict recovered after a crash stays as it was.
\<close>

theorem verdict_canonical:
  assumes "canonical_verdict r = Ok r'"
  shows "canonical_verdict r' = Ok r' \<and> tg_package r' = TRIAGE_PACKAGE_ID \<and>
    tg_verdict_severity r' \<in> set SEVERITIES \<and> trim (tg_component r') \<noteq> [] \<and> trim (tg_finding_signature r') \<noteq> [] \<and>
    list_all (\<lambda>s. trim s \<noteq> []) (tg_evidence r' @ tg_hypotheses r') \<and>
    sorted (tg_reachable_markings r') \<and> distinct (tg_reachable_markings r') \<and>
    set (tg_reachable_markings r') = trim ` set (tg_reachable_markings r) - {[]} \<and>
    (case tg_proposed_disposition r' of None \<Rightarrow> True
     | Some p \<Rightarrow> pr_status p = ''proposed'' \<or> pr_status p = ''recorded'' \<and> pr_autonomy_granted p)"
proof -
  have known: "severity_rank s \<noteq> None \<Longrightarrow> s \<in> set SEVERITIES" for s
    by (auto simp: severity_rank_def SEVERITIES_def split: if_splits)
  from assms have r': "r' = r\<lparr>tg_reachable_markings := canonical_markings (tg_reachable_markings r)\<rparr>"
    and d: "check_disposition (tg_proposed_disposition r) = Ok ()"
    and rest: "tg_package r = TRIAGE_PACKAGE_ID" "trim (tg_finding_signature r) \<noteq> []" "trim (tg_component r) \<noteq> []"
      "trim (tg_verdict_severity r) \<noteq> []" "severity_rank (tg_verdict_severity r) \<noteq> None"
      "\<not> list_ex (\<lambda>s. trim s = []) (tg_evidence r)" "\<not> list_ex (\<lambda>s. trim s = []) (tg_hypotheses r)"
    by (auto simp: canonical_verdict_def and_then_eq_Ok split: if_splits)
  have "canonical_verdict r' = Ok r'"
    using rest d by (simp add: canonical_verdict_def r' canonical_markings_again)
  moreover have "case tg_proposed_disposition r of None \<Rightarrow> True
     | Some p \<Rightarrow> pr_status p = ''proposed'' \<or> pr_status p = ''recorded'' \<and> pr_autonomy_granted p"
    using d by (auto simp: check_disposition_def DISPOSITION_STATUSES_def split: option.splits if_splits)
  ultimately show ?thesis
    using rest known canonical_markings_props [of "tg_reachable_markings r"]
    by (auto simp: r' list_all_iff list_ex_iff)
qed

definition demo_verdict :: triage_report where
  "demo_verdict = \<lparr>tg_package = TRIAGE_PACKAGE_ID, tg_finding_signature = ''f'', tg_component = ''c'', tg_verdict_severity = ''high'',
     tg_reachable_markings = [''pii'', ''a''], tg_environment_criticality = [], tg_evidence = [], tg_hypotheses = [],
     tg_proposed_disposition = None\<rparr>"

theorem verdict_canonical_witness:
  "sorted (tg_reachable_markings (projr (canonical_verdict demo_verdict)))"
proof -
  have t: "trim ''f'' = ''f''" "trim ''c'' = ''c''" "trim ''high'' = ''high''" by (simp_all add: trim_visible visible_def)
  have "severity_rank ''high'' = Some 3" by (simp add: severity_rank_def SEVERITIES_def)
  with t have "canonical_verdict demo_verdict = Ok (demo_verdict\<lparr>tg_reachable_markings := canonical_markings [''pii'', ''a'']\<rparr>)"
    by (simp add: canonical_verdict_def demo_verdict_def check_disposition_def)
  from verdict_canonical [OF this] this show ?thesis by simp
qed

end
