(* ===== verification/Report_Recovery.thy ===== *)
theory Report_Recovery
  imports Conversation Security_Triage
begin

section \<open>The terminal report of a run\<close>

text \<open>
  What the \<open>report\<close> and \<open>escalate\<close> tools make of their arguments (tools/mod.rs, tools/executor.rs), the
  canonical form a security profile gives a successful report (run/tool_batch.rs), and how a resumed run
  recovers a report that was delivered before the interruption (run/transaction.rs). \<open>from_str\<close> is the
  JSON parser; decoding a value into the structs is written out as serde does it, with \<open>success\<close> a field
  that may be missing and unknown fields ignored. The two security profiles are the functions of
  \<open>report_env\<close>, which Security_Finder and Security_Triage define.
\<close>

subsection \<open>The tools\<close>

record report =
  rp_summary :: string
  rp_success :: bool

record park_request =
  pq_reason :: string
  pq_question :: string

datatype tool_output = TO_Text string | TO_Report report | TO_Park park_request

definition field_count :: "string \<Rightarrow> (string \<times> json) list \<Rightarrow> nat" where
  "field_count k kvs = length (filter (\<lambda>p. fst p = k) kvs)"

text \<open>serde reads a struct from an object, or from an array of its fields in order.\<close>

fun report_of_json :: "json \<Rightarrow> report option" where
  "report_of_json (JObj kvs) =
     (if field_count ''summary'' kvs \<noteq> 1 \<or> field_count ''success'' kvs > 1 then None
      else case (map_of kvs ''summary'', map_of kvs ''success'') of
        (Some (JStr s), None) \<Rightarrow> Some \<lparr>rp_summary = s, rp_success = False\<rparr>
      | (Some (JStr s), Some (JBool b)) \<Rightarrow> Some \<lparr>rp_summary = s, rp_success = b\<rparr>
      | _ \<Rightarrow> None)"
| "report_of_json (JArr [JStr s]) = Some \<lparr>rp_summary = s, rp_success = False\<rparr>"
| "report_of_json (JArr [JStr s, JBool b]) = Some \<lparr>rp_summary = s, rp_success = b\<rparr>"
| "report_of_json _ = None"

fun park_of_json :: "json \<Rightarrow> park_request option" where
  "park_of_json (JObj kvs) =
     (if field_count ''reason'' kvs \<noteq> 1 \<or> field_count ''question'' kvs > 1 then None
      else case (map_of kvs ''reason'', map_of kvs ''question'') of
        (Some (JStr r), None) \<Rightarrow> Some \<lparr>pq_reason = r, pq_question = []\<rparr>
      | (Some (JStr r), Some (JStr q)) \<Rightarrow> Some \<lparr>pq_reason = r, pq_question = q\<rparr>
      | _ \<Rightarrow> None)"
| "park_of_json (JArr [JStr r]) = Some \<lparr>pq_reason = r, pq_question = []\<rparr>"
| "park_of_json (JArr [JStr r, JStr q]) = Some \<lparr>pq_reason = r, pq_question = q\<rparr>"
| "park_of_json _ = None"

definition parse_report :: "(string \<Rightarrow> json option) \<Rightarrow> string \<Rightarrow> report option" where
  "parse_report from_str args = Option.bind (from_str args) report_of_json"

definition execute_report :: "(string \<Rightarrow> json option) \<Rightarrow> string \<Rightarrow> (tool_output, tool_error) result" where
  "execute_report from_str args =
     (case parse_report from_str args of
        None \<Rightarrow> Err (TL_InvalidArguments ''report'')
      | Some r \<Rightarrow> Ok (TO_Report (if \<not> contains ''success'' args then r\<lparr>rp_success := True\<rparr> else r)))"

definition execute_escalate :: "(string \<Rightarrow> json option) \<Rightarrow> string \<Rightarrow> (tool_output, tool_error) result" where
  "execute_escalate from_str args =
     (case Option.bind (from_str args) park_of_json of
        None \<Rightarrow> Err (TL_InvalidArguments ''escalate'')
      | Some p \<Rightarrow> Ok (TO_Park (if pq_question p = [] then p\<lparr>pq_question := pq_reason p\<rparr> else p)))"

subsection \<open>Profiles\<close>

record report_env =
  re_from_str :: "string \<Rightarrow> json option"
  re_finder :: "string \<Rightarrow> string \<Rightarrow> (string, string) result"
  re_triage :: "string \<Rightarrow> (string, string) result"

definition SECURITY_FINDER_PROFILE_NAME :: string where "SECURITY_FINDER_PROFILE_NAME = ''security-finder''"
definition SECURITY_TRIAGE_PROFILE_NAME :: string where "SECURITY_TRIAGE_PROFILE_NAME = ''security-triage''"

definition apply_security_finder_report :: "report_env \<Rightarrow> string \<Rightarrow> string option \<Rightarrow> tool_output \<Rightarrow> (tool_output, string) result" where
  "apply_security_finder_report en profile role output =
     (case output of
        TO_Report r \<Rightarrow>
          if \<not> rp_success r then Ok (TO_Report r)
          else if profile = SECURITY_FINDER_PROFILE_NAME then
            (case role of
               None \<Rightarrow> Err ''profile `security-finder`: missing security_finder.role''
             | Some ro \<Rightarrow> and_then (re_finder en (rp_summary r) ro) (\<lambda>s. Ok (TO_Report (r\<lparr>rp_summary := s\<rparr>))))
          else if profile = SECURITY_TRIAGE_PROFILE_NAME then
            and_then (re_triage en (rp_summary r)) (\<lambda>s. Ok (TO_Report (r\<lparr>rp_summary := s\<rparr>)))
          else Ok (TO_Report r)
      | _ \<Rightarrow> Ok output)"

subsection \<open>Recovery\<close>

definition report_text :: "string \<Rightarrow> string" where
  "report_text summary = ''report: '' @ summary"

definition ok_of :: "('a, 'e) result \<Rightarrow> 'a option" where
  "ok_of r = (case r of Inl _ \<Rightarrow> None | Inr a \<Rightarrow> Some a)"

text \<open>The call and the result message of a delivered report: the last two messages of the conversation.\<close>

definition delivered_report :: "chat_message list \<Rightarrow> (tool_call \<times> chat_message) option" where
  "delivered_report messages =
     (case last_assistant messages of
        Some (assistant, [tool_message]) \<Rightarrow>
          (case msg_tool_calls assistant of
             [call] \<Rightarrow>
               if tc_name call \<noteq> ''report'' \<or> tc_id call = [] \<or> msg_role tool_message \<noteq> ''tool'' \<or>
                  msg_tool_call_id tool_message \<noteq> tc_id call
               then None else Some (call, tool_message)
           | _ \<Rightarrow> None)
      | _ \<Rightarrow> None)"

definition recovered_report :: "report_env \<Rightarrow> report \<Rightarrow> string \<Rightarrow> string option \<Rightarrow> bool \<Rightarrow> (bool \<times> string) option" where
  "recovered_report en r content finder_role triage =
     (let success = rp_success r; summary = rp_summary r in
      if content = report_text summary then
        (case finder_role of
           Some role \<Rightarrow> if \<not> success then Some (False, summary)
             else map_option (Pair True) (ok_of (re_finder en summary role))
         | None \<Rightarrow>
             if triage then (if \<not> success then Some (False, summary) else map_option (Pair True) (ok_of (re_triage en summary)))
             else Some (success, summary))
      else if triage then
        (if \<not> success then None
         else case ok_of (re_triage en summary) of
           None \<Rightarrow> None
         | Some stamped \<Rightarrow> if content \<noteq> report_text stamped then None else Some (True, stamped))
      else case finder_role of
        None \<Rightarrow> None
      | Some role \<Rightarrow>
          if \<not> success then None
          else (case ok_of (re_finder en summary role) of
            None \<Rightarrow> None
          | Some stamped \<Rightarrow> if content \<noteq> report_text stamped then None else Some (True, stamped)))"

definition recovered_text_report :: "report_env \<Rightarrow> chat_message list \<Rightarrow> string option \<Rightarrow> bool \<Rightarrow> (bool \<times> string) option" where
  "recovered_text_report en messages finder_role triage =
     (case delivered_report messages of
        None \<Rightarrow> None
      | Some (call, tool_message) \<Rightarrow>
          (case parse_report (re_from_str en) (tc_args_json call) of
             None \<Rightarrow> None
           | Some r \<Rightarrow> recovered_report en r (msg_content tool_message) finder_role triage))"

text \<open>The conversation a delivered report leaves, for the profile of the run.\<close>

definition finder_role_of_run :: "string \<Rightarrow> string option \<Rightarrow> string option" where
  "finder_role_of_run profile role = (if profile = SECURITY_FINDER_PROFILE_NAME then role else None)"

definition report_call :: "string \<Rightarrow> string \<Rightarrow> tool_call" where
  "report_call cid args = \<lparr>tc_id = cid, tc_name = ''report'', tc_args_json = args\<rparr>"

definition report_conversation :: "chat_message list \<Rightarrow> string \<Rightarrow> string \<Rightarrow> string \<Rightarrow> chat_message list" where
  "report_conversation before cid args summary =
     before @ [batch_message [report_call cid args], result_message cid (report_text summary)]"

lemma delivered_conversation:
  "cid \<noteq> [] \<Longrightarrow> delivered_report (report_conversation before cid args summary) =
     Some (report_call cid args, result_message cid (report_text summary))"
proof -
  assume "cid \<noteq> []"
  have "last_assistant (before @ batch_message [report_call cid args] # [result_message cid (report_text summary)]) =
      Some (batch_message [report_call cid args], [result_message cid (report_text summary)])"
    by (rule last_assistant_append) (simp_all add: result_message_def batch_message_def plain_message_def)
  with \<open>cid \<noteq> []\<close> show ?thesis
    by (simp add: delivered_report_def report_conversation_def batch_message_def report_call_def result_message_def)
qed

text \<open>
  A report that was delivered before an interruption is recovered as it was delivered: when the
  arguments carry a \<open>success\<close> field, the tool and the profile accepted the report, and its result is the
  last message, a resumed run returns the same success and the same (canonical) summary without running
  the turn loop, provided canonicalising is stable on its own results.
\<close>

theorem delivered_report_recovered:
  assumes "parse_report (re_from_str en) args = Some r" and "contains ''success'' args" and "cid \<noteq> []"
    and "apply_security_finder_report en profile role (TO_Report r) = Ok (TO_Report delivered)"
    and "profile = SECURITY_FINDER_PROFILE_NAME \<longrightarrow> role \<noteq> None"
    and "\<forall>s t ro. re_finder en s ro = Ok t \<longrightarrow> re_finder en t ro = Ok t"
    and "\<forall>s t. re_triage en s = Ok t \<longrightarrow> re_triage en t = Ok t"
  shows "execute_report (re_from_str en) args = Ok (TO_Report r) \<and>
    recovered_text_report en (report_conversation before cid args (rp_summary delivered))
      (finder_role_of_run profile role) (profile = SECURITY_TRIAGE_PROFILE_NAME)
    = Some (rp_success delivered, rp_summary delivered)"
proof -
  have names: "SECURITY_FINDER_PROFILE_NAME \<noteq> SECURITY_TRIAGE_PROFILE_NAME"
    by (simp add: SECURITY_FINDER_PROFILE_NAME_def SECURITY_TRIAGE_PROFILE_NAME_def)
  have same: "report_text a = report_text b \<longleftrightarrow> a = b" for a b by (simp add: report_text_def)
  have "recovered_report en r (report_text (rp_summary delivered)) (finder_role_of_run profile role)
      (profile = SECURITY_TRIAGE_PROFILE_NAME) = Some (rp_success delivered, rp_summary delivered)"
    using assms(4,5,6,7) names
    by (auto simp: apply_security_finder_report_def recovered_report_def finder_role_of_run_def same ok_of_def Let_def
        and_then_eq_Ok split: if_splits option.splits)
  then show ?thesis
    using assms(1,2) delivered_conversation [OF assms(3)]
    by (simp add: execute_report_def recovered_text_report_def report_call_def result_message_def)
qed

definition demo_report_args :: string where
  "demo_report_args = CHR ''{'' # CHR 0x22 # ''summary'' @ [CHR 0x22, CHR '':'', CHR 0x22] @ ''ok'' @ [CHR 0x22, CHR ''}'']"

definition demo_word_args :: string where
  "demo_word_args = CHR ''{'' # CHR 0x22 # ''summary'' @ [CHR 0x22, CHR '':'', CHR 0x22] @ ''success'' @ [CHR 0x22, CHR ''}'']"

definition demo_report_env :: report_env where
  "demo_report_env = \<lparr>re_from_str = (\<lambda>s. if s = demo_report_args then Some (JObj [(''summary'', JStr ''ok'')])
       else if s = demo_word_args then Some (JObj [(''summary'', JStr ''success'')])
       else Some (JObj [(''summary'', JStr ''done''), (''success'', JBool True)])),
     re_finder = (\<lambda>s _. Ok s), re_triage = (\<lambda>s. Ok s)\<rparr>"

theorem delivered_report_recovered_witness:
  "recovered_text_report demo_report_env (report_conversation [] ''c1'' ''success'' ''done'') None False = Some (True, ''done'')"
proof -
  let ?r = "\<lparr>rp_summary = ''done'', rp_success = True\<rparr>"
  have "parse_report (re_from_str demo_report_env) ''success'' = Some ?r"
    by (simp add: parse_report_def demo_report_env_def field_count_def demo_report_args_def demo_word_args_def)
  moreover have "contains ''success'' ''success''" by code_simp
  moreover have "apply_security_finder_report demo_report_env ''default'' None (TO_Report ?r) = Ok (TO_Report ?r)"
    by (simp add: apply_security_finder_report_def SECURITY_FINDER_PROFILE_NAME_def SECURITY_TRIAGE_PROFILE_NAME_def)
  moreover have "\<forall>s t ro. re_finder demo_report_env s ro = Ok t \<longrightarrow> re_finder demo_report_env t ro = Ok t"
    "\<forall>s t. re_triage demo_report_env s = Ok t \<longrightarrow> re_triage demo_report_env t = Ok t"
    by (simp_all add: demo_report_env_def)
  moreover have "''default'' \<noteq> SECURITY_FINDER_PROFILE_NAME" "''default'' \<noteq> SECURITY_TRIAGE_PROFILE_NAME"
    by (simp_all add: SECURITY_FINDER_PROFILE_NAME_def SECURITY_TRIAGE_PROFILE_NAME_def)
  ultimately show ?thesis
    using delivered_report_recovered [of demo_report_env "''success''" ?r "''c1''" "''default''" None ?r "[]"]
    by (simp add: finder_role_of_run_def)
qed


end
