(* ===== verification/Run_Admission.thy ===== *)
theory Run_Admission
  imports Registry Config Content
begin

section \<open>Admission and supervision of a run (run/supervision.rs, run/resume.rs)\<close>

text \<open>
  What has to hold before a run starts or resumes, the bounds every step of it observes, and how its
  registry record is settled when it ends in any way. Resolving a path against the file system
  (\<open>canonicalize\<close>, \<open>symlink_metadata\<close>) is the argument of \<open>admission_env\<close>; a canonical path is the list of
  its components. The turn loop that runs between admission and settlement is a component of its own.
\<close>

subsection \<open>Bounds\<close>

text \<open>\<open>cancel\<close> is the cancel signal of the host; times are milliseconds since the start.\<close>

definition check_bounds :: "registry \<Rightarrow> bool option \<Rightarrow> run_request \<Rightarrow> string \<Rightarrow> nat \<Rightarrow> nat option \<Rightarrow> string \<Rightarrow>
    (unit, run_error) result" where
  "check_bounds r cancel q run_id elapsed_ms timeout parent_run_id =
     (if cancel = Some True then Err RE_Cancelled
      else if cancel_requested r run_id then Err RE_Cancelled
      else if parent_run_id \<noteq> [] \<and> cancel_requested r parent_run_id then Err RE_Cancelled
      else if (case rq_parent_run_id q of None \<Rightarrow> False | Some p \<Rightarrow> cancel_requested r p) then Err RE_Cancelled
      else case timeout of
        None \<Rightarrow> Ok ()
      | Some limit \<Rightarrow> if elapsed_ms \<ge> limit then Err (RE_TimedOut limit) else Ok ())"

subsection \<open>The workspace of a resumed run\<close>

record admission_env =
  av_codec :: codec
  av_asset :: prompt_asset
  av_cp_codec :: cp_codec
  av_prompt :: string
  av_canonicalize :: "string \<Rightarrow> string list option"
  av_is_symlink :: "string \<Rightarrow> bool option"
  av_state_runs :: string

definition configured_workspace_adapter :: "config \<Rightarrow> string" where
  "configured_workspace_adapter cfg =
     (if ws_adapter (cf_workspace cfg) = ''directory-inplace'' then ''inplace'' else ws_adapter (cf_workspace cfg))"

definition path_join :: "string \<Rightarrow> string \<Rightarrow> string" where
  "path_join a b = a @ ''/'' @ b"

fun inspect_components :: "admission_env \<Rightarrow> string \<Rightarrow> string list \<Rightarrow> (string, run_error) result" where
  "inspect_components en candidate [] = Ok candidate"
| "inspect_components en candidate (c # cs) =
     (let next_path = path_join candidate c in
      case av_is_symlink en next_path of
        None \<Rightarrow> Err (RE_Message ''expected checkpoint workspace cannot be inspected'')
      | Some True \<Rightarrow> Err (RE_Message ''checkpoint workspace path must not contain symlinks'')
      | Some False \<Rightarrow> inspect_components en next_path cs)"

definition path_starts_with :: "string list \<Rightarrow> string list \<Rightarrow> bool" where
  "path_starts_with path root \<longleftrightarrow> take (length root) path = root"

definition canonical_or :: "admission_env \<Rightarrow> string \<Rightarrow> string \<Rightarrow> (string list, run_error) result" where
  "canonical_or en path why = (case av_canonicalize en path of None \<Rightarrow> Err (RE_Message why) | Some p \<Rightarrow> Ok p)"

definition canonical_workspace_below :: "admission_env \<Rightarrow> string \<Rightarrow> string list \<Rightarrow> (string list, run_error) result" where
  "canonical_workspace_below en root suffix =
     and_then (canonical_or en root ''configured workspace root cannot be resolved'') (\<lambda>trusted_root.
       and_then (inspect_components en root suffix) (\<lambda>candidate.
         and_then (canonical_or en candidate ''expected checkpoint workspace cannot be resolved'') (\<lambda>expected.
           if \<not> path_starts_with expected trusted_root
           then Err (RE_Message ''checkpoint workspace escapes configured root'') else Ok expected)))"

definition validate_nested_child_workspace :: "admission_env \<Rightarrow> disk \<Rightarrow> string \<Rightarrow> checkpoint \<Rightarrow> string list \<Rightarrow>
    (string list, run_error) result" where
  "validate_nested_child_workspace en d resume_id cp actual =
     (let adapter = (if cp_workspace_adapter cp = [] then ''inplace'' else cp_workspace_adapter cp) in
      and_then
        (if adapter = ''inplace'' \<or> adapter = ''directory-inplace'' then
           (case checkpoint_load (av_codec en) (av_cp_codec en) (av_state_runs en) d (cp_parent_run_id cp) of
              Inl _ \<Rightarrow> Err (RE_Message ''nested child parent checkpoint cannot be loaded'')
            | Inr parent \<Rightarrow> canonical_or en (cp_workspace parent) ''nested child parent workspace cannot be resolved'')
         else if adapter = ''directory'' then canonical_workspace_below en (av_state_runs en) [resume_id, ''workspace'']
         else if adapter = ''git-worktree'' then canonical_workspace_below en (av_state_runs en) [resume_id, ''worktree'']
         else Err (RE_Message ''nested child workspace adapter cannot be resumed''))
        (\<lambda>expected. if actual \<noteq> expected
           then Err (RE_Message ''nested child workspace does not match expected workspace'') else Ok actual))"

definition expected_workspace :: "admission_env \<Rightarrow> config \<Rightarrow> string \<Rightarrow> (string list, run_error) result" where
  "expected_workspace en cfg resume_id =
     (let adapter = configured_workspace_adapter cfg; root = ws_root (cf_workspace cfg) in
      if adapter = ''directory'' then
        (if root = ''.'' then canonical_workspace_below en (av_state_runs en) [resume_id, ''workspace'']
         else canonical_workspace_below en root [''shikigami-runs'', resume_id])
      else if adapter = ''git-worktree'' then canonical_workspace_below en (av_state_runs en) [resume_id, ''worktree'']
      else if adapter = ''inplace'' then canonical_or en root ''configured workspace root cannot be resolved''
      else Err (RE_Message ''cannot validate checkpoint workspace for adapter''))"

definition validate_resumed_workspace :: "admission_env \<Rightarrow> config \<Rightarrow> disk \<Rightarrow> string \<Rightarrow> checkpoint \<Rightarrow>
    (string list, run_error) result" where
  "validate_resumed_workspace en cfg d resume_id cp =
     and_then (canonical_or en (cp_workspace cp) ''checkpoint workspace cannot be resolved'') (\<lambda>actual.
       if cp_parent_run_id cp \<noteq> [] then validate_nested_child_workspace en d resume_id cp actual
       else
         let configured = configured_workspace_adapter cfg;
             adapter = (if cp_workspace_adapter cp = [] then configured else cp_workspace_adapter cp)
         in if adapter \<noteq> configured
            then Err (RE_Message ''checkpoint workspace adapter does not match configured adapter'')
            else and_then (expected_workspace en cfg resume_id) (\<lambda>expected.
              if actual \<noteq> expected
              then Err (RE_Message ''checkpoint workspace does not match configured workspace'') else Ok actual))"

subsection \<open>Preflight\<close>

record replay_execution =
  re_manifest_digest :: string
  re_source_run_id :: string

definition check_replay :: "checkpoint \<Rightarrow> replay_execution option \<Rightarrow> (unit, run_error) result" where
  "check_replay cp replay =
     (case (cp_replay cp, replay) of
        (Some _, None) \<Rightarrow> Err (RE_Message ''replay checkpoints must be resumed through Harness::replay'')
      | (None, Some _) \<Rightarrow> Err (RE_Message ''run is not a replay attempt'')
      | (Some c, Some p) \<Rightarrow>
          if rc_manifest_digest c \<noteq> re_manifest_digest p then Err (RE_Message ''replay manifest digest mismatch'')
          else if rc_terminal c \<noteq> None then Err (RE_Message ''replay attempt is already terminal and cannot be restarted'')
          else if rc_source_run_id c \<noteq> re_source_run_id p then Err (RE_Message ''replay source identity mismatch'')
          else if rc_workspace c \<noteq> cp_workspace cp then Err (RE_Message ''replay workspace binding mismatch'')
          else Ok ()
      | (None, None) \<Rightarrow> Ok ())"

text \<open>A content run is known here by the identity of its resolver.\<close>

definition check_content :: "checkpoint \<Rightarrow> string option \<Rightarrow> (unit, run_error) result" where
  "check_content cp resolver_id =
     (case (cp_content cp, resolver_id) of
        (Some _, None) \<Rightarrow> Err (RE_Message ''content checkpoints must be resumed through Harness::run_content'')
      | (None, Some _) \<Rightarrow> Err (RE_Message ''run is not a bounded content run'')
      | (Some b, Some i) \<Rightarrow> if cb_resolver_id b \<noteq> i then Err (RE_Message ''content resolver binding mismatch'') else Ok ()
      | (None, None) \<Rightarrow> Ok ())"

definition lift_cp :: "('a, checkpoint_error) result \<Rightarrow> ('a, run_error) result" where
  "lift_cp r = (case r of Inl e \<Rightarrow> Err (RE_Checkpoint e) | Inr a \<Rightarrow> Ok a)"

definition check_decisions :: "checkpoint \<Rightarrow> run_request \<Rightarrow> (unit, run_error) result" where
  "check_decisions cp q =
     (if is_escalate_park cp \<and> rq_resume_answer q = None
      then Err (RE_Message ''run is parked; supply resume_answer / --answer to continue'')
      else if rq_resume_answer q \<noteq> None \<and> \<not> is_escalate_park cp
      then Err (RE_Message (if cp_approval_park cp \<noteq> None then ''resume_answer is not used for approval parks''
        else ''resume_answer provided but run is not parked''))
      else if is_prompt_wait cp \<and> rq_resume_prompt q = None
      then Err (RE_Message ''run is waiting for the next session prompt'')
      else if rq_resume_prompt q \<noteq> None \<and> \<not> is_prompt_wait cp
      then Err (RE_Message ''resume_prompt is only used for session end_turn waits'')
      else if is_ask_park cp \<and> rq_resume_ask q = None
      then Err (RE_Message ''run is parked for ask=park; supply resume_ask to continue'')
      else if rq_resume_ask q \<noteq> None \<and> \<not> is_ask_park cp
      then Err (RE_Message ''resume_ask is only used for ask=park waits'')
      else if is_plan_park cp \<and> rq_resume_plan q = None
      then Err (RE_Message ''run is parked for plan review; supply resume_plan to continue'')
      else if rq_resume_plan q \<noteq> None \<and> \<not> is_plan_park cp
      then Err (RE_Message ''resume_plan is only used for plan write-jail waits'')
      else Ok ())"

definition check_snapshot :: "config \<Rightarrow> checkpoint \<Rightarrow> run_request \<Rightarrow> (unit, run_error) result" where
  "check_snapshot cfg cp q =
     (let adapter = (if cp_workspace_adapter cp = [] then configured_workspace_adapter cfg else cp_workspace_adapter cp) in
      if rq_restore_snapshot q \<noteq> None \<and> adapter = ''inplace''
      then Err (RE_Message ''restore_snapshot is not supported with workspace adapter `inplace`'') else Ok ())"

definition preflight :: "admission_env \<Rightarrow> config \<Rightarrow> disk \<Rightarrow> run_request \<Rightarrow> string option \<Rightarrow> replay_execution option \<Rightarrow>
    string option \<Rightarrow> (checkpoint option, run_error) result" where
  "preflight en cfg d q expected_digest replay content =
     (case rq_resume_run_id q of
        None \<Rightarrow>
          if expected_digest \<noteq> None then Err (RE_Message ''checkpoint digest requires a resumed run'')
          else if rq_resume_plan q \<noteq> None then Err (RE_Message ''resume_plan is only used for plan write-jail waits'')
          else Ok None
      | Some resume_id \<Rightarrow>
          and_then (lift_cp (load_with_digest (av_codec en) (av_cp_codec en) (av_state_runs en) d resume_id)) (\<lambda>(cp, digest).
            if (case expected_digest of None \<Rightarrow> False | Some e \<Rightarrow> e \<noteq> digest)
            then Err (RE_Message ''checkpoint digest mismatch'')
            else and_then (check_replay cp replay) (\<lambda>_. and_then (check_content cp content) (\<lambda>_.
              and_then (lift_cp (validate_prompt (av_codec en) (av_asset en) cp (av_prompt en))) (\<lambda>_.
              and_then (lift_cp (validate_park_kind cp)) (\<lambda>_.
              and_then (validate_resumed_workspace en cfg d resume_id cp) (\<lambda>_.
              and_then (check_snapshot cfg cp q) (\<lambda>_.
              and_then (check_decisions cp q) (\<lambda>_. Ok (Some cp))))))))))"

subsection \<open>What admission guarantees\<close>

text \<open>The decision a park asks for; an approval park asks its authority, not the request.\<close>

definition decision_matches :: "checkpoint \<Rightarrow> run_request \<Rightarrow> bool" where
  "decision_matches cp q \<longleftrightarrow>
     (rq_resume_answer q \<noteq> None \<longleftrightarrow> map_option pk_kind (cp_park cp) = Some PK_Escalate) \<and>
     (rq_resume_prompt q \<noteq> None \<longleftrightarrow> map_option pk_kind (cp_park cp) = Some PK_PromptWait) \<and>
     (rq_resume_ask q \<noteq> None \<longleftrightarrow> map_option pk_kind (cp_park cp) = Some PK_Ask) \<and>
     (rq_resume_plan q \<noteq> None \<longleftrightarrow> map_option pk_kind (cp_park cp) = Some PK_Plan)"

lemma check_decisions_Ok: "check_decisions cp q = Ok () \<longleftrightarrow> decision_matches cp q"
  by (auto simp: check_decisions_def decision_matches_def park_defs split: option.splits)

lemma lift_cp_Ok: "lift_cp r = Ok a \<longleftrightarrow> r = Ok a"
  by (cases r) (simp_all add: lift_cp_def)

definition approval_agrees :: "checkpoint \<Rightarrow> bool" where
  "approval_agrees cp \<longleftrightarrow>
     (case cp_park cp of None \<Rightarrow> True | Some p \<Rightarrow> pk_kind p = PK_Approval \<longleftrightarrow> cp_approval_park cp \<noteq> None)"

lemma validate_park_kind_Ok: "validate_park_kind cp = Ok () \<longleftrightarrow> approval_agrees cp"
  by (auto simp: validate_park_kind_def approval_agrees_def split: option.splits)


text \<open>Without symbolic links on the way, a workspace below a root resolves inside it.\<close>

lemma inspect_components_Ok:
  "inspect_components en root suffix = Ok path \<Longrightarrow>
     path = foldl path_join root suffix \<and>
     (\<forall>n. 0 < n \<longrightarrow> n \<le> length suffix \<longrightarrow> av_is_symlink en (foldl path_join root (take n suffix)) = Some False)"
proof (induction suffix arbitrary: root)
  case (Cons c cs)
  then have here: "av_is_symlink en (path_join root c) = Some False"
    and rest: "inspect_components en (path_join root c) cs = Ok path"
    by (auto simp: Let_def split: option.splits bool.splits)
  from Cons.IH [OF rest] have ih: "path = foldl path_join (path_join root c) cs"
    "\<And>n. 0 < n \<Longrightarrow> n \<le> length cs \<Longrightarrow> av_is_symlink en (foldl path_join (path_join root c) (take n cs)) = Some False"
    by blast+
  have "av_is_symlink en (foldl path_join root (take n (c # cs))) = Some False" if "0 < n" "n \<le> length (c # cs)" for n
  proof (cases n)
    case (Suc k)
    then show ?thesis using here ih(2) [of k] that by (cases "k = 0") auto
  qed (use that in simp)
  with ih(1) show ?case by simp
qed simp

text \<open>
  A root run resumes only in the workspace its configuration owns. When validation succeeds, the
  path in the checkpoint resolves to the very place the configured adapter gives the run: with the
  directory and worktree adapters this is a directory of the run under the trusted root, reached without
  symbolic links and resolving inside that root; in place it is the configured root itself.
\<close>

theorem resumed_workspace_owned:
  assumes "validate_resumed_workspace en cfg d resume_id cp = Ok actual" and "cp_parent_run_id cp = []"
  shows "av_canonicalize en (cp_workspace cp) = Some actual \<and>
    (if configured_workspace_adapter cfg = ''inplace''
     then av_canonicalize en (ws_root (cf_workspace cfg)) = Some actual
     else \<exists>root suffix trusted. (root, suffix) \<in> set [(av_state_runs en, [resume_id, ''workspace'']),
            (ws_root (cf_workspace cfg), [''shikigami-runs'', resume_id]), (av_state_runs en, [resume_id, ''worktree''])] \<and>
          av_canonicalize en root = Some trusted \<and> path_starts_with actual trusted \<and>
          av_canonicalize en (foldl path_join root suffix) = Some actual \<and>
          av_is_symlink en (path_join root (suffix ! 0)) = Some False \<and>
          av_is_symlink en (path_join (path_join root (suffix ! 0)) (suffix ! 1)) = Some False)"
proof -
  from assms have act: "av_canonicalize en (cp_workspace cp) = Some actual" and ex: "expected_workspace en cfg resume_id = Ok actual"
    by (auto simp: validate_resumed_workspace_def and_then_eq_Ok canonical_or_def Let_def split: if_splits option.splits)
  have below: "\<exists>trusted. av_canonicalize en root = Some trusted \<and> path_starts_with actual trusted \<and>
      av_canonicalize en (foldl path_join root [a, b]) = Some actual \<and> av_is_symlink en (path_join root a) = Some False \<and>
      av_is_symlink en (path_join (path_join root a) b) = Some False"
    if below_root: "canonical_workspace_below en root [a, b] = Ok actual" for root a b
  proof -
    from below_root obtain trusted path where t: "av_canonicalize en root = Some trusted" "inspect_components en root [a, b] = Ok path"
      "av_canonicalize en path = Some actual" "path_starts_with actual trusted"
      by (auto simp: canonical_workspace_below_def and_then_eq_Ok canonical_or_def simp del: inspect_components.simps
          split: option.splits if_splits)
    from inspect_components_Ok [OF t(2)]
    have "path = foldl path_join root [a, b]"
      "av_is_symlink en (foldl path_join root (take 1 [a, b])) = Some False"
      "av_is_symlink en (foldl path_join root (take 2 [a, b])) = Some False" by (auto simp del: foldl_Cons)
    with t show ?thesis by simp
  qed
  show ?thesis
  proof (cases "configured_workspace_adapter cfg = ''inplace''")
    case True
    with ex act show ?thesis by (simp add: expected_workspace_def canonical_or_def split: option.splits)
  next
    case False
    with ex have "canonical_workspace_below en (av_state_runs en) [resume_id, ''workspace''] = Ok actual
      \<or> canonical_workspace_below en (ws_root (cf_workspace cfg)) [''shikigami-runs'', resume_id] = Ok actual
      \<or> canonical_workspace_below en (av_state_runs en) [resume_id, ''worktree''] = Ok actual"
      by (auto simp: expected_workspace_def Let_def split: if_splits)
    moreover have finish: ?thesis
      if root: "(root, [a, b]) \<in> set [(av_state_runs en, [resume_id, ''workspace'']),
            (ws_root (cf_workspace cfg), [''shikigami-runs'', resume_id]), (av_state_runs en, [resume_id, ''worktree''])]"
        and ws: "canonical_workspace_below en root [a, b] = Ok actual" for root a b
    proof -
      from below [OF ws] obtain trusted where "av_canonicalize en root = Some trusted" "path_starts_with actual trusted"
        "av_canonicalize en (foldl path_join root [a, b]) = Some actual" "av_is_symlink en (path_join root a) = Some False"
        "av_is_symlink en (path_join (path_join root a) b) = Some False" by blast
      with root False act show ?thesis
        by (intro conjI) (simp, simp only: if_False, intro exI [of _ root] exI [of _ "[a, b]"] exI [of _ trusted], simp)
    qed
    ultimately show ?thesis by (elim disjE) (erule finish [rotated], simp)+
  qed
qed

subsection \<open>Acquiring and settling a run\<close>

definition request_defaults :: "config \<Rightarrow> bool \<Rightarrow> run_request \<Rightarrow> run_request" where
  "request_defaults cfg content_run q =
     (let q1 = (if rq_resume_run_id q = None \<and> \<not> content_run \<and> rs_plan_jail (cf_run cfg) then q\<lparr>rq_plan_jail := True\<rparr> else q)
      in if rq_resume_run_id q1 = None \<and> \<not> content_run \<and> rs_nested (cf_run cfg) then q1\<lparr>rq_nested := True\<rparr> else q1)"

definition run_id_of :: "run_request \<Rightarrow> string \<Rightarrow> string" where
  "run_id_of q fresh =
     (case rq_resume_run_id q of Some i \<Rightarrow> i | None \<Rightarrow> (case rq_assigned_run_id q of Some i \<Rightarrow> i | None \<Rightarrow> fresh))"

definition acquire_run :: "reg_env \<Rightarrow> nat \<Rightarrow> bool \<Rightarrow> registry \<Rightarrow> string \<Rightarrow> run_request \<Rightarrow> registry \<times> (unit, run_error) result" where
  "acquire_run rn now late r run q =
     (case registry_start rn now late r run (rq_task q) (rq_logical_operation_id q) None of
        (r1, Inr _) \<Rightarrow> (r1, Ok ())
      | (r1, Inl (RGE_CancelledBeforeStart _)) \<Rightarrow> (r1, Err RE_Cancelled)
      | (r1, Inl _) \<Rightarrow> (r1, Err (RE_Message ''run registry start failed'')))"

text \<open>A run ends by returning, or its future is dropped before it returns.\<close>

datatype run_exit = RX_Returned "(run_result, run_error) result" | RX_Dropped "child_run_record list"

fun cancel_children :: "reg_env \<Rightarrow> registry \<Rightarrow> child_run_record list \<Rightarrow> registry" where
  "cancel_children rn r [] = r"
| "cancel_children rn r (c # cs) = cancel_children rn (fst (request_cancel rn r (cr_run_id c))) cs"

definition project_result :: "content_env \<Rightarrow> bool \<Rightarrow> run_result \<Rightarrow> run_result" where
  "project_result cen content_run result =
     (if content_run then result\<lparr>rr_summary := project_bounded_text cen True ''bounded_content_result'' (rr_summary result)\<rparr>
      else result)"

text \<open>\<open>finish_run\<close> and the drop of \<open>RunLifecycle\<close>; the children of a dropped run are those of its
  checkpoint. \<open>shown\<close> is the text of an error. The caller drops the result of the registry operation.\<close>

definition settle_run :: "reg_env \<Rightarrow> content_env \<Rightarrow> nat \<Rightarrow> nat \<Rightarrow> (run_error \<Rightarrow> string) \<Rightarrow> bool \<Rightarrow> registry \<Rightarrow> string \<Rightarrow> run_exit \<Rightarrow>
    unit reg_result" where
  "settle_run rn cen now now' shown content_run r run ex =
     (case ex of
        RX_Returned (Inr result) \<Rightarrow> finish_result rn now now' r (project_result cen content_run result)
      | RX_Returned (Inl e) \<Rightarrow> finish_error rn now now' r run e (shown e)
      | RX_Dropped children \<Rightarrow>
          finish_error rn now now' (cancel_children rn r children) run RE_Cancelled (shown RE_Cancelled))"

definition supervised_run :: "admission_env \<Rightarrow> reg_env \<Rightarrow> content_env \<Rightarrow> (run_error \<Rightarrow> string) \<Rightarrow> config \<Rightarrow> disk \<Rightarrow> nat \<Rightarrow> nat \<Rightarrow> nat \<Rightarrow>
    bool \<Rightarrow> string \<Rightarrow> run_request \<Rightarrow> string option \<Rightarrow> replay_execution option \<Rightarrow> string option \<Rightarrow>
    (run_request \<Rightarrow> string \<Rightarrow> checkpoint option \<Rightarrow> registry \<Rightarrow> registry \<times> run_exit) \<Rightarrow> registry \<Rightarrow> registry \<times> run_exit" where
  "supervised_run en rn cen shown cfg d started now now' late fresh q0 expected replay content transaction r =
     (let q = request_defaults cfg (content \<noteq> None) q0; run = run_id_of q fresh in
      case preflight en cfg d q expected replay content of
        Inl e \<Rightarrow> (r, RX_Returned (Err e))
      | Inr cp \<Rightarrow>
          (case acquire_run rn started late r run q of
             (r1, Inl e) \<Rightarrow> (r1, RX_Returned (Err e))
           | (r1, Inr _) \<Rightarrow>
               let (r2, ex) = transaction q run cp r1 in (fst (settle_run rn cen now now' shown (content \<noteq> None) r2 run ex), ex)))"

definition settled :: "reg_env \<Rightarrow> registry \<Rightarrow> string \<Rightarrow> run_termination \<Rightarrow> bool" where
  "settled rn r run t \<longleftrightarrow> rf_owner (files_of r run) = None \<and>
     (case load_unlocked rn r run of Inl _ \<Rightarrow> False
      | Inr rec \<Rightarrow> rn_status rec = termination_text t \<and> rn_cancel_requested rec = False \<and> \<not> active_status (rn_status rec))"

lemma then_do_Ok: "snd (then_do res k) = Ok () \<Longrightarrow> snd res = Ok () \<and> then_do res k = k (fst res)"
  by (auto simp: then_do_def split: prod.splits sum.splits)

lemma finish_settles:
  assumes codec: "codec_ok rn" and own: "own_ids rn r"
    and id: "\<And>rec0. rn_run_id (upd rec0) = rn_run_id rec0" and status: "\<And>rec0. rn_status (upd rec0) = termination_text t"
    and fin: "with_record rn r run (\<lambda>rec. then_do (clear_cancel_unlocked rn r run)
     (\<lambda>r1. then_do (write_record rn r1 (upd rec)) (\<lambda>r2. remove_owner_unlocked rn r2 run))) = (r', Ok ())"
  shows "settled rn r' run t"
proof -
  from fin obtain rec where load: "load_unlocked rn r run = Ok rec" by (cases "load_unlocked rn r run") (auto simp: with_record_def)
  then have safe: "is_safe_run_id run" and io: "en_io rn 0" by (auto simp: load_unlocked_def split: if_splits option.splits)
  from load_Ok [OF load] own have rid: "rn_run_id rec = run" by (auto simp: own_ids_def)
  let ?r1 = "fst (clear_cancel_unlocked rn r run)" and ?w = "\<lambda>r1. write_record rn r1 (upd rec)"
  have ch: "then_do (clear_cancel_unlocked rn r run) (\<lambda>r1. then_do (?w r1) (\<lambda>r2. remove_owner_unlocked rn r2 run)) = (r', Ok ())"
    using fin load by (simp add: with_record_def)
  have c1: "then_do (?w ?r1) (\<lambda>r2. remove_owner_unlocked rn r2 run) = (r', Ok ())"
    using then_do_Ok [of "clear_cancel_unlocked rn r run"] ch by (metis snd_conv)
  have c2: "snd (?w ?r1) = Ok ()" "remove_owner_unlocked rn (fst (?w ?r1)) run = (r', Ok ())"
    using then_do_Ok [of "?w ?r1"] c1 by (metis snd_conv)+
  have "stored rn r' = (stored rn ?r1)(run \<mapsto> upd rec)"
    using stored_write [OF codec, of ?r1 "upd rec"] stored_remove_owner [of rn rn "fst (?w ?r1)" run] c2 id rid by simp
  then have st: "stored rn r' run = Some (upd rec)" by simp
  have own': "rf_owner (files_of r' run) = None"
    using c2(2) by (auto simp: remove_owner_unlocked_def split: if_splits)
  have "\<not> active_status (termination_text t)" by (simp add: active_status_def termination_text_not_active)
  with load_stored [OF st safe io] own' show ?thesis by (simp add: settled_def status)
qed

lemma stored_request_cancel: "stored en' (fst (request_cancel rn r run)) = stored en' r"
  by (auto simp: request_cancel_def split: sum.splits registry_error.splits)

lemma stored_cancel_children: "stored en' (cancel_children rn r cs) = stored en' r"
  by (induction rn r cs rule: cancel_children.induct) (simp_all add: stored_request_cancel)

definition exit_termination :: "run_exit \<Rightarrow> run_termination" where
  "exit_termination ex =
     (case ex of RX_Returned (Inr result) \<Rightarrow> rr_termination result | RX_Returned (Inl e) \<Rightarrow> error_termination e
      | RX_Dropped _ \<Rightarrow> RT_Cancelled)"


subsection \<open>Instances\<close>

definition demo_parked :: checkpoint where
  "demo_parked = demo_checkpoint\<lparr>cp_workspace := ''s/r1/workspace'',
     cp_prompt_id := prompt_id demo_codec \<lparr>pa_id = ''p'', pa_body = ''b''\<rparr> ''b'',
     cp_park := Some \<lparr>pk_reason = ''r'', pk_question = ''q'', pk_tool_call_id = ''c'', pk_kind = PK_Escalate,
       pk_allow_call_id = [], pk_plan_digest = []\<rparr>\<rparr>"

definition demo_admission :: admission_env where
  "demo_admission = \<lparr>av_codec = demo_codec, av_asset = \<lparr>pa_id = ''p'', pa_body = ''b''\<rparr>,
     av_cp_codec = \<lparr>cc_to_string = (\<lambda>_. None), cc_from_slice = (\<lambda>_. Some demo_parked)\<rparr>, av_prompt = ''b'',
     av_canonicalize = (\<lambda>p. Some (split_on CHR ''/'' p)), av_is_symlink = (\<lambda>_. Some False), av_state_runs = ''s''\<rparr>"

definition demo_resume :: "string option \<Rightarrow> run_request" where
  "demo_resume answer = (run_request_new ''t'')\<lparr>rq_resume_run_id := Some ''r1'', rq_resume_answer := answer\<rparr>"

lemma demo_workspace: "validate_resumed_workspace demo_admission default_config d ''r1'' demo_parked = Ok [''s'', ''r1'', ''workspace'']"
  by (simp add: validate_resumed_workspace_def canonical_or_def demo_admission_def demo_parked_def demo_checkpoint_def
      configured_workspace_adapter_def default_config_def default_workspace_def expected_workspace_def
      canonical_workspace_below_def path_join_def path_starts_with_def)

theorem resumed_workspace_owned_witness:
  "av_canonicalize demo_admission (cp_workspace demo_parked) = Some [''s'', ''r1'', ''workspace'']"
proof -
  have "cp_parent_run_id demo_parked = []" by (simp add: demo_parked_def demo_checkpoint_def)
  from resumed_workspace_owned [OF demo_workspace this] show ?thesis by blast
qed


definition demo_cancelled :: run_record where
  "demo_cancelled = demo_record\<lparr>rn_status := ''cancelled'', rn_success := Some False, rn_termination := Some ''cancelled'',
     rn_summary := ''s'', rn_finished_at_ms := Some 7, rn_cancel_requested := False, rn_last_heartbeat_at_ms := 8\<rparr>"

definition demo_settle_env :: reg_env where
  "demo_settle_env = demo_env\<lparr>en_encode := (\<lambda>rec. if rec = demo_record then Some ''j'' else if rec = demo_cancelled then Some ''k'' else None),
     en_decode := (\<lambda>raw. if raw = ''j'' then Some demo_record else if raw = ''k'' then Some demo_cancelled else None)\<rparr>"

definition demo_running :: registry where
  "demo_running = set_files ''r1'' (empty_run_files\<lparr>rf_record := Some ''j'', rf_owner := Some 5\<rparr>) empty_registry"


end
