(* ===== verification/Session.thy ===== *)
theory Session
  imports Report_Recovery Run_Admission
begin

section \<open>The durable session of a run (run/session.rs)\<close>

text \<open>
  The progress a run owns and persists: the conversation, the content messages with their bounds, the
  parks carried over a resume, and \<open>save\<close>, which writes the content sidecar and then the checkpoint. The
  host's resolver is a record of functions on the host state \<open>'h\<close>; \<open>clock\<close> gives the time of each store.
  The checkpoint of the governance port is an argument of the operations that read it. Handles of running
  child tasks are no durable state and are left out.
\<close>

subsection \<open>State\<close>

record content_session =
  cx_resolver_id :: string
  cx_capabilities :: content_capabilities
  cx_messages :: "content_message list"
  cx_initial_message_count :: nat
  cx_binding :: "content_binding option"
  cx_terminal :: "content_terminal option"
  cx_usage :: token_usage

record content_resume_state =
  cu_initial_message_count :: nat
  cu_binding :: "content_binding option"
  cu_terminal :: "content_terminal option"
  cu_usage :: token_usage

record run_session =
  sn_run_id :: string
  sn_task :: string
  sn_workspace :: string
  sn_workspace_adapter :: string
  sn_keep_workspace :: bool
  sn_messages :: "chat_message list"
  sn_turns :: nat
  sn_replay :: "replay_checkpoint option"
  sn_content :: "content_session option"
  sn_resumed_approval_park :: "parked_state option"
  sn_resumed_ask_park :: "parked_state option"
  sn_ask_allow_call_id :: "string option"
  sn_prompt_start_turns :: "nat option"
  sn_plan_jail :: bool
  sn_nested :: bool
  sn_children :: "child_run_record list"
  sn_nested_depth :: nat
  sn_parent_run_id :: string
  sn_nested_profile :: string
  sn_tools_mode :: string
  sn_tools_enabled :: "string list"

definition run_session_new :: "string \<Rightarrow> string \<Rightarrow> string \<Rightarrow> string \<Rightarrow> bool \<Rightarrow> chat_message list \<Rightarrow> nat \<Rightarrow> run_session" where
  "run_session_new run_id task workspace adapter keep_workspace messages turns =
     \<lparr>sn_run_id = run_id, sn_task = task, sn_workspace = workspace, sn_workspace_adapter = adapter,
      sn_keep_workspace = keep_workspace, sn_messages = messages, sn_turns = turns, sn_replay = None, sn_content = None,
      sn_resumed_approval_park = None, sn_resumed_ask_park = None, sn_ask_allow_call_id = None,
      sn_prompt_start_turns = None, sn_plan_jail = False, sn_nested = False, sn_children = [], sn_nested_depth = 0,
      sn_parent_run_id = [], sn_nested_profile = [], sn_tools_mode = [], sn_tools_enabled = []\<rparr>"

record 'h content_resolver =
  cv_id :: string
  cv_resolve :: "'h \<Rightarrow> resolve_fun"
  cv_store :: "'h \<Rightarrow> content_to_store \<Rightarrow> 'h \<times> (part_descriptor, content_error) result"

definition message_error :: "content_error \<Rightarrow> run_error" where
  "message_error e = RE_Message (case e of CO_Invalid m \<Rightarrow> ''content contract: '' @ m
     | CO_Unsupported m \<Rightarrow> ''content capability denied: '' @ m | CO_Resolver m \<Rightarrow> ''content resolver: '' @ m
     | CO_Io \<Rightarrow> ''content checkpoint I/O'' | CO_Parse \<Rightarrow> ''content checkpoint parse'' | CO_Checkpoint _ \<Rightarrow> ''checkpoint'')"

subsection \<open>Parks carried over a resume\<close>

definition keep_kind :: "park_kind \<Rightarrow> parked_state option \<Rightarrow> parked_state option" where
  "keep_kind k park = (case park of None \<Rightarrow> None | Some p \<Rightarrow> if pk_kind p = k then Some p else None)"

definition set_resumed_approval_park :: "parked_state option \<Rightarrow> run_session \<Rightarrow> run_session" where
  "set_resumed_approval_park park s = s\<lparr>sn_resumed_approval_park := keep_kind PK_Approval park\<rparr>"

definition set_resumed_ask_park :: "parked_state option \<Rightarrow> run_session \<Rightarrow> run_session" where
  "set_resumed_ask_park park s = s\<lparr>sn_resumed_ask_park := keep_kind PK_Ask park\<rparr>"

definition clear_resumed_ask_park :: "run_session \<Rightarrow> run_session" where
  "clear_resumed_ask_park s = s\<lparr>sn_resumed_ask_park := None\<rparr>"

definition open_resumed_approval_park :: "governance_checkpoint option \<Rightarrow> run_session \<Rightarrow> parked_state option" where
  "open_resumed_approval_park gov s =
     (case sn_resumed_approval_park s of
        None \<Rightarrow> None
      | Some park \<Rightarrow> if (case gov of None \<Rightarrow> False | Some g \<Rightarrow> gc_approval_park g \<noteq> None) then Some park else None)"

definition keeps_parked_workspace :: "governance_checkpoint option \<Rightarrow> run_session \<Rightarrow> bool \<Rightarrow> bool" where
  "keeps_parked_workspace gov s pending_park \<longleftrightarrow>
     pending_park \<or> open_resumed_approval_park gov s \<noteq> None \<or> sn_resumed_ask_park s \<noteq> None"

subsection \<open>Content\<close>

definition set_content :: "content_env \<Rightarrow> 'h content_resolver \<Rightarrow> content_capabilities \<Rightarrow> content_message list \<Rightarrow>
    content_resume_state \<Rightarrow> run_session \<Rightarrow> (run_session, run_error) result" where
  "set_content en rv caps messages st s =
     and_then (map_err message_error (validate_messages en messages caps)) (\<lambda>_.
       if trim (cv_id rv) = [] \<or> length (cv_id rv) > 256
       then Err (RE_Message ''content resolver id must be bounded non-empty text'')
       else if (case cu_binding st of None \<Rightarrow> False | Some b \<Rightarrow> cb_resolver_id b \<noteq> cv_id rv)
       then Err (RE_Message ''content resolver binding changed on resume'')
       else if cu_initial_message_count st = 0 \<or> cu_initial_message_count st > length messages
       then Err (RE_Message ''content initial message boundary is invalid'')
       else Ok (s\<lparr>sn_content := Some \<lparr>cx_resolver_id = cv_id rv, cx_capabilities = caps, cx_messages = messages,
         cx_initial_message_count = cu_initial_message_count st, cx_binding = cu_binding st, cx_terminal = cu_terminal st,
         cx_usage = cu_usage st\<rparr>\<rparr>))"

text \<open>The assistant message of the last turn whose content calls are not all answered.\<close>

fun last_content_assistant :: "content_message list \<Rightarrow> (content_message \<times> content_message list) option" where
  "last_content_assistant [] = None"
| "last_content_assistant (m # ms) =
     (case last_content_assistant ms of
        Some r \<Rightarrow> Some r
      | None \<Rightarrow> if cm_role m = ''assistant'' then Some (m, ms) else None)"

definition content_answered :: "content_message list \<Rightarrow> string list" where
  "content_answered after = map cm_tool_call_id (filter (\<lambda>m. cm_role m = ''tool'') after)"

definition has_staged_content_model_turn :: "nat \<Rightarrow> nat \<Rightarrow> content_message list \<Rightarrow> bool" where
  "has_staged_content_model_turn turns initial_message_count messages \<longleftrightarrow>
     turns \<noteq> 0 \<and> length messages > initial_message_count \<and>
     (messages \<noteq> [] \<and> cm_role (last messages) = ''assistant'' \<or>
      (case last_content_assistant messages of
         None \<Rightarrow> False
       | Some (m, after) \<Rightarrow> list_ex (\<lambda>call. tc_id call \<notin> set (content_answered after)) (cm_tool_calls m)))"

definition durable_content_tool_arguments :: "nat \<Rightarrow> run_session \<Rightarrow> string option" where
  "durable_content_tool_arguments index s =
     (case sn_content s of
        None \<Rightarrow> None
      | Some cx \<Rightarrow>
          (case last_content_assistant (cx_messages cx) of
             None \<Rightarrow> None
           | Some (m, _) \<Rightarrow>
               if index < length (cm_tool_calls m) then Some (tc_args_json (cm_tool_calls m ! index)) else None))"

definition terminal_summary_binding :: "content_env \<Rightarrow> content_message list \<Rightarrow> string \<Rightarrow> (string \<times> string) option" where
  "terminal_summary_binding en messages summary =
     (let digest = content_digest en summary in
      map_option (\<lambda>d. (pd_part_id d, pd_sha256_digest d))
        (find (\<lambda>d. pd_kind d = CK_Text \<and> pd_disclosure_state d = DI_Accepted \<and> pd_sha256_digest d = digest)
          (rev (concat (map cm_parts messages)))))"

definition mark_content_terminal :: "content_env \<Rightarrow> bool \<Rightarrow> run_termination \<Rightarrow> string \<Rightarrow> token_usage \<Rightarrow> run_session \<Rightarrow>
    (run_session, run_error) result" where
  "mark_content_terminal en success termination_kind summary usage s =
     (case sn_content s of
        None \<Rightarrow> Err (RE_Message ''content session is unavailable'')
      | Some cx \<Rightarrow>
          (case terminal_summary_binding en (cx_messages cx) summary of
             None \<Rightarrow> Err (RE_Message ''content terminal summary descriptor is missing'')
           | Some (part_id, digest) \<Rightarrow>
               Ok (s\<lparr>sn_content := Some (cx\<lparr>cx_terminal := Some \<lparr>cz_success = success, cz_termination = termination_kind,
                 cz_summary_part_id = part_id, cz_summary_digest = digest, cz_usage = usage, cz_finalized = False,
                 cz_artifact_dir = None\<rparr>\<rparr>)\<rparr>)))"

definition mark_content_finalized :: "string option \<Rightarrow> run_session \<Rightarrow> run_session" where
  "mark_content_finalized artifact_dir s =
     (case sn_content s of
        None \<Rightarrow> s
      | Some cx \<Rightarrow> s\<lparr>sn_content := Some (cx\<lparr>cx_terminal :=
          map_option (\<lambda>z. z\<lparr>cz_finalized := True, cz_artifact_dir := artifact_dir\<rparr>) (cx_terminal cx)\<rparr>)\<rparr>)"

definition content_usage :: "run_session \<Rightarrow> token_usage" where
  "content_usage s = (case sn_content s of None \<Rightarrow> usage_zero | Some cx \<Rightarrow> cx_usage cx)"

definition set_content_usage :: "token_usage \<Rightarrow> run_session \<Rightarrow> run_session" where
  "set_content_usage usage s = s\<lparr>sn_content := map_option (\<lambda>cx. cx\<lparr>cx_usage := usage\<rparr>) (sn_content s)\<rparr>"

definition revalidate_content :: "content_env \<Rightarrow> resolve_fun \<Rightarrow> run_session \<Rightarrow> (unit, run_error) result" where
  "revalidate_content en rsv s =
     (case sn_content s of
        None \<Rightarrow> Ok ()
      | Some cx \<Rightarrow> and_then (map_err message_error (resolve_accepted en rsv (cx_messages cx))) (\<lambda>_. Ok ()))"

definition sidecar_of :: "run_session \<Rightarrow> content_session \<Rightarrow> content_checkpoint" where
  "sidecar_of s cx = \<lparr>cc_schema_version = CONTENT_SCHEMA_VERSION, cc_run_id = sn_run_id s, cc_generation = 0,
     cc_resolver_id = cx_resolver_id cx, cc_capabilities = cx_capabilities cx, cc_messages = cx_messages cx,
     cc_initial_message_count = cx_initial_message_count cx, cc_completed_turns = sn_turns s, cc_usage = cx_usage cx,
     cc_terminal = cx_terminal cx\<rparr>"

definition recover_content_terminal :: "content_env \<Rightarrow> resolve_fun \<Rightarrow> run_session \<Rightarrow>
    ((content_terminal \<times> string) option, run_error) result" where
  "recover_content_terminal en rsv s =
     (case sn_content s of
        None \<Rightarrow> Ok None
      | Some cx \<Rightarrow>
          (case cx_terminal cx of
             None \<Rightarrow> Ok None
           | Some terminal \<Rightarrow>
               and_then (map_err message_error (resolve_terminal_summary en rsv
                 ((sidecar_of s cx)\<lparr>cc_generation := case_option 0 cb_generation (cx_binding cx)\<rparr>))) (\<lambda>summary.
                 case summary of
                   None \<Rightarrow> Err (RE_Message ''content terminal summary is missing'')
                 | Some shown \<Rightarrow> Ok (Some (terminal, shown)))))"

subsection \<open>Appending to the content messages\<close>

text \<open>The first name not in use: the base, or the base with the least suffix from 1 on that is free.
  Among one candidate more than there are used names one is free, so the search need not go further.\<close>

definition reserve_candidates :: "string list \<Rightarrow> string \<Rightarrow> string list" where
  "reserve_candidates used base = base # map (\<lambda>n. base @ ''-'' @ dec_string n) [1..<length used + 2]"

definition reserve_part_id :: "string list \<Rightarrow> string \<Rightarrow> string" where
  "reserve_part_id used base =
     (case find (\<lambda>c. c \<notin> set used) (reserve_candidates used base) of Some c \<Rightarrow> c | None \<Rightarrow> base)"

fun value_discloses :: "string list \<Rightarrow> json \<Rightarrow> bool" where
  "value_discloses references (JStr v) \<longleftrightarrow> list_ex (\<lambda>r. contains r v) references"
| "value_discloses references (JArr vs) \<longleftrightarrow> list_ex (value_discloses references) vs"
| "value_discloses references (JObj kvs) \<longleftrightarrow> list_ex (\<lambda>kv. value_discloses references (snd kv)) kvs"
| "value_discloses references _ \<longleftrightarrow> False"

definition tool_arguments_disclose_reference :: "(string \<Rightarrow> json option) \<Rightarrow> string \<Rightarrow> string list \<Rightarrow> bool" where
  "tool_arguments_disclose_reference from_str args references \<longleftrightarrow>
     (case from_str args of None \<Rightarrow> False | Some v \<Rightarrow> value_discloses references v)"

definition parts_of :: "content_session \<Rightarrow> part_descriptor list" where
  "parts_of cx = concat (map cm_parts (cx_messages cx))"

record content_model_turn =
  ctm_text :: string
  ctm_output_parts :: "part_descriptor list"
  ctm_tool_calls :: "tool_call list"
  ctm_usage :: "token_usage option"

text \<open>The environment of a session: the content codec and hash, the JSON parser, the host's resolver and clock.\<close>

record 'h session_env =
  se_content :: content_env
  se_from_str :: "string \<Rightarrow> json option"
  se_resolver :: "'h content_resolver"
  se_clock :: "nat \<Rightarrow> int"

definition store_part :: "'h session_env \<Rightarrow> nat \<Rightarrow> 'h \<Rightarrow> string \<Rightarrow> string \<Rightarrow> string \<Rightarrow> string \<Rightarrow> 'h \<times> (part_descriptor, run_error) result" where
  "store_part en n h part_id content source source_id =
     (let (h1, r) = store_text (se_content en) (cv_store (se_resolver en)) (cv_resolve (se_resolver en)) (se_clock en n) h
        part_id content source source_id in (h1, map_err message_error r))"

definition check_output_part :: "'h session_env \<Rightarrow> 'h \<Rightarrow> content_session \<Rightarrow> string list \<Rightarrow> part_descriptor \<Rightarrow>
    (string list, run_error) result" where
  "check_output_part en h cx used d =
     and_then (map_err message_error (validate_descriptor d)) (\<lambda>_.
       if pd_part_id d \<in> set used then Err (RE_Message ''model returned a duplicate content part id'')
       else if pd_kind d \<notin> set (ca_output_kinds (cx_capabilities cx))
       then Err (RE_Message ''model returned an unsupported content output kind'')
       else if pd_kind d \<notin> set (ca_input_kinds (cx_capabilities cx)) \<or> pd_media_type d \<notin> set (ca_media_types (cx_capabilities cx)) \<or>
          pd_byte_length d > ca_max_part_bytes (cx_capabilities cx)
       then Err (RE_Message ''model returned content outside the configured capability bounds'')
       else if pd_disclosure_state d = DI_Accepted then
         and_then (map_err (\<lambda>_. RE_Message (''content resolver failed for output part `'' @ pd_part_id d @ ''`''))
             (cv_resolve (se_resolver en) h d)) (\<lambda>payload.
           and_then (map_err message_error (validate_resolved (se_content en) d payload)) (\<lambda>_. Ok (pd_part_id d # used)))
       else Ok (pd_part_id d # used))"

definition generated_lengths :: "content_model_turn \<Rightarrow> nat list" where
  "generated_lengths t = (if ctm_text t = [] then [] else [length (ctm_text t)]) @ map (\<lambda>c. length (tc_args_json c)) (ctm_tool_calls t)"

definition checked_sum :: "nat \<Rightarrow> nat list \<Rightarrow> (nat, run_error) result" where
  "checked_sum start ns = fold_result (\<lambda>a n. case u64_checked_add a n of
     None \<Rightarrow> Err (RE_Message ''content size overflow'') | Some b \<Rightarrow> Ok b) start ns"

definition check_generated :: "content_session \<Rightarrow> content_model_turn \<Rightarrow> (unit, run_error) result" where
  "check_generated cx t =
     (let lengths = generated_lengths t; caps = cx_capabilities cx in
      if lengths \<noteq> [] \<and> (CK_Text \<notin> set (ca_input_kinds caps) \<or> ''text/plain'' \<notin> set (ca_media_types caps))
      then Err (RE_Message ''content capabilities do not permit externalized text'')
      else if list_ex (\<lambda>n. n = 0 \<or> n > ca_max_part_bytes caps) lengths
      then Err (RE_Message ''content model text or tool arguments exceed the configured part bound'')
      else and_then (checked_sum (sum_list (map pd_byte_length (parts_of cx))) (map pd_byte_length (ctm_output_parts t) @ lengths)) (\<lambda>next_bytes.
        if length (parts_of cx) + length (ctm_output_parts t) + length lengths > ca_max_parts caps \<or>
           next_bytes > ca_max_aggregate_bytes caps
        then Err (RE_Message ''content model output exceeds the configured aggregate bound'') else Ok ()))"

text \<open>Storing the arguments of the calls, in order; \<open>index\<close> is the position of the first call.\<close>

fun store_arguments :: "'h session_env \<Rightarrow> nat \<Rightarrow> nat \<Rightarrow> string list \<Rightarrow> 'h \<Rightarrow> tool_call list \<Rightarrow>
    'h \<times> (part_descriptor list \<times> tool_call list, run_error) result" where
  "store_arguments en turns index used h [] = (h, Ok ([], []))"
| "store_arguments en turns index used h (call # calls) =
     (let part_id = reserve_part_id used
            (''shikigami-model-'' @ dec_string turns @ ''-tool-'' @ dec_string index @ ''-arguments'') in
      case store_part en (Suc index) h part_id (tc_args_json call) ''model-tool-arguments''
          (''turn-'' @ dec_string turns @ ''-call-'' @ dec_string index) of
        (h1, Inl e) \<Rightarrow> (h1, Err e)
      | (h1, Inr d) \<Rightarrow>
          let persisted = call\<lparr>tc_id := (if tc_id call = [] then ''tool-'' @ dec_string turns @ ''-'' @ dec_string index else tc_id call),
                tc_args_json := ct_pointer (se_content en) part_id\<rparr> in
          (case store_arguments en turns (Suc index) (part_id # used) h1 calls of
             (h2, Inl e) \<Rightarrow> (h2, Err e)
           | (h2, Inr (ds, cs)) \<Rightarrow> (h2, Ok (d # ds, persisted # cs))))"

definition push_content :: "'h session_env \<Rightarrow> content_message \<Rightarrow> content_session \<Rightarrow> content_session \<times> (unit, run_error) result" where
  "push_content en m cx =
     (let cx1 = cx\<lparr>cx_messages := cx_messages cx @ [m]\<rparr>
      in (cx1, map_err message_error (validate_messages (se_content en) (cx_messages cx1) (cx_capabilities cx1))))"

definition check_model_turn :: "'h session_env \<Rightarrow> 'h \<Rightarrow> content_session \<Rightarrow> content_model_turn \<Rightarrow> (string list, run_error) result" where
  "check_model_turn en h cx t =
     (if list_ex (\<lambda>call. tool_arguments_disclose_reference (se_from_str en) (tc_args_json call) (map pd_reference (parts_of cx))) (ctm_tool_calls t)
      then Err (RE_Message ''content tool arguments must not disclose raw resolver references'')
      else and_then (fold_result (check_output_part en h cx) (map pd_part_id (parts_of cx)) (ctm_output_parts t)) (\<lambda>used.
             and_then (check_generated cx t) (\<lambda>_. Ok used)))"

definition store_model_text :: "'h session_env \<Rightarrow> nat \<Rightarrow> string list \<Rightarrow> 'h \<Rightarrow> string \<Rightarrow> 'h \<times> (part_descriptor list \<times> string list, run_error) result" where
  "store_model_text en turns used h content =
     (if content = [] then (h, Ok ([], used))
      else let text_id = reserve_part_id used (''shikigami-model-'' @ dec_string turns @ ''-text'')
        in case store_part en 0 h text_id content ''model'' (''turn-'' @ dec_string turns) of
             (h1, Inl e) \<Rightarrow> (h1, Err e)
           | (h1, Inr d) \<Rightarrow> (h1, Ok ([d], text_id # used)))"

definition append_model_turn :: "'h session_env \<Rightarrow> nat \<Rightarrow> content_model_turn \<Rightarrow> 'h \<Rightarrow> content_session \<Rightarrow>
    'h \<times> content_session \<times> (unit, run_error) result" where
  "append_model_turn en turns t h cx =
     (case check_model_turn en h cx t of
        Inl e \<Rightarrow> (h, cx, Err e)
      | Inr used \<Rightarrow>
          (case store_model_text en turns used h (ctm_text t) of
             (h1, Inl e) \<Rightarrow> (h1, cx, Err e)
           | (h1, Inr (text_parts, used1)) \<Rightarrow>
               (case store_arguments en turns 0 used1 h1 (ctm_tool_calls t) of
                  (h2, Inl e) \<Rightarrow> (h2, cx, Err e)
                | (h2, Inr (argument_parts, persisted)) \<Rightarrow>
                    let parts = text_parts @ ctm_output_parts t @ argument_parts in
                    if parts = [] \<and> ctm_tool_calls t = []
                    then (h2, cx, Err (RE_Message ''content model turn returned no output or tool calls''))
                    else (h2, push_content en \<lparr>cm_role = ''assistant'', cm_parts = parts, cm_tool_call_id = [],
                      cm_tool_calls = persisted\<rparr> cx))))"

definition append_stored_text :: "'h session_env \<Rightarrow> string \<Rightarrow> string \<Rightarrow> string \<Rightarrow> string \<Rightarrow> string \<Rightarrow> string \<Rightarrow> 'h \<Rightarrow> content_session \<Rightarrow>
    'h \<times> content_session \<times> (unit, run_error) result" where
  "append_stored_text en role base source source_id call_id content h cx =
     (let part_id = reserve_part_id (map pd_part_id (parts_of cx)) base in
      case store_part en 0 h part_id content source source_id of
        (h1, Inl e) \<Rightarrow> (h1, cx, Err e)
      | (h1, Inr d) \<Rightarrow> (h1, push_content en \<lparr>cm_role = role, cm_parts = [d], cm_tool_call_id = call_id, cm_tool_calls = []\<rparr> cx))"

definition append_user_text :: "'h session_env \<Rightarrow> nat \<Rightarrow> string \<Rightarrow> 'h \<Rightarrow> content_session \<Rightarrow>
    'h \<times> content_session \<times> (unit, run_error) result" where
  "append_user_text en turns content h cx =
     (if content = [] then (h, cx, Err (RE_Message ''content follow-up prompt is empty''))
      else append_stored_text en ''user'' (''shikigami-user-'' @ dec_string turns @ ''-'' @ dec_string (length (cx_messages cx)))
        ''session-prompt'' (''prompt-'' @ dec_string turns) [] content h cx)"

definition append_tool_text :: "'h session_env \<Rightarrow> nat \<Rightarrow> string \<Rightarrow> string \<Rightarrow> 'h \<Rightarrow> content_session \<Rightarrow>
    'h \<times> content_session \<times> (unit, run_error) result" where
  "append_tool_text en turns call_id content h cx =
     append_stored_text en ''tool'' (''shikigami-tool-'' @ dec_string turns @ ''-'' @ dec_string (length (cx_messages cx)))
       ''tool'' call_id call_id content h cx"

text \<open>The three operations on a session; without content they fail.\<close>

definition on_content :: "('h \<Rightarrow> content_session \<Rightarrow> 'h \<times> content_session \<times> (unit, run_error) result) \<Rightarrow> 'h \<Rightarrow> run_session \<Rightarrow>
    'h \<times> run_session \<times> (unit, run_error) result" where
  "on_content f h s =
     (case sn_content s of
        None \<Rightarrow> (h, s, Err (RE_Message ''content session is unavailable''))
      | Some cx \<Rightarrow> (case f h cx of (h1, cx1, r) \<Rightarrow> (h1, s\<lparr>sn_content := Some cx1\<rparr>, r)))"

definition append_content_model_turn :: "'h session_env \<Rightarrow> content_model_turn \<Rightarrow> 'h \<Rightarrow> run_session \<Rightarrow> 'h \<times> run_session \<times> (unit, run_error) result" where
  "append_content_model_turn en t h s = on_content (append_model_turn en (sn_turns s) t) h s"

definition append_content_user_text :: "'h session_env \<Rightarrow> string \<Rightarrow> 'h \<Rightarrow> run_session \<Rightarrow> 'h \<times> run_session \<times> (unit, run_error) result" where
  "append_content_user_text en content h s = on_content (append_user_text en (sn_turns s) content) h s"

definition append_content_tool_text :: "'h session_env \<Rightarrow> string \<Rightarrow> string \<Rightarrow> 'h \<Rightarrow> run_session \<Rightarrow> 'h \<times> run_session \<times> (unit, run_error) result" where
  "append_content_tool_text en call_id content h s = on_content (append_tool_text en (sn_turns s) call_id content) h s"

subsection \<open>Replay progress\<close>

definition set_replay :: "replay_checkpoint option \<Rightarrow> run_session \<Rightarrow> run_session" where
  "set_replay replay s = s\<lparr>sn_replay := replay\<rparr>"

definition replay_usage :: "run_session \<Rightarrow> token_usage" where
  "replay_usage s = (case sn_replay s of None \<Rightarrow> usage_zero | Some r \<Rightarrow> rc_usage r)"

definition set_replay_usage :: "token_usage \<Rightarrow> run_session \<Rightarrow> run_session" where
  "set_replay_usage usage s = s\<lparr>sn_replay := map_option (\<lambda>r. r\<lparr>rc_usage := usage\<rparr>) (sn_replay s)\<rparr>"

definition mark_replay_terminal :: "replay_terminal \<Rightarrow> run_session \<Rightarrow> run_session" where
  "mark_replay_terminal terminal s = s\<lparr>sn_replay := map_option (\<lambda>r. r\<lparr>rc_terminal := Some terminal\<rparr>) (sn_replay s)\<rparr>"

definition mark_replay_finalized :: "string option \<Rightarrow> run_session \<Rightarrow> run_session" where
  "mark_replay_finalized artifact_dir s = s\<lparr>sn_replay := map_option (\<lambda>r. r\<lparr>rc_terminal :=
     map_option (\<lambda>t. t\<lparr>rt_finalized := True, rt_artifact_dir := artifact_dir\<rparr>) (rc_terminal r)\<rparr>) (sn_replay s)\<rparr>"

subsection \<open>Saving\<close>

text \<open>
  What a save needs from outside the session: the codecs, the prompt asset and the system prompt, the
  directory of the runs. The governance checkpoint and the todo list, which other components own, are
  arguments. \<open>io\<close> numbers the fallible calls: 0 to 3 those of the sidecar, 4 to 7 those of the checkpoint.
\<close>

record save_env =
  sv_content :: content_env
  sv_codec :: codec
  sv_checkpoint :: cp_codec
  sv_asset :: prompt_asset
  sv_prompt :: string
  sv_root :: string

definition saved_replay :: "run_session \<Rightarrow> replay_checkpoint option" where
  "saved_replay s = map_option (\<lambda>r. r\<lparr>rc_workspace := sn_workspace s,
     rc_comparison_cursor := length (filter (\<lambda>m. msg_role m = ''assistant'' \<or> msg_role m = ''tool'') (sn_messages s))\<rparr>) (sn_replay s)"

definition retained_park :: "governance_checkpoint option \<Rightarrow> parked_state option \<Rightarrow> run_session \<Rightarrow> parked_state option" where
  "retained_park gov park s =
     (case park of Some p \<Rightarrow> Some p
      | None \<Rightarrow> (case open_resumed_approval_park gov s of Some p \<Rightarrow> Some p | None \<Rightarrow> sn_resumed_ask_park s))"

definition retained_checkpoint :: "save_env \<Rightarrow> governance_checkpoint option \<Rightarrow> todo_item list \<Rightarrow> bool \<Rightarrow> parked_state option \<Rightarrow>
    content_binding option \<Rightarrow> run_session \<Rightarrow> checkpoint" where
  "retained_checkpoint en gov todos keep park binding s =
     \<lparr>cp_version = CHECKPOINT_VERSION, cp_run_id = sn_run_id s, cp_task = sn_task s,
      cp_prompt_id = prompt_id (sv_codec en) (sv_asset en) (sv_prompt en),
      cp_messages = sn_messages s, cp_completed_turns = sn_turns s, cp_workspace = sn_workspace s,
      cp_keep_workspace = (keep \<or> retained_park gov park s \<noteq> None), cp_workspace_adapter = sn_workspace_adapter s,
      cp_park = retained_park gov park s, cp_todos = todos, cp_governance = gov, cp_replay = saved_replay s,
      cp_content = binding, cp_prompt_start_turns = sn_prompt_start_turns s, cp_plan_jail = sn_plan_jail s,
      cp_nested = sn_nested s, cp_children = sn_children s, cp_nested_depth = sn_nested_depth s,
      cp_parent_run_id = sn_parent_run_id s, cp_nested_profile = sn_nested_profile s, cp_tools_mode = sn_tools_mode s,
      cp_tools_enabled = sn_tools_enabled s\<rparr>"

definition bind_content :: "content_binding \<Rightarrow> run_session \<Rightarrow> run_session" where
  "bind_content b s = s\<lparr>sn_content := map_option (\<lambda>cx. cx\<lparr>cx_binding := Some b\<rparr>) (sn_content s)\<rparr>"

definition save_checkpoint_of :: "save_env \<Rightarrow> (nat \<Rightarrow> bool) \<Rightarrow> governance_checkpoint option \<Rightarrow> todo_item list \<Rightarrow> bool \<Rightarrow>
    parked_state option \<Rightarrow> content_binding option \<Rightarrow> disk \<Rightarrow> run_session \<Rightarrow> disk \<times> (string, checkpoint_error) result" where
  "save_checkpoint_of en io gov todos keep park binding d s =
     checkpoint_save (sv_checkpoint en) (\<lambda>i. io (i + 4)) (sv_root en) d (retained_checkpoint en gov todos keep park binding s)"

definition save_with_retention :: "save_env \<Rightarrow> (nat \<Rightarrow> bool) \<Rightarrow> string option \<Rightarrow> governance_checkpoint option \<Rightarrow> todo_item list \<Rightarrow> bool \<Rightarrow>
    parked_state option \<Rightarrow> disk \<Rightarrow> run_session \<Rightarrow> disk \<times> run_session \<times> (unit, run_error) result" where
  "save_with_retention en io torn gov todos keep park d s =
     (case sn_content s of
        None \<Rightarrow>
          (case save_checkpoint_of en io gov todos keep park None d s of
             (d1, Inl e) \<Rightarrow> (d1, s, Err (RE_Checkpoint e))
           | (d1, Inr _) \<Rightarrow> (d1, s, Ok ()))
      | Some cx \<Rightarrow>
          (case save_sidecar (sv_content en) io torn (sv_root en) d (sidecar_of s cx) (cx_binding cx) of
             (d1, Inl e) \<Rightarrow> (d1, s, Err (message_error e))
           | (d1, Inr b) \<Rightarrow>
               (case save_checkpoint_of en io gov todos keep park (Some b) d1 s of
                  (d2, Inl e) \<Rightarrow> (d2, s, Err (RE_Checkpoint e))
                | (d2, Inr _) \<Rightarrow> (d2, bind_content b s, Ok ()))))"

definition session_save :: "save_env \<Rightarrow> (nat \<Rightarrow> bool) \<Rightarrow> string option \<Rightarrow> governance_checkpoint option \<Rightarrow> todo_item list \<Rightarrow> disk \<Rightarrow> run_session \<Rightarrow>
    disk \<times> run_session \<times> (unit, run_error) result" where
  "session_save en io torn gov todos d s = save_with_retention en io torn gov todos (sn_keep_workspace s) None d s"

definition save_recoverable :: "save_env \<Rightarrow> (nat \<Rightarrow> bool) \<Rightarrow> string option \<Rightarrow> governance_checkpoint option \<Rightarrow> todo_item list \<Rightarrow>
    parked_state option \<Rightarrow> disk \<Rightarrow> run_session \<Rightarrow> disk \<times> run_session \<times> (unit, run_error) result" where
  "save_recoverable en io torn gov todos park d s = save_with_retention en io torn gov todos True park d s"

subsection \<open>Saving refines replacing a durable snapshot\<close>

text \<open>
  The abstract state: what each run would resume from, its checkpoint and the content sidecar the
  checkpoint binds. \<open>session_bound\<close> is the coupling: the checkpoint on disk, if any, binds the sidecar the
  session believes to be current.
\<close>

definition durable :: "save_env \<Rightarrow> disk \<Rightarrow> string \<Rightarrow> (checkpoint \<times> content_checkpoint option) option" where
  "durable en d run =
     (case checkpoint_load (sv_codec en) (sv_checkpoint en) (sv_root en) d run of
        Inl _ \<Rightarrow> None
      | Inr cp \<Rightarrow>
          (case cp_content cp of
             None \<Rightarrow> Some (cp, None)
           | Some b \<Rightarrow> map_option (\<lambda>sc. (cp, Some sc)) (ok_of (load_sidecar (sv_content en) (sv_root en) d run b))))"

definition session_bound :: "save_env \<Rightarrow> disk \<Rightarrow> run_session \<Rightarrow> bool" where
  "session_bound en d s \<longleftrightarrow>
     (case sn_content s of
        None \<Rightarrow> True
      | Some cx \<Rightarrow>
          (case checkpoint_load (sv_codec en) (sv_checkpoint en) (sv_root en) d (sn_run_id s) of
             Inl _ \<Rightarrow> True | Inr cp \<Rightarrow> cp_content cp = cx_binding cx))"

definition session_valid :: "content_env \<Rightarrow> run_session \<Rightarrow> bool" where
  "session_valid en s \<longleftrightarrow>
     (case sn_content s of None \<Rightarrow> True | Some cx \<Rightarrow> validate_messages en (cx_messages cx) (cx_capabilities cx) = Ok ())"

text \<open>The codecs read back what they wrote.\<close>

definition codecs_invert :: "save_env \<Rightarrow> bool" where
  "codecs_invert en \<longleftrightarrow>
     (\<forall>cp raw. cc_to_string (sv_checkpoint en) cp = Some raw \<longrightarrow> cc_from_slice (sv_checkpoint en) raw = Some cp) \<and>
     (\<forall>sc raw. ct_to_vec (sv_content en) sc = Some raw \<longrightarrow> ct_from_slice (sv_content en) raw = Some sc)"

definition next_snapshot :: "save_env \<Rightarrow> governance_checkpoint option \<Rightarrow> todo_item list \<Rightarrow> bool \<Rightarrow> parked_state option \<Rightarrow>
    run_session \<Rightarrow> run_session \<Rightarrow> checkpoint \<times> content_checkpoint option" where
  "next_snapshot en gov todos keep park s s' =
     (retained_checkpoint en gov todos keep park (case sn_content s' of None \<Rightarrow> None | Some cx \<Rightarrow> cx_binding cx) s,
      map_option (\<lambda>cx. (sidecar_of s cx)\<lparr>cc_generation := next_generation (cx_binding cx)\<rparr>) (sn_content s))"

lemma rev_path_part: "rev (''/'' @ a @ ''/'' @ f) = (rev f @ CHR ''/'' # rev a) @ ''/''"
  by simp

lemma path_parts_inject:
  assumes "root @ ''/'' @ a @ ''/'' @ f = root @ ''/'' @ b @ ''/'' @ g" "CHR ''/'' \<notin> set f" "CHR ''/'' \<notin> set g"
  shows "a = b \<and> f = g"
proof -
  from assms(1) have "rev (''/'' @ a @ ''/'' @ f) = rev (''/'' @ b @ ''/'' @ g)" by simp
  then have "rev f @ CHR ''/'' # rev a = rev g @ CHR ''/'' # rev b"
    unfolding rev_path_part by simp
  then have "rev f = rev g \<and> rev a = rev b" using sep_inject [of "CHR ''/''" "rev f" "rev g"] assms(2,3) by simp
  then show ?thesis by simp
qed

lemma slots_flat: "slot \<in> set [SIDECAR_SLOT_A, SIDECAR_SLOT_B] \<Longrightarrow> CHR ''/'' \<notin> set (slot @ ''.tmp'')"
  by (auto simp: SIDECAR_SLOT_A_def SIDECAR_SLOT_B_def)

lemma slots_not_checkpoint:
  "slot \<in> set [SIDECAR_SLOT_A, SIDECAR_SLOT_B] \<Longrightarrow> f \<in> set [slot, slot @ ''.tmp''] \<Longrightarrow>
   f \<noteq> ''checkpoint.json'' \<and> f \<noteq> ''checkpoint.json.tmp''"
  by (auto simp: SIDECAR_SLOT_A_def SIDECAR_SLOT_B_def)

text \<open>A sidecar save touches two files of its run only.\<close>

lemma save_sidecar_touches:
  assumes "save_sidecar en io torn root d sidecar current = (d', r)"
    and "k \<noteq> slot_path root (cc_run_id sidecar) (next_slot current)"
    and "k \<noteq> slot_path root (cc_run_id sidecar) (next_slot current @ ''.tmp'')"
  shows "d' k = d k"
  using assms by (auto simp: save_sidecar_def slot_path_def Let_def split: option.splits if_splits)

lemma save_sidecar_checkpoint:
  assumes "save_sidecar en io torn root d sidecar current = (d', r)"
  shows "checkpoint_load c cc root d' run = checkpoint_load c cc root d run"
proof -
  have "d' (checkpoint_path root run) = d (checkpoint_path root run)"
  proof (rule save_sidecar_touches [OF assms])
    have slash: "CHR ''/'' \<notin> set ''checkpoint.json''" by simp
    show "checkpoint_path root run \<noteq> slot_path root (cc_run_id sidecar) (next_slot current)"
      and "checkpoint_path root run \<noteq> slot_path root (cc_run_id sidecar) (next_slot current @ ''.tmp'')"
      using path_parts_inject [of root run "''checkpoint.json''" "cc_run_id sidecar" "next_slot current"]
        path_parts_inject [of root run "''checkpoint.json''" "cc_run_id sidecar" "next_slot current @ ''.tmp''"]
        slots_flat [OF next_slot_known [of current]] slots_not_checkpoint [OF next_slot_known [of current]] slash
      by (auto simp: checkpoint_path_def slot_path_def)
  qed
  then have "load_with_digest c cc root d' run = load_with_digest c cc root d run" by (intro load_with_digest_cong)
  then show ?thesis by (simp add: checkpoint_load_def)
qed

text \<open>It leaves the sidecar of every other run, and the bound one of its own.\<close>

lemma save_sidecar_others:
  assumes "save_sidecar en io torn root d sidecar current = (d', r)"
    and "run \<noteq> cc_run_id sidecar \<or> current = Some b"
  shows "load_sidecar en' root d' run b = load_sidecar en' root d run b"
proof (cases "cb_slot b \<in> set [SIDECAR_SLOT_A, SIDECAR_SLOT_B]")
  case slot: True
  have "d' (slot_path root run (cb_slot b)) = d (slot_path root run (cb_slot b))"
  proof (cases "run = cc_run_id sidecar")
    case True
    with assms show ?thesis using save_sidecar_frame [OF _ slot] by blast
  next
    case False
    show ?thesis
      using False path_parts_inject [of root run "cb_slot b" "cc_run_id sidecar" "next_slot current"]
        path_parts_inject [of root run "cb_slot b" "cc_run_id sidecar" "next_slot current @ ''.tmp''"]
        slots_flat [OF slot] slots_flat [OF next_slot_known [of current]]
      by (intro save_sidecar_touches [OF assms(1)]) (auto simp: slot_path_def)
  qed
  then show ?thesis by (simp only: load_sidecar_def)
qed (auto simp: load_sidecar_def)

text \<open>A checkpoint save touches no sidecar.\<close>

lemma checkpoint_save_touches:
  assumes "checkpoint_save cc io root d cp = (d', r)"
    and "k \<noteq> checkpoint_path root (cp_run_id cp)" "k \<noteq> checkpoint_tmp_path root (cp_run_id cp)"
  shows "d' k = d k"
  using assms by (auto simp: checkpoint_save_def Let_def split: option.splits if_splits)

lemma checkpoint_save_sidecar:
  assumes "checkpoint_save cc io root d cp = (d', r)"
  shows "load_sidecar en root d' run b = load_sidecar en root d run b"
proof (cases "cb_slot b \<in> set [SIDECAR_SLOT_A, SIDECAR_SLOT_B]")
  case slot: True
  have slash: "CHR ''/'' \<notin> set ''checkpoint.json''" "CHR ''/'' \<notin> set ''checkpoint.json.tmp''" by simp_all
  have "d' (slot_path root run (cb_slot b)) = d (slot_path root run (cb_slot b))"
    using path_parts_inject [of root run "cb_slot b" "cp_run_id cp" "''checkpoint.json''"]
      path_parts_inject [of root run "cb_slot b" "cp_run_id cp" "''checkpoint.json.tmp''"]
      slots_flat [OF slot] slots_not_checkpoint [OF slot] slash
    by (intro checkpoint_save_touches [OF assms]) (auto simp: slot_path_def checkpoint_path_def checkpoint_tmp_path_def)
  then show ?thesis by (simp only: load_sidecar_def)
qed (auto simp: load_sidecar_def)

lemma save_sidecar_loads:
  assumes "save_sidecar en io torn root d sidecar current = (d', Ok b)" and "is_safe_run_id (cc_run_id sidecar)"
    and "cc_schema_version sidecar = CONTENT_SCHEMA_VERSION"
    and "validate_messages en (cc_messages sidecar) (cc_capabilities sidecar) = Ok ()"
    and "\<And>raw sc. ct_to_vec en sc = Some raw \<Longrightarrow> ct_from_slice en raw = Some sc"
  shows "load_sidecar en root d' (cc_run_id sidecar) b = Ok (sidecar\<lparr>cc_generation := next_generation current\<rparr>)"
proof -
  from save_sidecar_Ok [OF assms(1)] obtain raw where
    raw: "ct_to_vec en (sidecar\<lparr>cc_generation := next_generation current\<rparr>) = Some raw"
      "d' (slot_path root (cc_run_id sidecar) (next_slot current)) = Some raw"
    and b: "b = \<lparr>cb_schema_version = CONTENT_SCHEMA_VERSION, cb_generation = next_generation current,
           cb_slot = next_slot current, cb_sha256_digest = content_digest en raw, cb_resolver_id = cc_resolver_id sidecar\<rparr>"
    by blast
  show ?thesis
    using raw(2) assms(2-4) assms(5) [OF raw(1)] next_slot_known [of current] by (simp add: b load_sidecar_def)
qed

text \<open>What a checkpoint save does to the loads of checkpoints.\<close>

lemma save_checkpoint_loads:
  assumes "codecs_invert en" and "save_checkpoint_of en io gov todos keep park binding d s = (d', r)"
  shows "checkpoint_load (sv_codec en) (sv_checkpoint en) (sv_root en) d' run =
    (if is_ok r \<and> run = sn_run_id s then Ok (retained_checkpoint en gov todos keep park binding s)
     else checkpoint_load (sv_codec en) (sv_checkpoint en) (sv_root en) d run)"
proof -
  define cp where "cp = retained_checkpoint en gov todos keep park binding s"
  have cp: "cp_version cp = CHECKPOINT_VERSION" "cp_run_id cp = sn_run_id s"
    by (simp_all add: cp_def retained_checkpoint_def)
  have "checkpoint_save (sv_checkpoint en) (\<lambda>i. io (i + 4)) (sv_root en) d cp = (d', r)"
    using assms(2) by (simp add: save_checkpoint_of_def cp_def)
  note loads = checkpoint_save_loads [OF _ cp(1) this, of "sv_codec en" run]
  have "cc_to_string (sv_checkpoint en) cp = Some raw \<Longrightarrow> cc_from_slice (sv_checkpoint en) raw = Some cp" for raw
    using assms(1) by (simp add: codecs_invert_def)
  from loads [OF this] show ?thesis
    by (cases r) (simp_all add: checkpoint_load_def cp_def [symmetric] cp(2))
qed

lemma save_checkpoint_sidecar:
  "save_checkpoint_of en io gov todos keep park binding d s = (d', r) \<Longrightarrow>
   load_sidecar en' (sv_root en) d' run b = load_sidecar en' (sv_root en) d run b"
  unfolding save_checkpoint_of_def by (rule checkpoint_save_sidecar)

lemma save_checkpoint_safe:
  "save_checkpoint_of en io gov todos keep park binding d s = (d', Inr p) \<Longrightarrow> is_safe_run_id (sn_run_id s)"
  by (auto simp: save_checkpoint_of_def retained_checkpoint_def checkpoint_save_def split: if_splits)

lemma durable_cong:
  assumes "checkpoint_load (sv_codec en) (sv_checkpoint en) (sv_root en) d' run =
      checkpoint_load (sv_codec en) (sv_checkpoint en) (sv_root en) d run"
    and "\<And>b. load_sidecar (sv_content en) (sv_root en) d' run b = load_sidecar (sv_content en) (sv_root en) d run b"
  shows "durable en d' run = durable en d run"
  unfolding durable_def assms ..

text \<open>A failed checkpoint save changes no snapshot.\<close>

lemma durable_checkpoint_failed:
  assumes "codecs_invert en" and "save_checkpoint_of en io gov todos keep park binding d s = (d', Inl e)"
  shows "durable en d' = durable en d"
proof
  fix run
  show "durable en d' run = durable en d run"
    by (rule durable_cong) (simp_all add: save_checkpoint_loads [OF assms] save_checkpoint_sidecar [OF assms(2)])
qed

text \<open>A sidecar save changes none either, while the session is bound.\<close>

lemma durable_sidecar:
  assumes "sn_content s = Some cx" and "session_bound en d s"
    and "save_sidecar en' io torn (sv_root en) d (sidecar_of s cx) (cx_binding cx) = (d', r)"
  shows "durable en d' = durable en d"
proof
  fix run
  have same: "load_sidecar (sv_content en) (sv_root en) d' run b = load_sidecar (sv_content en) (sv_root en) d run b"
    if "checkpoint_load (sv_codec en) (sv_checkpoint en) (sv_root en) d run = Ok cp" "cp_content cp = Some b" for cp b
  proof (rule save_sidecar_others [OF assms(3)])
    show "run \<noteq> cc_run_id (sidecar_of s cx) \<or> cx_binding cx = Some b"
    proof (cases "run = sn_run_id s")
      case True
      with that(1) assms(1,2) have "cp_content cp = cx_binding cx" by (simp add: session_bound_def)
      with that(2) show ?thesis by simp
    qed (simp add: sidecar_of_def)
  qed
  show "durable en d' run = durable en d run"
  proof (cases "checkpoint_load (sv_codec en) (sv_checkpoint en) (sv_root en) d run")
    case (Inr cp)
    then show ?thesis
      using same [OF Inr] by (cases "cp_content cp") (simp_all add: durable_def save_sidecar_checkpoint [OF assms(3)])
  qed (simp add: durable_def save_sidecar_checkpoint [OF assms(3)])
qed

text \<open>A successful checkpoint save replaces the snapshot of its run.\<close>

lemma durable_checkpoint_saved:
  assumes "codecs_invert en" and "save_checkpoint_of en io gov todos keep park binding d s = (d', Inr p)"
    and "(case binding of None \<Rightarrow> side = None
          | Some b \<Rightarrow> \<exists>sc. load_sidecar (sv_content en) (sv_root en) d (sn_run_id s) b = Ok sc \<and> side = Some sc)"
  shows "durable en d' = (durable en d)(sn_run_id s \<mapsto> (retained_checkpoint en gov todos keep park binding s, side))"
proof
  fix run
  have bound: "cp_content (retained_checkpoint en gov todos keep park x s) = x" for x
    by (simp add: retained_checkpoint_def)
  show "durable en d' run = ((durable en d)(sn_run_id s \<mapsto> (retained_checkpoint en gov todos keep park binding s, side))) run"
  proof (cases "run = sn_run_id s")
    case True
    then show ?thesis
      using assms(3) save_checkpoint_loads [OF assms(1,2), of run]
      by (cases binding) (auto simp: durable_def bound ok_of_def save_checkpoint_sidecar [OF assms(2)])
  next
    case False
    have "durable en d' run = durable en d run"
      by (rule durable_cong)
        (simp_all add: save_checkpoint_loads [OF assms(1,2)] save_checkpoint_sidecar [OF assms(2)] False)
    with False show ?thesis by simp
  qed
qed


text \<open>Codecs that encode one checkpoint and one sidecar.\<close>

definition demo_save_env :: "checkpoint \<Rightarrow> content_checkpoint \<Rightarrow> save_env" where
  "demo_save_env cp sc = \<lparr>sv_content = demo_content_env\<lparr>ct_to_vec := (\<lambda>c. if c = sc then Some ''1'' else None),
       ct_from_slice := (\<lambda>_. Some sc)\<rparr>,
     sv_codec = demo_codec,
     sv_checkpoint = \<lparr>cc_to_string = (\<lambda>c. if c = cp then Some ''x'' else None), cc_from_slice = (\<lambda>_. Some cp)\<rparr>,
     sv_asset = \<lparr>pa_id = ''p'', pa_body = ''b''\<rparr>, sv_prompt = ''b'', sv_root = ''s''\<rparr>"

definition demo_first_binding :: "content_session \<Rightarrow> content_binding" where
  "demo_first_binding cx = \<lparr>cb_schema_version = CONTENT_SCHEMA_VERSION, cb_generation = 1, cb_slot = SIDECAR_SLOT_A,
      cb_sha256_digest = content_digest demo_content_env ''1'', cb_resolver_id = cx_resolver_id cx\<rparr>"

definition demo_retained :: "run_session \<Rightarrow> content_session \<Rightarrow> checkpoint" where
  "demo_retained s cx = retained_checkpoint (demo_save_env demo_checkpoint (demo_sidecar 1)) None [] True None
     (Some (demo_first_binding cx)) s"

definition demo_save_of :: "run_session \<Rightarrow> content_session \<Rightarrow> save_env" where
  "demo_save_of s cx = demo_save_env (demo_retained s cx) ((sidecar_of s cx)\<lparr>cc_generation := 1\<rparr>)"

lemma demo_r_safe: "is_safe_run_id ''r''"
  by code_simp

text \<open>The first save of a session succeeds with the codecs made for it.\<close>

lemma demo_save_succeeds:
  assumes "sn_content s = Some cx" "cx_binding cx = None" "sn_run_id s = ''r''"
  shows "codecs_invert (demo_save_of s cx) \<and>
    (\<exists>d'. save_with_retention (demo_save_of s cx) (\<lambda>_. True) None None [] True None Map.empty s =
      (d', bind_content (demo_first_binding cx) s, Ok ()))"
proof
  let ?en = "demo_save_of s cx" and ?b = "demo_first_binding cx"
  show "codecs_invert ?en" by (simp add: codecs_invert_def demo_save_of_def demo_save_env_def)
  have kept: "retained_checkpoint ?en None [] True None (Some ?b) s = demo_retained s cx"
    by (simp add: demo_retained_def retained_checkpoint_def demo_save_of_def demo_save_env_def)
  have id: "cp_run_id (demo_retained s cx) = ''r''" by (simp add: demo_retained_def retained_checkpoint_def assms(3))
  have digest: "content_digest (sv_content ?en) bs = content_digest demo_content_env bs" for bs
    by (simp add: content_digest_def demo_save_of_def demo_save_env_def)
  have gen: "next_generation None = 1" "next_slot None = SIDECAR_SLOT_A" by (simp_all add: next_generation_def next_slot_def)
  have "\<exists>d1. save_sidecar (sv_content ?en) (\<lambda>_. True) None (sv_root ?en) Map.empty (sidecar_of s cx) None = (d1, Ok ?b)"
    unfolding save_sidecar_def gen digest
    by (simp add: demo_save_of_def demo_save_env_def Let_def demo_first_binding_def sidecar_of_def)
  then obtain d1 where d1: "save_sidecar (sv_content ?en) (\<lambda>_. True) None (sv_root ?en) Map.empty (sidecar_of s cx) None = (d1, Ok ?b)"
    by blast
  have "\<exists>d2 p. save_checkpoint_of ?en (\<lambda>_. True) None [] True None (Some ?b) d1 s = (d2, Inr p)"
    unfolding save_checkpoint_of_def kept
    by (simp add: checkpoint_save_def id demo_r_safe demo_save_of_def demo_save_env_def Let_def)
  then obtain d2 p where "save_checkpoint_of ?en (\<lambda>_. True) None [] True None (Some ?b) d1 s = (d2, Inr p)" by blast
  with d1 show "\<exists>d'. save_with_retention ?en (\<lambda>_. True) None None [] True None Map.empty s = (d', bind_content ?b s, Ok ())"
    by (simp add: save_with_retention_def assms(1,2))
qed

definition demo_content :: content_session where
  "demo_content = \<lparr>cx_resolver_id = ''cli'', cx_capabilities = bounded_for demo_messages, cx_messages = demo_messages,
      cx_initial_message_count = 1, cx_binding = None, cx_terminal = None, cx_usage = usage_zero\<rparr>"

definition demo_session :: "content_session \<Rightarrow> run_session" where
  "demo_session cx = (run_session_new ''r'' ''t'' ''/w'' ''directory'' True [] 0)\<lparr>sn_content := Some cx\<rparr>"

lemma demo_session_fields:
  "sn_content (demo_session cx) = Some cx" "sn_run_id (demo_session cx) = ''r''" "sn_keep_workspace (demo_session cx)"
  "sn_turns (demo_session cx) = 0"
  by (simp_all add: demo_session_def run_session_new_def)


subsection \<open>What the appends guarantee\<close>

lemma store_part_Ok:
  assumes "store_part en n h part_id content source source_id = (h1, Inr d)"
  shows "pd_part_id d = part_id \<and> pd_kind d = CK_Text \<and> pd_disclosure_state d = DI_Accepted"
  using assms
  by (auto simp: store_part_def store_text_def Let_def and_then_eq_Ok map_err_Ok invalid_def split: if_splits prod.splits sum.splits)

text \<open>The call as it is kept: the identity the conversation uses, and the pointer to the stored arguments.\<close>

definition externalised :: "content_env \<Rightarrow> nat \<Rightarrow> nat \<Rightarrow> part_descriptor \<Rightarrow> tool_call \<Rightarrow> tool_call" where
  "externalised en turns index d call =
     call\<lparr>tc_id := conversation_tool_call_id call turns index, tc_args_json := ct_pointer en (pd_part_id d)\<rparr>"

lemma store_arguments_Ok:
  assumes "store_arguments en turns index used h calls = (h', Inr (ds, cs))"
  shows "length ds = length calls \<and>
    cs = map (\<lambda>(i, d, call). externalised (se_content en) turns i d call) (enumerate index (zip ds calls)) \<and>
    (\<forall>d\<in>set ds. pd_kind d = CK_Text \<and> pd_disclosure_state d = DI_Accepted)"
  using assms
proof (induction calls arbitrary: index used h ds cs)
  case (Cons call calls)
  define part_id where "part_id = reserve_part_id used
            (''shikigami-model-'' @ dec_string turns @ ''-tool-'' @ dec_string index @ ''-arguments'')"
  obtain h1 r where st: "store_part en (Suc index) h part_id (tc_args_json call) ''model-tool-arguments''
      (''turn-'' @ dec_string turns @ ''-call-'' @ dec_string index) = (h1, r)" by fastforce
  with Cons.prems obtain d where r: "r = Inr d" by (cases r) (simp_all add: part_id_def)
  obtain h2 q where rest: "store_arguments en turns (Suc index) (part_id # used) h1 calls = (h2, q)" by fastforce
  with Cons.prems st r obtain ds1 cs1 where q: "q = Inr (ds1, cs1)" by (cases q) (auto simp: part_id_def)
  from Cons.prems st r rest q have ds: "ds = d # ds1"
    and cs: "cs = call\<lparr>tc_id := (if tc_id call = [] then ''tool-'' @ dec_string turns @ ''-'' @ dec_string index else tc_id call),
                tc_args_json := ct_pointer (se_content en) part_id\<rparr> # cs1"
    by (simp_all add: part_id_def Let_def)
  from Cons.prems st r rest q have "h2 = h'" by (simp add: part_id_def Let_def)
  with store_part_Ok [OF st [unfolded r]] Cons.IH [OF rest [unfolded q \<open>h2 = h'\<close>]]
  show ?case by (simp add: ds cs externalised_def conversation_tool_call_id_def synthesized_call_id_def)
qed simp

lemma push_content_Ok:
  "push_content en m cx = (cx1, Ok ()) \<longleftrightarrow> cx1 = cx\<lparr>cx_messages := cx_messages cx @ [m]\<rparr> \<and>
     validate_messages (se_content en) (cx_messages cx @ [m]) (cx_capabilities cx) = Ok ()"
  by (auto simp: push_content_def Let_def)

lemma push_content_Err:
  "push_content en m cx = (cx1, Err e) \<Longrightarrow> cx1 = cx\<lparr>cx_messages := cx_messages cx @ [m]\<rparr> \<and>
     validate_messages (se_content en) (cx_messages cx1) (cx_capabilities cx1) \<noteq> Ok ()"
  by (auto simp: push_content_def Let_def map_err_def split: sum.splits)

lemma append_model_turn_Ok:
  assumes "append_model_turn en turns t h cx = (h', cx1, Ok ())"
  shows "\<exists>m ds. cx1 = cx\<lparr>cx_messages := cx_messages cx1\<rparr> \<and> cx_messages cx1 = cx_messages cx @ [m] \<and>
     validate_messages (se_content en) (cx_messages cx @ [m]) (cx_capabilities cx) = Ok () \<and>
     cm_role m = ''assistant'' \<and> (\<forall>d\<in>set ds. pd_kind d = CK_Text \<and> pd_disclosure_state d = DI_Accepted) \<and> length ds = length (ctm_tool_calls t) \<and> set ds \<subseteq> set (cm_parts m) \<and>
     set (ctm_output_parts t) \<subseteq> set (cm_parts m) \<and>
     cm_tool_calls m = map (\<lambda>(i, d, call). externalised (se_content en) turns i d call) (enumerate 0 (zip ds (ctm_tool_calls t)))"
proof -
  obtain used where pre: "check_model_turn en h cx t = Inr used"
    using assms by (cases "check_model_turn en h cx t") (simp_all add: append_model_turn_def)
  obtain h1 q where st: "store_model_text en turns used h (ctm_text t) = (h1, q)" by fastforce
  with pre assms obtain text_parts used1 where q: "q = Inr (text_parts, used1)"
    by (cases q) (auto simp: append_model_turn_def)
  obtain h2 q2 where sa: "store_arguments en turns 0 used1 h1 (ctm_tool_calls t) = (h2, q2)" by fastforce
  with pre st q assms obtain ds cs where q2: "q2 = Inr (ds, cs)" by (cases q2) (auto simp: append_model_turn_def)
  let ?m = "\<lparr>cm_role = ''assistant'', cm_parts = text_parts @ ctm_output_parts t @ ds, cm_tool_call_id = [], cm_tool_calls = cs\<rparr>"
  have "push_content en ?m cx = (cx1, Ok ())"
    using assms pre st q sa q2 by (auto simp: append_model_turn_def Let_def split: if_splits)
  then have cx1: "cx1 = cx\<lparr>cx_messages := cx_messages cx @ [?m]\<rparr>"
    and valid: "validate_messages (se_content en) (cx_messages cx @ [?m]) (cx_capabilities cx) = Ok ()"
    unfolding push_content_Ok by blast+
  show ?thesis
    by (rule exI [of _ ?m], rule exI [of _ ds]) (use cx1 valid store_arguments_Ok [OF sa [unfolded q2]] in auto)
qed

text \<open>What a successful append adds to a session: one message, valid together with all earlier ones.\<close>

definition extends_content :: "content_env \<Rightarrow> run_session \<Rightarrow> content_message \<Rightarrow> run_session \<Rightarrow> bool" where
  "extends_content en s m s' \<longleftrightarrow>
     (\<exists>cx. sn_content s = Some cx \<and> s' = s\<lparr>sn_content := Some (cx\<lparr>cx_messages := cx_messages cx @ [m]\<rparr>)\<rparr> \<and>
        validate_messages en (cx_messages cx @ [m]) (cx_capabilities cx) = Ok ())"

lemma on_content_Ok:
  assumes "on_content f h s = (h', s', Ok ())"
  shows "\<exists>cx cx1. sn_content s = Some cx \<and> f h cx = (h', cx1, Ok ()) \<and> s' = s\<lparr>sn_content := Some cx1\<rparr>"
  using assms by (auto simp: on_content_def split: option.splits prod.splits)

text \<open>
  \<^bold>\<open>C32\<close> Tool arguments leave the conversation. When the result of a content turn is appended, the content
  session grows by exactly one assistant message, valid together with all earlier messages, so the bounds and distinct
  identities of the contract hold again. Its calls are the model's calls in order, each under its own name and under the
  identity the conversation uses for it after a restart, and with its arguments replaced by a pointer to a text part
  of this message; every part the model returned is a part of the message.
\<close>

theorem content_turn_externalised:
  assumes "append_content_model_turn en t h s = (h', s', Ok ())"
  shows "\<exists>m ds. extends_content (se_content en) s m s' \<and> cm_role m = ''assistant'' \<and>
     length ds = length (ctm_tool_calls t) \<and> set ds \<subseteq> set (cm_parts m) \<and> set (ctm_output_parts t) \<subseteq> set (cm_parts m) \<and>
     list_all (\<lambda>d. pd_kind d = CK_Text \<and> pd_disclosure_state d = DI_Accepted) ds \<and>
     cm_tool_calls m = map (\<lambda>(i, d, call). externalised (se_content en) (sn_turns s) i d call)
       (enumerate 0 (zip ds (ctm_tool_calls t))) \<and>
     calls_bound (se_content en) m"
proof -
  obtain cx cx1 where cx: "sn_content s = Some cx" "append_model_turn en (sn_turns s) t h cx = (h', cx1, Ok ())"
      "s' = s\<lparr>sn_content := Some cx1\<rparr>"
    using on_content_Ok [OF assms [unfolded append_content_model_turn_def]] by blast
  from append_model_turn_Ok [OF cx(2)] obtain m ds where m: "cx1 = cx\<lparr>cx_messages := cx_messages cx1\<rparr>"
     "cx_messages cx1 = cx_messages cx @ [m]"
     "validate_messages (se_content en) (cx_messages cx @ [m]) (cx_capabilities cx) = Ok ()"
     "cm_role m = ''assistant''" "length ds = length (ctm_tool_calls t)" "set ds \<subseteq> set (cm_parts m)"
     "set (ctm_output_parts t) \<subseteq> set (cm_parts m)" "\<forall>d\<in>set ds. pd_kind d = CK_Text \<and> pd_disclosure_state d = DI_Accepted"
     "cm_tool_calls m = map (\<lambda>(i, d, call). externalised (se_content en) (sn_turns s) i d call) (enumerate 0 (zip ds (ctm_tool_calls t)))"
    by blast
  have "extends_content (se_content en) s m s'"
    unfolding extends_content_def using cx m(1-3) by metis
  moreover have "calls_bound (se_content en) m" using validate_calls_bound [OF m(3)] by simp
  ultimately show ?thesis using m(4-9) by (auto simp: list_all_iff)
qed

text \<open>An append that fails after it changed the messages leaves them invalid.\<close>

lemma append_model_turn_Err:
  assumes "append_model_turn en turns t h cx = (h', cx1, Err e)"
  shows "cx1 = cx \<or> validate_messages (se_content en) (cx_messages cx1) (cx_capabilities cx1) \<noteq> Ok ()"
proof (cases "check_model_turn en h cx t")
  case (Inr used)
  obtain h1 q where st: "store_model_text en turns used h (ctm_text t) = (h1, q)" by fastforce
  show ?thesis
  proof (cases q)
    case (Inr tu)
    obtain text_parts used1 where tu: "tu = (text_parts, used1)" by fastforce
    obtain h2 q2 where sa: "store_arguments en turns 0 used1 h1 (ctm_tool_calls t) = (h2, q2)" by fastforce
    show ?thesis
    proof (cases q2)
      case (Inr dc)
      with assms \<open>check_model_turn en h cx t = Inr used\<close> st \<open>q = Inr tu\<close> tu sa show ?thesis
        by (cases dc) (auto simp: append_model_turn_def Let_def dest: push_content_Err split: if_splits)
    qed (use assms \<open>check_model_turn en h cx t = Inr used\<close> st \<open>q = Inr tu\<close> tu sa in \<open>simp add: append_model_turn_def\<close>)
  qed (use assms Inr st in \<open>simp add: append_model_turn_def\<close>)
qed (use assms in \<open>simp add: append_model_turn_def\<close>)

lemma append_stored_text_Err:
  assumes "append_stored_text en role base source source_id call_id content h cx = (h', cx1, Err e)"
  shows "cx1 = cx \<or> validate_messages (se_content en) (cx_messages cx1) (cx_capabilities cx1) \<noteq> Ok ()"
  using assms by (auto simp: append_stored_text_def Let_def dest: push_content_Err split: prod.splits sum.splits)

lemma on_content_Err:
  assumes "on_content f h s = (h', s1, Err e)" and "sn_content s1 \<noteq> sn_content s"
    and "\<And>h cx h' cx1 e. f h cx = (h', cx1, Err e) \<Longrightarrow> cx1 = cx \<or> validate_messages en (cx_messages cx1) (cx_capabilities cx1) \<noteq> Ok ()"
  shows "\<not> session_valid en s1 \<and> sn_run_id s1 = sn_run_id s"
  using assms(1,2) by (auto simp: on_content_def session_valid_def dest: assms(3) split: option.splits prod.splits)

text \<open>What a save of an invalid session leaves on disk cannot be loaded.\<close>

lemma save_sidecar_unloadable:
  assumes "save_sidecar en io torn root d sidecar current = (d', Ok b)"
    and "validate_messages en (cc_messages sidecar) (cc_capabilities sidecar) \<noteq> Ok ()"
    and "\<And>raw sc. ct_to_vec en sc = Some raw \<Longrightarrow> ct_from_slice en raw = Some sc"
  shows "\<not> is_ok (load_sidecar en root d' (cc_run_id sidecar) b)"
proof -
  from save_sidecar_Ok [OF assms(1)] obtain raw where
    raw: "ct_to_vec en (sidecar\<lparr>cc_generation := next_generation current\<rparr>) = Some raw"
      "d' (slot_path root (cc_run_id sidecar) (next_slot current)) = Some raw"
    and b: "b = \<lparr>cb_schema_version = CONTENT_SCHEMA_VERSION, cb_generation = next_generation current,
           cb_slot = next_slot current, cb_sha256_digest = content_digest en raw, cb_resolver_id = cc_resolver_id sidecar\<rparr>"
    by blast
  obtain e where "validate_messages en (cc_messages sidecar) (cc_capabilities sidecar) = Inl e"
    using assms(2) by (cases "validate_messages en (cc_messages sidecar) (cc_capabilities sidecar)") auto
  then show ?thesis
    using raw(2) assms(3) [OF raw(1)] by (simp add: b load_sidecar_def invalid_def)
qed

lemma save_invalid_unresumable:
  assumes "codecs_invert en" and "\<not> session_valid (sv_content en) s"
    and "save_with_retention en io torn gov todos keep park d s = (d', s', Ok ())"
  shows "durable en d' (sn_run_id s) = None"
proof -
  from assms(2) obtain cx where cx: "sn_content s = Some cx"
    and bad: "validate_messages (sv_content en) (cx_messages cx) (cx_capabilities cx) \<noteq> Ok ()"
    by (auto simp: session_valid_def split: option.splits)
  from assms(3) cx obtain d1 b p where
    side: "save_sidecar (sv_content en) io torn (sv_root en) d (sidecar_of s cx) (cx_binding cx) = (d1, Ok b)"
    and cp: "save_checkpoint_of en io gov todos keep park (Some b) d1 s = (d', Inr p)"
    by (auto simp: save_with_retention_def split: prod.splits sum.splits)
  have "\<not> is_ok (load_sidecar (sv_content en) (sv_root en) d1 (sn_run_id s) b)"
    using save_sidecar_unloadable [OF side] bad assms(1) by (simp add: sidecar_of_def codecs_invert_def)
  then have "ok_of (load_sidecar (sv_content en) (sv_root en) d' (sn_run_id s) b) = None"
    using save_checkpoint_sidecar [OF cp] by (cases "load_sidecar (sv_content en) (sv_root en) d1 (sn_run_id s) b") (simp_all add: ok_of_def)
  then show ?thesis
    using save_checkpoint_loads [OF assms(1) cp, of "sn_run_id s"] by (simp add: durable_def retained_checkpoint_def)
qed


subsection \<open>Instances of the appends\<close>

lemma visible_required_text:
  "v \<noteq> [] \<Longrightarrow> list_all visible v \<Longrightarrow> length v \<le> n \<Longrightarrow> required_text v n f = Ok ()"
  by (cases v rule: rev_cases) (auto simp: required_text_def trim_visible visible_def hd_append list_ex_iff list_all_iff)

definition demo_store :: "content_to_store \<Rightarrow> part_descriptor" where
  "demo_store c = (demo_part (cs_part_id c))\<lparr>pd_provenance := cs_provenance c\<rparr>"

definition demo_session_env :: "content_env \<Rightarrow> unit session_env" where
  "demo_session_env en = \<lparr>se_content = en, se_from_str = (\<lambda>_. None),
     se_resolver = \<lparr>cv_id = ''cli'', cv_resolve = (\<lambda>_ _. Ok (RC_Text ''hi'')), cv_store = (\<lambda>h c. (h, Ok (demo_store c)))\<rparr>,
     se_clock = (\<lambda>_. 5)\<rparr>"

lemma demo_store_part:
  assumes "list_all visible part_id" "part_id \<noteq> []" "length part_id \<le> 128"
    "list_all visible source" "source \<noteq> []" "length source \<le> 256"
    "list_all visible source_id" "source_id \<noteq> []" "length source_id \<le> 256" "length content = 2"
    "ct_sha en = ct_sha demo_content_env"
  shows "store_part (demo_session_env en) n () part_id content source source_id =
    ((), Ok ((demo_part part_id)\<lparr>pd_provenance := \<lparr>pv_source = source, pv_source_id = source_id, pv_source_version = ''v1'', pv_observed_at_ms = 5\<rparr>\<rparr>))"
    (is "_ = ((), Ok ?d)")
proof -
  have "validate_descriptor ?d = Ok ()"
    using assms by (simp add: demo_part_def validate_descriptor_def max_bytes visible_required_text demo_texts demo_digest demo_reference demo_media)
  moreover have "validate_resolved en ?d (RC_Text ''hi'') = Ok ()"
    using assms(11) by (simp add: validate_resolved_Ok demo_part_def content_digest_def)
  ultimately show ?thesis
    using assms(10)
    by (simp add: store_part_def store_text_def demo_session_env_def demo_store_def max_bytes map_err_def) (simp add: demo_part_def)
qed

definition demo_full :: content_session where
  "demo_full = demo_content\<lparr>cx_capabilities := (bounded_for demo_messages)\<lparr>ca_max_parts := 2\<rparr>\<rparr>"

lemma validate_part_count:
  assumes "validate_messages en messages c = Ok ()"
  shows "length (all_parts messages) \<le> ca_max_parts c"
proof -
  from assms obtain k where "fold_result (check_message en c) message_check_new messages = Ok k"
    by (auto simp: validate_messages_def and_then_eq_Ok invalid_def split: if_splits)
  moreover have "check_inv c [] message_check_new" by (simp add: check_inv_def message_check_new_def)
  ultimately have "check_inv c (all_parts messages) k" using check_messages_inv by fastforce
  then show ?thesis by (simp add: check_inv_def)
qed

lemma demo_ids: "map pd_part_id (parts_of (demo_content\<lparr>cx_capabilities := c\<rparr>)) = [''p1'', ''p2'']"
  by (simp add: parts_of_def demo_content_def demo_messages_def demo_part_fields)

lemma reserve_part_id_free: "base \<notin> set used \<Longrightarrow> reserve_part_id used base = base"
  by (simp add: reserve_part_id_def reserve_candidates_def)

lemma demo_overflow:
  "\<exists>s1 cx. (\<forall>en. ct_sha en = ct_sha demo_content_env \<longrightarrow>
       (\<exists>e. append_content_tool_text (demo_session_env en) ''c'' ''hi'' () (demo_session demo_full) = ((), s1, Err e))) \<and>
     sn_content s1 \<noteq> sn_content (demo_session demo_full) \<and> sn_run_id s1 = ''r'' \<and>
     sn_content s1 = Some cx \<and> cx_binding cx = None"
proof -
  have id: "dec_string (0::nat) = ''0''" "dec_string (Suc 0) = ''1''" by code_simp+
  have len: "length (cx_messages demo_full) = Suc 0" by (simp add: demo_full_def demo_content_def demo_messages_def)
  have reserve: "reserve_part_id (map pd_part_id (parts_of demo_full)) ''shikigami-tool-0-1'' = ''shikigami-tool-0-1''"
    unfolding demo_full_def demo_ids by (rule reserve_part_id_free) simp
  have vis: "list_all visible ''shikigami-tool-0-1''" "list_all visible ''tool''" "list_all visible ''c''" by code_simp+
  note st = demo_store_part [OF vis(1) _ _ vis(2) _ _ vis(3), of "''hi''" _ 0, simplified]
  let ?d = "(demo_part ''shikigami-tool-0-1'')\<lparr>pd_provenance := \<lparr>pv_source = ''tool'', pv_source_id = ''c'', pv_source_version = ''v1'', pv_observed_at_ms = 5\<rparr>\<rparr>"
  let ?m = "\<lparr>cm_role = ''tool'', cm_parts = [?d], cm_tool_call_id = ''c'', cm_tool_calls = []\<rparr>"
  have "length (all_parts (cx_messages demo_full @ [?m])) = 3"
    by (simp add: all_parts_def demo_full_def demo_content_def demo_messages_def)
  then have bad: "validate_messages en (cx_messages demo_full @ [?m]) (cx_capabilities demo_full) \<noteq> Ok ()" for en
    using validate_part_count [of en "cx_messages demo_full @ [?m]" "cx_capabilities demo_full"]
    by (auto simp: demo_full_def)
  have e: "\<exists>e. validate_messages en (cx_messages demo_full @ [?m]) (cx_capabilities demo_full) = Inl e" for en
    using bad [of en] by (cases "validate_messages en (cx_messages demo_full @ [?m]) (cx_capabilities demo_full)") auto
  let ?s1 = "(demo_session demo_full)\<lparr>sn_content := Some (demo_full\<lparr>cx_messages := cx_messages demo_full @ [?m]\<rparr>)\<rparr>"
  have "\<exists>e. append_content_tool_text (demo_session_env en) ''c'' ''hi'' () (demo_session demo_full) = ((), ?s1, Err e)"
    if en: "ct_sha en = ct_sha demo_content_env" for en
  proof -
    obtain e where e: "validate_messages en (cx_messages demo_full @ [?m]) (cx_capabilities demo_full) = Inl e" using e by blast
    have "se_content (demo_session_env en) = en" by (simp add: demo_session_env_def)
    with st [OF en] e show ?thesis
      by (simp add: append_content_tool_text_def on_content_def append_tool_text_def append_stored_text_def demo_session_fields
          len id reserve push_content_def map_err_def Let_def)
  qed
  moreover have "demo_full\<lparr>cx_messages := cx_messages demo_full @ [?m]\<rparr> \<noteq> demo_full"
    by (auto dest: arg_cong [where f = cx_messages])
  moreover have "cx_binding demo_full = None" by (simp add: demo_full_def demo_content_def)
  moreover have "sn_run_id ?s1 = ''r''" by (simp add: demo_session_def run_session_new_def)
  ultimately show ?thesis
    by (intro exI [of _ ?s1] exI [of _ "demo_full\<lparr>cx_messages := cx_messages demo_full @ [?m]\<rparr>"])
      (simp add: demo_session_fields)
qed


definition demo_turn :: content_model_turn where
  "demo_turn = \<lparr>ctm_text = [], ctm_output_parts = [], ctm_tool_calls = [\<lparr>tc_id = [], tc_name = ''read'', tc_args_json = ''{}''\<rparr>],
     ctm_usage = None\<rparr>"

lemma fold_result_append: "fold_result f k (xs @ ys) = and_then (fold_result f k xs) (\<lambda>k1. fold_result f k1 ys)"
  by (induction xs arbitrary: k) (simp_all add: and_then_def split: sum.splits)

lemma demo_turn_appends:
  "is_ok (snd (snd (append_content_model_turn (demo_session_env demo_content_env) demo_turn () (demo_session demo_content))))"
proof -
  define c where "c = bounded_for demo_messages"
  have caps: "ca_input_kinds c = [CK_Text]" "ca_media_types c = [''text/plain'']" "ca_max_part_bytes c = MAX_CONTENT_PART_BYTES"
    "ca_max_parts c = MAX_CONTENT_PARTS" "ca_max_aggregate_bytes c = MAX_CONTENT_AGGREGATE_BYTES"
    by (simp_all add: c_def demo_capabilities)
  have cx: "cx_capabilities demo_content = c" "cx_messages demo_content = demo_messages" by (simp_all add: demo_content_def c_def)
  have parts: "parts_of demo_content = [demo_part ''p1'', demo_part ''p2'']"
    by (simp add: parts_of_def demo_content_def demo_messages_def)
  have dec: "dec_string (0::nat) = ''0''" by code_simp
  have gen: "check_generated demo_content demo_turn = Ok ()"
    by (simp add: check_generated_def parts cx caps max_bytes MAX_CONTENT_PARTS_def demo_turn_def generated_lengths_def
        demo_part_fields checked_sum_def u64_checked_add_def u64_max_def)
  have check: "check_model_turn (demo_session_env demo_content_env) () demo_content demo_turn = Ok [''p1'', ''p2'']"
    unfolding check_model_turn_def gen
    by (simp add: parts demo_part_fields demo_session_env_def demo_turn_def tool_arguments_disclose_reference_def)
  let ?id = "''shikigami-model-0-tool-0-arguments''"
  let ?d = "(demo_part ?id)\<lparr>pd_provenance := \<lparr>pv_source = ''model-tool-arguments'', pv_source_id = ''turn-0-call-0'', pv_source_version = ''v1'', pv_observed_at_ms = 5\<rparr>\<rparr>"
  have vis: "list_all visible ?id" "list_all visible ''model-tool-arguments''" "list_all visible ''turn-0-call-0''" by code_simp+
  have st: "store_part (demo_session_env demo_content_env) (Suc 0) () ?id ''{}'' ''model-tool-arguments'' ''turn-0-call-0'' = ((), Ok ?d)"
    using demo_store_part [OF vis(1) _ _ vis(2) _ _ vis(3), of "''{}''" demo_content_env "Suc 0"] by simp
  have reserve: "reserve_part_id [''p1'', ''p2''] ?id = ?id" by (rule reserve_part_id_free) simp
  let ?call = "\<lparr>tc_id = ''tool-0-0'', tc_name = ''read'', tc_args_json = ?id\<rparr>"
  let ?m = "\<lparr>cm_role = ''assistant'', cm_parts = [?d], cm_tool_call_id = [], cm_tool_calls = [?call]\<rparr>"
  have ptr: "ct_pointer demo_content_env p = p" "ct_pointer_of demo_content_env p = Some p" for p
    by (simp_all add: demo_content_env_def)
  have args: "store_arguments (demo_session_env demo_content_env) 0 0 [''p1'', ''p2''] () (ctm_tool_calls demo_turn) = ((), Ok ([?d], [?call]))"
    using st reserve by (simp add: demo_turn_def dec Let_def) (simp add: demo_session_env_def ptr)
  have d: "validate_descriptor ?d = Ok ()"
    using vis by (simp add: demo_part_def validate_descriptor_def max_bytes visible_required_text demo_texts demo_digest demo_reference demo_media)
  have name: "list_all visible ''tool-0-0''" "list_all visible ''read''" by code_simp+
  have bound: "arguments_bound ?m ?id" by (simp add: arguments_bound_def demo_part_fields)
  define m where "m = ?m"
  have m: "cm_role m = ''assistant''" "cm_parts m = [?d]" "cm_tool_call_id m = []" "cm_tool_calls m = [?call]"
    by (simp_all add: m_def)
  let ?k = "\<lparr>mk_ids = [''p2'', ''p1''], mk_count = 2, mk_aggregate = 4, mk_accepted = 2, mk_call_ids = []\<rparr>"
  have first: "fold_result (check_message demo_content_env c) message_check_new demo_messages = Ok ?k"
    by (simp add: demo_messages_def check_message_def check_role_def demo_check_part [folded c_def] message_check_new_def)
  have part: "check_part c ?k ?d = Ok (?k\<lparr>mk_ids := ?id # mk_ids ?k, mk_count := 3, mk_aggregate := 6, mk_accepted := 3\<rparr>)"
    unfolding check_part_def d
    by (simp add: caps demo_part_fields max_bytes MAX_CONTENT_PARTS_def u64_checked_add_def u64_max_def)
  have call: "check_call demo_content_env m k ?call = Ok (k\<lparr>mk_call_ids := ''tool-0-0'' # mk_call_ids k\<rparr>)" if "mk_call_ids k = []" for k
    using that bound [folded m_def] name by (simp add: check_call_def visible_required_text ptr)
  have "check_message demo_content_env c ?k m = Ok (?k\<lparr>mk_ids := ?id # mk_ids ?k, mk_count := 3, mk_aggregate := 6, mk_accepted := 3, mk_call_ids := [''tool-0-0'']\<rparr>)"
    unfolding check_message_def m by (simp add: check_role_def m part call)
  then have valid: "validate_messages demo_content_env (demo_messages @ [m]) c = Ok ()"
    unfolding validate_messages_def demo_capabilities_valid [folded c_def] by (simp add: first fold_result_append)
  have "append_model_turn (demo_session_env demo_content_env) 0 demo_turn () demo_content =
      ((), demo_content\<lparr>cx_messages := demo_messages @ [m]\<rparr>, Ok ())"
    unfolding append_model_turn_def check
    by (simp add: store_model_text_def demo_turn_def [THEN arg_cong, of ctm_text] args demo_turn_def [THEN arg_cong, of ctm_output_parts]
       push_content_Ok m_def [symmetric] cx valid Let_def) (simp add: demo_session_env_def valid)
  then show ?thesis
    by (simp add: append_content_model_turn_def on_content_def demo_session_fields)
qed

theorem content_turn_externalised_witness:
  "\<exists>h' s' m ds. append_content_model_turn (demo_session_env demo_content_env) demo_turn () (demo_session demo_content) = (h', s', Ok ()) \<and>
     extends_content demo_content_env (demo_session demo_content) m s' \<and> length ds = 1 \<and>
     cm_tool_calls m = [externalised demo_content_env 0 0 (hd ds) (hd (ctm_tool_calls demo_turn))]"
proof -
  obtain h' s' where ap: "append_content_model_turn (demo_session_env demo_content_env) demo_turn () (demo_session demo_content) = (h', s', Ok ())"
    using demo_turn_appends
    by (cases "append_content_model_turn (demo_session_env demo_content_env) demo_turn () (demo_session demo_content)") (auto split: sum.splits simp: is_ok_def)
  obtain m ds where "extends_content demo_content_env (demo_session demo_content) m s'" "length ds = length (ctm_tool_calls demo_turn)"
    "cm_tool_calls m = map (\<lambda>(i, d, call). externalised demo_content_env 0 i d call) (enumerate 0 (zip ds (ctm_tool_calls demo_turn)))"
    using content_turn_externalised [OF ap] by (auto simp: demo_session_env_def demo_session_fields)
  moreover have "ctm_tool_calls demo_turn = [hd (ctm_tool_calls demo_turn)]" by (simp add: demo_turn_def)
  ultimately show ?thesis using ap
    by (intro exI [of _ h'] exI [of _ s'] exI [of _ m] exI [of _ ds]) (cases ds; simp add: demo_turn_def)
qed

end
