(* ===== verification/Nested.thy ===== *)
theory Nested
  imports Report_Recovery Run_Admission Session
begin

section \<open>Nested child runs (run/nested.rs)\<close>

text \<open>
  A child is a run of its own with a typed profile. Modelled here is what the parent decides: which calls
  may start a child, the request, the configuration and the record of a child, the reservation of its place
  and its rollback, and what the parent's model is told. The child's own execution, the background
  worker that drives it and the waits on its start belong to the runtime.
\<close>

subsection \<open>Arguments\<close>

record child_run_args =
  na_profile :: string
  na_task :: string
  na_wait :: bool
  na_worktree :: bool

definition bool_field :: "bool \<Rightarrow> json option \<Rightarrow> bool option" where
  "bool_field d v = (case v of None \<Rightarrow> Some d | Some (JBool b) \<Rightarrow> Some b | _ \<Rightarrow> None)"

fun child_run_args_of_json :: "json \<Rightarrow> child_run_args option" where
  "child_run_args_of_json (JObj kvs) =
     (if field_count ''profile'' kvs \<noteq> 1 \<or> field_count ''task'' kvs \<noteq> 1 \<or> field_count ''wait'' kvs > 1 \<or>
         field_count ''worktree'' kvs > 1 then None
      else case (map_of kvs ''profile'', map_of kvs ''task'', bool_field True (map_of kvs ''wait''),
                 bool_field False (map_of kvs ''worktree'')) of
        (Some (JStr p), Some (JStr t), Some w, Some wt) \<Rightarrow>
          Some \<lparr>na_profile = p, na_task = t, na_wait = w, na_worktree = wt\<rparr>
      | _ \<Rightarrow> None)"
| "child_run_args_of_json (JArr [JStr p, JStr t]) = Some \<lparr>na_profile = p, na_task = t, na_wait = True, na_worktree = False\<rparr>"
| "child_run_args_of_json (JArr [JStr p, JStr t, JBool w]) = Some \<lparr>na_profile = p, na_task = t, na_wait = w, na_worktree = False\<rparr>"
| "child_run_args_of_json (JArr [JStr p, JStr t, JBool w, JBool wt]) = Some \<lparr>na_profile = p, na_task = t, na_wait = w, na_worktree = wt\<rparr>"
| "child_run_args_of_json _ = None"

definition parse_child_args :: "(string \<Rightarrow> json option) \<Rightarrow> string \<Rightarrow> child_run_args option" where
  "parse_child_args from_str args = Option.bind (from_str args) child_run_args_of_json"

definition parse_profile :: "string \<Rightarrow> child_profile option" where
  "parse_profile raw =
     (let p = trim raw in
      if p = ''explore'' then Some CP_Explore else if p = ''plan'' then Some CP_Plan
      else if p = ''full'' then Some CP_Full else None)"

text \<open>Which calls a session host asks about before they run.\<close>

definition session_ask_park :: "(string \<Rightarrow> json option) \<Rightarrow> string \<Rightarrow> string \<Rightarrow> bool" where
  "session_ask_park from_str name args =
     (if mutates_workspace name then True
      else if name \<noteq> ''child_run'' then False
      else case parse_child_args from_str args of
        None \<Rightarrow> False
      | Some a \<Rightarrow> na_worktree a \<or> parse_profile (na_profile a) \<in> {Some CP_Full, Some CP_Plan})"

definition child_run_allows_concurrent_start :: "(string \<Rightarrow> json option) \<Rightarrow> string \<Rightarrow> bool" where
  "child_run_allows_concurrent_start from_str args =
     (case parse_child_args from_str args of None \<Rightarrow> False | Some a \<Rightarrow> \<not> na_wait a \<and> \<not> na_worktree a)"

subsection \<open>Whether a run may start children\<close>

definition nested_tools_enabled :: "config \<Rightarrow> run_request \<Rightarrow> bool \<Rightarrow> nat \<Rightarrow> string \<Rightarrow> bool \<Rightarrow> bool" where
  "nested_tools_enabled cfg q is_content nested_depth parent_run_id stored_nested =
     (if is_site_agent_profile (cf_profile cfg) \<or> cf_profile cfg = SECURITY_FINDER_PROFILE_NAME then False
      else if is_content \<or> nested_depth > 0 \<or> parent_run_id \<noteq> [] \<or>
         (case rq_parent_run_id q of None \<Rightarrow> False | Some i \<Rightarrow> i \<noteq> []) then False
      else if \<not> (rs_nested (cf_run cfg) \<or> rq_nested q \<or> stored_nested) then False
      else nested_depth < max (rs_nested_max_depth (cf_run cfg)) 1)"

subsection \<open>The child's request and configuration\<close>

definition child_request :: "run_session \<Rightarrow> run_request \<Rightarrow> string \<Rightarrow> child_profile \<Rightarrow> child_run_args \<Rightarrow> run_request" where
  "child_request s parent child_id profile args =
     (run_request_new (na_task args))\<lparr>rq_keep_workspace := \<not> na_worktree args, rq_timeout := rq_timeout parent,
        rq_assigned_run_id := Some child_id, rq_nested_depth := u32_saturating_add (sn_nested_depth s) 1,
        rq_parent_run_id := Some (sn_run_id s), rq_nested_profile := Some profile,
        rq_plan_jail := (case profile of CP_Plan \<Rightarrow> True | CP_Explore \<Rightarrow> False | CP_Full \<Rightarrow> sn_plan_jail s),
        rq_nested := False, rq_session_wait := False,
        rq_logical_operation_id := (case rq_logical_operation_id parent of Some l \<Rightarrow> Some l | None \<Rightarrow> Some (sn_run_id s))\<rparr>"

definition without_mcp :: "tools_settings \<Rightarrow> tools_settings" where
  "without_mcp t = t\<lparr>tl_mcp_servers := [], tl_mcp_gateway := None\<rparr>"

definition child_tools :: "tools_settings \<Rightarrow> bool \<Rightarrow> child_profile \<Rightarrow> tools_settings" where
  "child_tools t plan_jail profile =
     (case profile of
        CP_Explore \<Rightarrow> without_mcp (t\<lparr>tl_mode := PM_Read, tl_enabled := []\<rparr>)
      | CP_Plan \<Rightarrow> without_mcp t
      | CP_Full \<Rightarrow> if plan_jail then without_mcp t else t)"

definition child_config :: "config \<Rightarrow> string \<Rightarrow> bool \<Rightarrow> bool \<Rightarrow> child_profile \<Rightarrow> bool \<Rightarrow> (config, run_error) result" where
  "child_config parent workspace git_exists plan_jail profile worktree =
     (let run = (cf_run parent)\<lparr>rs_plan_jail := (case profile of CP_Explore \<Rightarrow> False | CP_Plan \<Rightarrow> True | CP_Full \<Rightarrow> plan_jail),
            rs_nested := False\<rparr>;
          ws = (cf_workspace parent)\<lparr>ws_adapter := (if worktree then ''git-worktree'' else ''inplace''), ws_root := workspace,
            ws_snapshot := False\<rparr>
      in if worktree \<and> \<not> git_exists
         then Err (RE_Message ''child_run worktree=true requires a git checkout at the parent workspace'')
         else Ok (parent\<lparr>cf_tools := child_tools (cf_tools parent) plan_jail profile, cf_run := run, cf_workspace := ws,
           cf_events_adapter := ''none''\<rparr>))"

text \<open>A prepared child. \<open>build\<close> stands for the construction of the child's adapters, which may fail.\<close>

record prepared_child =
  pc_args :: child_run_args
  pc_profile :: child_profile
  pc_child_id :: string
  pc_request :: run_request
  pc_config :: config

record nested_env =
  ne_from_str :: "string \<Rightarrow> json option"
  ne_git_exists :: "string \<Rightarrow> bool"
  ne_build :: "config \<Rightarrow> (unit, run_error) result"
  ne_to_string :: "json \<Rightarrow> string"

definition child_engine :: "nested_env \<Rightarrow> config \<Rightarrow> run_session \<Rightarrow> child_profile \<Rightarrow> bool \<Rightarrow> (config, run_error) result" where
  "child_engine en parent s profile worktree =
     and_then (child_config parent (sn_workspace s) (ne_git_exists en (sn_workspace s)) (sn_plan_jail s) profile worktree)
       (\<lambda>cfg. and_then (ne_build en cfg) (\<lambda>_. Ok cfg))"

definition check_child_args :: "config \<Rightarrow> run_session \<Rightarrow> child_run_args \<Rightarrow> (child_profile, run_error) result" where
  "check_child_args cfg s args =
     (let max_depth = max (rs_nested_max_depth (cf_run cfg)) 1; max_children = max (rs_nested_max_children (cf_run cfg)) 1 in
      if trim (na_task args) = [] then Err (RE_Message ''child_run task must be non-empty'')
      else case parse_profile (na_profile args) of
        None \<Rightarrow> Err (RE_Message (''unknown child profile `'' @ trim (na_profile args) @ ''`; expected explore, plan, or full''))
      | Some profile \<Rightarrow>
          if sn_plan_jail s \<and> na_worktree args
          then Err (RE_Message ''child_run worktree=true is denied while plan-jail is active'')
          else if sn_nested_depth s \<ge> max_depth
          then Err (RE_Message (''nested depth cap ('' @ dec_string max_depth @ '') refuses another child_run''))
          else if length (sn_children s) \<ge> max_children
          then Err (RE_Message (''nested fan-out cap ('' @ dec_string max_children @ '') refuses another child_run''))
          else Ok profile)"

definition prepare_child_run :: "nested_env \<Rightarrow> config \<Rightarrow> string \<Rightarrow> run_request \<Rightarrow> string \<Rightarrow> run_session \<Rightarrow>
    run_session \<times> (prepared_child, run_error) result" where
  "prepare_child_run en cfg child_id q args_json s =
     (if sn_content s \<noteq> None then (s, Err (RE_Message ''bounded content runs do not start nested children''))
      else case parse_child_args (ne_from_str en) args_json of
        None \<Rightarrow> (s, Err (RE_Message ''child_run arguments''))
      | Some args \<Rightarrow>
          (case check_child_args cfg s args of
             Inl e \<Rightarrow> (s, Err e)
           | Inr profile \<Rightarrow>
               (case child_engine en cfg s profile (na_worktree args) of
                  Inl e \<Rightarrow> (s, Err e)
                | Inr child_cfg \<Rightarrow>
                    (s\<lparr>sn_children := sn_children s @ [\<lparr>cr_run_id = child_id, cr_profile = child_profile_text profile, cr_task = na_task args\<rparr>]\<rparr>,
                     Ok \<lparr>pc_args = args, pc_profile = profile, pc_child_id = child_id,
                         pc_request = child_request s q child_id profile args, pc_config = child_cfg\<rparr>))))"

subsection \<open>Reservations\<close>

text \<open>A queued child holds its place until it is launched; a reservation that was not launched is dropped
  again, a launched one keeps its record.\<close>

record queued_child =
  qc_child_id :: string
  qc_profile :: child_profile
  qc_reserved :: "prepared_child option"

definition drop_child :: "string \<Rightarrow> run_session \<Rightarrow> run_session" where
  "drop_child child_id s = s\<lparr>sn_children := filter (\<lambda>r. cr_run_id r \<noteq> child_id) (sn_children s)\<rparr>"

definition drop_unlaunched_reservation :: "queued_child \<Rightarrow> run_session \<Rightarrow> run_session" where
  "drop_unlaunched_reservation child s = (if qc_reserved child = None then s else drop_child (qc_child_id child) s)"

fun abandon_queued :: "queued_child list \<Rightarrow> run_session \<Rightarrow> run_session \<times> bool" where
  "abandon_queued [] s = (s, False)"
| "abandon_queued (c # cs) s =
     (let (s1, dropped) = abandon_queued cs (drop_unlaunched_reservation c s) in (s1, qc_reserved c \<noteq> None \<or> dropped))"

text \<open>\<open>watch\<close> is the start watch of the registry, which may fail; a queued call must be a background one.\<close>

definition queue_wait_false_child_run :: "nested_env \<Rightarrow> config \<Rightarrow> (unit, run_error) result \<Rightarrow> string \<Rightarrow> run_request \<Rightarrow> tool_call \<Rightarrow>
    run_session \<Rightarrow> run_session \<times> (queued_child, run_error) result" where
  "queue_wait_false_child_run en cfg watch child_id q call s =
     (if \<not> nested_tools_enabled cfg q (sn_content s \<noteq> None) (sn_nested_depth s) (sn_parent_run_id s) (sn_nested s)
      then (s, Err (RE_Message (''tool not enabled: '' @ tc_name call)))
      else if tc_name call \<noteq> ''child_run'' then (s, Err (RE_Message (''internal nested dispatch for `'' @ tc_name call @ ''`'')))
      else case prepare_child_run en cfg child_id q (tc_args_json call) s of
        (s1, Inl e) \<Rightarrow> (s1, Err e)
      | (s1, Inr p) \<Rightarrow>
          if na_wait (pc_args p)
          then (s1\<lparr>sn_children := butlast (sn_children s1)\<rparr>, Err (RE_Message ''internal: wait=true child_run cannot queue as background''))
          else (s1, and_then watch (\<lambda>_. Ok \<lparr>qc_child_id = child_id, qc_profile = pc_profile p, qc_reserved = Some p\<rparr>)))"

subsection \<open>What the parent's model is told\<close>

definition json_park :: "park_kind \<Rightarrow> string \<Rightarrow> string \<Rightarrow> json" where
  "json_park kind reason question =
     JObj [(''kind'', JStr (park_kind_text kind)), (''reason'', JStr reason), (''question'', JStr question)]"

definition json_opt :: "('a \<Rightarrow> json) \<Rightarrow> 'a option \<Rightarrow> json" where
  "json_opt f v = (case v of None \<Rightarrow> JNull | Some a \<Rightarrow> f a)"

definition background_running_output :: "nested_env \<Rightarrow> string \<Rightarrow> child_profile \<Rightarrow> tool_output" where
  "background_running_output en child_id profile = TO_Text (ne_to_string en (JObj [(''run_id'', JStr child_id),
     (''profile'', JStr (child_profile_text profile)), (''status'', JStr ''running'')]))"

definition background_cancelled_before_start_output :: "nested_env \<Rightarrow> string \<Rightarrow> child_profile \<Rightarrow> tool_output" where
  "background_cancelled_before_start_output en child_id profile = TO_Text (ne_to_string en (JObj [(''run_id'', JStr child_id),
     (''profile'', JStr (child_profile_text profile)), (''termination'', JStr ''cancelled''), (''success'', JBool False),
     (''summary'', JStr ''child_run cancelled before start'')]))"

definition summary_json :: "nested_env \<Rightarrow> child_profile \<Rightarrow> run_result \<Rightarrow> string" where
  "summary_json en profile r = ne_to_string en (JObj [(''run_id'', JStr (rr_run_id r)), (''profile'', JStr (child_profile_text profile)),
     (''termination'', JStr (termination_text (rr_termination r))), (''success'', JBool (rr_success r)), (''summary'', JStr (rr_summary r)),
     (''turns'', JNum (int (rr_turns r))), (''park'', json_opt (\<lambda>p. json_park (pi_kind p) (pi_reason p) (pi_question p)) (rr_park r))])"

text \<open>The end of a waited child. \<open>loads\<close> says whether the child left a checkpoint; a child that left none gives
  its place back (the save after that is the caller's).\<close>

definition waited_child_outcome :: "nested_env \<Rightarrow> (run_error \<Rightarrow> string) \<Rightarrow> bool \<Rightarrow> string \<Rightarrow> child_profile \<Rightarrow>
    (run_result, run_error) result \<Rightarrow> run_session \<Rightarrow> run_session \<times> tool_output" where
  "waited_child_outcome en shown loads child_id profile result s =
     (case result of
        Inr r \<Rightarrow> (s, TO_Text (summary_json en profile r))
      | Inl e \<Rightarrow> ((if loads then s else drop_child child_id s),
          TO_Text (ne_to_string en (JObj [(''run_id'', JStr child_id), (''profile'', JStr (child_profile_text profile)),
            (''termination'', JStr (termination_text (error_termination e))), (''success'', JBool False), (''summary'', JStr (shown e))]))))"

definition child_status :: "nested_env \<Rightarrow> reg_env \<Rightarrow> (string \<Rightarrow> checkpoint option) \<Rightarrow> registry \<Rightarrow> run_session \<Rightarrow> string \<Rightarrow>
    (tool_output, run_error) result" where
  "child_status en rn load r s args_json =
     (case Option.bind (ne_from_str en args_json) (\<lambda>v. case json_get ''run_id'' v of Some (JStr i) \<Rightarrow> Some i | _ \<Rightarrow> None) of
        None \<Rightarrow> Err (RE_Message ''child_status arguments'')
      | Some run_id \<Rightarrow>
          if run_id \<notin> set (map cr_run_id (sn_children s))
          then Err (RE_Message (''child_status run_id `'' @ run_id @ ''` is not a child of this run''))
          else
            let rec = ok_of (registry_load rn r run_id);
                status = (\<lambda>d. case rec of None \<Rightarrow> d | Some x \<Rightarrow> rn_status x);
                told = [(''success'', json_opt JBool (Option.bind rec rn_success)), (''summary'', json_opt (JStr \<circ> rn_summary) rec),
                  (''termination'', json_opt_str (Option.bind rec rn_termination))]
            in Ok (TO_Text (ne_to_string en (JObj (case load run_id of
                Some cp \<Rightarrow>
                  [(''run_id'', JStr (cp_run_id cp)), (''status'', JStr (if cp_park cp \<noteq> None then ''parked'' else status ''running''))] @ told @
                  [(''turns'', JNum (int (cp_completed_turns cp))),
                   (''park'', json_opt (\<lambda>p. json_park (pk_kind p) (pk_reason p) (pk_question p)) (cp_park cp))]
              | None \<Rightarrow> [(''run_id'', JStr run_id), (''status'', JStr (status ''starting''))] @ told)))))"

subsection \<open>Children are contained\<close>

text \<open>What a child may have: no children of its own, no events adapter, no snapshot, and by profile only reading
  tools, or the plan jail and no MCP server, or the parent's tools under the parent's jail.\<close>

definition child_contained :: "config \<Rightarrow> bool \<Rightarrow> child_profile \<Rightarrow> config \<Rightarrow> bool" where
  "child_contained parent plan_jail profile cfg \<longleftrightarrow>
     \<not> rs_nested (cf_run cfg) \<and> cf_events_adapter cfg = ''none'' \<and> \<not> ws_snapshot (cf_workspace cfg) \<and>
     (case profile of
        CP_Explore \<Rightarrow> set (effective_enabled (cf_tools cfg)) = set (tools_for_mode PM_Read) \<and>
          tl_mcp_servers (cf_tools cfg) = [] \<and> tl_mcp_gateway (cf_tools cfg) = None
      | CP_Plan \<Rightarrow> rs_plan_jail (cf_run cfg) \<and> tl_mcp_servers (cf_tools cfg) = [] \<and> tl_mcp_gateway (cf_tools cfg) = None \<and>
          effective_enabled (cf_tools cfg) = effective_enabled (cf_tools parent)
      | CP_Full \<Rightarrow> rs_plan_jail (cf_run cfg) = plan_jail \<and> effective_enabled (cf_tools cfg) = effective_enabled (cf_tools parent) \<and>
          (plan_jail \<longrightarrow> tl_mcp_servers (cf_tools cfg) = [] \<and> tl_mcp_gateway (cf_tools cfg) = None))"

lemma effective_without_mcp [simp]: "effective_enabled (without_mcp t) = effective_enabled t"
  by (simp add: effective_enabled_def without_mcp_def)

lemma effective_reading: "effective_enabled (t\<lparr>tl_mode := PM_Read, tl_enabled := []\<rparr>) = tools_for_mode PM_Read"
  by (simp add: effective_enabled_def)

lemma without_mcp_fields [simp]: "tl_mcp_servers (without_mcp t) = []" "tl_mcp_gateway (without_mcp t) = None"
  by (simp_all add: without_mcp_def)

lemma child_config_Ok:
  assumes "child_config parent workspace git plan_jail profile worktree = Ok cfg"
  shows "cf_tools cfg = child_tools (cf_tools parent) plan_jail profile" "\<not> rs_nested (cf_run cfg)"
    "rs_plan_jail (cf_run cfg) = (case profile of CP_Explore \<Rightarrow> False | CP_Plan \<Rightarrow> True | CP_Full \<Rightarrow> plan_jail)"
    "cf_events_adapter cfg = ''none''" "\<not> ws_snapshot (cf_workspace cfg)"
    "ws_adapter (cf_workspace cfg) = (if worktree then ''git-worktree'' else ''inplace'')"
  using assms by (auto simp: child_config_def Let_def split: if_splits)

lemma child_config_contained:
  assumes "child_config parent workspace git plan_jail profile worktree = Ok cfg"
  shows "child_contained parent plan_jail profile cfg"
  using child_config_Ok [OF assms] unfolding child_contained_def
  by (cases profile) (simp_all add: child_tools_def effective_reading del: tools_for_mode.simps)

lemma check_child_args_Ok:
  "check_child_args cfg s args = Ok profile \<longleftrightarrow>
     trim (na_task args) \<noteq> [] \<and> parse_profile (na_profile args) = Some profile \<and> \<not> (sn_plan_jail s \<and> na_worktree args) \<and>
     sn_nested_depth s < max (rs_nested_max_depth (cf_run cfg)) 1 \<and> length (sn_children s) < max (rs_nested_max_children (cf_run cfg)) 1"
  by (auto simp: check_child_args_def Let_def split: option.splits)


definition demo_nested_env :: nested_env where
  "demo_nested_env = \<lparr>ne_from_str = (\<lambda>_. Some (JArr [JStr ''explore'', JStr ''look''])), ne_git_exists = (\<lambda>_. False),
     ne_build = (\<lambda>_. Ok ()), ne_to_string = (\<lambda>_. [])\<rparr>"

definition demo_parent :: run_session where
  "demo_parent = run_session_new ''r'' ''t'' ''/w'' ''directory'' True [] 0"

definition demo_narrow :: config where
  "demo_narrow = default_config\<lparr>cf_tools := (cf_tools default_config)\<lparr>tl_mode := PM_Custom, tl_enabled := [''report'']\<rparr>\<rparr>"

lemma demo_prepare:
  "\<exists>s' p. prepare_child_run demo_nested_env demo_narrow ''c1'' (run_request_new ''t'') ''a'' demo_parent = (s', Ok p) \<and> pc_profile p = CP_Explore"
proof -
  have t: "trim ''explore'' = ''explore''" "trim ''look'' = ''look''" by (simp_all add: trim_visible visible_def)
  have pp: "parse_profile ''explore'' = Some CP_Explore" by (simp add: parse_profile_def t)
  show ?thesis
    by (simp add: prepare_child_run_def demo_nested_env_def demo_parent_def run_session_new_def parse_child_args_def check_child_args_def
        t pp Let_def child_engine_def child_config_def)
qed



end
