(* ===== verification/Actions.thy ===== *)
theory Actions
  imports Prelude
begin

section \<open>Actions: state and errors\<close>

text \<open>
  The steps of the run engine change a state and may fail; a failing step keeps the changes it made. An
  action is a function from the state to the new state and the result. \<open>hoare I P m Q\<close> is a triple with an
  invariant \<open>I\<close> that holds after the action whether it fails or not; \<open>Q\<close> holds when it succeeds. The
  collection \<open>triples\<close> holds one rule per combinator.
\<close>

type_synonym ('s, 'a, 'e) action = "'s \<Rightarrow> 's \<times> ('a, 'e) result"

definition act_return :: "'a \<Rightarrow> ('s, 'a, 'e) action" where
  "act_return a = (\<lambda>s. (s, Ok a))"

definition act_fail :: "'e \<Rightarrow> ('s, 'a, 'e) action" where
  "act_fail e = (\<lambda>s. (s, Err e))"

definition act_bind :: "('s, 'a, 'e) action \<Rightarrow> ('a \<Rightarrow> ('s, 'b, 'e) action) \<Rightarrow> ('s, 'b, 'e) action" where
  "act_bind m k = (\<lambda>s. case m s of (s1, Inl e) \<Rightarrow> (s1, Inl e) | (s1, Inr a) \<Rightarrow> k a s1)"

definition act_then :: "('s, 'a, 'e) action \<Rightarrow> ('s, 'b, 'e) action \<Rightarrow> ('s, 'b, 'e) action" where
  "act_then m k = act_bind m (\<lambda>_. k)"

text \<open>The action that the state chooses; a change of the state; a result as it is.\<close>

definition act_with :: "('s \<Rightarrow> ('s, 'a, 'e) action) \<Rightarrow> ('s, 'a, 'e) action" where
  "act_with f = (\<lambda>s. f s s)"

definition act_modify :: "('s \<Rightarrow> 's) \<Rightarrow> ('s, unit, 'e) action" where
  "act_modify f = (\<lambda>s. (f s, Ok ()))"

definition act_result :: "('a, 'e) result \<Rightarrow> ('s, 'a, 'e) action" where
  "act_result r = (\<lambda>s. (s, r))"

text \<open>The result of a step that must not fail the caller: as a value, or dropped.\<close>

definition act_attempt :: "('s, 'a, 'e) action \<Rightarrow> ('s, ('a, 'e) result, 'f) action" where
  "act_attempt m = (\<lambda>s. let (s1, r) = m s in (s1, Ok r))"

definition act_ignore :: "('s, 'a, 'e) action \<Rightarrow> ('s, unit, 'f) action" where
  "act_ignore m = (\<lambda>s. (fst (m s), Ok ()))"

definition act_catch :: "('s, 'a, 'e) action \<Rightarrow> ('e \<Rightarrow> ('s, 'a, 'f) action) \<Rightarrow> ('s, 'a, 'f) action" where
  "act_catch m h = (\<lambda>s. case m s of (s1, Inl e) \<Rightarrow> h e s1 | (s1, Inr a) \<Rightarrow> (s1, Ok a))"

fun act_each :: "('a \<Rightarrow> ('s, unit, 'e) action) \<Rightarrow> 'a list \<Rightarrow> ('s, unit, 'e) action" where
  "act_each f [] = act_return ()"
| "act_each f (x # xs) = act_then (f x) (act_each f xs)"

text \<open>Everything a concrete run of an action unfolds.\<close>

lemmas act_defs = act_with_def act_then_def act_bind_def act_return_def act_fail_def act_modify_def act_attempt_def
  act_result_def act_catch_def act_ignore_def

lemma then_modify: "act_then (act_modify f) k s = k (f s)"
  by (simp add: act_then_def act_bind_def act_modify_def)

subsection \<open>Triples\<close>

named_theorems triples

definition hoare :: "('s \<Rightarrow> bool) \<Rightarrow> ('s \<Rightarrow> bool) \<Rightarrow> ('s, 'a, 'e) action \<Rightarrow> ('a \<Rightarrow> 's \<Rightarrow> bool) \<Rightarrow> bool" where
  "hoare I P m Q \<longleftrightarrow> (\<forall>s. I s \<longrightarrow> P s \<longrightarrow> I (fst (m s)) \<and> (\<forall>a. snd (m s) = Ok a \<longrightarrow> Q a (fst (m s))))"

abbreviation keeps :: "('s \<Rightarrow> bool) \<Rightarrow> ('s, 'a, 'e) action \<Rightarrow> bool" where
  "keeps I m \<equiv> hoare I (\<lambda>_. True) m (\<lambda>_ _. True)"

lemma hoareD: "hoare I P m Q \<Longrightarrow> I s \<Longrightarrow> P s \<Longrightarrow> m s = (s1, r) \<Longrightarrow> I s1 \<and> (\<forall>a. r = Ok a \<longrightarrow> Q a s1)"
  by (auto simp: hoare_def)

lemma hoare_weaken:
  "hoare I P m Q \<Longrightarrow> (\<And>s. I s \<Longrightarrow> P' s \<Longrightarrow> P s) \<Longrightarrow> (\<And>a s. I s \<Longrightarrow> Q a s \<Longrightarrow> Q' a s) \<Longrightarrow> hoare I P' m Q'"
  by (auto simp: hoare_def)

lemma hoare_return [triples]: "(\<And>s. I s \<Longrightarrow> P s \<Longrightarrow> Q a s) \<Longrightarrow> hoare I P (act_return a) Q"
  by (simp add: hoare_def act_return_def)

lemma hoare_fail [triples]: "hoare I P (act_fail e) Q"
  by (simp add: hoare_def act_fail_def)

lemma hoare_result [triples]: "(\<And>s a. I s \<Longrightarrow> P s \<Longrightarrow> r = Ok a \<Longrightarrow> Q a s) \<Longrightarrow> hoare I P (act_result r) Q"
  by (simp add: hoare_def act_result_def)

lemma hoare_modify: "(\<And>s. I s \<Longrightarrow> P s \<Longrightarrow> I (f s) \<and> Q () (f s)) \<Longrightarrow> hoare I P (act_modify f) Q"
  by (simp add: hoare_def act_modify_def)

lemma hoare_bind:
  "hoare I P m R \<Longrightarrow> (\<And>a. hoare I (R a) (k a) Q) \<Longrightarrow> hoare I P (act_bind m k) Q"
  by (fastforce simp: hoare_def act_bind_def split: prod.splits sum.splits)

lemma hoare_then: "hoare I P m (\<lambda>_. R) \<Longrightarrow> hoare I R k Q \<Longrightarrow> hoare I P (act_then m k) Q"
  unfolding act_then_def by (rule hoare_bind)

lemma hoare_with: "(\<And>s. I s \<Longrightarrow> P s \<Longrightarrow> hoare I (\<lambda>s'. s' = s) (f s) Q) \<Longrightarrow> hoare I P (act_with f) Q"
  by (auto simp: hoare_def act_with_def)

lemma hoare_attempt: "hoare I P m (\<lambda>a. Q (Ok a)) \<Longrightarrow> (\<And>e s. I s \<Longrightarrow> Q (Err e) s) \<Longrightarrow> hoare I P (act_attempt m) Q"
  unfolding hoare_def act_attempt_def Let_def
  by (metis (no_types, lifting) Inr_inject fst_conv prod.case_eq_if snd_conv sum.exhaust_sel sum.collapse)

lemma keeps_bind [triples]: "keeps I m \<Longrightarrow> (\<And>a. keeps I (k a)) \<Longrightarrow> keeps I (act_bind m k)"
  by (rule hoare_bind)

lemma keeps_then [triples]: "keeps I m \<Longrightarrow> keeps I k \<Longrightarrow> keeps I (act_then m k)"
  by (rule hoare_then)

lemma keeps_with [triples]: "(\<And>s. I s \<Longrightarrow> keeps I (f s)) \<Longrightarrow> keeps I (act_with f)"
  by (auto simp: hoare_def act_with_def)

lemma keeps_modify: "(\<And>s. I s \<Longrightarrow> I (f s)) \<Longrightarrow> keeps I (act_modify f)"
  by (simp add: hoare_def act_modify_def)

lemma keeps_attempt [triples]: "keeps I m \<Longrightarrow> keeps I (act_attempt m)"
  by (auto simp: hoare_def act_attempt_def Let_def split: prod.splits)

lemma keeps_ignore [triples]: "keeps I m \<Longrightarrow> keeps I (act_ignore m)"
  by (simp add: hoare_def act_ignore_def)

lemma keeps_catch [triples]: "keeps I m \<Longrightarrow> (\<And>e. keeps I (h e)) \<Longrightarrow> keeps I (act_catch m h)"
  by (fastforce simp: hoare_def act_catch_def split: prod.splits sum.splits)

lemma keeps_each [triples]: "(\<And>x. keeps I (f x)) \<Longrightarrow> keeps I (act_each f xs)"
  by (induction xs) (auto intro: triples)

lemma keeps_if [triples]: "(b \<Longrightarrow> keeps I m) \<Longrightarrow> (\<not> b \<Longrightarrow> keeps I n) \<Longrightarrow> keeps I (if b then m else n)"
  by simp

lemma keeps_option [triples]: "keeps I m \<Longrightarrow> (\<And>a. keeps I (f a)) \<Longrightarrow> keeps I (case x of None \<Rightarrow> m | Some a \<Rightarrow> f a)"
  by (simp split: option.split)

lemma keeps_sum [triples]: "(\<And>e. keeps I (f e)) \<Longrightarrow> (\<And>a. keeps I (g a)) \<Longrightarrow> keeps I (case x of Inl e \<Rightarrow> f e | Inr a \<Rightarrow> g a)"
  by (simp split: sum.split)

lemma keeps_prod [triples]: "(\<And>a b. keeps I (f a b)) \<Longrightarrow> keeps I (case x of (a, b) \<Rightarrow> f a b)"
  by (simp split: prod.split)

lemma keeps_let [triples]: "keeps I (f x) \<Longrightarrow> keeps I (let y = x in f y)"
  by (simp add: Let_def)

lemma keepsD: "keeps I m \<Longrightarrow> I s \<Longrightarrow> I (fst (m s))"
  by (simp add: hoare_def)

subsection \<open>Total correctness\<close>

text \<open>For concrete runs: the action succeeds from every such state.\<close>

definition succeeds :: "('s \<Rightarrow> bool) \<Rightarrow> ('s, 'a, 'e) action \<Rightarrow> ('a \<Rightarrow> 's \<Rightarrow> bool) \<Rightarrow> bool" where
  "succeeds P m Q \<longleftrightarrow> (\<forall>s. P s \<longrightarrow> (\<exists>s' a. m s = (s', Ok a) \<and> Q a s'))"

lemma succeeds_then: "succeeds P m (\<lambda>_. R) \<Longrightarrow> succeeds R n Q \<Longrightarrow> succeeds P (act_then m n) Q"
  by (fastforce simp: succeeds_def act_then_def act_bind_def)

lemma succeeds_bind: "succeeds P m R \<Longrightarrow> (\<And>a. succeeds (R a) (n a) Q) \<Longrightarrow> succeeds P (act_bind m n) Q"
  by (fastforce simp: succeeds_def act_bind_def)

lemma succeeds_with: "(\<And>s. P s \<Longrightarrow> succeeds (\<lambda>s'. s' = s) (f s) Q) \<Longrightarrow> succeeds P (act_with f) Q"
  by (simp add: succeeds_def act_with_def)

lemma succeeds_pre: "succeeds P m Q \<Longrightarrow> (\<And>s. P' s \<Longrightarrow> P s) \<Longrightarrow> succeeds P' m Q"
  by (auto simp: succeeds_def)

lemma succeeds_return: "(\<And>s. P s \<Longrightarrow> Q a s) \<Longrightarrow> succeeds P (act_return a) Q"
  by (simp add: succeeds_def act_return_def)

end
