(* ===== verification/Tool_Batch.thy ===== *)
theory Tool_Batch
  imports Actions Nested Governance
begin

section \<open>One batch of tool calls (run/tool_batch.rs)\<close>

text \<open>
  The durable protocol around the calls of one model turn: gates, authorisation, the exclusive claim,
  execution, the staged results and reports, and the parks. The governance port is a record of functions on
  its state \<open>'g\<close>, the host (tools, workspace, resolver, and the background children) is the state \<open>'h\<close>.
  \<open>ba_trace\<close> logs what the batch does to its ports, newest first. Every consultation of something outside takes the
  next number of \<open>ba_clock\<close>, so a clock, a cancel signal or a failing file operation may answer differently
  each time. The span trace has no effect on the run and is left out.
\<close>

subsection \<open>Ports and state\<close>

record 'g gov_port =
  gp_checkpoint :: "'g \<Rightarrow> governance_checkpoint option"
  gp_requires_claim :: "string \<Rightarrow> bool"
  gp_asks :: bool
  gp_stage :: "staged_tool_execution \<Rightarrow> 'g \<Rightarrow> 'g \<times> (unit, governance_error) result"
  gp_mark :: "string \<Rightarrow> tool_execution_status \<Rightarrow> 'g \<Rightarrow> 'g \<times> (unit, governance_error) result"
  gp_clear :: "'g \<Rightarrow> 'g \<times> (unit, governance_error) result"
  gp_authorize :: "string \<Rightarrow> string \<Rightarrow> string \<Rightarrow> 'g \<Rightarrow> 'g \<times> (unit, governance_error) result"
  gp_record_park :: "approval_park \<Rightarrow> 'g \<Rightarrow> 'g \<times> (unit, governance_error) result"
  gp_clear_park :: "'g \<Rightarrow> 'g \<times> (unit, governance_error) result"
  gp_stage_reports :: "staged_tool_report list \<Rightarrow> 'g \<Rightarrow> 'g \<times> (unit, governance_error) result"
  gp_report :: "string \<Rightarrow> string \<Rightarrow> bool \<Rightarrow> string \<Rightarrow> 'g \<Rightarrow> 'g \<times> (unit, governance_error) result"

type_synonym outcome = "(tool_output, string) result"

text \<open>The log: an event, a saved checkpoint, a granted authorisation (call id, tool, arguments), a claim, an
  execution (call id, tool, arguments), a report.\<close>

datatype batch_event =
    BE_Emit harness_event
  | BE_Saved checkpoint
  | BE_Authorized string string string
  | BE_Claimed string
  | BE_Executed string string string
  | BE_Reported string bool

record ('h, 'g) batch =
  ba_host :: 'h
  ba_gov :: 'g
  ba_reg :: registry
  ba_disk :: disk
  ba_session :: run_session
  ba_pending :: "parked_state option"
  ba_clock :: nat
  ba_trace :: "batch_event list"
  ba_queued :: "(nat \<times> tool_call \<times> queued_child) list"
  ba_out :: "(nat \<times> tool_call \<times> outcome) list"
  ba_permits :: "nat option"

type_synonym 'h child_state = "'h \<times> registry \<times> disk \<times> run_session"

record ('h, 'g) batch_env =
  be_cfg :: config
  be_request :: run_request
  be_timeout :: "nat option"
  be_replay :: bool
  be_port :: "'g gov_port"
  be_save :: save_env
  be_io :: "nat \<Rightarrow> nat \<Rightarrow> bool"
  be_torn :: "nat \<Rightarrow> string option"
  be_todos :: "'h \<Rightarrow> todo_item list"
  be_reg :: reg_env
  be_reg_io :: "nat \<Rightarrow> nat \<Rightarrow> bool"
  be_content :: "'h session_env"
  be_cancel :: "nat \<Rightarrow> bool option"
  be_elapsed :: "nat \<Rightarrow> nat"
  be_now :: "nat \<Rightarrow> nat"
  be_codec :: codec
  be_report :: report_env
  be_nested :: nested_env
  be_handoff :: "string \<Rightarrow> (handoff_brief, tool_error) result"
  be_enabled :: "string \<Rightarrow> bool"
  be_pre_hook :: "nat \<Rightarrow> string \<Rightarrow> string \<Rightarrow> string \<Rightarrow> 'h \<Rightarrow> 'h \<times> (unit, string) result"
  be_post_hook :: "nat \<Rightarrow> string \<Rightarrow> string \<Rightarrow> bool \<Rightarrow> 'h \<Rightarrow> 'h"
  be_park_hook :: "nat \<Rightarrow> string \<Rightarrow> string \<Rightarrow> string \<Rightarrow> 'h \<Rightarrow> 'h"
  be_tool :: "nat \<Rightarrow> string \<Rightarrow> string \<Rightarrow> 'h \<Rightarrow> 'h \<times> nat \<times> (tool_output \<times> edit_outcome option, tool_error) result"
  be_edit_record :: "string \<Rightarrow> edit_outcome \<Rightarrow> nat option \<Rightarrow> json"
  be_jail_file_ok :: "'h \<Rightarrow> bool"
  be_plan_file :: "'h \<Rightarrow> string option"
  be_lossy :: "string \<Rightarrow> string"
  be_child_id :: "nat \<Rightarrow> string"
  be_watch :: "nat \<Rightarrow> (unit, run_error) result"
  be_child :: "nat \<Rightarrow> tool_call \<Rightarrow> 'h child_state \<Rightarrow> 'h child_state \<times> (tool_output, run_error) result"
  be_wait_children :: "nat \<Rightarrow> (nat \<times> tool_call \<times> queued_child) list \<Rightarrow> 'h child_state \<Rightarrow>
    'h child_state \<times> ((nat \<times> tool_call \<times> outcome) list, run_error) result"
  be_schedule :: "nat \<Rightarrow> nat list"
  be_show_tool :: "tool_error \<Rightarrow> string"
  be_show_gov :: "governance_error \<Rightarrow> string"
  be_show_run :: "run_error \<Rightarrow> string"
  be_show_reg :: "registry_error \<Rightarrow> string"

datatype batch_outcome = BO_Continue | BO_Completed string bool | BO_Parked park_info string

type_synonym ('h, 'g, 'a) step = "('h, 'g) batch \<Rightarrow> ('h, 'g) batch \<times> ('a, run_error) result"

text \<open>One call of the loop body: go on to the next call, go on with a value, or leave the loop parked.\<close>

datatype 'a flow = FL_Next | FL_Go 'a | FL_Exit batch_outcome

definition flow_bind :: "('h, 'g, 'a flow) step \<Rightarrow> ('a \<Rightarrow> ('h, 'g, 'b flow) step) \<Rightarrow> ('h, 'g, 'b flow) step" where
  "flow_bind m k = act_bind m (\<lambda>f. case f of FL_Next \<Rightarrow> act_return FL_Next | FL_Exit out \<Rightarrow> act_return (FL_Exit out) | FL_Go a \<Rightarrow> k a)"

subsection \<open>Single consultations\<close>

definition log :: "batch_event \<Rightarrow> ('h, 'g) batch \<Rightarrow> ('h, 'g) batch" where
  "log e b = b\<lparr>ba_trace := e # ba_trace b\<rparr>"

definition tick :: "('h, 'g) batch \<Rightarrow> ('h, 'g) batch" where
  "tick b = b\<lparr>ba_clock := Suc (ba_clock b)\<rparr>"

definition b_run_id :: "('h, 'g) batch \<Rightarrow> string" where "b_run_id b = sn_run_id (ba_session b)"
definition b_turns :: "('h, 'g) batch \<Rightarrow> nat" where "b_turns b = sn_turns (ba_session b)"
definition is_content :: "('h, 'g) batch \<Rightarrow> bool" where "is_content b \<longleftrightarrow> sn_content (ba_session b) \<noteq> None"

definition on_session :: "(run_session \<Rightarrow> run_session) \<Rightarrow> ('h, 'g, unit) step" where
  "on_session f = act_modify (\<lambda>b. b\<lparr>ba_session := f (ba_session b)\<rparr>)"

definition bounds :: "('h, 'g) batch_env \<Rightarrow> ('h, 'g, unit) step" where
  "bounds en = (\<lambda>b. (tick b, check_bounds (ba_reg b) (be_cancel en (ba_clock b)) (be_request en) (b_run_id b)
     (be_elapsed en (ba_clock b)) (be_timeout en) (sn_parent_run_id (ba_session b))))"

definition gov_call :: "('g \<Rightarrow> 'g \<times> ('a, governance_error) result) \<Rightarrow> ('h, 'g, 'a) step" where
  "gov_call f = (\<lambda>b. let (g, r) = f (ba_gov b) in (b\<lparr>ba_gov := g\<rparr>, map_err RE_Governance r))"

definition reg_at :: "('h, 'g) batch_env \<Rightarrow> nat \<Rightarrow> reg_env" where
  "reg_at en n = (be_reg en)\<lparr>en_io := be_reg_io en n\<rparr>"

definition emit :: "('h, 'g) batch_env \<Rightarrow> harness_event \<Rightarrow> ('h, 'g, unit) step" where
  "emit en e = (\<lambda>b. (log (BE_Emit e) (tick b\<lparr>ba_reg := append_event (reg_at en (ba_clock b)) (be_now en (ba_clock b)) (ba_reg b) (b_run_id b) e\<rparr>), Ok ()))"

text \<open>\<open>session.save\<close> with its policy and \<open>session.save_recoverable\<close>; a save that succeeds is logged.\<close>

definition save_session :: "('h, 'g) batch_env \<Rightarrow> bool \<Rightarrow> parked_state option \<Rightarrow> ('h, 'g, unit) step" where
  "save_session en keep park = (\<lambda>b.
     let n = ba_clock b; gov = gp_checkpoint (be_port en) (ba_gov b); todos = be_todos en (ba_host b);
         s = ba_session b;
         (d, s', r) = save_with_retention (be_save en) (be_io en n) (be_torn en n) gov todos keep park (ba_disk b) s;
         b1 = (tick b)\<lparr>ba_disk := d, ba_session := s'\<rparr>
     in (case r of Inl _ \<Rightarrow> b1
         | Inr _ \<Rightarrow> log (BE_Saved (retained_checkpoint (be_save en) gov todos keep park
             (case sn_content s' of None \<Rightarrow> None | Some cx \<Rightarrow> cx_binding cx) s)) b1, r))"

definition save :: "('h, 'g) batch_env \<Rightarrow> ('h, 'g, unit) step" where
  "save en = act_with (\<lambda>b. save_session en (sn_keep_workspace (ba_session b)) None)"

definition save_parked :: "('h, 'g) batch_env \<Rightarrow> parked_state \<Rightarrow> ('h, 'g, unit) step" where
  "save_parked en park = save_session en True (Some park)"

definition content_text :: "('h, 'g) batch_env \<Rightarrow> string \<Rightarrow> string \<Rightarrow> ('h, 'g, unit) step" where
  "content_text en call_id content = (\<lambda>b. if is_content b
     then (let (h, s, r) = append_content_tool_text (be_content en) call_id content (ba_host b) (ba_session b)
           in (b\<lparr>ba_host := h, ba_session := s\<rparr>, r))
     else (b, Ok ()))"

definition push_message :: "string \<Rightarrow> string \<Rightarrow> ('h, 'g, unit) step" where
  "push_message call_id content = act_modify (\<lambda>b. b\<lparr>ba_session := (ba_session b)\<lparr>sn_messages := sn_messages (ba_session b) @
     [result_message call_id (if is_content b then [] else content)]\<rparr>\<rparr>)"

definition projected_detail :: "('h, 'g) batch_env \<Rightarrow> ('h, 'g) batch \<Rightarrow> string \<Rightarrow> string" where
  "projected_detail en b detail = project_bounded_text (sv_content (be_save en)) (is_content b) ''bounded_content'' detail"

definition report_tool :: "('h, 'g) batch_env \<Rightarrow> string \<Rightarrow> string \<Rightarrow> bool \<Rightarrow> string \<Rightarrow> ('h, 'g, unit) step" where
  "report_tool en call_id name ok detail = act_bind (act_attempt (gov_call (gp_report (be_port en) call_id name ok detail))) (\<lambda>r.
     case r of Inl e \<Rightarrow> if requires_governance (be_cfg en) then act_fail e else act_return ()
     | Inr _ \<Rightarrow> act_modify (log (BE_Reported call_id ok)))"

subsection \<open>Gates on the batch\<close>

definition plan_jail_deny :: "('h, 'g) batch_env \<Rightarrow> ('h, 'g) batch \<Rightarrow> tool_call \<Rightarrow> string option" where
  "plan_jail_deny en b call =
     (if \<not> plan_jail_allows (re_from_str (be_report en)) (tc_name call) (tc_args_json call) then
        Some (if tc_name call = ''child_run'' then ''plan jail: child_run worktree=true is denied''
              else ''plan jail: mutating tools may only write `'' @ PLAN_JAIL_PATH @ ''`'')
      else if mutates_workspace (tc_name call) \<and> \<not> be_jail_file_ok en (ba_host b)
      then Some (''plan jail: `'' @ PLAN_JAIL_PATH @ ''` must be a regular workspace file'') else None)"

text \<open>Whether background children of the batch may start together: every call is one, or a read.\<close>

fun children_or_reads :: "(string \<Rightarrow> json option) \<Rightarrow> bool \<Rightarrow> bool \<Rightarrow> tool_call list \<Rightarrow> bool option" where
  "children_or_reads from_str asks any_child [] = Some any_child"
| "children_or_reads from_str asks any_child (call # calls) =
     (if tc_name call = ''child_run'' \<and> child_run_allows_concurrent_start from_str (tc_args_json call) then
        (if asks \<and> session_ask_park from_str (tc_name call) (tc_args_json call) then None
         else children_or_reads from_str asks True calls)
      else if is_parallel_safe_tool (tc_name call) then children_or_reads from_str asks any_child calls
      else None)"

definition batch_can_concurrent_child_starts :: "(string \<Rightarrow> json option) \<Rightarrow> tool_call list \<Rightarrow> bool \<Rightarrow> bool \<Rightarrow> bool \<Rightarrow> bool \<Rightarrow> bool" where
  "batch_can_concurrent_child_starts from_str calls session_wait plan_jail session_asks hooks_need_serial \<longleftrightarrow>
     \<not> hooks_need_serial \<and> length calls > 1 \<and>
     children_or_reads from_str (session_wait \<and> \<not> plan_jail \<and> session_asks) False calls = Some True"

definition hooks_need_serial :: "config \<Rightarrow> bool" where
  "hooks_need_serial cfg \<longleftrightarrow> list_ex (\<lambda>h. hk_event h \<in> set [''pre_tool'', ''post_tool'', ''on_park'']) (cf_hooks cfg)"

definition tool_concurrency :: "config \<Rightarrow> nat" where
  "tool_concurrency cfg = max (rs_tool_concurrency (cf_run cfg)) 1"

definition can_parallel :: "('h, 'g) batch_env \<Rightarrow> tool_call list \<Rightarrow> bool" where
  "can_parallel en calls \<longleftrightarrow> tool_concurrency (be_cfg en) > 1 \<and> \<not> hooks_need_serial (be_cfg en) \<and> length calls > 1 \<and>
     list_all (\<lambda>c. is_parallel_safe_tool (tc_name c)) calls \<and>
     list_all (\<lambda>c. \<not> gp_requires_claim (be_port en) (tc_name c)) calls \<and>
     \<not> (rq_session_wait (be_request en) \<and> list_ex (\<lambda>c. mutates_workspace (tc_name c)) calls)"

subsection \<open>Background children\<close>

definition on_children :: "('h child_state \<Rightarrow> 'h child_state \<times> ('a, run_error) result) \<Rightarrow> ('h, 'g, 'a) step" where
  "on_children f = (\<lambda>b. case f (ba_host b, ba_reg b, ba_disk b, ba_session b) of
     ((h, r, d, s), res) \<Rightarrow> (b\<lparr>ba_host := h, ba_reg := r, ba_disk := d, ba_session := s\<rparr>, res))"

definition flush_children :: "('h, 'g) batch_env \<Rightarrow> ('h, 'g, unit) step" where
  "flush_children en = act_with (\<lambda>b.
     if ba_queued b = [] then act_return ()
     else act_then (act_modify (\<lambda>b. (tick b)\<lparr>ba_queued := []\<rparr>))
       (act_bind (on_children (be_wait_children en (ba_clock b) (ba_queued b))) (\<lambda>waited.
          act_modify (\<lambda>b. b\<lparr>ba_out := sort_key fst (ba_out b @ waited)\<rparr>))))"

definition push_out :: "nat \<Rightarrow> tool_call \<Rightarrow> outcome \<Rightarrow> ('h, 'g, unit) step" where
  "push_out index call r = act_modify (\<lambda>b. b\<lparr>ba_out := ba_out b @ [(index, call, r)]\<rparr>)"

definition next_with :: "nat \<Rightarrow> tool_call \<Rightarrow> outcome \<Rightarrow> ('h, 'g, 'a flow) step" where
  "next_with index call r = act_then (push_out index call r) (act_return FL_Next)"

text \<open>Leaving the loop with an error: queued children are waited for first, and their error wins.\<close>

definition flush_fail :: "('h, 'g) batch_env \<Rightarrow> run_error \<Rightarrow> ('h, 'g, 'a) step" where
  "flush_fail en e = act_then (flush_children en) (act_fail e)"

subsection \<open>Results of calls\<close>

text \<open>The conversation message of a result, appended to the content too; a park has none.\<close>

fun result_text :: "outcome \<Rightarrow> (string \<times> string) option" where
  "result_text (Inr (TO_Text t)) = Some (t, t)"
| "result_text (Inr (TO_Report r)) = Some (rp_summary r, report_text (rp_summary r))"
| "result_text (Inr (TO_Park p)) = None"
| "result_text (Inl detail) = Some (detail, detail)"

fun result_ok :: "outcome \<Rightarrow> bool" where
  "result_ok (Inr (TO_Text t)) = True"
| "result_ok (Inr (TO_Report r)) = rp_success r"
| "result_ok _ = False"

definition append_result :: "('h, 'g) batch_env \<Rightarrow> nat \<Rightarrow> tool_call \<Rightarrow> string \<Rightarrow> string \<Rightarrow> ('h, 'g, unit) step" where
  "append_result en index call kept shown = act_with (\<lambda>b.
     let call_id = conversation_tool_call_id call (b_turns b) index
     in act_then (content_text en call_id kept) (push_message call_id shown))"

text \<open>\<open>detail.chars().take(n)\<close>.\<close>

definition take_chars :: "nat \<Rightarrow> string \<Rightarrow> string" where
  "take_chars n s = concat (take n (chars_of s))"

definition handoff_brief_event :: "('h, 'g) batch_env \<Rightarrow> ('h, 'g) batch \<Rightarrow> string \<Rightarrow> harness_event option" where
  "handoff_brief_event en b args_json =
     (case apply_handoff (be_handoff en) args_json of
        Inl _ \<Rightarrow> None
      | Inr brief \<Rightarrow> Some (HE_HandoffBrief (projected_detail en b (hb_task brief)) (map (projected_detail en b) (hb_decisions brief))
          (map (projected_detail en b) (hb_files brief)) (map (projected_detail en b) (hb_ignore brief))))"

text \<open>The events a reported text result causes: the todo list, the handoff brief, the end of the call.\<close>

definition emit_state_events :: "('h, 'g) batch_env \<Rightarrow> string \<Rightarrow> bool \<Rightarrow> string \<Rightarrow> string \<Rightarrow> ('h, 'g, unit) step" where
  "emit_state_events en name ok detail args_json = act_with (\<lambda>b.
     act_then (if name = ''todo_write''
         then emit en (HE_TodosUpdated (take_chars 500 detail) (length (be_todos en (ba_host b)))) else act_return ())
       (if name = ''handoff'' \<and> ok
        then (case handoff_brief_event en b args_json of None \<Rightarrow> act_return () | Some e \<Rightarrow> emit en e) else act_return ()))"

definition emit_tool_end :: "('h, 'g) batch_env \<Rightarrow> string \<Rightarrow> bool \<Rightarrow> string \<Rightarrow> string \<Rightarrow> ('h, 'g, unit) step" where
  "emit_tool_end en name ok detail call_id = act_with (\<lambda>b. emit en (HE_ToolEnd name ok detail (b_run_id b) (b_turns b) call_id))"

definition post_hook :: "('h, 'g) batch_env \<Rightarrow> string \<Rightarrow> bool \<Rightarrow> ('h, 'g, unit) step" where
  "post_hook en name ok = act_modify (\<lambda>b. (tick b)\<lparr>ba_host := be_post_hook en (ba_clock b) (b_run_id b) name ok (ba_host b)\<rparr>)"

definition park_hook :: "('h, 'g) batch_env \<Rightarrow> string \<Rightarrow> string \<Rightarrow> ('h, 'g, unit) step" where
  "park_hook en reason question = act_modify (\<lambda>b. (tick b)\<lparr>ba_host := be_park_hook en (ba_clock b) (b_run_id b) reason question (ba_host b)\<rparr>)"

type_synonym emission = "string \<times> string \<times> bool \<times> string \<times> string"

definition mark_complete :: "('h, 'g) batch_env \<Rightarrow> nat \<Rightarrow> tool_call \<Rightarrow> ('h, 'g, unit) step" where
  "mark_complete en index call = act_with (\<lambda>b. if gp_requires_claim (be_port en) (tc_name call)
     then gov_call (gp_mark (be_port en) (stable_tool_call_id call (b_turns b) index) TE_Completed) else act_return ())"

text \<open>The calls before a park: their results are appended, completed and staged, and the emissions kept for later.\<close>

fun persist_results :: "('h, 'g) batch_env \<Rightarrow> (nat \<times> tool_call \<times> outcome) list \<Rightarrow> ('h, 'g, emission list) step" where
  "persist_results en [] = act_return []"
| "persist_results en ((index, call, r) # rs) =
     (case result_text r of
        None \<Rightarrow> persist_results en rs
      | Some (kept, shown) \<Rightarrow> act_with (\<lambda>b.
          let call_id = stable_tool_call_id call (b_turns b) index; detail = projected_detail en b kept
          in act_then (append_result en index call kept shown)
            (act_then (mark_complete en index call)
              (act_bind (persist_results en rs) (\<lambda>es. act_return ((call_id, tc_name call, result_ok r, detail, tc_args_json call) # es))))))"

definition staged_of :: "emission \<Rightarrow> staged_tool_report" where
  "staged_of e = (case e of (call_id, name, ok, detail, _) \<Rightarrow> \<lparr>sr_call_id = call_id, sr_name = name, sr_ok = ok, sr_detail = detail\<rparr>)"

definition persist_completed_prefix :: "('h, 'g) batch_env \<Rightarrow> ('h, 'g, emission list) step" where
  "persist_completed_prefix en = act_with (\<lambda>b.
     if ba_out b = [] then act_return []
     else act_bind (persist_results en (ba_out b)) (\<lambda>es.
       act_then (gov_call (gp_stage_reports (be_port en) (map staged_of es)))
         (act_then (gov_call (gp_clear (be_port en))) (act_return es))))"

definition emit_prefix_tool_ends :: "('h, 'g) batch_env \<Rightarrow> emission list \<Rightarrow> ('h, 'g, unit) step" where
  "emit_prefix_tool_ends en es = act_each (\<lambda>(call_id, name, ok, detail, args_json).
     act_then (report_tool en call_id name ok detail)
       (act_then (emit_state_events en name ok detail args_json)
         (act_then (emit_tool_end en name ok detail call_id) (post_hook en name ok)))) es"

subsection \<open>Parks\<close>

definition park_with :: "('h, 'g) batch_env \<Rightarrow> parked_state \<Rightarrow> ('h, 'g, unit) step" where
  "park_with en parked = act_then (act_modify (\<lambda>b. b\<lparr>ba_pending := Some parked\<rparr>)) (save_parked en parked)"

definition info_of :: "parked_state \<Rightarrow> string option \<Rightarrow> string option \<Rightarrow> string option \<Rightarrow> park_info" where
  "info_of parked approval display args = \<lparr>pi_reason = pk_reason parked, pi_question = pk_question parked,
     pi_tool_call_id = pk_tool_call_id parked, pi_kind = pk_kind parked, pi_approval_id = approval, pi_display_call_id = display,
     pi_args_json = args, pi_plan_digest = pk_plan_digest parked\<rparr>"

definition park_for_ask :: "('h, 'g) batch_env \<Rightarrow> tool_call \<Rightarrow> nat \<Rightarrow> emission list \<Rightarrow> ('h, 'g, batch_outcome) step" where
  "park_for_ask en call index es = act_with (\<lambda>b.
     let stable = stable_tool_call_id call (b_turns b) index;
         parked = \<lparr>pk_reason = ''ask:'' @ tc_name call, pk_question = ''Allow `'' @ tc_name call @ ''`?'',
           pk_tool_call_id = conversation_tool_call_id call (b_turns b) index, pk_kind = PK_Ask, pk_allow_call_id = stable,
           pk_plan_digest = []\<rparr>
     in act_then (park_with en parked)
       (act_then (emit_prefix_tool_ends en es)
         (act_return (BO_Parked (info_of parked None (Some stable) (Some (tc_args_json call))) (''ask=park: '' @ tc_name call)))))"

definition park_for_plan :: "('h, 'g) batch_env \<Rightarrow> tool_call \<Rightarrow> nat \<Rightarrow> string \<Rightarrow> ('h, 'g, batch_outcome) step" where
  "park_for_plan en call index summary = act_with (\<lambda>b.
     let (digest, content) = (case be_plan_file en (ba_host b) of None \<Rightarrow> ([], []) | Some bs \<Rightarrow> (digest_of (be_codec en) bs, be_lossy en bs));
         question = (if content = [] then ''Accept plan? (plan file missing or empty)''
                     else ''Accept plan?'' @ [CHR 0x0A, CHR 0x0A] @ content);
         parked = \<lparr>pk_reason = ''plan'', pk_question = question, pk_tool_call_id = conversation_tool_call_id call (b_turns b) index,
           pk_kind = PK_Plan, pk_allow_call_id = [], pk_plan_digest = digest\<rparr>
     in act_then (park_with en parked) (act_return (BO_Parked
       (info_of parked None (Some (stable_tool_call_id call (b_turns b) index)) (Some (tc_args_json call))) summary)))"

definition park_for_approval :: "('h, 'g) batch_env \<Rightarrow> tool_call \<Rightarrow> nat \<Rightarrow> approval_park \<Rightarrow> string \<Rightarrow> emission list \<Rightarrow> ('h, 'g, batch_outcome) step" where
  "park_for_approval en call index park reason es = act_with (\<lambda>b.
     if trim (ap_approval_id park) = [] then act_fail (RE_Governance (GE_Message ''require_approval is missing approval_id''))
     else let parked = \<lparr>pk_reason = reason, pk_question = ''approval '' @ ap_approval_id park @ '' is pending'',
         pk_tool_call_id = conversation_tool_call_id call (b_turns b) index, pk_kind = PK_Approval, pk_allow_call_id = [], pk_plan_digest = []\<rparr>
     in act_then (gov_call (gp_record_park (be_port en) park))
       (act_then (park_with en parked)
         (act_then (emit_prefix_tool_ends en es)
           (act_then (emit_tool_end en (tc_name call) False (''parked: '' @ reason) (stable_tool_call_id call (b_turns b) index))
             (act_then (park_hook en reason (pk_question parked))
               (act_return (BO_Parked (info_of parked (Some (ap_approval_id park)) None None) reason)))))))"

subsection \<open>Entering a call\<close>

definition call_id_at :: "('h, 'g) batch \<Rightarrow> tool_call \<Rightarrow> nat \<Rightarrow> string" where
  "call_id_at b call index = stable_tool_call_id call (b_turns b) index"

definition answered :: "('h, 'g) batch \<Rightarrow> tool_call \<Rightarrow> nat \<Rightarrow> bool" where
  "answered b call index \<longleftrightarrow> already_answered (sn_messages (ba_session b)) (b_turns b) call index"

definition parked_for :: "('h, 'g) batch_env \<Rightarrow> ('h, 'g) batch \<Rightarrow> string \<Rightarrow> approval_park option" where
  "parked_for en b call_id = (case gp_checkpoint (be_port en) (ba_gov b) of None \<Rightarrow> None | Some cp \<Rightarrow>
     (case gc_approval_park cp of None \<Rightarrow> None | Some p \<Rightarrow> if ap_call_id p = call_id then Some p else None))"

definition clear_parked :: "('h, 'g) batch_env \<Rightarrow> string \<Rightarrow> ('h, 'g, unit) step" where
  "clear_parked en call_id = act_with (\<lambda>b. if parked_for en b call_id = None then act_return ()
     else gov_call (gp_clear_park (be_port en)))"

definition ask_granted :: "('h, 'g) batch \<Rightarrow> tool_call \<Rightarrow> nat \<Rightarrow> bool" where
  "ask_granted b call index \<longleftrightarrow> (case sn_ask_allow_call_id (ba_session b) of None \<Rightarrow> False
     | Some token \<Rightarrow> token = call_id_at b call index \<or> token = conversation_tool_call_id call (b_turns b) index)"

definition must_ask :: "('h, 'g) batch_env \<Rightarrow> ('h, 'g) batch \<Rightarrow> tool_call \<Rightarrow> nat \<Rightarrow> bool" where
  "must_ask en b call index \<longleftrightarrow> rq_session_wait (be_request en) \<and> \<not> sn_plan_jail (ba_session b) \<and>
     session_ask_park (re_from_str (be_report en)) (tc_name call) (tc_args_json call) \<and> gp_asks (be_port en) \<and>
     \<not> ask_granted b call index"

definition pre_hook :: "('h, 'g) batch_env \<Rightarrow> nat \<Rightarrow> tool_call \<Rightarrow> ('h, 'g, unit flow) step" where
  "pre_hook en index call = act_with (\<lambda>b.
     let (h, r) = be_pre_hook en (ba_clock b) (b_run_id b) (tc_name call) (tc_args_json call) (ba_host b)
     in act_then (act_modify (\<lambda>b. (tick b)\<lparr>ba_host := h\<rparr>))
       (case r of Inr _ \<Rightarrow> act_return (FL_Go ())
        | Inl e \<Rightarrow> act_then (clear_parked en (call_id_at b call index)) (next_with index call (Inl e))))"

definition consume_grant :: "nat \<Rightarrow> tool_call \<Rightarrow> ('h, 'g, unit) step" where
  "consume_grant index call = act_with (\<lambda>b. if ask_granted b call index
     then on_session (\<lambda>s. clear_resumed_ask_park (s\<lparr>sn_ask_allow_call_id := None\<rparr>)) else act_return ())"

definition ask_park :: "('h, 'g) batch_env \<Rightarrow> nat \<Rightarrow> tool_call \<Rightarrow> ('h, 'g, unit flow) step" where
  "ask_park en index call = act_then (flush_children en) (act_bind (persist_completed_prefix en) (\<lambda>es.
     act_bind (park_for_ask en call index es) (\<lambda>out. act_return (FL_Exit out))))"

text \<open>The gates before authorisation: answered, bounds, allow-list, plan jail, ask park, pre-tool hook. A
  grant is consumed when its call is attempted.\<close>

definition gates :: "('h, 'g) batch_env \<Rightarrow> nat \<Rightarrow> tool_call \<Rightarrow> ('h, 'g, unit flow) step" where
  "gates en index call = act_with (\<lambda>b.
     if \<not> be_enabled en (tc_name call) then next_with index call (Inl (''tool not enabled: '' @ tc_name call))
     else case (if sn_plan_jail (ba_session b) then plan_jail_deny en b call else None) of
       Some denied \<Rightarrow> next_with index call (Inl denied)
     | None \<Rightarrow> if must_ask en b call index then ask_park en index call
         else act_then (consume_grant index call) (pre_hook en index call))"

definition enter_call :: "('h, 'g) batch_env \<Rightarrow> nat \<Rightarrow> tool_call \<Rightarrow> ('h, 'g, unit flow) step" where
  "enter_call en index call = act_with (\<lambda>b.
     if answered b call index then act_return FL_Next
     else act_bind (act_attempt (bounds en)) (\<lambda>r. case r of Inl e \<Rightarrow> flush_fail en e | Inr _ \<Rightarrow> gates en index call))"

subsection \<open>Authorising a call\<close>

definition durable_args :: "nat \<Rightarrow> tool_call \<Rightarrow> ('h, 'g, string) step" where
  "durable_args index call = act_with (\<lambda>b. act_result
     (if is_content b then (case durable_content_tool_arguments index (ba_session b) of
        None \<Rightarrow> Err (RE_Message ''durable content tool arguments are missing'') | Some args \<Rightarrow> Ok args)
      else Ok (tc_args_json call)))"

definition stage_execution :: "('h, 'g) batch_env \<Rightarrow> nat \<Rightarrow> tool_call \<Rightarrow> ('h, 'g, unit) step" where
  "stage_execution en index call = act_bind (durable_args index call) (\<lambda>args. act_with (\<lambda>b.
     gov_call (gp_stage (be_port en) \<lparr>se_call_id = call_id_at b call index, se_name = tc_name call, se_args_json = args,
       se_status = TE_Authorizing\<rparr>)))"

definition refuse_claimed :: "('h, 'g) batch_env \<Rightarrow> string \<Rightarrow> ('h, 'g, unit) step" where
  "refuse_claimed en call_id = act_with (\<lambda>b.
     if tool_execution_is_claimed (reg_at en (ba_clock b)) (ba_reg b) (b_run_id b) call_id = Ok False then act_return ()
     else flush_fail en (RE_Governance (GE_Message (''host effect refused, not claimed exclusively: tool call `'' @ call_id @
       ''` in run '' @ b_run_id b @ '' is already claimed by another execution attempt''))))"

definition authorize :: "('h, 'g) batch_env \<Rightarrow> string \<Rightarrow> tool_call \<Rightarrow> ('h, 'g, (unit, governance_error) result) step" where
  "authorize en call_id call = (\<lambda>b.
     let (g, r) = gp_authorize (be_port en) call_id (tc_name call) (tc_args_json call) (ba_gov b);
         b1 = b\<lparr>ba_gov := g\<rparr>
     in (if is_ok r then log (BE_Authorized call_id (tc_name call) (tc_args_json call)) b1 else b1, Ok r))"

definition approval_park_of :: "('h, 'g) batch_env \<Rightarrow> nat \<Rightarrow> string \<Rightarrow> tool_call \<Rightarrow> require_approval \<Rightarrow> approval_park" where
  "approval_park_of en now call_id call ra = \<lparr>ap_approval_id = ra_approval_id ra, ap_call_id = call_id, ap_tool_name = tc_name call,
     ap_authorization_id = ra_authorization_id ra, ap_request_digest = ra_request_digest ra,
     ap_arguments_digest = park_arguments_digest (be_codec en) (tc_args_json call), ap_expires_at_ms = ra_expires_at_ms ra,
     ap_parked_at_ms = int now, ap_deadline_ms = ra_deadline_ms ra\<rparr>"

text \<open>The refusals of the port: a required approval parks the run, a denial answers the call, an unanswered
  approval of this very call ends the run.\<close>

definition not_authorized :: "('h, 'g) batch_env \<Rightarrow> nat \<Rightarrow> tool_call \<Rightarrow> governance_error \<Rightarrow> ('h, 'g, unit flow) step" where
  "not_authorized en index call e = (case e of
     GE_RequireApproval ra \<Rightarrow> act_then (flush_children en) (act_bind (persist_completed_prefix en) (\<lambda>es.
       act_then (if es = [] then act_return () else stage_execution en index call)
         (act_with (\<lambda>b. act_bind (park_for_approval en call index
             (approval_park_of en (be_now en (ba_clock b)) (call_id_at b call index) call ra) (ra_reason ra) es)
           (\<lambda>out. act_return (FL_Exit out))))))
   | _ \<Rightarrow> act_with (\<lambda>b.
       if parked_for en b (call_id_at b call index) \<noteq> None \<and> \<not> is_denied e then act_fail (RE_Governance e)
       else act_then (clear_parked en (call_id_at b call index)) (next_with index call (Inl (be_show_gov en e)))))"

definition authorize_call :: "('h, 'g) batch_env \<Rightarrow> nat \<Rightarrow> tool_call \<Rightarrow> ('h, 'g, unit flow) step" where
  "authorize_call en index call = act_with (\<lambda>b.
     let call_id = call_id_at b call index; parked = parked_for en b call_id;
         bound = (case parked of None \<Rightarrow> Ok () | Some p \<Rightarrow> bind_parked_call (be_codec en) p (tc_name call) (tc_args_json call));
         claim = gp_requires_claim (be_port en) (tc_name call)
     in act_then (if is_ok bound \<and> parked \<noteq> None \<and> claim then refuse_claimed en call_id else act_return ())
       (act_then (if is_ok bound \<and> claim then act_then (stage_execution en index call) (save en) else act_return ())
         (act_bind (case bound of Inr _ \<Rightarrow> authorize en call_id call | Inl e \<Rightarrow> act_return (Err e)) (\<lambda>r.
           case r of Inr _ \<Rightarrow> act_return (FL_Go ()) | Inl e \<Rightarrow> not_authorized en index call e))))"

subsection \<open>Claiming and executing a call\<close>

definition claim :: "('h, 'g) batch_env \<Rightarrow> string \<Rightarrow> ('h, 'g, unit) step" where
  "claim en call_id = (\<lambda>b. let (r, res) = claim_tool_execution (reg_at en (ba_clock b)) (ba_reg b) (b_run_id b) call_id;
       b1 = (tick b)\<lparr>ba_reg := r\<rparr>
     in (case res of
          Inl e \<Rightarrow> (b1, Err (RE_Governance (GE_Message (''host effect refused, not claimed exclusively: '' @ be_show_reg en e))))
        | Inr _ \<Rightarrow> (log (BE_Claimed call_id) b1, Ok ())))"

definition claim_call :: "('h, 'g) batch_env \<Rightarrow> nat \<Rightarrow> tool_call \<Rightarrow> ('h, 'g, unit) step" where
  "claim_call en index call = act_with (\<lambda>b. let call_id = call_id_at b call index in
     act_then (if gp_requires_claim (be_port en) (tc_name call)
         then act_then (claim en call_id) (act_then (gov_call (gp_mark (be_port en) call_id TE_Started)) (save en))
         else act_return ())
       (clear_parked en call_id))"

definition executes :: "nat \<Rightarrow> tool_call \<Rightarrow> ('h, 'g, unit) step" where
  "executes index call = act_modify (\<lambda>b. log (BE_Executed (call_id_at b call index) (tc_name call) (tc_args_json call)) b)"

text \<open>An error of a tool is its result; a cancelled or timed out run leaves the loop.\<close>

definition child_error :: "('h, 'g) batch_env \<Rightarrow> run_error \<Rightarrow> ('h, 'g, outcome flow) step" where
  "child_error en e = (case e of RE_Cancelled \<Rightarrow> flush_fail en e | RE_TimedOut _ \<Rightarrow> flush_fail en e
     | _ \<Rightarrow> act_return (FL_Go (Inl (be_show_run en e))))"

definition start_child :: "('h, 'g) batch_env \<Rightarrow> nat \<Rightarrow> tool_call \<Rightarrow> nat \<Rightarrow> ('h, 'g, outcome flow) step" where
  "start_child en index call permits = act_with (\<lambda>b.
     let (s, r) = queue_wait_false_child_run (be_nested en) (be_cfg en) (be_watch en (ba_clock b)) (be_child_id en (ba_clock b))
       (be_request en) call (ba_session b)
     in act_then (act_modify (\<lambda>b. (tick b)\<lparr>ba_session := s\<rparr>)) (case r of
         Inr q \<Rightarrow> act_then (act_modify (\<lambda>b. b\<lparr>ba_queued := ba_queued b @ [(index, call, q)], ba_permits := Some (permits - 1)\<rparr>))
           (act_return FL_Next)
       | Inl e \<Rightarrow> child_error en e))"

definition queue_child :: "('h, 'g) batch_env \<Rightarrow> nat \<Rightarrow> tool_call \<Rightarrow> nat \<Rightarrow> ('h, 'g, outcome flow) step" where
  "queue_child en index call permits =
     (if permits = 0 then next_with index call (Inl (''nested fan-out cap ('' @
        dec_string (max (rs_nested_max_children (cf_run (be_cfg en))) 1) @ '') refuses another child_run''))
      else act_then (executes index call) (start_child en index call permits))"

definition perform_child :: "('h, 'g) batch_env \<Rightarrow> tool_call \<Rightarrow> ('h, 'g, outcome flow) step" where
  "perform_child en call = act_with (\<lambda>b.
     act_then (act_modify tick) (act_bind (act_attempt (on_children (be_child en (ba_clock b) call))) (\<lambda>r.
       case r of Inr output \<Rightarrow> act_return (FL_Go (Inr output)) | Inl e \<Rightarrow> child_error en e)))"

definition run_child :: "('h, 'g) batch_env \<Rightarrow> nat \<Rightarrow> tool_call \<Rightarrow> ('h, 'g, outcome flow) step" where
  "run_child en index call = act_then (flush_children en) (act_then (executes index call) (perform_child en call))"

text \<open>\<open>run_until_cancelled\<close>: the bounds are consulted some number of times before the tool is done; if
  they fail, the tool is dropped where it stands.\<close>

fun poll_bounds :: "('h, 'g) batch_env \<Rightarrow> nat \<Rightarrow> ('h, 'g, unit) step" where
  "poll_bounds en 0 = act_return ()"
| "poll_bounds en (Suc n) = act_then (bounds en) (poll_bounds en n)"

definition edit_result :: "(tool_output \<times> edit_outcome option, tool_error) result \<Rightarrow> edit_outcome \<times> nat option" where
  "edit_result r = (case r of Inr (_, out) \<Rightarrow> (case out of None \<Rightarrow> EO_Applied | Some k \<Rightarrow> k, None) | Inl e \<Rightarrow> edit_outcome_of e)"

definition perform_tool :: "('h, 'g) batch_env \<Rightarrow> tool_call \<Rightarrow> ('h, 'g, outcome flow) step" where
  "perform_tool en call = act_with (\<lambda>b.
     let (h, polls, r) = be_tool en (ba_clock b) (tc_name call) (tc_args_json call) (ba_host b)
     in act_then (act_modify (\<lambda>b. (tick b)\<lparr>ba_host := h\<rparr>)) (act_bind (act_attempt (poll_bounds en polls)) (\<lambda>p.
       case p of Inl e \<Rightarrow> flush_fail en e | Inr _ \<Rightarrow>
         act_then (if tc_name call \<in> set [''edit'', ''multi_edit'', ''apply_patch'']
             then (case edit_result r of (k, matches) \<Rightarrow> emit en (HE_EditOutcome (be_edit_record en (tc_name call) k matches)))
             else act_return ())
           (act_return (FL_Go (case r of Inr (output, _) \<Rightarrow> Inr output | Inl e \<Rightarrow> Inl (be_show_tool en e)))))))"

definition run_tool :: "('h, 'g) batch_env \<Rightarrow> nat \<Rightarrow> tool_call \<Rightarrow> ('h, 'g, outcome flow) step" where
  "run_tool en index call = act_then (flush_children en) (act_then (executes index call) (perform_tool en call))"

definition run_call :: "('h, 'g) batch_env \<Rightarrow> nat \<Rightarrow> tool_call \<Rightarrow> ('h, 'g, outcome flow) step" where
  "run_call en index call = act_with (\<lambda>b.
     if tc_name call = ''child_run'' \<or> tc_name call = ''child_status'' then
       (case ba_permits b of
          Some permits \<Rightarrow> if tc_name call = ''child_run'' \<and> child_run_allows_concurrent_start (re_from_str (be_report en)) (tc_args_json call)
            then queue_child en index call permits else run_child en index call
        | None \<Rightarrow> run_child en index call)
     else run_tool en index call)"

definition checked_output :: "('h, 'g) batch_env \<Rightarrow> outcome \<Rightarrow> outcome" where
  "checked_output en r = and_then r (apply_security_finder_report (be_report en) (cf_profile (be_cfg en))
     (cf_finder_role (be_cfg en)))"

subsection \<open>The serial loop\<close>

definition serial_call :: "('h, 'g) batch_env \<Rightarrow> nat \<Rightarrow> tool_call \<Rightarrow> ('h, 'g, unit flow) step" where
  "serial_call en index call = flow_bind (enter_call en index call) (\<lambda>_. flow_bind (authorize_call en index call) (\<lambda>_.
     act_then (claim_call en index call) (flow_bind (run_call en index call) (\<lambda>r. next_with index call (checked_output en r)))))"

fun serial_loop :: "('h, 'g) batch_env \<Rightarrow> nat \<Rightarrow> tool_call list \<Rightarrow> ('h, 'g, batch_outcome option) step" where
  "serial_loop en index [] = act_then (flush_children en) (act_return None)"
| "serial_loop en index (call # calls) = act_bind (serial_call en index call) (\<lambda>f.
     case f of FL_Exit out \<Rightarrow> act_return (Some out) | _ \<Rightarrow> serial_loop en (Suc index) calls)"

text \<open>Queued children that an error leaves behind give their reservations back.\<close>

definition abandon :: "('h, 'g) batch_env \<Rightarrow> run_error \<Rightarrow> ('h, 'g, 'a) step" where
  "abandon en e = act_with (\<lambda>b.
     let (s, dropped) = abandon_queued (map (\<lambda>(_, _, q). q) (ba_queued b)) (ba_session b)
     in act_then (act_modify (\<lambda>b. b\<lparr>ba_session := s, ba_queued := []\<rparr>))
       (act_then (if dropped then act_ignore (save en) else act_return ()) (act_fail e)))"

definition child_permits :: "('h, 'g) batch_env \<Rightarrow> ('h, 'g) batch \<Rightarrow> tool_call list \<Rightarrow> nat option" where
  "child_permits en b calls =
     (if batch_can_concurrent_child_starts (re_from_str (be_report en)) calls (rq_session_wait (be_request en))
        (sn_plan_jail (ba_session b)) (gp_asks (be_port en)) (hooks_need_serial (be_cfg en))
      then Some (max (rs_nested_max_children (cf_run (be_cfg en))) 1 - length (sn_children (ba_session b))) else None)"

definition serial_batch :: "('h, 'g) batch_env \<Rightarrow> tool_call list \<Rightarrow> ('h, 'g, batch_outcome option) step" where
  "serial_batch en calls = act_then (act_modify (\<lambda>b. b\<lparr>ba_permits := child_permits en b calls, ba_queued := [], ba_out := []\<rparr>))
     (act_catch (serial_loop en 0 calls) (abandon en))"

subsection \<open>The parallel batch\<close>

text \<open>
  Reads that need no claim run as concurrent tasks under a semaphore. A schedule of task numbers orders their
  port calls: a turn of a task takes its permit and authorises it, or runs its tool and frees the permit; a turn
  of a task without a free permit does nothing. Tasks the schedule leaves unfinished then run in batch order.
\<close>

datatype task_state = TS_Waiting | TS_Authorized | TS_Done outcome

type_synonym task = "nat \<times> tool_call \<times> task_state"

fun task_done :: "task \<Rightarrow> bool" where
  "task_done (_, _, TS_Done _) = True"
| "task_done _ = False"

definition running :: "task list \<Rightarrow> nat" where
  "running ts = length (filter (\<lambda>(_, _, st). st = TS_Authorized) ts)"

definition start_task :: "('h, 'g) batch_env \<Rightarrow> nat \<Rightarrow> tool_call \<Rightarrow> ('h, 'g, task_state) step" where
  "start_task en index call = act_with (\<lambda>b.
     if \<not> be_enabled en (tc_name call) then act_return (TS_Done (Inl (''tool not enabled: '' @ tc_name call)))
     else act_bind (authorize en (call_id_at b call index) call) (\<lambda>r. act_return (case r of
         Inr _ \<Rightarrow> TS_Authorized
       | Inl (GE_RequireApproval ra) \<Rightarrow> TS_Done (Inl (''parallel batch cannot park: '' @ be_show_gov en (GE_RequireApproval ra)))
       | Inl e \<Rightarrow> TS_Done (Inl (be_show_gov en e)))))"

definition finish_task :: "('h, 'g) batch_env \<Rightarrow> nat \<Rightarrow> tool_call \<Rightarrow> ('h, 'g, task_state) step" where
  "finish_task en index call = act_then (executes index call) (act_with (\<lambda>b.
     let (h, _, r) = be_tool en (ba_clock b) (tc_name call) (tc_args_json call) (ba_host b)
     in act_then (act_modify (\<lambda>b. (tick b)\<lparr>ba_host := h\<rparr>))
       (act_return (TS_Done (case r of Inr (output, _) \<Rightarrow> Inr output | Inl e \<Rightarrow> Inl (be_show_tool en e))))))"

definition task_step :: "('h, 'g) batch_env \<Rightarrow> task list \<Rightarrow> nat \<Rightarrow> ('h, 'g, task list) step" where
  "task_step en ts j = (if length ts \<le> j then act_return ts else
     (case ts ! j of
        (index, call, TS_Waiting) \<Rightarrow> if running ts \<ge> tool_concurrency (be_cfg en) then act_return ts
          else act_bind (start_task en index call) (\<lambda>st. act_return (ts[j := (index, call, st)]))
      | (index, call, TS_Authorized) \<Rightarrow> act_bind (finish_task en index call) (\<lambda>st. act_return (ts[j := (index, call, st)]))
      | (_, _, TS_Done _) \<Rightarrow> act_return ts))"

fun run_schedule :: "('h, 'g) batch_env \<Rightarrow> nat list \<Rightarrow> task list \<Rightarrow> ('h, 'g, task list) step" where
  "run_schedule en [] ts = act_return ts"
| "run_schedule en (j # js) ts = act_bind (task_step en ts j) (run_schedule en js)"

text \<open>Running tasks first, so that their permits are free: two turns finish any task then.\<close>

definition drain :: "task list \<Rightarrow> nat list" where
  "drain ts = filter (\<lambda>j. (case ts ! j of (_, _, st) \<Rightarrow> st = TS_Authorized)) [0..<length ts] @
     concat (map (\<lambda>j. [j, j]) (filter (\<lambda>j. (case ts ! j of (_, _, st) \<Rightarrow> st = TS_Waiting)) [0..<length ts]))"

fun task_outcome :: "task \<Rightarrow> (nat \<times> tool_call \<times> outcome) option" where
  "task_outcome (index, call, TS_Done r) = Some (index, call, r)"
| "task_outcome _ = None"

definition tasks_of :: "('h, 'g) batch \<Rightarrow> tool_call list \<Rightarrow> task list" where
  "tasks_of b calls = map (\<lambda>(i, c). (i, c, TS_Waiting)) (filter (\<lambda>(i, c). \<not> answered b c i) (enumerate 0 calls))"

definition parallel_batch :: "('h, 'g) batch_env \<Rightarrow> tool_call list \<Rightarrow> ('h, 'g, unit) step" where
  "parallel_batch en calls = act_then (bounds en) (act_with (\<lambda>b.
     act_bind (run_schedule en (be_schedule en (ba_clock b)) (tasks_of b calls)) (\<lambda>ts.
       act_bind (run_schedule en (drain ts) ts) (\<lambda>ts.
         act_modify (\<lambda>b. b\<lparr>ba_out := sort_key fst (List.map_filter task_outcome ts)\<rparr>)))))"

subsection \<open>Appending, staging and reporting\<close>

definition kept_for_plan :: "('h, 'g) batch \<Rightarrow> outcome \<Rightarrow> bool" where
  "kept_for_plan b r \<longleftrightarrow> sn_plan_jail (ba_session b) \<and> \<not> is_content b \<and> (case r of Inr (TO_Report _) \<Rightarrow> True | _ \<Rightarrow> False)"

definition append_outcomes :: "('h, 'g) batch_env \<Rightarrow> (nat \<times> tool_call \<times> outcome) list \<Rightarrow> ('h, 'g, unit) step" where
  "append_outcomes en = act_each (\<lambda>(index, call, r). act_with (\<lambda>b. if kept_for_plan b r then act_return ()
     else (case result_text r of None \<Rightarrow> act_return () | Some (kept, shown) \<Rightarrow> append_result en index call kept shown)))"

fun content_report :: "(nat \<times> tool_call \<times> outcome) list \<Rightarrow> (bool \<times> string) option" where
  "content_report [] = None"
| "content_report ((_, _, Inr (TO_Report r)) # rs) =
     (case content_report rs of Some t \<Rightarrow> Some t | None \<Rightarrow> Some (rp_success r, rp_summary r))"
| "content_report (_ # rs) = content_report rs"

fun detail_of :: "('h, 'g) batch_env \<Rightarrow> ('h, 'g) batch \<Rightarrow> outcome \<Rightarrow> string" where
  "detail_of en b (Inr (TO_Text t)) = projected_detail en b t"
| "detail_of en b (Inr (TO_Report r)) = projected_detail en b (rp_summary r)"
| "detail_of en b (Inr (TO_Park p)) = ''parked: '' @ pq_reason p"
| "detail_of en b (Inl detail) = projected_detail en b detail"

definition staged_reports :: "('h, 'g) batch_env \<Rightarrow> ('h, 'g) batch \<Rightarrow> (nat \<times> tool_call \<times> outcome) list \<Rightarrow> staged_tool_report list" where
  "staged_reports en b rs = map (\<lambda>(index, call, r). \<lparr>sr_call_id = call_id_at b call index, sr_name = tc_name call,
     sr_ok = result_ok r, sr_detail = detail_of en b r\<rparr>) rs"

definition mark_terminal :: "('h, 'g) batch_env \<Rightarrow> token_usage \<Rightarrow> (nat \<times> tool_call \<times> outcome) list \<Rightarrow> ('h, 'g, unit) step" where
  "mark_terminal en usage rs = act_with (\<lambda>b.
     case (if is_content b \<and> \<not> rq_session_wait (be_request en) then content_report rs else None) of
       None \<Rightarrow> act_return ()
     | Some (ok, summary) \<Rightarrow>
         act_bind (act_result (mark_content_terminal (sv_content (be_save en)) ok RT_Completed summary usage (ba_session b)))
           (\<lambda>s. on_session (\<lambda>_. s)))"

text \<open>The whole batch becomes durable before any of it is reported.\<close>

definition stage_batch :: "('h, 'g) batch_env \<Rightarrow> token_usage \<Rightarrow> (nat \<times> tool_call \<times> outcome) list \<Rightarrow> ('h, 'g, unit) step" where
  "stage_batch en usage rs = act_then (append_outcomes en rs)
     (act_then (act_each (\<lambda>(index, call, _). mark_complete en index call) rs)
       (act_then (act_with (\<lambda>b. gov_call (gp_stage_reports (be_port en) (staged_reports en b rs))))
         (act_then (gov_call (gp_clear (be_port en)))
           (act_then (mark_terminal en usage rs) (save en)))))"

definition park_for_escalate :: "('h, 'g) batch_env \<Rightarrow> tool_call \<Rightarrow> nat \<Rightarrow> park_request \<Rightarrow> ('h, 'g, batch_outcome) step" where
  "park_for_escalate en call index park = act_with (\<lambda>b.
     let call_id = call_id_at b call index; detail = ''parked: '' @ pq_reason park;
         parked = \<lparr>pk_reason = pq_reason park, pk_question = pq_question park,
           pk_tool_call_id = conversation_tool_call_id call (b_turns b) index, pk_kind = PK_Escalate, pk_allow_call_id = [],
           pk_plan_digest = []\<rparr>
     in act_then (act_modify (\<lambda>b. b\<lparr>ba_pending := Some parked\<rparr>))
       (act_bind (act_attempt (report_tool en call_id ''escalate'' False detail)) (\<lambda>reported.
         act_then (save_parked en parked) (act_then (act_result reported)
           (act_then (emit_tool_end en ''escalate'' False detail call_id)
             (act_then (park_hook en (pq_reason park) (pq_question park))
               (act_return (BO_Parked (info_of parked None (Some call_id) (Some (tc_args_json call))) (pq_reason park)))))))))"

definition report_one :: "('h, 'g) batch_env \<Rightarrow> nat \<Rightarrow> tool_call \<Rightarrow> outcome \<Rightarrow> ('h, 'g, (string \<times> bool) flow) step" where
  "report_one en index call r = act_with (\<lambda>b. let call_id = call_id_at b call index; detail = detail_of en b r in
     case r of
       Inr (TO_Text _) \<Rightarrow> act_then (report_tool en call_id (tc_name call) True detail)
         (act_then (emit_state_events en (tc_name call) True detail (tc_args_json call))
           (act_then (emit_tool_end en (tc_name call) True (take_chars 500 detail) call_id)
             (act_then (post_hook en (tc_name call) True) (act_return FL_Next))))
     | Inr (TO_Report rep) \<Rightarrow>
         if kept_for_plan b r then act_bind (park_for_plan en call index (rp_summary rep)) (\<lambda>out. act_return (FL_Exit out))
         else act_then (report_tool en call_id ''report'' (rp_success rep) detail)
           (act_then (emit_tool_end en ''report'' (rp_success rep) detail call_id) (act_return (FL_Go (rp_summary rep, rp_success rep))))
     | Inr (TO_Park park) \<Rightarrow> act_bind (park_for_escalate en call index park) (\<lambda>out. act_return (FL_Exit out))
     | Inl _ \<Rightarrow> act_then (report_tool en call_id (tc_name call) False detail)
         (act_then (emit_tool_end en (tc_name call) False detail call_id)
           (act_then (post_hook en (tc_name call) False) (act_return FL_Next))))"

fun report_loop :: "('h, 'g) batch_env \<Rightarrow> (nat \<times> tool_call \<times> outcome) list \<Rightarrow> (string \<times> bool) option \<Rightarrow>
    ('h, 'g, (string \<times> bool) option flow) step" where
  "report_loop en [] term = act_return (FL_Go term)"
| "report_loop en ((index, call, r) # rs) term = act_bind (report_one en index call r) (\<lambda>f. case f of
     FL_Exit out \<Rightarrow> act_return (FL_Exit out)
   | FL_Next \<Rightarrow> act_then (save en) (report_loop en rs term)
   | FL_Go t \<Rightarrow> act_then (save en) (report_loop en rs (Some t)))"

definition prompt_wait_park :: parked_state where
  "prompt_wait_park = \<lparr>pk_reason = ''end_turn'', pk_question = [], pk_tool_call_id = [], pk_kind = PK_PromptWait,
     pk_allow_call_id = [], pk_plan_digest = []\<rparr>"

definition finish_reports :: "('h, 'g) batch_env \<Rightarrow> (string \<times> bool) option \<Rightarrow> ('h, 'g, batch_outcome) step" where
  "finish_reports en term = act_then (save en) (case term of
     None \<Rightarrow> act_return BO_Continue
   | Some (summary, ok) \<Rightarrow>
       if rq_session_wait (be_request en)
       then act_then (park_with en prompt_wait_park) (act_return (BO_Parked (info_of prompt_wait_park None None None) summary))
       else act_return (BO_Completed summary ok))"

definition report_batch :: "('h, 'g) batch_env \<Rightarrow> token_usage \<Rightarrow> ('h, 'g, batch_outcome) step" where
  "report_batch en usage = act_with (\<lambda>b. act_then (stage_batch en usage (ba_out b))
     (act_bind (report_loop en (ba_out b) None) (\<lambda>f. case f of
        FL_Exit out \<Rightarrow> act_return out
      | FL_Next \<Rightarrow> act_return BO_Continue
      | FL_Go term \<Rightarrow> finish_reports en term)))"

subsection \<open>The batch\<close>

definition rejection :: string where
  "rejection = ''tool batch rejected: report/escalate must be the only call''"

text \<open>A rejected batch answers every call under its own id, which may be empty outside a content run.\<close>

fun reject_batch :: "('h, 'g) batch_env \<Rightarrow> nat \<Rightarrow> tool_call list \<Rightarrow> ('h, 'g, unit) step" where
  "reject_batch en index [] = act_return ()"
| "reject_batch en index (call # calls) = act_with (\<lambda>b.
     let call_id = (if is_content b then conversation_tool_call_id call (b_turns b) index else tc_id call)
     in act_then (content_text en call_id rejection) (act_then (push_message call_id rejection) (reject_batch en (Suc index) calls)))"

definition start_events :: "('h, 'g) batch_env \<Rightarrow> tool_call list \<Rightarrow> ('h, 'g, unit) step" where
  "start_events en calls = act_each (\<lambda>(index, call). act_with (\<lambda>b. if answered b call index then act_return ()
     else emit en (HE_ToolStart (tc_name call) (projected_detail en b (tc_args_json call)) (b_run_id b) (b_turns b)
       (call_id_at b call index)))) (enumerate 0 calls)"

definition admit_batch :: "('h, 'g) batch_env \<Rightarrow> tool_call list \<Rightarrow> ('h, 'g, unit) step" where
  "admit_batch en calls = act_with (\<lambda>b. act_result
     (if is_content b \<and> list_ex (\<lambda>c. tc_name c = ''escalate'') calls
      then Err (RE_Governance (GE_Denied ''bounded content runs do not support parking''))
      else case (if be_replay en then find (\<lambda>c. replay_authority_of (tc_name c) = RA_Denied) calls else None) of
        Some c \<Rightarrow> Err (RE_Governance (GE_Denied (''replay forbids effect-capable or unknown tool `'' @ tc_name c @ ''`'')))
      | None \<Rightarrow> Ok ()))"

definition execute_batch :: "('h, 'g) batch_env \<Rightarrow> tool_call list \<Rightarrow> token_usage \<Rightarrow> ('h, 'g, batch_outcome) step" where
  "execute_batch en calls usage = act_then (admit_batch en calls)
     (if list_ex (\<lambda>c. must_be_exclusive_batch (tc_name c)) calls \<and> length calls \<noteq> 1
      then act_then (reject_batch en 0 calls) (act_then (save en) (act_return BO_Continue))
      else act_then (start_events en calls)
        (if can_parallel en calls then act_then (parallel_batch en calls) (report_batch en usage)
         else act_bind (serial_batch en calls) (\<lambda>exit. case exit of
           Some out \<Rightarrow> act_return out | None \<Rightarrow> report_batch en usage)))"

subsection \<open>The port of the in-process adapters\<close>

text \<open>Which calls must be claimed: every call, unless the adapter knows that the call has no effect on the host.\<close>

definition tool_requires_execution_checkpoint :: "string \<Rightarrow> bool" where
  "tool_requires_execution_checkpoint name \<longleftrightarrow> True"

definition requires_external_action :: "string \<Rightarrow> bool" where
  "requires_external_action name \<longleftrightarrow> name \<notin> set [''report'', ''escalate'', ''todo_write'', ''handoff'']"

definition on_durability :: "(durability \<Rightarrow> durability \<times> ('a, governance_error) result) \<Rightarrow> in_process_state \<Rightarrow>
    in_process_state \<times> ('a, governance_error) result" where
  "on_durability f s = (let (d, r) = f (ip_durability s) in (s\<lparr>ip_durability := d\<rparr>, r))"

definition in_process_port :: "string \<Rightarrow> in_process_state gov_port" where
  "in_process_port run = \<lparr>gp_checkpoint = (\<lambda>s. ip_checkpoint_state s run), gp_requires_claim = tool_requires_execution_checkpoint,
     gp_asks = True, gp_stage = (\<lambda>e. on_durability (\<lambda>d. ld_stage d run e)),
     gp_mark = (\<lambda>c st. on_durability (\<lambda>d. ld_mark d run c st)), gp_clear = on_durability (\<lambda>d. ld_clear d run),
     gp_authorize = (\<lambda>c name args s. (s, ip_authorize_tool s name)),
     gp_record_park = (\<lambda>p. on_durability (\<lambda>d. ld_record_approval_park d run p)),
     gp_clear_park = on_durability (\<lambda>d. ld_clear_approval_park d run),
     gp_stage_reports = (\<lambda>rs. on_durability (\<lambda>d. ld_stage_reports d run rs)),
     gp_report = (\<lambda>c name ok detail. on_durability (\<lambda>d. ip_report_tool_with_id d run c))\<rparr>"

end
