(* ===== verification/Batch_Laws.thy ===== *)
theory Batch_Laws
  imports Tool_Batch
begin

section \<open>What a batch of tool calls guarantees\<close>

text \<open>
  The gates of the batch, as statements on its log: what must have happened before a call executes, that an
  effect is executed at most once, that a batch that refuses executes nothing. A step is \<open>quiet\<close> when it
  claims and executes nothing and keeps the claims; everything but the claim and the execution of a call is.
\<close>

subsection \<open>Quiet steps\<close>

fun harmless :: "batch_event \<Rightarrow> bool" where
  "harmless (BE_Claimed _) = False"
| "harmless (BE_Executed _ _ _) = False"
| "harmless _ = True"

definition quiet :: "('h, 'g) batch \<Rightarrow> ('h, 'g) batch \<Rightarrow> bool" where
  "quiet b b' \<longleftrightarrow> b_run_id b' = b_run_id b \<and> b_turns b' = b_turns b \<and>
     set (claims (ba_reg b) (b_run_id b)) \<subseteq> set (claims (ba_reg b') (b_run_id b)) \<and>
     (\<exists>es. ba_trace b' = es @ ba_trace b \<and> list_all harmless es)"

text \<open>Children run on the parent's registry; they keep the parent's claims, its run id and its turn.\<close>

definition keeps_parent :: "('h child_state \<Rightarrow> 'h child_state \<times> 'a) \<Rightarrow> bool" where
  "keeps_parent f \<longleftrightarrow> (\<forall>h r d s. case f (h, r, d, s) of ((h', r', d', s'), res) \<Rightarrow>
     sn_run_id s' = sn_run_id s \<and> sn_turns s' = sn_turns s \<and> set (claims r (sn_run_id s)) \<subseteq> set (claims r' (sn_run_id s)))"

definition children_keep_parent :: "('h, 'g) batch_env \<Rightarrow> bool" where
  "children_keep_parent en \<longleftrightarrow> (\<forall>n call. keeps_parent (be_child en n call)) \<and> (\<forall>n q. keeps_parent (be_wait_children en n q))"

lemma quiet_refl [simp]: "quiet b b"
  by (simp add: quiet_def)

lemma quiet_trans: "quiet a b \<Longrightarrow> quiet b c \<Longrightarrow> quiet a c"
  unfolding quiet_def by (metis (no_types, lifting) append.assoc list_all_append subset_trans)

lemma quiet_step:
  assumes "quiet b0 b" and "b_run_id b' = b_run_id b" and "b_turns b' = b_turns b"
    and "set (claims (ba_reg b) (b_run_id b)) \<subseteq> set (claims (ba_reg b') (b_run_id b))"
    and "ba_trace b' = ba_trace b \<or> (\<exists>e. harmless e \<and> ba_trace b' = e # ba_trace b)"
  shows "quiet b0 b'"
proof -
  have "quiet b b'" using assms(2-5) unfolding quiet_def by (auto intro: exI [of _ "[_]"])
  with assms(1) show ?thesis by (rule quiet_trans)
qed

lemmas quiet_same = quiet_step [OF _ _ _ _ disjI1]

text \<open>The projections of the state that quiet steps are about.\<close>

lemma batch_views [simp]:
  "b_run_id (log e b) = b_run_id b" "b_turns (log e b) = b_turns b" "ba_reg (log e b) = ba_reg b"
  "ba_trace (log e b) = e # ba_trace b" "ba_session (log e b) = ba_session b" "ba_gov (log e b) = ba_gov b"
  "b_run_id (tick b) = b_run_id b" "b_turns (tick b) = b_turns b" "ba_reg (tick b) = ba_reg b" "ba_trace (tick b) = ba_trace b"
  "ba_session (tick b) = ba_session b" "ba_gov (tick b) = ba_gov b"
  "ba_out (tick b) = ba_out b" "ba_out (log e b) = ba_out b" "ba_queued (tick b) = ba_queued b" "ba_queued (log e b) = ba_queued b"
  by (simp_all add: log_def tick_def b_run_id_def b_turns_def)

lemma claims_append_event [simp]: "claims (append_event en now r run e) = claims r"
  by (auto simp: append_event_def Let_def stored_set_keep split: option.splits)

lemma bind_content_keeps [simp]: "sn_run_id (bind_content c s) = sn_run_id s" "sn_turns (bind_content c s) = sn_turns s"
  "sn_messages (bind_content c s) = sn_messages s"
  by (simp_all add: bind_content_def)

lemma save_keeps:
  assumes "save_with_retention en io torn gov todos keep park d s = (d', s', r)"
  shows "sn_run_id s' = sn_run_id s \<and> sn_turns s' = sn_turns s \<and> sn_messages s' = sn_messages s"
  using assms by (auto simp: save_with_retention_def split: option.splits prod.splits sum.splits)

lemma content_tool_text_keeps:
  assumes "append_content_tool_text en c t h s = (h', s', r)"
  shows "sn_run_id s' = sn_run_id s \<and> sn_turns s' = sn_turns s \<and> sn_messages s' = sn_messages s"
  using assms by (auto simp: append_content_tool_text_def on_content_def split: option.splits prod.splits)

lemma drop_child_keeps [simp]: "sn_run_id (drop_unlaunched_reservation c s) = sn_run_id s"
  "sn_turns (drop_unlaunched_reservation c s) = sn_turns s" "sn_messages (drop_unlaunched_reservation c s) = sn_messages s"
  by (simp_all add: drop_unlaunched_reservation_def drop_child_def)

lemma abandon_queued_keeps:
  "abandon_queued cs s = (s', dropped) \<Longrightarrow> sn_run_id s' = sn_run_id s \<and> sn_turns s' = sn_turns s \<and> sn_messages s' = sn_messages s"
  by (induction cs s arbitrary: s' dropped rule: abandon_queued.induct) (auto simp: Let_def split: prod.splits)

lemma prepare_child_keeps:
  "prepare_child_run en cfg c q a s = (s', r) \<Longrightarrow> sn_run_id s' = sn_run_id s \<and> sn_turns s' = sn_turns s \<and> sn_messages s' = sn_messages s"
  by (auto simp: prepare_child_run_def split: option.splits sum.splits if_splits)

lemma queue_child_keeps:
  assumes "queue_wait_false_child_run en cfg w c q call s = (s', r)"
  shows "sn_run_id s' = sn_run_id s \<and> sn_turns s' = sn_turns s \<and> sn_messages s' = sn_messages s"
  using assms by (auto simp: queue_wait_false_child_run_def dest!: prepare_child_keeps split: prod.splits sum.splits if_splits)

subsection \<open>The quiet operations\<close>

lemma keeps_quiet_modify [triples]:
  "(\<And>b. b_run_id (f b) = b_run_id b \<and> b_turns (f b) = b_turns b \<and> ba_reg (f b) = ba_reg b \<and> ba_trace (f b) = ba_trace b) \<Longrightarrow>
   keeps (quiet b0) (act_modify f)"
  by (rule keeps_modify) (auto intro: quiet_same)

lemma quiet_bounds [triples]: "keeps (quiet b0) (bounds en)"
  by (auto simp: hoare_def bounds_def intro: quiet_same)

lemma quiet_gov_call [triples]: "keeps (quiet b0) (gov_call f)"
  by (auto simp: hoare_def gov_call_def b_run_id_def b_turns_def split: prod.splits intro: quiet_same)

lemma quiet_emit [triples]: "keeps (quiet b0) (emit en e)"
proof -
  have "quiet b0 b \<Longrightarrow> quiet b0 (fst (emit en e b))" for b
    by (erule quiet_step) (auto simp: emit_def b_run_id_def b_turns_def log_def tick_def)
  then show ?thesis by (simp add: hoare_def)
qed

lemma quiet_save_session [triples]: "keeps (quiet b0) (save_session en keep park)"
proof -
  have "quiet b0 b \<Longrightarrow> quiet b0 (fst (save_session en keep park b))" for b
    by (erule quiet_step)
      (auto simp: save_session_def b_run_id_def b_turns_def log_def tick_def Let_def
        dest!: save_keeps split: prod.splits sum.splits)
  then show ?thesis by (simp add: hoare_def)
qed

lemma quiet_content_text [triples]: "keeps (quiet b0) (content_text en c t)"
proof -
  have "quiet b0 b \<Longrightarrow> quiet b0 (fst (content_text en c t b))" for b
    by (erule quiet_same) (auto simp: content_text_def b_run_id_def b_turns_def Let_def dest!: content_tool_text_keeps split: prod.splits)
  then show ?thesis by (simp add: hoare_def)
qed

lemma quiet_on_session [triples]:
  "(\<And>s. sn_run_id (f s) = sn_run_id s \<and> sn_turns (f s) = sn_turns s) \<Longrightarrow> keeps (quiet b0) (on_session f)"
  unfolding on_session_def by (intro keeps_quiet_modify) (simp add: b_run_id_def b_turns_def)

lemma quiet_on_children [triples]: "keeps_parent f \<Longrightarrow> keeps (quiet b0) (on_children f)"
proof -
  assume f: "keeps_parent f"
  have "quiet b0 b \<Longrightarrow> quiet b0 (fst (on_children f b))" for b
    using f [unfolded keeps_parent_def, rule_format, where h = "ba_host b" and r = "ba_reg b" and d = "ba_disk b" and s = "ba_session b"]
    by - (erule quiet_same; simp add: on_children_def b_run_id_def b_turns_def split: prod.splits)
  then show ?thesis by (simp add: hoare_def)
qed

lemma quiet_authorize [triples]: "keeps (quiet b0) (authorize en c call)"
proof -
  have "quiet b0 b \<Longrightarrow> quiet b0 (fst (authorize en c call b))" for b
    by (erule quiet_step) (auto simp: authorize_def Let_def b_run_id_def b_turns_def split: prod.splits)
  then show ?thesis by (simp add: hoare_def)
qed

lemma quiet_report_tool [triples]: "keeps (quiet b0) (report_tool en c n ok d)"
proof -
  have "keeps (quiet b0) (act_modify (log (BE_Reported c ok)))"
    by (rule keeps_modify) (auto intro: quiet_step)
  then show ?thesis unfolding report_tool_def
    by (intro keeps_bind keeps_attempt quiet_gov_call keeps_sum keeps_if hoare_fail hoare_return) simp_all
qed

lemma quiet_save [triples]: "keeps (quiet b0) (save en)" "keeps (quiet b0) (save_parked en park)"
  unfolding save_def save_parked_def by (intro triples)+

lemma quiet_push_message [triples]: "keeps (quiet b0) (push_message c t)"
  unfolding push_message_def by (intro triples) (simp add: b_run_id_def b_turns_def)

lemma quiet_push_out [triples]: "keeps (quiet b0) (push_out i c r)" "keeps (quiet b0) (next_with i c r)"
  unfolding next_with_def push_out_def by (intro triples; simp add: b_run_id_def b_turns_def)+

lemma quiet_append_result [triples]: "keeps (quiet b0) (append_result en i c t u)"
  unfolding append_result_def Let_def by (intro triples)

lemma quiet_hooks [triples]: "keeps (quiet b0) (post_hook en n ok)" "keeps (quiet b0) (park_hook en r q)"
  unfolding post_hook_def park_hook_def by (intro triples; simp add: b_run_id_def b_turns_def tick_def)+

lemma quiet_emissions [triples]:
  "keeps (quiet b0) (emit_state_events en n ok d a)" "keeps (quiet b0) (emit_tool_end en n ok d c)"
  "keeps (quiet b0) (emit_prefix_tool_ends en es)"
  unfolding emit_state_events_def emit_tool_end_def emit_prefix_tool_ends_def by (intro triples; simp)+

lemma quiet_mark_complete [triples]: "keeps (quiet b0) (mark_complete en i c)"
  unfolding mark_complete_def by (intro triples; simp)

lemma quiet_persist [triples]: "keeps (quiet b0) (persist_results en rs)" "keeps (quiet b0) (persist_completed_prefix en)"
proof -
  show "keeps (quiet b0) (persist_results en rs)" for rs
    by (induction en rs rule: persist_results.induct) (auto intro!: triples simp: Let_def split: option.split)
  then show "keeps (quiet b0) (persist_completed_prefix en)"
    unfolding persist_completed_prefix_def by (intro triples; simp)
qed

lemma quiet_parks [triples]:
  "keeps (quiet b0) (park_with en p)" "keeps (quiet b0) (park_for_ask en c i es)" "keeps (quiet b0) (park_for_plan en c i t)"
  "keeps (quiet b0) (park_for_approval en c i a t es)" "keeps (quiet b0) (park_for_escalate en c i q)"
proof -
  show *: "keeps (quiet b0) (park_with en p)" for p
    unfolding park_with_def by (intro triples; simp add: b_run_id_def b_turns_def)
  show "keeps (quiet b0) (park_for_ask en c i es)" unfolding park_for_ask_def Let_def by (intro triples *; simp)
  show "keeps (quiet b0) (park_for_plan en c i t)" unfolding park_for_plan_def Let_def by (intro triples *; simp)
  show "keeps (quiet b0) (park_for_approval en c i a t es)" unfolding park_for_approval_def Let_def by (intro triples *; simp)
  show "keeps (quiet b0) (park_for_escalate en c i q)"
    unfolding park_for_escalate_def Let_def by (intro triples *; simp add: b_run_id_def b_turns_def)
qed

lemma quiet_clear_parked [triples]: "keeps (quiet b0) (clear_parked en c)"
  unfolding clear_parked_def by (intro triples; simp)

lemma quiet_pre_hook [triples]: "keeps (quiet b0) (pre_hook en i c)"
  unfolding pre_hook_def Let_def by (intro triples; simp add: b_run_id_def b_turns_def tick_def)

lemma quiet_stage [triples]: "keeps (quiet b0) (durable_args i c)" "keeps (quiet b0) (stage_execution en i c)"
  unfolding stage_execution_def durable_args_def by (intro triples; simp)+

lemma quiet_poll [triples]: "keeps (quiet b0) (poll_bounds en n)"
  by (induction n) (auto intro!: triples)

text \<open>With children that keep their parent, so is everything that waits for them.\<close>

lemma quiet_flush_children [triples]: "children_keep_parent en \<Longrightarrow> keeps (quiet b0) (flush_children en)"
  unfolding flush_children_def children_keep_parent_def
  by (intro triples; simp add: b_run_id_def b_turns_def tick_def)

lemma quiet_flush_fail [triples]: "children_keep_parent en \<Longrightarrow> keeps (quiet b0) (flush_fail en e)"
  unfolding flush_fail_def by (intro triples)

lemma quiet_enter_call [triples]: "children_keep_parent en \<Longrightarrow> keeps (quiet b0) (enter_call en i c)"
proof -
  assume c: "children_keep_parent en"
  have "keeps (quiet b0) (consume_grant i c)"
    unfolding consume_grant_def by (intro triples; simp add: clear_resumed_ask_park_def)
  moreover have "keeps (quiet b0) (ask_park en i c)" unfolding ask_park_def by (intro triples c; simp)
  ultimately show ?thesis unfolding enter_call_def gates_def by (intro triples c; simp)
qed

lemma quiet_refuse_claimed [triples]: "children_keep_parent en \<Longrightarrow> keeps (quiet b0) (refuse_claimed en c)"
  unfolding refuse_claimed_def by (intro triples; simp)

lemma quiet_not_authorized [triples]: "children_keep_parent en \<Longrightarrow> keeps (quiet b0) (not_authorized en i c e)"
  unfolding not_authorized_def by (cases e) (auto intro!: triples)

lemma quiet_authorize_call [triples]: "children_keep_parent en \<Longrightarrow> keeps (quiet b0) (authorize_call en i c)"
  unfolding authorize_call_def Let_def by (intro triples; simp)

lemma quiet_child_error [triples]: "children_keep_parent en \<Longrightarrow> keeps (quiet b0) (child_error en e)"
  unfolding child_error_def by (cases e) (auto intro!: triples)

lemma quiet_report_one [triples]: "keeps (quiet b0) (report_one en i c r)"
  unfolding report_one_def Let_def
  by (cases r; (rename_tac x; case_tac x)?) (auto intro!: triples)

lemma quiet_report_loop [triples]: "keeps (quiet b0) (report_loop en rs term)"
proof (induction en rs "term" rule: report_loop.induct)
  case (2 en index call r rs "term")
  show ?case unfolding report_loop.simps
  proof (intro keeps_bind quiet_report_one)
    show "keeps (quiet b0) (case f of FL_Exit out \<Rightarrow> act_return (FL_Exit out)
        | FL_Next \<Rightarrow> act_then (save en) (report_loop en rs term) | FL_Go t \<Rightarrow> act_then (save en) (report_loop en rs (Some t)))" for f
      by (cases f) (auto intro!: triples 2)
  qed
qed (auto intro!: triples)

lemma mark_content_terminal_keeps:
  "mark_content_terminal en ok k t u s = Inr s' \<Longrightarrow> sn_run_id s' = sn_run_id s \<and> sn_turns s' = sn_turns s \<and> sn_messages s' = sn_messages s"
  by (auto simp: mark_content_terminal_def split: option.splits)

lemma quiet_mark_terminal [triples]: "keeps (quiet b0) (mark_terminal en u rs)"
proof -
  have "quiet b0 b \<Longrightarrow> quiet b0 (fst (mark_terminal en u rs b))" for b
    by (erule quiet_same)
      (auto simp: mark_terminal_def act_with_def act_bind_def act_result_def act_return_def on_session_def act_modify_def
        b_run_id_def b_turns_def dest: mark_content_terminal_keeps split: option.splits sum.splits)
  then show ?thesis by (simp add: hoare_def)
qed

lemma quiet_append_outcomes [triples]: "keeps (quiet b0) (append_outcomes en rs)"
  unfolding append_outcomes_def by (intro triples; simp)

lemma quiet_stage_batch [triples]: "keeps (quiet b0) (stage_batch en u rs)"
  unfolding stage_batch_def by (intro triples)

lemma quiet_report_batch [triples]: "keeps (quiet b0) (report_batch en u)"
proof -
  have "keeps (quiet b0) (finish_reports en term)" for "term"
    unfolding finish_reports_def by (intro triples; simp)
  then have "keeps (quiet b0) (case f of FL_Exit out \<Rightarrow> act_return out | FL_Next \<Rightarrow> act_return BO_Continue
      | FL_Go term \<Rightarrow> finish_reports en term)" for f
    by (cases f) (auto intro!: triples)
  then show ?thesis unfolding report_batch_def by (intro triples)
qed

lemma quiet_admission [triples]:
  "keeps (quiet b0) (admit_batch en calls)" "keeps (quiet b0) (start_events en calls)" "keeps (quiet b0) (reject_batch en i calls)"
proof -
  show "keeps (quiet b0) (admit_batch en calls)" unfolding admit_batch_def by (intro triples; simp)
  show "keeps (quiet b0) (start_events en calls)" unfolding start_events_def by (intro triples; simp)
  show "keeps (quiet b0) (reject_batch en i calls)"
    by (induction en i calls rule: reject_batch.induct) (auto intro!: triples simp: Let_def)
qed

subsection \<open>The ledger\<close>

text \<open>The calls the log claimed, and those it executed of the tools that need a claim.\<close>

fun claimed :: "batch_event list \<Rightarrow> string list" where
  "claimed [] = []"
| "claimed (BE_Claimed c # es) = c # claimed es"
| "claimed (_ # es) = claimed es"

fun executed :: "('h, 'g) batch_env \<Rightarrow> batch_event list \<Rightarrow> string list" where
  "executed en [] = []"
| "executed en (BE_Executed c name args # es) = (if gp_requires_claim (be_port en) name then c # executed en es else executed en es)"
| "executed en (_ # es) = executed en es"

text \<open>A checkpoint whose execution marker keeps a restart from retrying the call was saved after the claim.\<close>

fun marked_durable :: "string \<Rightarrow> checkpoint \<Rightarrow> bool" where
  "marked_durable c cp = (case cp_governance cp of None \<Rightarrow> False | Some g \<Rightarrow> in_doubt c g)"

fun claimed_saved :: "string \<Rightarrow> batch_event list \<Rightarrow> bool" where
  "claimed_saved c [] = False"
| "claimed_saved c (BE_Saved cp # es) = (marked_durable c cp \<and> c \<in> set (claimed es) \<or> claimed_saved c es)"
| "claimed_saved c (_ # es) = claimed_saved c es"

fun guarded :: "('h, 'g) batch_env \<Rightarrow> batch_event list \<Rightarrow> bool" where
  "guarded en [] = True"
| "guarded en (BE_Executed c name args # es) = (guarded en es \<and> be_enabled en name \<and> BE_Authorized c name args \<in> set es \<and>
     (gp_requires_claim (be_port en) name \<longrightarrow> claimed_saved c es \<and> c \<notin> set (executed en es)))"
| "guarded en (_ # es) = guarded en es"

lemma harmless_append:
  assumes "list_all harmless es"
  shows "claimed (es @ tr) = claimed tr" and "executed en (es @ tr) = executed en tr" and "guarded en (es @ tr) = guarded en tr"
    and "claimed_saved c tr \<Longrightarrow> claimed_saved c (es @ tr)"
proof -
  have "claimed (es @ tr) = claimed tr \<and> executed en (es @ tr) = executed en tr \<and> guarded en (es @ tr) = guarded en tr \<and>
      (claimed_saved c tr \<longrightarrow> claimed_saved c (es @ tr))"
    using assms
  proof (induction es)
    case (Cons e es)
    then show ?case by (cases e) auto
  qed simp
  then show "claimed (es @ tr) = claimed tr" and "executed en (es @ tr) = executed en tr" and "guarded en (es @ tr) = guarded en tr"
    and "claimed_saved c tr \<Longrightarrow> claimed_saved c (es @ tr)" by blast+
qed

lemma claimed_saved_claimed: "claimed_saved c tr \<Longrightarrow> c \<in> set (claimed tr)"
  by (induction c tr rule: claimed_saved.induct) auto

lemma guarded_executed: "guarded en tr \<Longrightarrow> distinct (executed en tr) \<and> set (executed en tr) \<subseteq> set (claimed tr)"
  by (induction en tr rule: guarded.induct) (auto dest: claimed_saved_claimed)

definition claim_files :: "('h, 'g) batch_env \<Rightarrow> string list \<Rightarrow> string list" where
  "claim_files en cs = map (claim_filename (be_reg en)) cs"

definition ledger :: "('h, 'g) batch_env \<Rightarrow> string \<Rightarrow> nat \<Rightarrow> string set \<Rightarrow> ('h, 'g) batch \<Rightarrow> bool" where
  "ledger en run turn old b \<longleftrightarrow> b_run_id b = run \<and> b_turns b = turn \<and> guarded en (ba_trace b) \<and>
     distinct (claim_files en (claimed (ba_trace b))) \<and> old \<inter> set (claim_files en (claimed (ba_trace b))) = {} \<and>
     old \<union> set (claim_files en (claimed (ba_trace b))) \<subseteq> set (claims (ba_reg b) run)"

lemma ledger_quiet: "quiet b b' \<Longrightarrow> ledger en run turn old b \<Longrightarrow> ledger en run turn old b'"
  unfolding quiet_def ledger_def by (auto simp: harmless_append)

definition stable :: "(('h, 'g) batch \<Rightarrow> bool) \<Rightarrow> bool" where
  "stable P \<longleftrightarrow> (\<forall>b b'. quiet b b' \<longrightarrow> P b \<longrightarrow> P b')"

lemma quiet_hoare:
  assumes "\<And>b0. keeps (quiet b0) m" and "stable P"
  shows "hoare (ledger en run turn old) P m (\<lambda>_. P)"
proof -
  have q: "quiet b (fst (m b))" for b using assms(1) [of b] by (simp add: hoare_def)
  show ?thesis unfolding hoare_def using q ledger_quiet assms(2) unfolding stable_def by blast
qed

lemma quiet_keeps: "(\<And>b0. keeps (quiet b0) m) \<Longrightarrow> hoare (ledger en run turn old) P m (\<lambda>_ _. True)"
  using quiet_hoare [of m "\<lambda>_. True"] by (auto simp: hoare_def stable_def)

lemma executed_quiet:
  assumes "\<And>b0. keeps (quiet b0) m"
  shows "executed en (ba_trace (fst (m b))) = executed en (ba_trace b)"
proof -
  have "quiet b (fst (m b))" using assms [of b] by (simp add: hoare_def)
  then show ?thesis by (metis quiet_def harmless_append(2))
qed

lemma executed_bind: "(\<And>a b0. keeps (quiet b0) (k a)) \<Longrightarrow> executed en (ba_trace (fst (act_bind m k b))) = executed en (ba_trace (fst (m b)))"
  by (simp add: act_bind_def executed_quiet split: prod.split sum.split)

lemma executed_catch: "(\<And>e b0. keeps (quiet b0) (h e)) \<Longrightarrow> executed en (ba_trace (fst (act_catch m h b))) = executed en (ba_trace (fst (m b)))"
  by (simp add: act_catch_def executed_quiet split: prod.split sum.split)

subsection \<open>The port of a durable run\<close>

text \<open>A start that is marked can be read back: what is saved next holds a marker that is not retryable.\<close>

locale execution_port =
  fixes port :: "'g gov_port"
  assumes marked: "gp_mark port c TE_Started g = (g', Inr ()) \<Longrightarrow> \<exists>cp. gp_checkpoint port g' = Some cp \<and> in_doubt c cp"
begin

lemma save_marks:
  assumes "be_port en = port" and "gp_checkpoint port (ba_gov b) = Some g" and "in_doubt c g"
    and "c \<in> set (claimed (ba_trace b))"
    and "save en b = (b', Inr ())"
  shows "claimed_saved c (ba_trace b')"
  using assms
  by (auto simp: save_def act_with_def save_session_def Let_def retained_checkpoint_def split: prod.splits sum.splits)

lemma claim_saves:
  assumes "be_port en = port" and "gp_requires_claim port (tc_name call)"
    and "claim_call en index call b = (b', Inr ())"
  shows "claimed_saved (call_id_at b call index) (ba_trace b')"
proof -
  let ?c = "call_id_at b call index"
  from assms obtain b1 b2 b3 where
    c: "claim en ?c b = (b1, Inr ())" and m: "gov_call (gp_mark port ?c TE_Started) b1 = (b2, Inr ())"
    and s: "save en b2 = (b3, Inr ())" and p: "clear_parked en ?c b3 = (b', Inr ())"
    by (auto simp: claim_call_def act_with_def act_then_def act_bind_def Let_def split: prod.splits sum.splits)
  from c have "?c \<in> set (claimed (ba_trace b1))"
    by (auto simp: claim_def Let_def split: prod.splits sum.splits)
  moreover from m have "ba_trace b2 = ba_trace b1" and "gp_mark port ?c TE_Started (ba_gov b1) = (ba_gov b2, Inr ())"
    by (auto simp: gov_call_def map_err_def split: prod.splits sum.splits)
  ultimately have "claimed_saved ?c (ba_trace b3)"
    using save_marks [OF assms(1) _ _ _ s] marked by metis
  moreover have "quiet b3 b'" using keepsD [OF quiet_clear_parked [of b3 en ?c], of b3] p by simp
  ultimately show ?thesis by (auto simp: quiet_def harmless_append)
qed

end

subsection \<open>The gates of a call\<close>

lemma enter_enabled: "enter_call en index call b = (b', Inr (FL_Go ())) \<Longrightarrow> be_enabled en (tc_name call)"
  by (rule ccontr)
    (auto simp: enter_call_def gates_def act_with_def act_bind_def act_then_def act_attempt_def act_return_def next_with_def flush_fail_def
      act_fail_def push_out_def act_modify_def Let_def split: prod.splits sum.splits if_splits)

lemma not_authorized_stops: "not_authorized en index call e b \<noteq> (b', Inr (FL_Go a))"
  by (cases e) (auto simp: not_authorized_def act_with_def act_bind_def act_then_def act_return_def act_fail_def next_with_def
      push_out_def act_modify_def split: prod.splits sum.splits if_splits)

lemma authorize_logs: "authorize en c call b = (b', Inr (Inr u)) \<Longrightarrow> BE_Authorized c (tc_name call) (tc_args_json call) \<in> set (ba_trace b')"
  by (auto simp: authorize_def Let_def split: prod.splits)

lemma authorized_logs:
  assumes "authorize_call en index call b = (b', Inr (FL_Go ()))"
  shows "BE_Authorized (call_id_at b call index) (tc_name call) (tc_args_json call) \<in> set (ba_trace b')"
proof -
  from assms obtain b1 r where
    "(case (case parked_for en b (call_id_at b call index) of None \<Rightarrow> Ok ()
        | Some p \<Rightarrow> bind_parked_call (be_codec en) p (tc_name call) (tc_args_json call)) of
       Inr _ \<Rightarrow> authorize en (call_id_at b call index) call | Inl e \<Rightarrow> act_return (Err e)) b1 = (b', Inr (Inr r))"
    using not_authorized_stops [of en index call]
    by (auto simp: authorize_call_def act_with_def act_bind_def act_then_def act_return_def Let_def
        split: prod.splits sum.splits if_splits option.splits)
  then show ?thesis by (auto simp: act_return_def dest: authorize_logs split: sum.splits)
qed

subsection \<open>Every execution keeps the ledger\<close>

definition permitted :: "('h, 'g) batch_env \<Rightarrow> nat \<Rightarrow> nat \<Rightarrow> tool_call \<Rightarrow> ('h, 'g) batch \<Rightarrow> bool" where
  "permitted en turn index call b \<longleftrightarrow> be_enabled en (tc_name call) \<and>
     BE_Authorized (stable_tool_call_id call turn index) (tc_name call) (tc_args_json call) \<in> set (ba_trace b)"

definition ready :: "('h, 'g) batch_env \<Rightarrow> nat \<Rightarrow> nat \<Rightarrow> tool_call \<Rightarrow> ('h, 'g) batch \<Rightarrow> bool" where
  "ready en turn index call b \<longleftrightarrow> permitted en turn index call b \<and> (gp_requires_claim (be_port en) (tc_name call) \<longrightarrow>
     claimed_saved (stable_tool_call_id call turn index) (ba_trace b) \<and>
     stable_tool_call_id call turn index \<notin> set (executed en (ba_trace b)))"

lemma stable_permitted: "stable (permitted en turn index call)"
  by (auto simp: stable_def permitted_def quiet_def)

lemma stable_ready: "stable (ready en turn index call)"
  by (auto simp: stable_def ready_def permitted_def quiet_def harmless_append)

lemma claim_ledger:
  assumes "ledger en run turn old b" and "claim en c b = (b', r)"
  shows "ledger en run turn old b'" and "is_ok r \<Longrightarrow> c \<notin> set (executed en (ba_trace b'))"
proof -
  let ?n = "claim_filename (be_reg en) c" and ?cs = "claims (ba_reg b) run"
  have n: "claim_filename (reg_at en k) c = ?n" for k by (simp add: claim_filename_def reg_at_def)
  have id: "b_run_id b = run" using assms(1) by (simp add: ledger_def)
  show l: "ledger en run turn old b'"
  proof (cases "is_ok r")
    case True
    then have b': "ba_trace b' = BE_Claimed c # ba_trace b" "b_run_id b' = run" "b_turns b' = b_turns b"
      "?n \<notin> set ?cs" "set (claims (ba_reg b') run) = insert ?n (set ?cs)"
      using assms(2) n [of "ba_clock b"] id
      by (auto simp: claim_def claim_tool_execution_def Let_def claims_def b_run_id_def b_turns_def split: if_splits)
    then show ?thesis using assms(1) by (auto simp: ledger_def claim_files_def)
  next
    case False
    then have "ba_trace b' = ba_trace b" "b_run_id b' = run" "b_turns b' = b_turns b" "set ?cs \<subseteq> set (claims (ba_reg b') run)"
      using assms(2) id
      by (auto simp: claim_def claim_tool_execution_def Let_def claims_def b_run_id_def b_turns_def split: if_splits)
    then show ?thesis using assms(1) unfolding ledger_def by auto
  qed
  assume "is_ok r"
  then have t: "ba_trace b' = BE_Claimed c # ba_trace b"
    using assms(2) by (auto simp: claim_def Let_def split: prod.splits sum.splits)
  with l have "c \<notin> set (claimed (ba_trace b))" and "guarded en (ba_trace b)"
    by (auto simp: ledger_def claim_files_def)
  then show "c \<notin> set (executed en (ba_trace b'))" using guarded_executed t by auto
qed

lemma claim_call_ready:
  assumes port: "execution_port (be_port en)"
  shows "hoare (ledger en run turn old) (permitted en turn index call) (claim_call en index call)
    (\<lambda>_. ready en turn index call)"
proof (unfold hoare_def, intro allI impI)
  fix b assume l: "ledger en run turn old b" and p: "permitted en turn index call b"
  let ?c = "stable_tool_call_id call turn index" and ?m = "claim_call en index call"
  have c: "call_id_at b call index = ?c" using l by (simp add: ledger_def call_id_at_def)
  show "ledger en run turn old (fst (?m b)) \<and> (\<forall>a. snd (?m b) = Ok a \<longrightarrow> ready en turn index call (fst (?m b)))"
  proof (cases "gp_requires_claim (be_port en) (tc_name call)")
    case False
    then have "quiet b (fst (?m b))"
      using keepsD [OF quiet_clear_parked [of b en ?c], of b]
      by (simp add: claim_call_def act_with_def act_then_def act_bind_def act_return_def c Let_def)
    then have "ledger en run turn old (fst (?m b))" and "permitted en turn index call (fst (?m b))"
      using l p ledger_quiet stable_permitted unfolding stable_def by blast+
    with False show ?thesis by (simp add: ready_def)
  next
    case True
    obtain b1 r1 where c1: "claim en ?c b = (b1, r1)" by fastforce
    have k1: "ledger en run turn old b1" using claim_ledger [OF l c1] by simp
    show ?thesis
    proof (cases r1)
      case (Inl e)
      then show ?thesis using True c1 k1
        by (simp add: claim_call_def act_with_def act_then_def act_bind_def c Let_def)
    next
      case (Inr u)
      let ?k = "act_then (act_then (gov_call (gp_mark (be_port en) ?c TE_Started)) (save en)) (clear_parked en ?c)"
      have m: "?m b = ?k b1"
        using True c1 Inr by (auto simp: claim_call_def act_with_def act_then_def act_bind_def c Let_def split: prod.splits sum.splits)
      have "quiet b1 (fst (?k b1))" by (rule keepsD) (intro triples, simp)
      moreover have "permitted en turn index call b1 \<and> ?c \<notin> set (executed en (ba_trace b1))"
        using p c1 Inr claim_ledger(2) [OF l c1] by (auto simp: permitted_def claim_def Let_def split: prod.splits sum.splits)
      ultimately have "ledger en run turn old (fst (?m b))"
          "permitted en turn index call (fst (?m b)) \<and> ?c \<notin> set (executed en (ba_trace (fst (?m b))))"
        using ledger_quiet [OF _ k1] unfolding m by (blast, auto simp: permitted_def quiet_def harmless_append)
      moreover have "snd (?m b) = Ok a \<Longrightarrow> claimed_saved ?c (ba_trace (fst (?m b)))" for a
        using execution_port.claim_saves [OF port refl True, of index b "fst (?m b)"] c by (metis old.unit.exhaust prod.collapse)
      ultimately show ?thesis by (simp add: ready_def True)
    qed
  qed
qed

lemma executes_ledger: "hoare (ledger en run turn old) (ready en turn index call) (executes index call) (\<lambda>_ _. True)"
  unfolding executes_def
  by (rule hoare_modify) (auto simp: ledger_def ready_def permitted_def call_id_at_def)

lemma hoare_flow:
  assumes "hoare I P m (\<lambda>f b. \<forall>a. f = FL_Go a \<longrightarrow> R a b)" and "\<And>a. hoare I (R a) (k a) (\<lambda>_ _. True)"
  shows "hoare I P (flow_bind m k) (\<lambda>_ _. True)"
proof -
  have "hoare I (\<lambda>b. \<forall>a. f = FL_Go a \<longrightarrow> R a b) (case f of FL_Next \<Rightarrow> act_return FL_Next | FL_Exit out \<Rightarrow> act_return (FL_Exit out)
      | FL_Go a \<Rightarrow> k a) (\<lambda>_ _. True)" for f
    using assms(2) by (cases f) (auto intro: triples)
  then show ?thesis unfolding flow_bind_def by (rule hoare_bind [OF assms(1)])
qed

lemma hoare_pre: "hoare I P m Q \<Longrightarrow> (\<And>b. I b \<Longrightarrow> P' b \<Longrightarrow> P b) \<Longrightarrow> hoare I P' m Q"
  by (auto simp: hoare_def)

lemma quiet_perform:
  assumes "children_keep_parent en"
  shows "keeps (quiet b0) (perform_child en call)" and "keeps (quiet b0) (perform_tool en call)"
    and "keeps (quiet b0) (start_child en index call permits)"
proof -
  show "keeps (quiet b0) (perform_child en call)"
    unfolding perform_child_def using assms unfolding children_keep_parent_def
    by (intro triples assms) (simp_all add: tick_def b_run_id_def b_turns_def)
  show "keeps (quiet b0) (perform_tool en call)"
    unfolding perform_tool_def Let_def by (intro triples assms) (simp_all add: tick_def b_run_id_def b_turns_def)
  have "quiet b0 (fst (start_child en index call permits b))" if "quiet b0 b" for b
  proof -
    obtain s r where q: "queue_wait_false_child_run (be_nested en) (be_cfg en) (be_watch en (ba_clock b))
      (be_child_id en (ba_clock b)) (be_request en) call (ba_session b) = (s, r)" by fastforce
    have "quiet b0 ((tick b)\<lparr>ba_session := s\<rparr>)"
      using queue_child_keeps [OF q] by (intro quiet_same [OF that]) (auto simp: b_run_id_def b_turns_def)
    moreover have "keeps (quiet b0) (case r of
        Inr q \<Rightarrow> act_then (act_modify (\<lambda>b. b\<lparr>ba_queued := ba_queued b @ [(index, call, q)], ba_permits := Some (permits - 1)\<rparr>))
          (act_return FL_Next)
      | Inl e \<Rightarrow> child_error en e)"
      by (intro triples assms) (simp_all add: b_run_id_def b_turns_def)
    ultimately show ?thesis by (simp add: q start_child_def act_with_def then_modify keepsD)
  qed
  then show "keeps (quiet b0) (start_child en index call permits)" by (simp add: hoare_def)
qed

lemma run_call_ledger:
  assumes "children_keep_parent en"
  shows "hoare (ledger en run turn old) (ready en turn index call) (run_call en index call) (\<lambda>_ _. True)"
proof -
  let ?I = "ledger en run turn old" and ?R = "ready en turn index call"
  have go: "hoare ?I ?R (act_then (executes index call) k) (\<lambda>_ _. True)" if "\<And>b0. keeps (quiet b0) k" for k :: "('a, 'b, 'c) step"
    by (rule hoare_then [OF executes_ledger quiet_keeps [OF that]])
  have flushed: "hoare ?I ?R (act_then (flush_children en) k) (\<lambda>_ _. True)" if "hoare ?I ?R k (\<lambda>_ _. True)"
    for k :: "('a, 'b, 'c) step"
    by (rule hoare_then [OF quiet_hoare [OF quiet_flush_children [OF assms] stable_ready] that])
  have "hoare ?I ?R (run_child en index call) (\<lambda>_ _. True)" and "hoare ?I ?R (run_tool en index call) (\<lambda>_ _. True)"
    unfolding run_child_def run_tool_def by (rule flushed [OF go [OF quiet_perform(1) [OF assms]]],
      rule flushed [OF go [OF quiet_perform(2) [OF assms]]])
  moreover have "hoare ?I ?R (queue_child en index call permits) (\<lambda>_ _. True)" for permits
    by (simp add: queue_child_def go [OF quiet_perform(3) [OF assms]] quiet_keeps quiet_push_out)
  ultimately show ?thesis unfolding run_call_def
    by (intro hoare_with) (auto intro: hoare_pre split: option.split)
qed

lemma serial_call_ledger:
  assumes "children_keep_parent en" and "execution_port (be_port en)"
  shows "keeps (ledger en run turn old) (serial_call en index call)"
proof -
  let ?I = "ledger en run turn old"
  have enter: "hoare ?I (\<lambda>_. True) (enter_call en index call) (\<lambda>f b. \<forall>a. f = FL_Go a \<longrightarrow> be_enabled en (tc_name call))"
    using quiet_keeps [OF quiet_enter_call [OF assms(1)], of en run turn old "\<lambda>_. True" index call] enter_enabled [of en index call]
    unfolding hoare_def by (metis old.unit.exhaust prod.collapse)
  have auth: "hoare ?I (\<lambda>_. be_enabled en (tc_name call)) (authorize_call en index call)
      (\<lambda>f b. \<forall>a. f = FL_Go a \<longrightarrow> permitted en turn index call b)"
  proof -
    have "ledger en run turn old b \<Longrightarrow> call_id_at b call index = stable_tool_call_id call turn index" for b
      by (simp add: ledger_def call_id_at_def)
    then show ?thesis
      using quiet_keeps [OF quiet_authorize_call [OF assms(1)], of en run turn old "\<lambda>_. True" index call]
        authorized_logs [of en index call]
      unfolding hoare_def permitted_def by (metis old.unit.exhaust prod.collapse)
  qed
  have ran: "hoare ?I (ready en turn index call) (run_call en index call) (\<lambda>f b. \<forall>a. f = FL_Go a \<longrightarrow> True)"
    using run_call_ledger [OF assms(1)] by simp
  show ?thesis unfolding serial_call_def
    by (rule hoare_flow [OF enter], rule hoare_flow [OF auth], rule hoare_then [OF claim_call_ready [OF assms(2)]],
      rule hoare_flow [OF ran], rule quiet_keeps, rule quiet_push_out)
qed

lemma quiet_abandon: "keeps (quiet b0) (abandon en e :: ('h, 'g, 'a) step)"
proof -
  have "quiet b0 (fst ((abandon en e :: ('h, 'g, 'a) step) b))" if "quiet b0 b" for b
  proof -
    obtain s dropped where a: "abandon_queued (map (\<lambda>(_, _, q). q) (ba_queued b)) (ba_session b) = (s, dropped)" by fastforce
    have "quiet b0 (b\<lparr>ba_session := s, ba_queued := []\<rparr>)"
      using abandon_queued_keeps [OF a] by (intro quiet_same [OF that]) (auto simp: b_run_id_def b_turns_def)
    moreover have "keeps (quiet b0) (act_then (if dropped then act_ignore (save en) else act_return ()) (act_fail e))" (is "keeps _ ?k")
      by (intro triples; simp)
    moreover have "abandon en e b = ?k (b\<lparr>ba_session := s, ba_queued := []\<rparr>)"
      by (simp add: a abandon_def act_with_def then_modify)
    ultimately show ?thesis by (metis keepsD)
  qed
  then show ?thesis by (simp add: hoare_def)
qed

lemma serial_batch_ledger:
  assumes "children_keep_parent en" and "execution_port (be_port en)"
  shows "keeps (ledger en run turn old) (serial_batch en calls)"
proof -
  have loop: "keeps (ledger en run turn old) (serial_loop en index calls)" for index
  proof (induction calls arbitrary: index)
    case Nil
    show ?case unfolding serial_loop.simps
      by (rule quiet_keeps) (intro triples assms, simp)
  next
    case (Cons call calls)
    have "keeps (ledger en run turn old) (case f of FL_Exit out \<Rightarrow> act_return (Some out) | _ \<Rightarrow> serial_loop en (Suc index) calls)" for f :: "unit flow"
      using Cons by (cases f) (auto intro!: triples)
    with serial_call_ledger [OF assms] show ?case unfolding serial_loop.simps by (intro keeps_bind)
  qed
  note ab = quiet_keeps [OF quiet_abandon]
  have "keeps (quiet b0) (act_modify (\<lambda>b. b\<lparr>ba_permits := child_permits en b calls, ba_queued := [], ba_out := []\<rparr>))" for b0
    by (intro triples) (simp add: b_run_id_def b_turns_def)
  then show ?thesis unfolding serial_batch_def by (intro keeps_then keeps_catch loop ab quiet_keeps)
qed

subsection \<open>Every batch keeps the ledger\<close>

text \<open>A parallel batch holds no tool that needs a claim; a task is authorised when its state says so.\<close>

definition tasks_permitted :: "('h, 'g) batch_env \<Rightarrow> nat \<Rightarrow> task list \<Rightarrow> ('h, 'g) batch \<Rightarrow> bool" where
  "tasks_permitted en turn ts b \<longleftrightarrow> (\<forall>(index, call, st)\<in>set ts. \<not> gp_requires_claim (be_port en) (tc_name call) \<and>
     (st = TS_Authorized \<longrightarrow> permitted en turn index call b))"

lemma stable_tasks: "stable (tasks_permitted en turn ts)"
  using stable_permitted unfolding stable_def tasks_permitted_def by fast

lemma tasks_update:
  assumes "tasks_permitted en turn ts b" and "j < length ts" and "ts ! j = (index, call, st0)"
    and "st = TS_Authorized \<Longrightarrow> permitted en turn index call b"
  shows "tasks_permitted en turn (ts[j := (index, call, st)]) b"
proof -
  have "(index, call, st0) \<in> set ts" using assms(2,3) by (metis nth_mem)
  then have "\<not> gp_requires_claim (be_port en) (tc_name call)" using assms(1) by (auto simp: tasks_permitted_def)
  then show ?thesis
    using assms(1,4) set_update_subset_insert [of ts j "(index, call, st)"] unfolding tasks_permitted_def by blast
qed

lemma start_task_authorized:
  "start_task en index call b = (b', Inr st) \<Longrightarrow> b_turns b = turn \<Longrightarrow> st = TS_Authorized \<Longrightarrow> permitted en turn index call b'"
  by (auto simp: start_task_def act_with_def act_bind_def act_return_def permitted_def call_id_at_def authorize_def Let_def
      split: prod.splits sum.splits if_splits governance_error.splits)

lemma quiet_start_task: "keeps (quiet b0) (start_task en index call)"
  unfolding start_task_def by (intro triples; simp)

lemma finish_task_not_authorized: "finish_task en index call b = (b', Inr st) \<Longrightarrow> st \<noteq> TS_Authorized"
  by (auto simp: finish_task_def act_with_def act_bind_def act_then_def act_return_def split: prod.splits sum.splits)

lemma task_step_ledger:
  "hoare (ledger en run turn old) (tasks_permitted en turn ts) (task_step en ts j) (\<lambda>ts b. tasks_permitted en turn ts b)"
proof (unfold hoare_def, intro allI impI)
  fix b assume l: "ledger en run turn old b" and p: "tasks_permitted en turn ts b"
  have turn: "b_turns b = turn" using l by (simp add: ledger_def)
  show "ledger en run turn old (fst (task_step en ts j b)) \<and>
      (\<forall>ts'. snd (task_step en ts j b) = Ok ts' \<longrightarrow> tasks_permitted en turn ts' (fst (task_step en ts j b)))"
  proof (cases "j < length ts")
    case False
    with l p show ?thesis by (simp add: task_step_def act_return_def)
  next
    case j: True
    obtain index call st where t: "ts ! j = (index, call, st)" by (metis prod_cases3)
    have n: "\<not> gp_requires_claim (be_port en) (tc_name call)"
      using p nth_mem [OF j] t by (auto simp: tasks_permitted_def)
    show ?thesis
    proof (cases st)
      case (TS_Done r)
      with l p j t show ?thesis by (simp add: task_step_def act_return_def)
    next
      case TS_Waiting
      obtain b' r where s: "start_task en index call b = (b', r)" by fastforce
      have q: "quiet b b'" using keepsD [OF quiet_start_task [of b en index call], of b] s by simp
      then have "ledger en run turn old b'" and "tasks_permitted en turn ts b'"
        using l p ledger_quiet stable_tasks unfolding stable_def by blast+
      with s l p t j TS_Waiting turn show ?thesis
        by (cases r) (auto simp: task_step_def act_bind_def act_return_def intro!: tasks_update dest: start_task_authorized)
    next
      case TS_Authorized
      have "permitted en turn index call b" using p nth_mem [OF j] t TS_Authorized by (auto simp: tasks_permitted_def)
      then have rd: "ready en turn index call b" using n by (simp add: ready_def)
      have "hoare (ledger en run turn old) (ready en turn index call) (finish_task en index call) (\<lambda>_ _. True)"
        unfolding finish_task_def Let_def
        by (rule hoare_then [OF executes_ledger]; rule quiet_keeps)
          (intro triples; simp add: tick_def b_run_id_def b_turns_def)
      then have fl: "ledger en run turn old (fst (finish_task en index call b))" using l rd by (simp add: hoare_def)
      obtain b' r where f: "finish_task en index call b = (b', r)" by fastforce
      have "tasks_permitted en turn ts b'" using f p
        by (auto simp: finish_task_def executes_def then_modify act_with_def act_return_def tasks_permitted_def permitted_def
            split: prod.splits)
      with f fl t j TS_Authorized show ?thesis
        by (cases r) (auto simp: task_step_def act_bind_def act_return_def intro!: tasks_update dest: finish_task_not_authorized)
    qed
  qed
qed

lemma run_schedule_ledger:
  "hoare (ledger en run turn old) (tasks_permitted en turn ts) (run_schedule en js ts) (\<lambda>ts b. tasks_permitted en turn ts b)"
  by (induction js arbitrary: ts) (auto intro: hoare_return hoare_bind [OF task_step_ledger])

lemma parallel_batch_ledger:
  assumes "can_parallel en calls"
  shows "keeps (ledger en run turn old) (parallel_batch en calls)"
proof -
  let ?I = "ledger en run turn old"
  have none: "\<forall>c\<in>set calls. \<not> gp_requires_claim (be_port en) (tc_name c)"
    using assms by (auto simp: can_parallel_def list_all_iff)
  have start: "tasks_permitted en turn (tasks_of b calls) b'" for b b'
  proof -
    have "c \<in> set calls" if "(i, c) \<in> set (enumerate 0 calls)" for i c
      using that by (auto simp: in_set_enumerate_eq)
    then show ?thesis using none by (fastforce simp: tasks_permitted_def tasks_of_def)
  qed
  have fin: "hoare ?I (tasks_permitted en turn ts)
      (act_modify (\<lambda>b. b\<lparr>ba_out := sort_key fst (List.map_filter task_outcome ts)\<rparr>)) (\<lambda>_ _. True)" for ts
    by (rule hoare_modify) (simp add: ledger_def b_run_id_def b_turns_def)
  have "keeps ?I (act_bind (run_schedule en (be_schedule en (ba_clock b)) (tasks_of b calls)) (\<lambda>ts.
       act_bind (run_schedule en (drain ts) ts) (\<lambda>ts.
         act_modify (\<lambda>b. b\<lparr>ba_out := sort_key fst (List.map_filter task_outcome ts)\<rparr>))))" for b
    by (rule hoare_bind [OF hoare_pre [OF run_schedule_ledger]], rule start,
      rule hoare_bind [OF run_schedule_ledger], rule fin)
  then show ?thesis unfolding parallel_batch_def
    by (intro keeps_then [OF quiet_keeps [OF quiet_bounds]] keeps_with)
qed

lemma execute_batch_ledger:
  assumes "children_keep_parent en" and "execution_port (be_port en)"
  shows "keeps (ledger en run turn old) (execute_batch en calls usage)"
proof -
  have serial: "keeps (ledger en run turn old) (case out of Some out \<Rightarrow> act_return out | None \<Rightarrow> report_batch en usage)" for out
    by (cases out) (auto intro: triples quiet_keeps quiet_report_batch)
  note quiets = quiet_keeps [OF quiet_admission(1)] quiet_keeps [OF quiet_admission(2)] quiet_keeps [OF quiet_admission(3)]
    quiet_keeps [OF quiet_report_batch] quiet_keeps [OF quiet_save(1)]
  show ?thesis unfolding execute_batch_def
    by (intro keeps_then keeps_if keeps_bind quiets serial serial_batch_ledger parallel_batch_ledger assms) (auto intro: triples)
qed

subsection \<open>The in-process port\<close>

interpretation ip: execution_port "in_process_port run" for run
proof
  fix c and g g' :: in_process_state
  assume "gp_mark (in_process_port run) c TE_Started g = (g', Inr ())"
  then obtain cp cp' where m: "gc_mark c TE_Started cp = Ok cp'" and g': "ip_durability g' run = Some cp'"
    by (auto simp: in_process_port_def on_durability_def ld_mark_def with_checkpoint_def Let_def
        split: option.splits sum.splits prod.splits)
  have "in_doubt c cp'" using gj.started_in_doubt [OF m] by (auto simp: in_doubt_def)
  with g' show "\<exists>cp. gp_checkpoint (in_process_port run) g' = Some cp \<and> in_doubt c cp"
    by (simp add: in_process_port_def ip_checkpoint_state_def ld_checkpoint_def)
qed

subsection \<open>A concrete batch\<close>

definition demo_gov :: in_process_state where
  "demo_gov = (governance_from_config None_Governance [''write_file''])\<lparr>ip_durability := [''r'' \<mapsto> governance_checkpoint_default]\<rparr>"

definition demo_batch_env :: "(unit, in_process_state) batch_env" where
  "demo_batch_env = \<lparr>be_cfg = default_config, be_request = run_request_new ''t'', be_timeout = None, be_replay = False,
     be_port = in_process_port ''r'',
     be_save = \<lparr>sv_content = demo_content_env, sv_codec = demo_codec,
       sv_checkpoint = \<lparr>cc_to_string = (\<lambda>_. Some ''x''), cc_from_slice = (\<lambda>_. None)\<rparr>,
       sv_asset = \<lparr>pa_id = ''p'', pa_body = ''b''\<rparr>, sv_prompt = ''b'', sv_root = ''s''\<rparr>,
     be_io = (\<lambda>_ _. True), be_torn = (\<lambda>_. None), be_todos = (\<lambda>_. []), be_reg = demo_env, be_reg_io = (\<lambda>_ i. i \<noteq> 18),
     be_content = demo_session_env demo_content_env, be_cancel = (\<lambda>_. None), be_elapsed = (\<lambda>_. 0), be_now = (\<lambda>_. 0),
     be_codec = demo_codec, be_report = \<lparr>re_from_str = (\<lambda>_. None), re_finder = (\<lambda>s _. Ok s), re_triage = Ok\<rparr>,
     be_nested = demo_nested_env, be_handoff = (\<lambda>_. Err (TL_UnsafePath [])), be_enabled = (\<lambda>n. n = ''write_file''),
     be_pre_hook = (\<lambda>_ _ _ _ h. (h, Ok ())), be_post_hook = (\<lambda>_ _ _ _ h. h), be_park_hook = (\<lambda>_ _ _ _ h. h),
     be_tool = (\<lambda>_ _ _ h. (h, 1, Ok (TO_Text ''done'', None))), be_edit_record = (\<lambda>_ _ _. JNull),
     be_jail_file_ok = (\<lambda>_. True), be_plan_file = (\<lambda>_. None), be_lossy = (\<lambda>s. s), be_child_id = (\<lambda>_. ''c''),
     be_watch = (\<lambda>_. Ok ()), be_child = (\<lambda>_ _ st. (st, Err RE_Cancelled)), be_wait_children = (\<lambda>_ _ st. (st, Err RE_Cancelled)),
     be_schedule = (\<lambda>_. []), be_show_tool = (\<lambda>_. []), be_show_gov = (\<lambda>_. []), be_show_run = (\<lambda>_. []), be_show_reg = (\<lambda>_. [])\<rparr>"

definition demo_batch_state :: "(unit, in_process_state) batch" where
  "demo_batch_state = \<lparr>ba_host = (), ba_gov = demo_gov, ba_reg = empty_registry, ba_disk = Map.empty, ba_session = demo_parent,
     ba_pending = None, ba_clock = 0, ba_trace = [], ba_queued = [], ba_out = [], ba_permits = None\<rparr>"

definition demo_write :: tool_call where
  "demo_write = \<lparr>tc_id = ''a'', tc_name = ''write_file'', tc_args_json = ''{}''\<rparr>"

lemma demo_batch_laws: "children_keep_parent demo_batch_env" "execution_port (be_port demo_batch_env)"
  using ip.execution_port_axioms by (simp_all add: demo_batch_env_def children_keep_parent_def keeps_parent_def)

lemmas demo_defs = demo_batch_env_def demo_write_def in_process_port_def run_request_new_def

definition demo_at :: "in_process_state \<Rightarrow> registry \<Rightarrow> (unit, in_process_state) batch \<Rightarrow> bool" where
  "demo_at g r b \<longleftrightarrow> ba_session b = demo_parent \<and> ba_gov b = g \<and> ba_reg b = r \<and> executed demo_batch_env (ba_trace b) = [] \<and>
     ba_permits b = None \<and> ba_queued b = [] \<and> ba_out b = []"

lemma demo_tools: "must_be_exclusive_batch ''write_file'' = False" "mutates_workspace ''write_file''" "is_parallel_safe_tool ''write_file'' = False"
  by code_simp+

lemma demo_save: "demo_at g r b \<Longrightarrow> \<exists>b'. save demo_batch_env b = (b', Ok ()) \<and> demo_at g r b'"
  by (simp add: demo_at_def save_def save_session_def act_with_def demo_batch_env_def demo_parent_def run_session_new_def
      save_with_retention_def save_checkpoint_of_def checkpoint_save_def retained_checkpoint_def demo_r_safe Let_def log_def tick_def)

lemma demo_enter: "demo_at demo_gov empty_registry b \<Longrightarrow> \<exists>b'. enter_call demo_batch_env 0 demo_write b = (b', Ok (FL_Go ())) \<and> demo_at demo_gov empty_registry b'"
  by (simp add: demo_at_def enter_call_def gates_def consume_grant_def act_defs answered_def already_answered_def bounds_def check_bounds_def cancel_requested_def
      must_ask_def ask_granted_def pre_hook_def Let_def b_run_id_def demo_defs demo_parent_def run_session_new_def empty_registry_def files_of_def empty_run_files_def tick_def)

definition demo_staged :: in_process_state where
  "demo_staged = fst (gp_stage (in_process_port ''r'') \<lparr>se_call_id = stable_tool_call_id demo_write 0 0, se_name = ''write_file'', se_args_json = ''{}'',
       se_status = TE_Authorizing\<rparr> demo_gov)"

definition demo_started :: in_process_state where
  "demo_started = fst (gp_mark (in_process_port ''r'') (stable_tool_call_id demo_write 0 0) TE_Started demo_staged)"

lemma demo_authorize: "demo_at demo_gov empty_registry b \<Longrightarrow> \<exists>b'. authorize_call demo_batch_env 0 demo_write b = (b', Ok (FL_Go ())) \<and> 
  demo_at demo_staged empty_registry b'"
proof -
  assume a: "demo_at demo_gov empty_registry b"
  let ?b1 = "b\<lparr>ba_gov := demo_staged\<rparr>"
  have st: "stage_execution demo_batch_env 0 demo_write b = (?b1, Ok ())" and np: "parked_for demo_batch_env b c = None" for c
    using a by (simp_all add: demo_at_def stage_execution_def durable_args_def act_defs is_content_def gov_call_def demo_batch_env_def demo_staged_def
        call_id_at_def b_turns_def demo_parent_def run_session_new_def demo_write_def in_process_port_def on_durability_def ld_stage_def with_checkpoint_def
        demo_gov_def parked_for_def ip_checkpoint_state_def ld_checkpoint_def governance_checkpoint_default_def map_err_def)
  have "demo_at demo_staged empty_registry ?b1" using a by (simp add: demo_at_def)
  from demo_save [OF this] obtain b2 where b2: "save demo_batch_env ?b1 = (b2, Ok ())" "demo_at demo_staged empty_registry b2" by blast
  have "authorize demo_batch_env c demo_write b2 = (log (BE_Authorized c ''write_file'' ''{}'') b2, Ok (Ok ()))" for c
    using b2(2) by (simp add: authorize_def demo_at_def demo_defs ip_authorize_tool_def demo_staged_def on_durability_def ld_stage_def with_checkpoint_def demo_gov_def
      governance_from_config_def in_process_enabled_tools_def)
  then show ?thesis
    using st np b2 by (simp add: authorize_call_def act_with_def act_then_def act_bind_def act_return_def demo_at_def demo_batch_env_def in_process_port_def tool_requires_execution_checkpoint_def log_def)
qed

lemma demo_claim: "demo_at demo_staged empty_registry b \<Longrightarrow> \<exists>b' r. claim_call demo_batch_env 0 demo_write b = (b', Ok ()) \<and> demo_at demo_started r b'"
proof -
  assume a: "demo_at demo_staged empty_registry b"
  let ?c = "stable_tool_call_id demo_write 0 0"
  have c: "call_id_at b demo_write 0 = ?c" "b_run_id b = ''r''" using a by (simp_all add: demo_at_def call_id_at_def b_turns_def b_run_id_def demo_parent_def run_session_new_def)
  obtain r where "claim_tool_execution (reg_at demo_batch_env (ba_clock b)) empty_registry ''r'' ?c = (r, Ok ())"
    by (simp add: claim_tool_execution_def demo_r_safe reg_at_def demo_batch_env_def Let_def empty_registry_def files_of_def mkdir_def empty_run_files_def set_files_def demo_env_def)
  then have "\<exists>b1. claim demo_batch_env ?c b = (b1, Ok ()) \<and> demo_at demo_staged r b1"
    using a c by (simp add: claim_def demo_at_def log_def tick_def)
  then obtain b1 where b1: "claim demo_batch_env ?c b = (b1, Ok ())" "demo_at demo_staged r b1" by blast
  let ?b2 = "b1\<lparr>ba_gov := demo_started\<rparr>"
  have m: "gov_call (gp_mark (be_port demo_batch_env) ?c TE_Started) b1 = (?b2, Ok ())"
    using b1(2) by (simp add: demo_at_def gov_call_def demo_started_def demo_batch_env_def in_process_port_def on_durability_def ld_mark_def ld_stage_def
      with_checkpoint_def gc_mark_def gc_stage_def demo_staged_def demo_gov_def Let_def map_err_def governance_checkpoint_default_def)
  have "demo_at demo_started r ?b2" using b1(2) by (simp add: demo_at_def)
  from demo_save [OF this] obtain b3 where b3: "save demo_batch_env ?b2 = (b3, Ok ())" "demo_at demo_started r b3" by blast
  have "parked_for demo_batch_env b3 ?c = None"
    using b3(2) by (simp add: demo_at_def parked_for_def demo_started_def demo_batch_env_def in_process_port_def on_durability_def ld_mark_def ld_stage_def
      with_checkpoint_def gc_mark_def gc_stage_def demo_staged_def demo_gov_def Let_def governance_checkpoint_default_def ip_checkpoint_state_def ld_checkpoint_def)
  moreover have "gp_requires_claim (be_port demo_batch_env) (tc_name demo_write)"
    by (simp add: demo_batch_env_def in_process_port_def tool_requires_execution_checkpoint_def)
  ultimately show ?thesis using b1(1) m b3 c
    by (auto simp: claim_call_def act_with_def act_then_def act_bind_def act_return_def clear_parked_def Let_def)
qed

lemma demo_run:
  assumes "demo_at g r b"
  shows "executed demo_batch_env (ba_trace (fst (run_call demo_batch_env 0 demo_write b))) = [stable_tool_call_id demo_write 0 0]"
proof -
  let ?b1 = "log (BE_Executed (stable_tool_call_id demo_write 0 0) ''write_file'' ''{}'') b"
  have n: "tc_name demo_write = ''write_file''" "tc_args_json demo_write = ''{}''" by (simp_all add: demo_write_def)
  have "call_id_at b demo_write 0 = stable_tool_call_id demo_write 0 0" and q: "ba_queued b = []"
    using assms by (simp_all add: demo_at_def call_id_at_def b_turns_def demo_parent_def run_session_new_def)
  then have "run_call demo_batch_env 0 demo_write b = perform_tool demo_batch_env demo_write ?b1"
    using q n by (simp add: run_call_def run_tool_def flush_children_def executes_def act_defs)
  moreover have "quiet ?b1 (fst (perform_tool demo_batch_env demo_write ?b1))"
    by (rule keepsD [OF quiet_perform(2) [OF demo_batch_laws(1)]]) simp
  moreover have "executed demo_batch_env (ba_trace ?b1) = [stable_tool_call_id demo_write 0 0]"
    using assms by (simp add: demo_at_def demo_batch_env_def in_process_port_def tool_requires_execution_checkpoint_def)
  ultimately show ?thesis by (auto simp: quiet_def harmless_append)
qed

lemma demo_serial:
  assumes "demo_at demo_gov empty_registry b"
  shows "executed demo_batch_env (ba_trace (fst (serial_batch demo_batch_env [demo_write] b))) = [stable_tool_call_id demo_write 0 0]"
proof -
  let ?en = demo_batch_env and ?b0 = "b\<lparr>ba_permits := child_permits demo_batch_env b [demo_write], ba_queued := [], ba_out := []\<rparr>"
  have "demo_at demo_gov empty_registry ?b0"
    using assms by (simp add: demo_at_def child_permits_def batch_can_concurrent_child_starts_def)
  from demo_enter [OF this] obtain b1 where b1: "enter_call ?en 0 demo_write ?b0 = (b1, Ok (FL_Go ()))" "demo_at demo_gov empty_registry b1" by blast
  from demo_authorize [OF b1(2)] obtain b2 where b2: "authorize_call ?en 0 demo_write b1 = (b2, Ok (FL_Go ()))" "demo_at demo_staged empty_registry b2" by blast
  from demo_claim [OF b2(2)] obtain b3 r where b3: "claim_call ?en 0 demo_write b2 = (b3, Ok ())" "demo_at demo_started r b3" by blast
  have call: "serial_call ?en 0 demo_write ?b0 = flow_bind (run_call ?en 0 demo_write) (\<lambda>r. next_with 0 demo_write (checked_output ?en r)) b3"
    using b1(1) b2(1) b3(1) by (simp add: serial_call_def flow_bind_def act_bind_def act_then_def)
  have next_call: "keeps (quiet c0) (case f of FL_Next \<Rightarrow> act_return FL_Next | FL_Exit out \<Rightarrow> act_return (FL_Exit out)
      | FL_Go r \<Rightarrow> (next_with 0 demo_write (checked_output ?en r) :: (unit, in_process_state, unit flow) step))" for c0 and f :: "outcome flow"
    by (cases f) (auto intro!: triples)
  have loop: "keeps (quiet c0) (case f of FL_Exit out \<Rightarrow> act_return (Some out) | _ \<Rightarrow> serial_loop ?en (Suc 0) [])" for c0 and f :: "unit flow"
    using demo_batch_laws(1) by (cases f) (auto intro!: triples)
  have "executed ?en (ba_trace (fst (serial_call ?en 0 demo_write ?b0))) = [stable_tool_call_id demo_write 0 0]"
    unfolding call flow_bind_def by (rule executed_bind [THEN trans], rule next_call, rule demo_run [OF b3(2)])
  note ran = this
  have "executed ?en (ba_trace (fst (act_bind (serial_call ?en 0 demo_write) (\<lambda>f.
      case f of FL_Exit out \<Rightarrow> act_return (Some out) | _ \<Rightarrow> serial_loop ?en (Suc 0) []) ?b0))) = [stable_tool_call_id demo_write 0 0]"
    by (rule executed_bind [THEN trans], rule loop, rule ran)
  then show ?thesis unfolding serial_batch_def then_modify serial_loop.simps(2)
    by (intro executed_catch [THEN trans] quiet_abandon)
qed

lemma demo_executes:
  "executed demo_batch_env (ba_trace (fst (execute_batch demo_batch_env [demo_write] usage_zero demo_batch_state))) =
     [stable_tool_call_id demo_write 0 0]"
proof -
  let ?en = demo_batch_env
  have a: "admit_batch ?en [demo_write] demo_batch_state = (demo_batch_state, Ok ())"
    by (simp add: admit_batch_def act_defs is_content_def demo_batch_state_def demo_parent_def run_session_new_def demo_batch_env_def)
  have "\<exists>b. start_events ?en [demo_write] demo_batch_state = (b, Ok ()) \<and> demo_at demo_gov empty_registry b"
    by (simp add: start_events_def act_defs answered_def already_answered_def demo_batch_state_def demo_parent_def run_session_new_def
        emit_def append_event_def reg_at_def demo_batch_env_def log_def tick_def demo_at_def)
  then obtain b where b: "start_events ?en [demo_write] demo_batch_state = (b, Ok ())" "demo_at demo_gov empty_registry b" by blast
  have "keeps (quiet b0) (case out of Some out \<Rightarrow> act_return out | None \<Rightarrow> report_batch ?en usage_zero)" for b0 out
    by (intro triples) simp
  note report = this
  have "executed ?en (ba_trace (fst (act_bind (serial_batch ?en [demo_write]) (\<lambda>exit. case exit of
           Some out \<Rightarrow> act_return out | None \<Rightarrow> report_batch ?en usage_zero) b))) = [stable_tool_call_id demo_write 0 0]"
    by (rule executed_bind [THEN trans], rule report, rule demo_serial [OF b(2)])
  moreover have "\<not> must_be_exclusive_batch (tc_name demo_write)" "\<not> can_parallel ?en [demo_write]"
    using demo_tools by (simp_all add: demo_write_def can_parallel_def)
  ultimately show ?thesis
    using a b(1) by (simp add: execute_batch_def act_then_def act_bind_def)
qed
subsection \<open>Claims\<close>



text \<open>
  The attempts at a run: each executes a batch on what the one before left of the registry (a restart, of this
  process or another, may have come between; only cleaning the run removes claims).
\<close>

type_synonym ('h, 'g) attempt = "('h, 'g) batch_env \<times> tool_call list \<times> token_usage \<times> ('h, 'g) batch"

definition attempt_result :: "('h, 'g) attempt \<Rightarrow> ('h, 'g) batch" where
  "attempt_result x = (case x of (en, calls, usage, b) \<Rightarrow> fst (execute_batch en calls usage b))"

definition effects :: "('h, 'g) attempt \<Rightarrow> string list" where
  "effects x = executed (fst x) (ba_trace (attempt_result x))"

definition attempt_ok :: "(string \<Rightarrow> string) \<Rightarrow> string \<Rightarrow> ('h, 'g) attempt \<Rightarrow> bool" where
  "attempt_ok sha run x = (case x of (en, _, _, b) \<Rightarrow> children_keep_parent en \<and> execution_port (be_port en) \<and>
     en_sha (be_reg en) = sha \<and> b_run_id b = run \<and> ba_trace b = [])"

definition attempt_claims :: "string \<Rightarrow> ('h, 'g) attempt \<Rightarrow> string set" where
  "attempt_claims run x = (case x of (_, _, _, b) \<Rightarrow> set (claims (ba_reg b) run))"

fun successive :: "string \<Rightarrow> ('h, 'g) attempt list \<Rightarrow> bool" where
  "successive run (x # y # xs) \<longleftrightarrow> set (claims (ba_reg (attempt_result x)) run) \<subseteq> attempt_claims run y \<and> successive run (y # xs)"
| "successive run _ \<longleftrightarrow> True"

lemma attempt_effects:
  assumes "attempt_ok sha run x"
  defines "cfile \<equiv> \<lambda>c. sha256_hex sha c @ ''.claim''"
  shows "distinct (effects x)" and "cfile ` set (effects x) \<subseteq> set (claims (ba_reg (attempt_result x)) run)"
    and "attempt_claims run x \<inter> cfile ` set (effects x) = {}"
    and "attempt_claims run x \<subseteq> set (claims (ba_reg (attempt_result x)) run)"
proof -
  obtain en calls usage b where x: "x = (en, calls, usage, b)" by (metis prod_cases4)
  have laws: "children_keep_parent en" "execution_port (be_port en)" and sha: "en_sha (be_reg en) = sha" and id: "b_run_id b = run" "ba_trace b = []"
    using assms(1) by (simp_all add: attempt_ok_def x)
  have cfile: "claim_files en cs = map cfile cs" for cs by (simp add: claim_files_def claim_filename_def sha cfile_def)
  have "ledger en run (b_turns b) (attempt_claims run x) b" by (simp add: ledger_def id claim_files_def attempt_claims_def x)
  from keepsD [OF execute_batch_ledger [OF laws] this, of calls usage]
  have l: "ledger en run (b_turns b) (attempt_claims run x) (attempt_result x)" by (simp add: attempt_result_def x)
  then have e: "distinct (effects x)" "set (effects x) \<subseteq> set (claimed (ba_trace (attempt_result x)))"
    using guarded_executed by (auto simp: ledger_def effects_def x)
  show "distinct (effects x)" by (rule e(1))
  have l': "attempt_claims run x \<inter> cfile ` set (claimed (ba_trace (attempt_result x))) = {}"
      "attempt_claims run x \<union> cfile ` set (claimed (ba_trace (attempt_result x))) \<subseteq> set (claims (ba_reg (attempt_result x)) run)"
    using l unfolding ledger_def cfile by simp_all
  have "cfile ` set (effects x) \<subseteq> cfile ` set (claimed (ba_trace (attempt_result x)))" by (rule image_mono [OF e(2)])
  then show "cfile ` set (effects x) \<subseteq> set (claims (ba_reg (attempt_result x)) run)"
      "attempt_claims run x \<inter> cfile ` set (effects x) = {}"
      "attempt_claims run x \<subseteq> set (claims (ba_reg (attempt_result x)) run)"
    using l' by (meson le_sup_iff subset_trans, meson disjoint_iff subsetD, simp)
qed

lemma successive_disjoint:
  assumes "\<forall>x\<in>set xs. attempt_ok sha run x" and "successive run xs"
  shows "distinct (concat (map effects xs)) \<and> (xs \<noteq> [] \<longrightarrow>
    attempt_claims run (hd xs) \<inter> (\<lambda>c. sha256_hex sha c @ ''.claim'') ` set (concat (map effects xs)) = {})"
  using assms
proof (induction xs rule: induct_list012)
  case (2 x)
  then show ?case using attempt_effects(1,3) [of sha run x] by simp
next
  case (3 x y zs)
  note x = attempt_effects [of sha run x]
  from 3 have ih: "distinct (concat (map effects (y # zs)))"
    "attempt_claims run y \<inter> (\<lambda>c. sha256_hex sha c @ ''.claim'') ` set (concat (map effects (y # zs))) = {}"
    and c: "set (claims (ba_reg (attempt_result x)) run) \<subseteq> attempt_claims run y" and ok: "attempt_ok sha run x" by simp_all
  have "set (effects x) \<inter> set (concat (map effects (y # zs))) = {}" using x(2) [OF ok] c ih(2) by blast
  moreover have "attempt_claims run x \<inter> (\<lambda>c. sha256_hex sha c @ ''.claim'') ` set (concat (map effects (y # zs))) = {}"
    using x(4) [OF ok] c ih(2) by blast
  moreover have "concat (map effects (x # y # zs)) = effects x @ concat (map effects (y # zs))" by simp
  ultimately show ?case using x(1,3) [OF ok] ih(1) by (simp only: distinct_append set_append image_Un list.sel) blast
qed simp

text \<open>
  \<^bold>\<open>C4\<close>: an effect is executed at most once in the life of a run, however often its batch is attempted again:
  over any sequence of batches, crashes and restarts that keeps the run's claims, no call id that needs a claim is executed
  twice.
\<close>

theorem effects_once_across_restarts:
  assumes "\<forall>x\<in>set xs. attempt_ok sha run x" and "successive run xs"
  shows "distinct (concat (map effects xs))"
  using successive_disjoint [OF assms] by blast

definition demo_attempts :: "(unit, in_process_state) attempt list" where
  "demo_attempts = [(demo_batch_env, [demo_write], usage_zero, demo_batch_state),
     (demo_batch_env, [demo_write], usage_zero, demo_batch_state\<lparr>ba_reg :=
        ba_reg (fst (execute_batch demo_batch_env [demo_write] usage_zero demo_batch_state))\<rparr>)]"

theorem effects_once_across_restarts_witness:
  "distinct (concat (map effects demo_attempts)) \<and> effects (hd demo_attempts) = [stable_tool_call_id demo_write 0 0]"
proof
  show "distinct (concat (map effects demo_attempts))"
  proof (rule effects_once_across_restarts)
    show "\<forall>x\<in>set demo_attempts. attempt_ok (en_sha (be_reg demo_batch_env)) ''r'' x"
      using demo_batch_laws
      by (simp add: demo_attempts_def attempt_ok_def demo_batch_state_def b_run_id_def demo_parent_def run_session_new_def)
    show "successive ''r'' demo_attempts" by (simp add: demo_attempts_def attempt_result_def attempt_claims_def)
  qed
  show "effects (hd demo_attempts) = [stable_tool_call_id demo_write 0 0]"
    by (simp add: demo_attempts_def effects_def attempt_result_def demo_executes)
qed

end
