(* ===== verification/Batch_Answers.thy ===== *)
theory Batch_Answers
  imports Batch_Laws
begin

section \<open>How a batch of tool calls answers\<close>

text \<open>
  What a batch adds to the conversation: a refused batch runs nothing, a batch that ends with \<open>BO_Continue\<close> has
  answered every open call exactly once and in order, a parallel batch finishes all of its tasks, and which
  batches are parallel at all.
\<close>

subsection \<open>Refused batches\<close>

definition refused :: "('h, 'g) batch_env \<Rightarrow> ('h, 'g) batch \<Rightarrow> tool_call list \<Rightarrow> bool" where
  "refused en b calls \<longleftrightarrow> is_content b \<and> list_ex (\<lambda>c. tc_name c = ''escalate'') calls \<or>
     be_replay en \<and> list_ex (\<lambda>c. replay_authority_of (tc_name c) = RA_Denied) calls \<or>
     list_ex (\<lambda>c. must_be_exclusive_batch (tc_name c)) calls \<and> length calls \<noteq> 1"

text \<open>A step that touches only the conversation and the log of saves.\<close>

definition bookkeeping :: "('h, 'g) batch \<Rightarrow> ('h, 'g) batch \<Rightarrow> bool" where
  "bookkeeping b b' \<longleftrightarrow> ba_gov b' = ba_gov b \<and> ba_reg b' = ba_reg b \<and> b_turns b' = b_turns b \<and> is_content b' = is_content b \<and>
     (\<exists>es. ba_trace b' = es @ ba_trace b \<and> (\<forall>e\<in>set es. \<exists>cp. e = BE_Saved cp))"

lemma bookkeeping_refl [simp]: "bookkeeping b b"
  by (simp add: bookkeeping_def)

lemma bookkeeping_trans: "bookkeeping a b \<Longrightarrow> bookkeeping b c \<Longrightarrow> bookkeeping a c"
  unfolding bookkeeping_def by (elim conjE exE) (auto intro: exI [of _ "_ @ _"])

lemma content_tool_text_content:
  assumes "append_content_tool_text en c t h s = (h', s', r)"
  shows "(sn_content s' \<noteq> None) = (sn_content s \<noteq> None) \<and> sn_plan_jail s' = sn_plan_jail s"
  using assms by (auto simp: append_content_tool_text_def on_content_def split: option.splits prod.splits)

lemma save_content:
  assumes "save_with_retention en io torn gov todos keep park d s = (d', s', r)"
  shows "(sn_content s' \<noteq> None) = (sn_content s \<noteq> None) \<and> sn_plan_jail s' = sn_plan_jail s"
  using assms by (auto simp: save_with_retention_def bind_content_def split: option.splits prod.splits sum.splits)

lemma prepare_child_content: "prepare_child_run en cfg c q a s = (s', r) \<Longrightarrow> sn_content s' = sn_content s"
  by (auto simp: prepare_child_run_def split: option.splits sum.splits if_splits)

lemma queue_child_content:
  assumes "queue_wait_false_child_run en cfg w c q call s = (s', r)"
  shows "sn_content s' = sn_content s"
  using assms by (auto simp: queue_wait_false_child_run_def dest!: prepare_child_content split: prod.splits sum.splits if_splits)

lemma content_text_bookkeeping:
  "bookkeeping b (fst (content_text en c t b)) \<and> sn_messages (ba_session (fst (content_text en c t b))) = sn_messages (ba_session b)"
proof -
  obtain h s r where "append_content_tool_text (be_content en) c t (ba_host b) (ba_session b) = (h, s, r)" by (metis prod_cases3)
  with content_tool_text_keeps [OF this] content_tool_text_content [OF this] show ?thesis
    by (simp add: content_text_def bookkeeping_def b_turns_def is_content_def)
qed

lemma push_message_bookkeeping:
  "push_message c t b = (b', r) \<Longrightarrow> bookkeeping b b' \<and>
     sn_messages (ba_session b') = sn_messages (ba_session b) @ [result_message c (if is_content b then [] else t)]"
  by (auto simp: push_message_def act_modify_def bookkeeping_def b_turns_def is_content_def)

lemma save_bookkeeping:
  "save en b = (b', r) \<Longrightarrow> bookkeeping b b' \<and> sn_messages (ba_session b') = sn_messages (ba_session b)"
proof -
  assume "save en b = (b', r)"
  moreover obtain d s q where "save_with_retention (be_save en) (be_io en (ba_clock b)) (be_torn en (ba_clock b))
      (gp_checkpoint (be_port en) (ba_gov b)) (be_todos en (ba_host b)) (sn_keep_workspace (ba_session b)) None (ba_disk b) (ba_session b) = (d, s, q)"
    by (metis prod_cases3)
  ultimately show ?thesis
    using save_keeps save_content
    by (cases q) (fastforce simp: save_def act_with_def save_session_def Let_def bookkeeping_def b_turns_def is_content_def)+
qed

text \<open>The rejected calls' results: each under the call's own id outside content runs.\<close>

definition rejections :: "bool \<Rightarrow> nat \<Rightarrow> nat \<Rightarrow> tool_call list \<Rightarrow> chat_message list" where
  "rejections content turn index calls = map (\<lambda>(i, c). result_message (if content then conversation_tool_call_id c turn i else tc_id c)
     (if content then [] else rejection)) (enumerate index calls)"

lemma reject_batch_appends:
  assumes "reject_batch en index calls b = (b', r)"
  shows "bookkeeping b b' \<and> (\<forall>u. r = Inr u \<longrightarrow> sn_messages (ba_session b') = sn_messages (ba_session b) @
    rejections (is_content b) (b_turns b) index calls)"
  using assms
proof (induction calls arbitrary: index b)
  case Nil
  then show ?case by (simp add: act_return_def rejections_def)
next
  case (Cons call calls)
  define c where "c = (if is_content b then conversation_tool_call_id call (b_turns b) index else tc_id call)"
  obtain b1 r1 where b1: "content_text en c rejection b = (b1, r1)" by fastforce
  have k1: "bookkeeping b b1" "sn_messages (ba_session b1) = sn_messages (ba_session b)"
    using content_text_bookkeeping [of b en c rejection] b1 by simp_all
  show ?case
  proof (cases r1)
    case (Inl e)
    then show ?thesis using Cons.prems b1 k1
      by (auto simp: act_with_def act_then_def act_bind_def Let_def c_def [symmetric])
  next
    case (Inr u)
    obtain b2 where b2: "push_message c rejection b1 = (b2, Inr ())" by (simp add: push_message_def act_modify_def)
    have rest: "reject_batch en (Suc index) calls b2 = (b', r)"
      using Cons.prems b1 b2 Inr by (auto simp: act_with_def act_then_def act_bind_def Let_def c_def [symmetric])
    have same: "is_content b2 = is_content b" "b_turns b2 = b_turns b" "is_content b1 = is_content b"
      using k1 push_message_bookkeeping [OF b2] by (auto simp: bookkeeping_def)
    show ?thesis
      using Cons.IH [OF rest] push_message_bookkeeping [OF b2] k1 same bookkeeping_trans
      by (auto simp: rejections_def c_def enumerate_simps) blast+
  qed
qed


definition demo_reject :: "tool_call list" where
  "demo_reject = [demo_write, \<lparr>tc_id = ''b'', tc_name = ''report'', tc_args_json = ''{}''\<rparr>]"


subsection \<open>Calm steps\<close>

text \<open>What leaves the conversation and the outcomes of the batch as they are.\<close>

definition calm :: "('h, 'g) batch \<Rightarrow> ('h, 'g) batch \<Rightarrow> bool" where
  "calm b b' \<longleftrightarrow> sn_messages (ba_session b') = sn_messages (ba_session b) \<and> b_turns b' = b_turns b \<and>
     is_content b' = is_content b \<and> sn_plan_jail (ba_session b') = sn_plan_jail (ba_session b) \<and>
     ba_out b' = ba_out b \<and> ba_queued b' = ba_queued b"

lemma calm_refl [simp]: "calm b b"
  by (simp add: calm_def)

lemma calm_trans: "calm b0 b \<Longrightarrow> calm b b' \<Longrightarrow> calm b0 b'"
  by (simp add: calm_def)

lemma calm_views [simp]: "is_content (tick b) = is_content b" "is_content (log e b) = is_content b"
  "is_content (b\<lparr>ba_clock := n\<rparr>) = is_content b"
  by (simp_all add: is_content_def tick_def log_def)

lemma keeps_calm:
  assumes "\<And>b. calm b (fst (m b))"
  shows "keeps (calm b0) m"
  using assms calm_trans by (fastforce simp: hoare_def)

lemma calm_modify [triples]: "(\<And>b. calm b (f b)) \<Longrightarrow> keeps (calm b0) (act_modify f)"
  by (intro keeps_calm) (simp add: act_modify_def)

lemma calm_bounds [triples]: "keeps (calm b0) (bounds en)"
  by (intro keeps_calm) (simp add: bounds_def calm_def)

lemma calm_gov_call [triples]: "keeps (calm b0) (gov_call f)"
  by (intro keeps_calm) (auto simp: gov_call_def calm_def b_turns_def is_content_def split: prod.split)

lemma calm_emit [triples]: "keeps (calm b0) (emit en e)"
  by (intro keeps_calm) (simp add: emit_def calm_def log_def tick_def b_turns_def is_content_def)

lemma calm_save_session: "calm b (fst (save_session en keep park b))"
proof -
  obtain d s q where "save_with_retention (be_save en) (be_io en (ba_clock b)) (be_torn en (ba_clock b))
      (gp_checkpoint (be_port en) (ba_gov b)) (be_todos en (ba_host b)) keep park (ba_disk b) (ba_session b) = (d, s, q)"
    by (metis prod_cases3)
  with save_keeps [OF this] save_content [OF this] show ?thesis
    by (cases q) (simp_all add: save_session_def Let_def calm_def b_turns_def is_content_def log_def tick_def)
qed

lemma calm_saves [triples]: "keeps (calm b0) (save en)" "keeps (calm b0) (save_parked en park)"
  unfolding save_def save_parked_def by (intro triples keeps_calm calm_save_session)+

lemma calm_authorize [triples]: "keeps (calm b0) (authorize en c call)"
  by (intro keeps_calm) (auto simp: authorize_def calm_def b_turns_def is_content_def log_def Let_def split: prod.split)

lemma calm_claim [triples]: "keeps (calm b0) (claim en c)"
  by (intro keeps_calm)
    (auto simp: claim_def calm_def b_turns_def is_content_def log_def tick_def Let_def split: prod.split sum.split)

lemma calm_on_session [triples]:
  "(\<And>s. sn_messages (f s) = sn_messages s \<and> sn_turns (f s) = sn_turns s \<and> (sn_content (f s) = None) = (sn_content s = None) \<and>
      sn_plan_jail (f s) = sn_plan_jail s) \<Longrightarrow>
    keeps (calm b0) (on_session f)"
  unfolding on_session_def by (intro triples) (simp add: calm_def b_turns_def is_content_def)

lemma calm_steps [triples]:
  "keeps (calm b0) (report_tool en c n ok d)" "keeps (calm b0) (post_hook en n ok)" "keeps (calm b0) (park_hook en q u)"
  "keeps (calm b0) (emit_state_events en n ok d a)" "keeps (calm b0) (emit_tool_end en n ok d c)"
  "keeps (calm b0) (mark_complete en i call)" "keeps (calm b0) (clear_parked en c)" "keeps (calm b0) (durable_args i call)"
  "keeps (calm b0) (executes i call)" "keeps (calm b0) (poll_bounds en k)" "keeps (calm b0) (park_with en p)"
proof -
  show "keeps (calm b0) (report_tool en c n ok d)" "keeps (calm b0) (post_hook en n ok)" "keeps (calm b0) (park_hook en q u)"
    "keeps (calm b0) (emit_state_events en n ok d a)" "keeps (calm b0) (emit_tool_end en n ok d c)"
    "keeps (calm b0) (mark_complete en i call)" "keeps (calm b0) (clear_parked en c)" "keeps (calm b0) (durable_args i call)"
    "keeps (calm b0) (executes i call)" "keeps (calm b0) (park_with en p)"
    unfolding report_tool_def post_hook_def park_hook_def emit_state_events_def emit_tool_end_def mark_complete_def clear_parked_def
      durable_args_def executes_def park_with_def
    by (intro triples; simp add: calm_def b_turns_def is_content_def log_def tick_def)+
  show "keeps (calm b0) (poll_bounds en k)" by (induction k) (auto intro!: triples)
qed

lemma calm_stage [triples]: "keeps (calm b0) (stage_execution en i call)"
  unfolding stage_execution_def by (intro triples)

subsection \<open>The serial loop answers each open call once\<close>

text \<open>Children leave the parent's conversation alone, and waiting answers the queued calls, in any order.\<close>

definition keeps_talk :: "('h child_state \<Rightarrow> 'h child_state \<times> 'a) \<Rightarrow> bool" where
  "keeps_talk f \<longleftrightarrow> (\<forall>h r d s. case f (h, r, d, s) of ((h', r', d', s'), res) \<Rightarrow>
     sn_messages s' = sn_messages s \<and> sn_turns s' = sn_turns s \<and> (sn_content s' = None) = (sn_content s = None) \<and>
     sn_plan_jail s' = sn_plan_jail s)"

definition key :: "nat \<times> tool_call \<times> 'a \<Rightarrow> nat \<times> tool_call" where
  "key x = (fst x, fst (snd x))"

definition children_answer :: "('h, 'g) batch_env \<Rightarrow> bool" where
  "children_answer en \<longleftrightarrow> (\<forall>n call. keeps_talk (be_child en n call)) \<and> (\<forall>n q. keeps_talk (be_wait_children en n q)) \<and>
     (\<forall>n q st st' outs. be_wait_children en n q st = (st', Inr outs) \<longrightarrow> mset (map key outs) = mset (map key q))"

definition open_before :: "chat_message list \<Rightarrow> nat \<Rightarrow> tool_call list \<Rightarrow> nat \<Rightarrow> (nat \<times> tool_call) list" where
  "open_before messages turn calls k = filter (\<lambda>(i, c). \<not> already_answered messages turn c i) (enumerate 0 (take k calls))"

definition progress :: "chat_message list \<Rightarrow> nat \<Rightarrow> bool \<Rightarrow> tool_call list \<Rightarrow> nat \<Rightarrow> ('h, 'g) batch \<Rightarrow> bool" where
  "progress messages turn content calls k b \<longleftrightarrow> sn_messages (ba_session b) = messages \<and> b_turns b = turn \<and> is_content b = content \<and>
     sorted (map fst (ba_out b)) \<and>
     mset (map key (ba_out b)) + mset (map key (ba_queued b)) = mset (open_before messages turn calls k)"

abbreviation tri :: "('s \<Rightarrow> bool) \<Rightarrow> ('s, 'a, 'e) action \<Rightarrow> ('a \<Rightarrow> 's \<Rightarrow> bool) \<Rightarrow> bool" where
  "tri \<equiv> hoare (\<lambda>_. True)"

lemma tri_top: "tri P m (\<lambda>_ _. True)"
  by (simp add: hoare_def)

lemma tri_if: "(c \<Longrightarrow> hoare I P m Q) \<Longrightarrow> (\<not> c \<Longrightarrow> hoare I P n Q) \<Longrightarrow> hoare I P (if c then m else n) Q"
  by simp

lemma flush_fail_tri: "tri P (flush_fail en e) Q"
  by (auto simp: hoare_def flush_fail_def act_then_def act_bind_def act_fail_def split: prod.splits sum.splits)

lemma open_before_Suc:
  assumes "k < length calls"
  shows "open_before messages turn calls (Suc k) = open_before messages turn calls k @
    (if already_answered messages turn (calls ! k) k then [] else [(k, calls ! k)])"
  using assms by (simp add: open_before_def take_Suc_conv_app_nth enumerate_append_eq)

lemma open_before_less: "x \<in> set (open_before messages turn calls k) \<Longrightarrow> fst x < k"
  by (auto simp: open_before_def in_set_enumerate_eq)

lemma progress_calm: "calm b b' \<Longrightarrow> progress messages turn content calls k b \<Longrightarrow> progress messages turn content calls k b'"
  by (simp add: calm_def progress_def)

lemma calm_tri:
  assumes "\<And>b0. keeps (calm b0) m"
  shows "tri (progress messages turn content calls k) m (\<lambda>_. progress messages turn content calls k)"
proof -
  have "calm b (fst (m b))" for b using assms [of b] by (simp add: hoare_def)
  then show ?thesis unfolding hoare_def using progress_calm by blast
qed

definition open_call :: "chat_message list \<Rightarrow> nat \<Rightarrow> tool_call list \<Rightarrow> nat \<Rightarrow> bool" where
  "open_call messages turn calls k \<longleftrightarrow> k < length calls \<and> \<not> already_answered messages turn (calls ! k) k"

lemma progress_out_less: "progress messages turn content calls k b \<Longrightarrow> x \<in> set (ba_out b) \<Longrightarrow> fst x < k"
proof -
  assume p: "progress messages turn content calls k b" and x: "x \<in> set (ba_out b)"
  have "key x \<in># mset (map key (ba_out b)) + mset (map key (ba_queued b))" using x by auto
  then have "key x \<in> set (open_before messages turn calls k)" using p by (metis progress_def set_mset_mset)
  then show "fst x < k" using open_before_less by (fastforce simp: key_def)
qed

lemma progress_push:
  assumes "progress messages turn content calls k b" and "open_call messages turn calls k"
  shows "progress messages turn content calls (Suc k) (b\<lparr>ba_out := ba_out b @ [(k, calls ! k, r)]\<rparr>)"
  using assms progress_out_less [OF assms(1)]
  by (auto simp: progress_def open_call_def open_before_Suc sorted_append key_def b_turns_def is_content_def less_imp_le)

lemma next_with_tri:
  "open_call messages turn calls k \<Longrightarrow>
   tri (progress messages turn content calls k) (next_with k (calls ! k) r) (\<lambda>_. progress messages turn content calls (Suc k))"
  by (simp add: hoare_def next_with_def push_out_def act_defs progress_push)

lemma keeps_talkD:
  "keeps_talk f \<Longrightarrow> f (h, r, d, s) = ((h', r', d', s'), res) \<Longrightarrow> sn_messages s' = sn_messages s \<and> sn_turns s' = sn_turns s \<and>
     (sn_content s' = None) = (sn_content s = None) \<and> sn_plan_jail s' = sn_plan_jail s"
  unfolding keeps_talk_def by (drule spec [of _ h], drule spec [of _ r], drule spec [of _ d], drule spec [of _ s]) simp

lemma wait_children_progress:
  assumes "children_answer en" and "progress messages turn content calls k b"
    and "on_children (be_wait_children en n (ba_queued b)) (b\<lparr>ba_clock := n', ba_queued := []\<rparr>) = (b', Inr outs)"
  shows "progress messages turn content calls k (b'\<lparr>ba_out := sort_key fst (ba_out b' @ outs)\<rparr>)"
proof -
  obtain h r d s where w: "be_wait_children en n (ba_queued b) (ba_host b, ba_reg b, ba_disk b, ba_session b) = ((h, r, d, s), Inr outs)"
    and b': "b' = b\<lparr>ba_clock := n', ba_queued := [], ba_host := h, ba_reg := r, ba_disk := d, ba_session := s\<rparr>"
    using assms(3) by (auto simp: on_children_def split: prod.splits)
  have "sn_messages s = sn_messages (ba_session b) \<and> sn_turns s = sn_turns (ba_session b) \<and>
      (sn_content s = None) = (sn_content (ba_session b) = None)"
    using keeps_talkD [of "be_wait_children en n (ba_queued b)", OF _ w] assms(1) by (simp add: children_answer_def)
  moreover have "mset (map key outs) = mset (map key (ba_queued b))"
    using assms(1) w unfolding children_answer_def by blast
  ultimately show ?thesis using assms(2)
    by (simp add: b' progress_def b_turns_def is_content_def mset_map)
qed

lemma flush_tri:
  fixes en :: "('h, 'g) batch_env"
  assumes "children_answer en"
  shows "tri (progress messages turn content calls k) (flush_children en) (\<lambda>_. progress messages turn content calls k)"
proof (unfold hoare_def, intro allI impI)
  fix b :: "('h, 'g) batch" assume p: "progress messages turn content calls k b"
  show "True \<and> (\<forall>a. snd (flush_children en b) = Ok a \<longrightarrow> progress messages turn content calls k (fst (flush_children en b)))"
  proof (cases "ba_queued b = []")
    case True
    with p show ?thesis by (simp add: flush_children_def act_defs)
  next
    case False
    have "tick b = b\<lparr>ba_clock := Suc (ba_clock b)\<rparr>" by (simp add: tick_def)
    with False show ?thesis
      using wait_children_progress [OF assms p, of "ba_clock b" "Suc (ba_clock b)"]
      by (auto simp: flush_children_def act_defs split: prod.splits sum.splits)
  qed
qed

fun is_parked :: "batch_outcome \<Rightarrow> bool" where
  "is_parked (BO_Parked _ _) = True"
| "is_parked _ = False"

lemma parks_parked:
  "tri P (park_for_ask en call k es) (\<lambda>out _. is_parked out)" "tri P (park_for_plan en call k summary) (\<lambda>out _. is_parked out)"
  "tri P (park_for_approval en call k park reason es) (\<lambda>out _. is_parked out)"
  "tri P (park_for_escalate en call k request) (\<lambda>out _. is_parked out)"
  unfolding park_for_ask_def park_for_plan_def park_for_approval_def park_for_escalate_def Let_def case_prod_unfold
  by (intro hoare_with tri_if hoare_fail hoare_then [OF tri_top] hoare_bind [OF tri_top] hoare_return; simp)+

definition goes :: "chat_message list \<Rightarrow> nat \<Rightarrow> bool \<Rightarrow> tool_call list \<Rightarrow> nat \<Rightarrow> 'a flow \<Rightarrow> ('h, 'g) batch \<Rightarrow> bool" where
  "goes messages turn content calls k f b \<longleftrightarrow> (case f of FL_Next \<Rightarrow> progress messages turn content calls (Suc k) b
     | FL_Go _ \<Rightarrow> progress messages turn content calls k b \<and> open_call messages turn calls k | FL_Exit out \<Rightarrow> is_parked out)"

lemma goes_simps [simp]:
  "goes messages turn content calls k FL_Next b = progress messages turn content calls (Suc k) b"
  "goes messages turn content calls k (FL_Go a) b = (progress messages turn content calls k b \<and> open_call messages turn calls k)"
  "goes messages turn content calls k (FL_Exit out) b = is_parked out"
  by (simp_all add: goes_def)

lemma next_with_goes:
  "open_call messages turn calls k \<Longrightarrow>
   tri (progress messages turn content calls k) (next_with k (calls ! k) r) (goes messages turn content calls k)"
  by (simp add: hoare_def next_with_def push_out_def act_defs progress_push)

lemma exit_goes:
  "(\<And>Q. tri Q m (\<lambda>out _. is_parked out)) \<Longrightarrow> tri P (act_bind m (\<lambda>out. act_return (FL_Exit out))) (goes messages turn content calls k)"
  by (rule hoare_bind [where R = "\<lambda>out _. is_parked out"]) (auto simp: hoare_def act_return_def)

lemma go_return: "open_call messages turn calls k \<Longrightarrow>
  tri (progress messages turn content calls k) (act_return (FL_Go a)) (goes messages turn content calls k)"
  by (simp add: hoare_def act_return_def)

lemma hoare_case: "hoare I (\<lambda>b. \<not> c \<and> P b) m Q \<Longrightarrow> (c \<Longrightarrow> hoare I P m Q) \<Longrightarrow> hoare I P m Q"
  by (cases c) (auto simp: hoare_def)

lemma pre_hook_goes:
  assumes o: "open_call messages turn calls k"
  shows "tri (progress messages turn content calls k) (pre_hook en k (calls ! k)) (goes messages turn content calls k)"
proof -
  let ?P = "progress messages turn content calls k" and ?Q = "goes messages turn content calls k" and ?call = "calls ! k"
  have "tri ?P (act_then (act_modify (\<lambda>b. (tick b)\<lparr>ba_host := h\<rparr>)) (case r of Inr _ \<Rightarrow> act_return (FL_Go ())
      | Inl e \<Rightarrow> act_then (clear_parked en c) (next_with k ?call (Inl e)))) ?Q" for h r c
  proof (rule hoare_then [OF calm_tri])
    show "keeps (calm b0) (act_modify (\<lambda>b. (tick b)\<lparr>ba_host := h\<rparr>))" for b0
      by (intro triples) (simp add: calm_def b_turns_def is_content_def tick_def)
    show "tri ?P (case r of Inr _ \<Rightarrow> act_return (FL_Go ()) | Inl e \<Rightarrow> act_then (clear_parked en c) (next_with k ?call (Inl e))) ?Q"
      by (cases r) (auto intro: go_return [OF o] hoare_then [OF calm_tri [OF calm_steps(7)] next_with_goes [OF o]])
  qed
  then show ?thesis unfolding pre_hook_def Let_def
    by (intro hoare_with) (auto intro: hoare_pre split: prod.split)
qed

lemma gates_goes:
  assumes o: "open_call messages turn calls k"
  shows "tri (progress messages turn content calls k) (gates en k (calls ! k)) (goes messages turn content calls k)"
proof -
  have grant: "tri (progress messages turn content calls k) (consume_grant k (calls ! k)) (\<lambda>_. progress messages turn content calls k)"
    unfolding consume_grant_def by (rule calm_tri) (intro triples; simp add: clear_resumed_ask_park_def)
  have park: "tri (progress messages turn content calls k) (ask_park en k (calls ! k)) (goes messages turn content calls k)"
    unfolding ask_park_def by (rule hoare_then [OF tri_top hoare_bind [OF tri_top exit_goes [OF parks_parked(1)]]])
  show ?thesis unfolding gates_def
    by (intro hoare_with)
      (auto split: option.split intro: hoare_pre [OF next_with_goes [OF o]] hoare_pre [OF park]
        hoare_pre [OF hoare_then [OF grant pre_hook_goes [OF o]]])
qed

lemma enter_call_goes:
  assumes "k < length calls"
  shows "tri (progress messages turn content calls k) (enter_call en k (calls ! k)) (goes messages turn content calls k)"
proof -
  let ?P = "progress messages turn content calls k" and ?Q = "goes messages turn content calls k" and ?call = "calls ! k"
  have "keeps (calm b0) (act_attempt (bounds en))" for b0 :: "('a, 'b) batch" by (intro triples)
  moreover have "tri ?P (case r of Inl e \<Rightarrow> flush_fail en e | Inr _ \<Rightarrow> gates en k ?call) ?Q" if "open_call messages turn calls k"
    for r :: "(unit, run_error) result"
    by (cases r) (auto intro: flush_fail_tri gates_goes [OF that])
  ultimately have go: "tri ?P (act_bind (act_attempt (bounds en)) (\<lambda>r. case r of Inl e \<Rightarrow> flush_fail en e | Inr _ \<Rightarrow> gates en k ?call)) ?Q"
    if "open_call messages turn calls k"
    using that by (intro hoare_bind [OF calm_tri])
  show ?thesis unfolding enter_call_def
  proof (intro hoare_with tri_if)
    fix b :: "('a, 'b) batch" assume "?P b" and "answered b ?call k"
    then show "tri (\<lambda>b'. b' = b) (act_return FL_Next) ?Q"
      using assms by (auto simp: hoare_def act_return_def progress_def open_before_Suc answered_def)
  next
    fix b :: "('a, 'b) batch" assume p: "?P b" and "\<not> answered b ?call k"
    then have o: "open_call messages turn calls k" using assms by (simp add: open_call_def answered_def progress_def)
    show "tri (\<lambda>b'. b' = b) (act_bind (act_attempt (bounds en)) (\<lambda>r. case r of Inl e \<Rightarrow> flush_fail en e | Inr _ \<Rightarrow> gates en k ?call)) ?Q"
      by (rule hoare_pre [OF go [OF o]]) (simp add: p)
  qed
qed

lemma goes_fail: "tri P (act_fail e) (goes messages turn content calls k)"
  by (rule hoare_fail)

lemma not_authorized_goes:
  assumes o: "open_call messages turn calls k"
  shows "tri (progress messages turn content calls k) (not_authorized en k (calls ! k) e) (goes messages turn content calls k)"
proof -
  have answered: "tri (progress messages turn content calls k) (act_then (clear_parked en c) (next_with k (calls ! k) r))
      (goes messages turn content calls k)" for c r
    by (rule hoare_then [OF calm_tri [OF calm_steps(7)] next_with_goes [OF o]])
  have parks: "tri P (act_with (\<lambda>b. act_bind (park_for_approval en (calls ! k) k (f b) reason es) (\<lambda>out. act_return (FL_Exit out))))
      (goes messages turn content calls k)" for P f reason es
    by (intro hoare_with exit_goes parks_parked)
  have other: "tri (progress messages turn content calls k) (act_with (\<lambda>b.
       if parked_for en b (call_id_at b (calls ! k) k) \<noteq> None \<and> d then act_fail (RE_Governance e)
       else act_then (clear_parked en (call_id_at b (calls ! k) k)) (next_with k (calls ! k) (Inl (be_show_gov en e)))))
      (goes messages turn content calls k)" for d
    by (intro hoare_with tri_if goes_fail hoare_pre [OF answered]) simp
  show ?thesis
  proof (cases e)
    case (GE_RequireApproval ra)
    show ?thesis unfolding not_authorized_def GE_RequireApproval governance_error.case
      by (rule hoare_then [OF tri_top], rule hoare_bind [OF tri_top], rule hoare_then [OF tri_top], rule parks)
  next
    case (GE_Message m)
    show ?thesis using other [of True] unfolding GE_Message by (simp add: not_authorized_def)
  next
    case (GE_Unavailable m)
    show ?thesis using other [of True] unfolding GE_Unavailable by (simp add: not_authorized_def)
  next
    case (GE_Denied m)
    show ?thesis using other [of False] unfolding GE_Denied by (simp add: not_authorized_def)
  qed
qed

lemma refuse_claimed_tri: "tri (progress messages turn content calls k) (refuse_claimed en c) (\<lambda>_. progress messages turn content calls k)"
  unfolding refuse_claimed_def by (intro hoare_with tri_if flush_fail_tri) (auto simp: hoare_def act_return_def)

lemma authorize_call_goes:
  assumes o: "open_call messages turn calls k"
  shows "tri (progress messages turn content calls k) (authorize_call en k (calls ! k)) (goes messages turn content calls k)"
proof -
  let ?P = "progress messages turn content calls k" and ?Q = "goes messages turn content calls k" and ?call = "calls ! k"
  have part: "tri ?P (act_then (if x then refuse_claimed en c else act_return ())
       (act_then (if y then act_then (stage_execution en k ?call) (save en) else act_return ())
         (act_bind (case z of Inr (_ :: unit) \<Rightarrow> authorize en c ?call | Inl e \<Rightarrow> act_return (Err e)) (\<lambda>r.
           case r of Inr _ \<Rightarrow> act_return (FL_Go ()) | Inl e \<Rightarrow> not_authorized en k ?call e)))) ?Q" for x y z c
  proof (intro hoare_then hoare_bind)
    show "tri ?P (if x then refuse_claimed en c else act_return ()) (\<lambda>_. ?P)"
      by (intro tri_if refuse_claimed_tri) (simp add: hoare_def act_return_def)
    show "tri ?P (if y then act_then (stage_execution en k ?call) (save en) else act_return ()) (\<lambda>_. ?P)"
      by (rule calm_tri) (intro triples; simp)
    show "tri ?P (case z of Inr _ \<Rightarrow> authorize en c ?call | Inl e \<Rightarrow> act_return (Err e)) (\<lambda>_. ?P)"
      by (rule calm_tri) (intro triples; simp)
    show "tri ?P (case r of Inr _ \<Rightarrow> act_return (FL_Go ()) | Inl e \<Rightarrow> not_authorized en k ?call e) ?Q"
      for r :: "(unit, governance_error) result"
      by (cases r) (auto intro: go_return [OF o] not_authorized_goes [OF o])
  qed
  show ?thesis unfolding authorize_call_def Let_def by (rule hoare_with, rule hoare_pre [OF part]) simp
qed

lemma claim_call_tri: "tri (progress messages turn content calls k) (claim_call en k call) (\<lambda>_. progress messages turn content calls k)"
  unfolding claim_call_def Let_def by (rule calm_tri) (intro triples; simp)

lemma child_error_goes:
  assumes "open_call messages turn calls k"
  shows "tri (progress messages turn content calls k) (child_error en e) (goes messages turn content calls k)"
  by (cases e) (auto simp: child_error_def intro: flush_fail_tri go_return [OF assms])

lemma calm_on_children [triples]:
  fixes b0 :: "('h, 'g) batch"
  assumes f: "keeps_talk f"
  shows "keeps (calm b0) (on_children f)"
proof (rule keeps_calm)
  fix b :: "('h, 'g) batch"
  show "calm b (fst (on_children f b))"
    using f [unfolded keeps_talk_def, rule_format, where h = "ba_host b" and r = "ba_reg b" and d = "ba_disk b" and s = "ba_session b"]
    by (simp add: on_children_def calm_def b_turns_def is_content_def del: not_None_eq split: prod.splits)
qed

lemma run_call_goes:
  assumes en: "children_answer en" and o: "open_call messages turn calls k"
  shows "tri (progress messages turn content calls k) (run_call en k (calls ! k)) (goes messages turn content calls k)"
proof -
  let ?P = "progress messages turn content calls k" and ?Q = "goes messages turn content calls k" and ?call = "calls ! k"
  have ex: "tri ?P (executes k ?call) (\<lambda>_. ?P)" by (rule calm_tri) (rule calm_steps)
  have child: "tri ?P (perform_child en ?call) ?Q"
  proof -
    have "tri ?P (act_then (act_modify tick) (act_bind (act_attempt (on_children (be_child en n ?call))) (\<lambda>r.
       case r of Inr output \<Rightarrow> act_return (FL_Go (Inr output)) | Inl e \<Rightarrow> child_error en e))) ?Q" for n
    proof (intro hoare_then hoare_bind)
      show "tri ?P (act_modify tick) (\<lambda>_. ?P)" by (rule calm_tri) (intro triples, simp add: calm_def)
      show "tri ?P (act_attempt (on_children (be_child en n ?call))) (\<lambda>_. ?P)"
        using en unfolding children_answer_def by (intro calm_tri triples) simp
      show "tri ?P (case r of Inr output \<Rightarrow> act_return (FL_Go (Inr output)) | Inl e \<Rightarrow> child_error en e) ?Q" for r
        by (cases r) (auto intro: go_return [OF o] child_error_goes [OF o])
    qed
    then show ?thesis unfolding perform_child_def by (intro hoare_with) (auto intro: hoare_pre)
  qed
  have tool: "tri ?P (perform_tool en ?call) ?Q"
  proof -
    have part: "tri ?P (act_then (act_modify (\<lambda>b. (tick b)\<lparr>ba_host := h\<rparr>)) (act_bind (act_attempt (poll_bounds en n)) (\<lambda>p.
       case p of Inl e \<Rightarrow> flush_fail en e | Inr _ \<Rightarrow>
         act_then (if c then (case z of (kind, matches) \<Rightarrow> emit en (HE_EditOutcome (be_edit_record en (tc_name ?call) kind matches)))
             else act_return ()) (act_return (FL_Go v))))) ?Q" for h n c z v
    proof (intro hoare_then hoare_bind)
      show "tri ?P (act_modify (\<lambda>b. (tick b)\<lparr>ba_host := h\<rparr>)) (\<lambda>_. ?P)"
        by (rule calm_tri) (intro triples, simp add: calm_def b_turns_def is_content_def tick_def)
      show "tri ?P (act_attempt (poll_bounds en n)) (\<lambda>_. ?P)" by (rule calm_tri) (intro triples)
      have "tri ?P (if c then (case z of (kind, matches) \<Rightarrow> emit en (HE_EditOutcome (be_edit_record en (tc_name ?call) kind matches)))
             else act_return ()) (\<lambda>_. ?P)" by (rule calm_tri) (intro triples; simp)
      then show "tri ?P (case p of Inl e \<Rightarrow> flush_fail en e | Inr _ \<Rightarrow>
         act_then (if c then (case z of (kind, matches) \<Rightarrow> emit en (HE_EditOutcome (be_edit_record en (tc_name ?call) kind matches)))
             else act_return ()) (act_return (FL_Go v))) ?Q" for p :: "(unit, run_error) result"
        by (cases p) (auto intro: flush_fail_tri hoare_then [OF _ go_return [OF o]])
    qed
    show ?thesis unfolding perform_tool_def Let_def
    proof (rule hoare_with)
      fix b :: "('a, 'b) batch" assume p: "?P b"
      obtain h n r where t: "be_tool en (ba_clock b) (tc_name ?call) (tc_args_json ?call) (ba_host b) = (h, n, r)" by (metis prod_cases3)
      show "tri (\<lambda>b'. b' = b) (case be_tool en (ba_clock b) (tc_name ?call) (tc_args_json ?call) (ba_host b) of
          (h, polls, r) \<Rightarrow> act_then (act_modify (\<lambda>b. (tick b)\<lparr>ba_host := h\<rparr>)) (act_bind (act_attempt (poll_bounds en polls)) (\<lambda>p.
            case p of Inl e \<Rightarrow> flush_fail en e | Inr _ \<Rightarrow>
              act_then (if tc_name ?call \<in> set [''edit'', ''multi_edit'', ''apply_patch'']
                  then (case edit_result r of (kind, matches) \<Rightarrow> emit en (HE_EditOutcome (be_edit_record en (tc_name ?call) kind matches)))
                  else act_return ())
                (act_return (FL_Go (case r of Inr (output, _) \<Rightarrow> Inr output | Inl e \<Rightarrow> Inl (be_show_tool en e))))))) ?Q"
        unfolding t prod.case by (rule hoare_pre [OF part]) (simp add: p)
    qed
  qed
  have start: "tri ?P (start_child en k ?call permits) ?Q" for permits
  proof -
    have "?Q f b'" if p: "?P b" and r: "start_child en k ?call permits b = (b', Inr f)" for b b' f
    proof -
      obtain s r' where q: "queue_wait_false_child_run (be_nested en) (be_cfg en) (be_watch en (ba_clock b))
        (be_child_id en (ba_clock b)) (be_request en) ?call (ba_session b) = (s, r')" by fastforce
      let ?b = "(tick b)\<lparr>ba_session := s\<rparr>"
      have pb: "?P ?b" using p queue_child_keeps [OF q] queue_child_content [OF q]
        by (simp add: progress_def b_turns_def is_content_def tick_def)
      show ?thesis
      proof (cases r')
        case (Inl e)
        with r q pb show ?thesis using child_error_goes [OF o, of content en e]
          by (auto simp: start_child_def act_with_def then_modify hoare_def)
      next
        case (Inr qc)
        with r q have "b' = ?b\<lparr>ba_queued := ba_queued b @ [(k, ?call, qc)], ba_permits := Some (permits - 1)\<rparr>" and "f = FL_Next"
          by (auto simp: start_child_def act_with_def then_modify act_return_def)
        with pb o show ?thesis
          by (simp add: progress_def b_turns_def is_content_def open_call_def open_before_Suc key_def)
      qed
    qed
    then show ?thesis unfolding hoare_def by (metis prod.collapse)
  qed
  have fl: "tri ?P (act_then (flush_children en) (act_then (executes k ?call) m)) ?Q" if "tri ?P m ?Q" for m :: "('a, 'b, outcome flow) step"
    by (rule hoare_then [OF flush_tri [OF en] hoare_then [OF ex that]])
  have "tri ?P (run_child en k ?call) ?Q" "tri ?P (run_tool en k ?call) ?Q"
    unfolding run_child_def run_tool_def by (rule fl [OF child], rule fl [OF tool])
  moreover have "tri ?P (queue_child en k ?call permits) ?Q" for permits
    unfolding queue_child_def by (intro tri_if next_with_goes [OF o] hoare_then [OF ex start])
  ultimately show ?thesis unfolding run_call_def
    by (intro hoare_with) (auto intro: hoare_pre split: option.split)
qed

lemma hoare_flow_goes:
  assumes "tri P m (goes messages turn content calls k)"
    and "\<And>a. open_call messages turn calls k \<Longrightarrow> tri (progress messages turn content calls k) (n a) (goes messages turn content calls k)"
  shows "tri P (flow_bind m n) (goes messages turn content calls k)"
proof -
  have "tri (goes messages turn content calls k f) (case f of FL_Next \<Rightarrow> act_return FL_Next | FL_Exit out \<Rightarrow> act_return (FL_Exit out)
      | FL_Go a \<Rightarrow> n a) (goes messages turn content calls k)" for f
    using assms(2) by (cases f) (auto simp: hoare_def act_return_def)
  then show ?thesis unfolding flow_bind_def by (rule hoare_bind [OF assms(1)])
qed

lemma serial_call_goes:
  assumes "children_answer en" and "k < length calls"
  shows "tri (progress messages turn content calls k) (serial_call en k (calls ! k)) (goes messages turn content calls k)"
  unfolding serial_call_def
  by (intro hoare_flow_goes enter_call_goes authorize_call_goes hoare_then [OF claim_call_tri] run_call_goes next_with_goes assms)

lemma flush_empties: "flush_children en b = (b', Inr u) \<Longrightarrow> ba_queued b' = []"
  by (auto simp: flush_children_def act_defs on_children_def split: prod.splits sum.splits if_splits)

definition all_answered :: "chat_message list \<Rightarrow> nat \<Rightarrow> bool \<Rightarrow> tool_call list \<Rightarrow> ('h, 'g) batch \<Rightarrow> bool" where
  "all_answered messages turn content calls b \<longleftrightarrow> sn_messages (ba_session b) = messages \<and> b_turns b = turn \<and> is_content b = content \<and>
     map key (ba_out b) = open_before messages turn calls (length calls)"

lemma sorted_by_index:
  assumes "mset xs = mset ys" and "sorted (map fst xs)" and "sorted (map fst ys)" and "distinct (map fst ys)"
  shows "xs = (ys :: (nat \<times> 'a) list)"
proof -
  have "inj_on fst (set ys)" using assms(4) by (simp add: distinct_map)
  then show ?thesis using sort_key_inj_key_eq [OF assms(1) [symmetric]] sort_key_inj_key_eq [OF refl [of "mset ys"]] assms(2,3) by metis
qed

lemma open_before_sorted: "sorted (map fst (open_before messages turn calls k)) \<and> distinct (map fst (open_before messages turn calls k))"
proof -
  have s: "sorted (map fst (filter P (enumerate n xs))) \<and> distinct (map fst (filter P (enumerate n xs)))" for P and xs :: "tool_call list" and n
    by (simp add: sorted_filter distinct_map_filter)
  show ?thesis unfolding open_before_def by (rule s)
qed

lemma progress_all:
  assumes "progress messages turn content calls (length calls) b" and "ba_queued b = []"
  shows "all_answered messages turn content calls b"
proof -
  have "map key (ba_out b) = open_before messages turn calls (length calls)"
    using assms open_before_sorted [of messages turn calls "length calls"]
    by (intro sorted_by_index) (simp_all add: progress_def key_def comp_def)
  with assms show ?thesis by (simp add: all_answered_def progress_def)
qed

definition answers :: "chat_message list \<Rightarrow> nat \<Rightarrow> bool \<Rightarrow> tool_call list \<Rightarrow> batch_outcome option \<Rightarrow> ('h, 'g) batch \<Rightarrow> bool" where
  "answers messages turn content calls r b \<longleftrightarrow> (case r of None \<Rightarrow> all_answered messages turn content calls b | Some out \<Rightarrow> is_parked out)"

lemma serial_loop_answers:
  assumes "children_answer en"
  shows "k \<le> length calls \<Longrightarrow> tri (progress messages turn content calls k) (serial_loop en k (drop k calls))
    (answers messages turn content calls)"
proof (induction "length calls - k" arbitrary: k)
  case 0
  then have k: "k = length calls" by simp
  have "all_answered messages turn content calls b'" if "progress messages turn content calls k b" and "flush_children en b = (b', Inr u)" for b b' u
    using that flush_tri [OF assms, of messages turn content calls k] flush_empties [OF that(2)]
    by (intro progress_all) (auto simp: hoare_def k dest!: spec [of _ b])
  then show ?case by (auto simp: k hoare_def answers_def act_then_def act_bind_def act_return_def split: prod.splits sum.splits)
next
  case (Suc n)
  then have k: "k < length calls" by simp
  let ?next = "\<lambda>f. case f of FL_Exit out \<Rightarrow> act_return (Some out) | _ \<Rightarrow> serial_loop en (Suc k) (drop (Suc k) calls)"
  have "\<nexists>a. snd (serial_call en k (calls ! k) b) = Inr (FL_Go a)" for b
    by (auto simp: serial_call_def flow_bind_def act_defs next_with_def push_out_def split: prod.splits sum.splits flow.splits)
  with serial_call_goes [OF assms k, of messages turn content]
  have "tri (progress messages turn content calls k) (serial_call en k (calls ! k))
      (\<lambda>f b. (\<forall>a. f \<noteq> FL_Go a) \<and> goes messages turn content calls k f b)"
    unfolding hoare_def by fastforce
  moreover have "tri (\<lambda>b. (\<forall>a. f \<noteq> FL_Go a) \<and> goes messages turn content calls k f b) (?next f)
      (answers messages turn content calls)" for f :: "unit flow"
    using Suc k by (cases f) (auto simp: hoare_def answers_def act_return_def)
  ultimately have "tri (progress messages turn content calls k) (act_bind (serial_call en k (calls ! k)) ?next)
      (answers messages turn content calls)"
    by (rule hoare_bind)
  then show ?case using k by (simp add: Cons_nth_drop_Suc [symmetric])
qed

lemma abandon_fails: "tri P (abandon en e) Q"
  by (auto simp: hoare_def abandon_def act_defs split: prod.splits sum.splits)

lemma hoare_catch: "hoare I P m Q \<Longrightarrow> (\<And>e. hoare I (\<lambda>_. True) (h e) Q) \<Longrightarrow> hoare I P (act_catch m h) Q"
  by (fastforce simp: hoare_def act_catch_def split: prod.splits sum.splits)

lemma serial_batch_answers:
  assumes "children_answer en"
  shows "tri (\<lambda>b. sn_messages (ba_session b) = messages \<and> b_turns b = turn \<and> is_content b = content)
    (serial_batch en calls) (answers messages turn content calls)"
  unfolding serial_batch_def
proof (rule hoare_then)
  show "tri (\<lambda>b. sn_messages (ba_session b) = messages \<and> b_turns b = turn \<and> is_content b = content)
      (act_modify (\<lambda>b. b\<lparr>ba_permits := child_permits en b calls, ba_queued := [], ba_out := []\<rparr>))
      (\<lambda>_. progress messages turn content calls 0)"
    by (rule hoare_modify) (simp add: progress_def open_before_def b_turns_def is_content_def)
  show "tri (progress messages turn content calls 0) (act_catch (serial_loop en 0 calls) (abandon en))
      (answers messages turn content calls)"
    by (rule hoare_catch [OF _ abandon_fails]) (use serial_loop_answers [OF assms, of 0 calls messages turn content] in simp)
qed

lemma calm_start_events: "keeps (calm b0) (start_events en calls)"
  unfolding start_events_def by (intro triples; simp)

subsection \<open>A parallel batch finishes its tasks\<close>

definition tasks_in :: "task_state set \<Rightarrow> task list \<Rightarrow> nat set" where
  "tasks_in S ts = {j. j < length ts \<and> snd (snd (ts ! j)) \<in> S}"

definition done_states :: "task_state set" where
  "done_states = range TS_Done"

text \<open>A turn of a task that can move: it answers with no error, and moves the task on.\<close>

lemma finish_task_done: "\<exists>b' r. finish_task en index call b = (b', Inr (TS_Done r)) \<and> calm b b'"
  by (auto simp: finish_task_def executes_def act_defs calm_def b_turns_def is_content_def log_def tick_def split: prod.split)

lemma start_task_moves: "\<exists>b' st. start_task en index call b = (b', Inr st) \<and> st \<noteq> TS_Waiting \<and> calm b b'"
  by (auto simp: start_task_def act_defs authorize_def calm_def b_turns_def is_content_def log_def Let_def
      split: prod.split sum.split governance_error.split)

definition only_moves :: "task list \<Rightarrow> task list \<Rightarrow> nat \<Rightarrow> bool" where
  "only_moves ts ts' j \<longleftrightarrow> map key ts' = map key ts \<and> (\<forall>i. i \<noteq> j \<longrightarrow> i < length ts \<longrightarrow> ts' ! i = ts ! i)"

lemma only_moves_update: "j < length ts \<Longrightarrow> ts ! j = (i, c, st) \<Longrightarrow> only_moves ts (ts[j := (i, c, st')]) j"
  by (auto simp: only_moves_def map_update key_def intro!: list_update_same_conv [THEN iffD2])

lemma task_step_keeps:
  "\<exists>b' ts'. task_step en ts j b = (b', Inr ts') \<and> calm b b' \<and> only_moves ts ts' j"
proof (cases "j < length ts")
  case False
  then show ?thesis by (simp add: task_step_def act_return_def only_moves_def)
next
  case True
  obtain i c st where t: "ts ! j = (i, c, st)" by (metis prod_cases3)
  show ?thesis
  proof (cases st)
    case TS_Waiting
    obtain b' st' where "start_task en i c b = (b', Inr st')" "calm b b'" using start_task_moves by metis
    then show ?thesis using True t TS_Waiting only_moves_update [OF True t]
      by (auto simp: task_step_def act_bind_def act_return_def only_moves_def)
  next
    case TS_Authorized
    obtain b' r where "finish_task en i c b = (b', Inr (TS_Done r))" "calm b b'" using finish_task_done by metis
    then show ?thesis using True t TS_Authorized only_moves_update [OF True t]
      by (auto simp: task_step_def act_bind_def act_return_def)
  next
    case (TS_Done r)
    then show ?thesis using True t by (simp add: task_step_def act_return_def only_moves_def)
  qed
qed

lemma task_step_authorized:
  assumes "j \<in> tasks_in {TS_Authorized} ts"
  shows "\<exists>b' ts'. task_step en ts j b = (b', Inr ts') \<and> calm b b' \<and> only_moves ts ts' j \<and> j \<in> tasks_in done_states ts'"
proof -
  obtain i c where j: "j < length ts" and t: "ts ! j = (i, c, TS_Authorized)"
    using assms by (auto simp: tasks_in_def) (metis prod.collapse)
  obtain b' r where "finish_task en i c b = (b', Inr (TS_Done r))" "calm b b'" using finish_task_done by metis
  then show ?thesis using j t only_moves_update [OF j t]
    by (auto simp: task_step_def act_bind_def act_return_def tasks_in_def done_states_def)
qed

lemma task_step_waiting:
  assumes "j \<in> tasks_in {TS_Waiting} ts" and "running ts < tool_concurrency (be_cfg en)"
  shows "\<exists>b' ts'. task_step en ts j b = (b', Inr ts') \<and> calm b b' \<and> only_moves ts ts' j \<and>
    (j \<in> tasks_in done_states ts' \<or> j \<in> tasks_in {TS_Authorized} ts')"
proof -
  obtain i c where j: "j < length ts" and t: "ts ! j = (i, c, TS_Waiting)"
    using assms(1) by (auto simp: tasks_in_def) (metis prod.collapse)
  obtain b' st where s: "start_task en i c b = (b', Inr st)" "calm b b'" "st \<noteq> TS_Waiting" using start_task_moves by metis
  then show ?thesis using j t assms(2) only_moves_update [OF j t]
    by (cases st) (auto simp: task_step_def act_bind_def act_return_def tasks_in_def done_states_def)
qed

lemma only_moves_in:
  assumes "only_moves ts ts' j"
  shows "i \<noteq> j \<Longrightarrow> i \<in> tasks_in S ts' \<longleftrightarrow> i \<in> tasks_in S ts"
proof -
  have "length ts' = length ts" using assms unfolding only_moves_def by (metis length_map)
  then show "i \<noteq> j \<Longrightarrow> i \<in> tasks_in S ts' \<longleftrightarrow> i \<in> tasks_in S ts"
    using assms by (auto simp: tasks_in_def only_moves_def)
qed

lemma only_moves_keys: "only_moves ts ts' j \<Longrightarrow> map key ts' = map key ts"
  by (simp add: only_moves_def)

lemma done_not: "j \<in> tasks_in done_states ts \<Longrightarrow> j \<notin> tasks_in {TS_Authorized} ts \<and> j \<notin> tasks_in {TS_Waiting} ts"
  by (auto simp: tasks_in_def done_states_def)

lemma only_moves_done:
  assumes "\<And>i S. i \<noteq> j \<Longrightarrow> i \<in> tasks_in S ts' \<longleftrightarrow> i \<in> tasks_in S ts" and "j \<in> tasks_in done_states ts'"
  shows "tasks_in {TS_Authorized} ts' = tasks_in {TS_Authorized} ts - {j}" and "tasks_in {TS_Waiting} ts' = tasks_in {TS_Waiting} ts - {j}"
  by (intro set_eqI; use assms(1) done_not [OF assms(2)] in \<open>metis DiffD1 DiffD2 DiffI singletonD singletonI\<close>)+

lemma running_none: "tasks_in {TS_Authorized} ts = {} \<Longrightarrow> running ts = 0"
proof -
  assume a: "tasks_in {TS_Authorized} ts = {}"
  have "\<not> (case x of (_, _, st) \<Rightarrow> st = TS_Authorized)" if "x \<in> set ts" for x
    using that a by (auto simp: in_set_conv_nth tasks_in_def split: prod.splits)
  then show ?thesis by (simp add: running_def filter_empty_conv)
qed

lemma schedule_append:
  "run_schedule en (js @ ks) ts b = (case run_schedule en js ts b of (b1, Inl e) \<Rightarrow> (b1, Inl e) | (b1, Inr ts1) \<Rightarrow> run_schedule en ks ts1 b1)"
  by (induction js arbitrary: ts b) (auto simp: act_return_def act_bind_def split: prod.split sum.split)

lemma schedule_keeps:
  "\<exists>b' ts'. run_schedule en js ts b = (b', Inr ts') \<and> calm b b' \<and> map key ts' = map key ts"
proof (induction js arbitrary: ts b)
  case Nil
  then show ?case by (simp add: act_return_def)
next
  case (Cons j js)
  obtain b1 ts1 where 1: "task_step en ts j b = (b1, Inr ts1)" "calm b b1" "map key ts1 = map key ts"
    using task_step_keeps only_moves_keys by metis
  obtain b2 ts2 where "run_schedule en js ts1 b1 = (b2, Inr ts2)" "calm b1 b2" "map key ts2 = map key ts1" using Cons.IH by metis
  with 1 show ?case using calm_trans by (auto simp: act_bind_def)
qed

lemma schedule_running:
  assumes "distinct js" and "set js = tasks_in {TS_Authorized} ts"
  shows "\<exists>b' ts'. run_schedule en js ts b = (b', Inr ts') \<and> calm b b' \<and> map key ts' = map key ts \<and>
    tasks_in {TS_Authorized} ts' = {} \<and> tasks_in {TS_Waiting} ts' = tasks_in {TS_Waiting} ts"
  using assms
proof (induction js arbitrary: ts b)
  case Nil
  then show ?case by (simp add: act_return_def)
next
  case (Cons j js)
  then have "j \<in> tasks_in {TS_Authorized} ts" by auto
  from task_step_authorized [OF this] obtain b1 ts1 where 1: "task_step en ts j b = (b1, Inr ts1)" "calm b b1"
    "only_moves ts ts1 j" "j \<in> tasks_in done_states ts1" by metis
  note moved = only_moves_done [OF only_moves_in [OF 1(3)] 1(4)]
  have "set js = tasks_in {TS_Authorized} ts1" using Cons.prems by (auto simp: moved)
  moreover have "distinct js" using Cons.prems(1) by simp
  ultimately obtain b2 ts2 where 2: "run_schedule en js ts1 b1 = (b2, Inr ts2)" "calm b1 b2"
    "map key ts2 = map key ts1" "tasks_in {TS_Authorized} ts2 = {}" "tasks_in {TS_Waiting} ts2 = tasks_in {TS_Waiting} ts1"
    using Cons.IH [of ts1 b1] by metis
  have "j \<notin> tasks_in {TS_Waiting} ts" using \<open>j \<in> tasks_in {TS_Authorized} ts\<close> by (auto simp: tasks_in_def)
  then have "tasks_in {TS_Waiting} ts1 = tasks_in {TS_Waiting} ts"
    by (simp add: moved)
  with 1 2 show ?case using calm_trans only_moves_keys [OF 1(3)] by (auto simp: act_bind_def)
qed

lemma schedule_waiting:
  assumes "distinct js" and "set js = tasks_in {TS_Waiting} ts" and "tasks_in {TS_Authorized} ts = {}"
  shows "\<exists>b' ts'. run_schedule en (concat (map (\<lambda>j. [j, j]) js)) ts b = (b', Inr ts') \<and> calm b b' \<and> map key ts' = map key ts \<and>
    tasks_in {TS_Authorized} ts' = {} \<and> tasks_in {TS_Waiting} ts' = {}"
  using assms
proof (induction js arbitrary: ts b)
  case Nil
  then show ?case by (simp add: act_return_def)
next
  case (Cons j js)
  have free: "running ts < tool_concurrency (be_cfg en)" using running_none [OF Cons.prems(3)] by (simp add: tool_concurrency_def)
  have "j \<in> tasks_in {TS_Waiting} ts" using Cons.prems(2) by auto
  from task_step_waiting [OF this free] obtain b1 ts1 where 1: "task_step en ts j b = (b1, Inr ts1)" "calm b b1" "only_moves ts ts1 j"
    "j \<in> tasks_in done_states ts1 \<or> j \<in> tasks_in {TS_Authorized} ts1" by metis
  obtain b2 ts2 where 2: "task_step en ts1 j b1 = (b2, Inr ts2)" "calm b1 b2" "only_moves ts1 ts2 j" "j \<in> tasks_in done_states ts2"
  proof (cases "j \<in> tasks_in {TS_Authorized} ts1")
    case True
    from task_step_authorized [OF this] that show ?thesis by metis
  next
    case False
    with 1(4) have d: "j \<in> tasks_in done_states ts1" by blast
    then have "task_step en ts1 j b1 = (b1, Inr ts1)"
      by (auto simp: task_step_def tasks_in_def done_states_def act_return_def split: prod.splits)
    with that d show ?thesis by (simp add: only_moves_def)
  qed
  have same: "i \<noteq> j \<Longrightarrow> i \<in> tasks_in S ts2 \<longleftrightarrow> i \<in> tasks_in S ts" for i S
    using only_moves_in [OF 1(3)] only_moves_in [OF 2(3)] by metis
  have "set js = tasks_in {TS_Waiting} ts2" and "tasks_in {TS_Authorized} ts2 = {}"
    using Cons.prems only_moves_done [OF same 2(4)] by auto
  moreover have "distinct js" using Cons.prems(1) by simp
  ultimately obtain b3 ts3 where 3: "run_schedule en (concat (map (\<lambda>j. [j, j]) js)) ts2 b2 = (b3, Inr ts3)"
    "calm b2 b3" "map key ts3 = map key ts2" "tasks_in {TS_Authorized} ts3 = {}" "tasks_in {TS_Waiting} ts3 = {}"
    using Cons.IH [of ts2 b2] by metis
  have "calm b b3" using 1(2) 2(2) 3(2) calm_trans by metis
  with 1 2 3 show ?case using only_moves_keys [OF 1(3)] only_moves_keys [OF 2(3)] by (auto simp: act_bind_def)
qed

lemma drain_completes:
  "\<exists>b' ts'. run_schedule en (drain ts) ts b = (b', Inr ts') \<and> calm b b' \<and> map key ts' = map key ts \<and> list_all task_done ts'"
proof -
  define run wait where "run = filter (\<lambda>j. (case ts ! j of (_, _, st) \<Rightarrow> st = TS_Authorized)) [0..<length ts]"
    and "wait = filter (\<lambda>j. (case ts ! j of (_, _, st) \<Rightarrow> st = TS_Waiting)) [0..<length ts]"
  have r: "distinct run" "set run = tasks_in {TS_Authorized} ts" and w: "distinct wait" "set wait = tasks_in {TS_Waiting} ts"
    by (auto simp: run_def wait_def tasks_in_def case_prod_unfold)
  from schedule_running [OF r] obtain b1 ts1 where 1: "run_schedule en run ts b = (b1, Inr ts1)" "calm b b1" "map key ts1 = map key ts"
    "tasks_in {TS_Authorized} ts1 = {}" "tasks_in {TS_Waiting} ts1 = tasks_in {TS_Waiting} ts" by metis
  have "set wait = tasks_in {TS_Waiting} ts1" using w(2) 1(5) by simp
  from schedule_waiting [OF w(1) this 1(4), where en = en and b = b1] obtain b2 ts2 where
    2: "run_schedule en (concat (map (\<lambda>j. [j, j]) wait)) ts1 b1 = (b2, Inr ts2)" "calm b1 b2" "map key ts2 = map key ts1"
    "tasks_in {TS_Authorized} ts2 = {}" "tasks_in {TS_Waiting} ts2 = {}" by (elim exE conjE) (rule that)
  have "task_done t" if "t \<in> set ts2" for t
  proof -
    from that obtain j where j: "j < length ts2" "t = ts2 ! j" by (auto simp: in_set_conv_nth)
    with 2(4,5) have "snd (snd t) \<noteq> TS_Authorized" "snd (snd t) \<noteq> TS_Waiting" by (auto simp: tasks_in_def)
    then show ?thesis by (cases t; cases "snd (snd t)") auto
  qed
  then show ?thesis using 1 2 calm_trans [OF 1(2) 2(2)]
    by (simp add: drain_def schedule_append run_def [symmetric] wait_def [symmetric] list_all_iff)
qed

lemma done_outcomes: "list_all task_done ts \<Longrightarrow> map key (List.map_filter task_outcome ts) = map key ts"
proof (induction ts)
  case (Cons t ts)
  then show ?case by (cases t; cases "snd (snd t)") (auto simp: map_filter_simps key_def)
qed (simp add: map_filter_simps)

lemma tasks_of_keys: "map key (tasks_of b calls) = open_before (sn_messages (ba_session b)) (b_turns b) calls (length calls)"
proof -
  have "map key (map (\<lambda>(i, c). (i, c, TS_Waiting)) xs) = xs" for xs :: "(nat \<times> tool_call) list"
    by (induction xs) (auto simp: key_def)
  then show ?thesis by (simp add: tasks_of_def open_before_def answered_def)
qed

lemma key_fst: "map fst xs = map fst (map key xs)"
  by (simp add: key_def)

text \<open>
  A parallel batch cannot hang or lose a call: with the bounds met it succeeds under every schedule of its
  tasks, the semaphore included, and its outcomes are one for each open call, in the order of the calls.
\<close>

lemma parallel_batch_completes:
  assumes "snd (bounds en b) = Ok ()"
  shows "\<exists>b'. parallel_batch en calls b = (b', Ok ()) \<and> calm b (b'\<lparr>ba_out := ba_out b\<rparr>) \<and>
    map key (ba_out b') = open_before (sn_messages (ba_session b)) (b_turns b) calls (length calls)"
proof -
  define b0 where "b0 = fst (bounds en b)"
  have b0: "bounds en b = (b0, Inr ())" using assms by (simp add: b0_def prod_eq_iff)
  have c0: "calm b b0" using keepsD [OF calm_bounds [of b en], of b] by (simp add: b0_def)
  let ?ts = "tasks_of b0 calls"
  obtain b1 ts1 where 1: "run_schedule en (be_schedule en (ba_clock b0)) ?ts b0 = (b1, Inr ts1)" "calm b0 b1" "map key ts1 = map key ?ts"
    using schedule_keeps by metis
  obtain b2 ts2 where 2: "run_schedule en (drain ts1) ts1 b1 = (b2, Inr ts2)" "calm b1 b2" "map key ts2 = map key ts1" "list_all task_done ts2"
    using drain_completes [of en ts1 b1] by (elim exE conjE) (rule that)
  let ?out = "List.map_filter task_outcome ts2"
  have keys: "map key ?out = open_before (sn_messages (ba_session b)) (b_turns b) calls (length calls)"
    using done_outcomes [OF 2(4)] 2(3) 1(3) c0 by (simp add: tasks_of_keys calm_def)
  then have "sorted (map fst ?out)" using open_before_sorted by (metis key_fst)
  then have "sort_key fst ?out = ?out" by (rule sort_key_id_if_sorted)
  then have "parallel_batch en calls b = (b2\<lparr>ba_out := ?out\<rparr>, Ok ())"
    using b0 1(1) 2(1) by (simp add: parallel_batch_def act_then_def act_bind_def act_with_def act_modify_def)
  moreover have "calm b (b2\<lparr>ba_out := ?out, ba_out := ba_out b\<rparr>)"
    using c0 1(2) 2(2) by (simp add: calm_def b_turns_def is_content_def)
  ultimately show ?thesis using keys by (intro exI [of _ "b2\<lparr>ba_out := ?out\<rparr>"]) simp
qed

lemma parallel_all_answered:
  "tri (\<lambda>b. sn_messages (ba_session b) = messages \<and> b_turns b = turn \<and> is_content b = content) (parallel_batch en calls)
    (\<lambda>_. all_answered messages turn content calls)"
proof -
  have "all_answered messages turn content calls b'" if b: "sn_messages (ba_session b) = messages" "b_turns b = turn" "is_content b = content"
    and r: "parallel_batch en calls b = (b', Inr u)" for b b' u
  proof -
    have "snd (bounds en b) = Ok ()" using r by (cases "bounds en b") (auto simp: parallel_batch_def act_then_def act_bind_def split: sum.splits)
    from parallel_batch_completes [OF this, of calls] r b show ?thesis
      by (auto simp: all_answered_def calm_def b_turns_def is_content_def)
  qed
  then show ?thesis unfolding hoare_def by (metis prod.collapse)
qed

subsection \<open>Appending the results\<close>

definition answer_of :: "bool \<Rightarrow> nat \<Rightarrow> nat \<times> tool_call \<times> outcome \<Rightarrow> chat_message list" where
  "answer_of content turn x = (case x of (index, call, r) \<Rightarrow> (case result_text r of None \<Rightarrow> []
     | Some (_, shown) \<Rightarrow> [result_message (conversation_tool_call_id call turn index) (if content then [] else shown)]))"

definition plain :: "('h, 'g) batch \<Rightarrow> nat \<times> tool_call \<times> outcome \<Rightarrow> bool" where
  "plain b x \<longleftrightarrow> \<not> kept_for_plan b (snd (snd x)) \<and> result_text (snd (snd x)) \<noteq> None"

text \<open>As \<open>calm\<close>, but for messages that are added at the end.\<close>

definition adds :: "chat_message list \<Rightarrow> ('h, 'g) batch \<Rightarrow> ('h, 'g) batch \<Rightarrow> bool" where
  "adds ms b b' \<longleftrightarrow> sn_messages (ba_session b') = sn_messages (ba_session b) @ ms \<and> b_turns b' = b_turns b \<and> is_content b' = is_content b \<and>
     sn_plan_jail (ba_session b') = sn_plan_jail (ba_session b) \<and> ba_out b' = ba_out b"

lemma append_result_adds:
  assumes "append_result en i call kept shown b = (b', Inr u)"
  shows "adds [result_message (conversation_tool_call_id call (b_turns b) i) (if is_content b then [] else shown)] b b'"
proof -
  let ?c = "conversation_tool_call_id call (b_turns b) i"
  obtain h s r where t: "append_content_tool_text (be_content en) ?c kept (ba_host b) (ba_session b) = (h, s, r)" by (metis prod_cases3)
  with assms content_tool_text_keeps [OF t] content_tool_text_content [OF t] show ?thesis
    by (cases r) (auto simp: append_result_def act_defs content_text_def push_message_def adds_def b_turns_def is_content_def Let_def
        split: if_splits)
qed

lemma append_outcomes_adds:
  assumes "append_outcomes en xs b = (b', Inr u)" and "list_all (plain b) xs"
  shows "adds (concat (map (answer_of (is_content b) (b_turns b)) xs)) b b'"
  using assms
proof (induction xs arbitrary: b)
  case Nil
  then show ?case by (simp add: append_outcomes_def act_return_def adds_def)
next
  case (Cons x xs)
  obtain i c r where x: "x = (i, c, r)" by (metis prod_cases3)
  from Cons.prems(2) obtain kept shown where t: "result_text r = Some (kept, shown)" and n: "\<not> kept_for_plan b r"
    by (auto simp: plain_def x)
  from Cons.prems(1) obtain b1 v where a: "append_result en i c kept shown b = (b1, Inr v)" and rest: "append_outcomes en xs b1 = (b', Inr u)"
    by (auto simp: append_outcomes_def x act_then_def act_bind_def act_with_def t n split: prod.splits sum.splits)
  have ad: "adds (answer_of (is_content b) (b_turns b) x) b b1" using append_result_adds [OF a] by (simp add: answer_of_def x t)
  then have "kept_for_plan b1 = kept_for_plan b" by (auto simp: adds_def kept_for_plan_def fun_eq_iff)
  then have "list_all (plain b1) xs" using Cons.prems(2) by (simp add: plain_def [abs_def])
  from Cons.IH [OF rest this] ad show ?case by (simp add: adds_def)
qed

subsection \<open>Reporting\<close>

definition same_mode :: "('h, 'g) batch \<Rightarrow> ('h, 'g) batch \<Rightarrow> bool" where
  "same_mode b b' \<longleftrightarrow> is_content b' = is_content b \<and> sn_plan_jail (ba_session b') = sn_plan_jail (ba_session b)"

lemma same_mode_plain: "same_mode b b' \<Longrightarrow> plain b' = plain b"
  by (simp add: same_mode_def plain_def [abs_def] kept_for_plan_def)

lemma append_outcomes_mode: "same_mode b (fst (append_outcomes en xs b))"
proof -
  have appended: "keeps (same_mode b) (content_text en c t)" for c t
  proof -
    have "same_mode b0 (fst (content_text en c t b0))" for b0
    proof -
      obtain h s r where t: "append_content_tool_text (be_content en) c t (ba_host b0) (ba_session b0) = (h, s, r)" by (metis prod_cases3)
      with content_tool_text_content [OF t] show ?thesis by (simp add: content_text_def same_mode_def is_content_def)
    qed
    then show ?thesis unfolding hoare_def same_mode_def by metis
  qed
  have push: "keeps (same_mode b) (push_message c t)" for c t
    by (simp add: hoare_def push_message_def act_modify_def same_mode_def is_content_def)
  have "keeps (same_mode b) (append_outcomes en xs)"
    unfolding append_outcomes_def append_result_def Let_def by (intro triples appended push; simp)
  then show ?thesis by (rule keepsD) (simp add: same_mode_def)
qed

lemma calm_parks [triples]:
  "keeps (calm b0) (park_for_plan en c i t)" "keeps (calm b0) (park_for_escalate en c i q)"
proof -
  show "keeps (calm b0) (park_for_plan en c i t)" unfolding park_for_plan_def Let_def by (intro triples; simp)
  show "keeps (calm b0) (park_for_escalate en c i q)"
    unfolding park_for_escalate_def Let_def by (intro triples; simp add: calm_def b_turns_def is_content_def)
qed

lemma calm_report_one [triples]: "keeps (calm b0) (report_one en i c r)"
  unfolding report_one_def Let_def by (cases r; (rename_tac x; case_tac x)?) (auto intro!: triples)

lemma calm_report_loop [triples]: "keeps (calm b0) (report_loop en rs term)"
proof (induction en rs "term" rule: report_loop.induct)
  case (2 en index call r rs "term")
  show ?case unfolding report_loop.simps
  proof (intro keeps_bind calm_report_one)
    show "keeps (calm b0) (case f of FL_Exit out \<Rightarrow> act_return (FL_Exit out)
        | FL_Next \<Rightarrow> act_then (save en) (report_loop en rs term) | FL_Go t \<Rightarrow> act_then (save en) (report_loop en rs (Some t)))" for f
      by (cases f) (auto intro!: triples 2)
  qed
qed (auto intro!: triples)

lemma report_one_plain:
  assumes "report_one en i c r b = (b', Inr f)"
  shows "(case f of FL_Exit out \<Rightarrow> is_parked out | _ \<Rightarrow> plain b (i, c, r))"
proof (cases "plain b (i, c, r)")
  case True
  have "f \<noteq> FL_Exit out" for out
    using True assms by (cases r; (rename_tac x; case_tac x)?)
      (auto simp: report_one_def act_defs plain_def Let_def split: prod.splits sum.splits if_splits)
  with True show ?thesis by (auto split: flow.split)
next
  case False
  then consider rep where "r = Inr (TO_Report rep)" "kept_for_plan b r" | q where "r = Inr (TO_Park q)"
    by (cases r; (rename_tac x; case_tac x)?) (auto simp: plain_def kept_for_plan_def)
  then show ?thesis
  proof cases
    case 1
    then show ?thesis using assms parks_parked(2) [of "\<lambda>_. True" en c i "rp_summary rep"]
      by (auto simp: report_one_def act_with_def act_bind_def act_return_def hoare_def Let_def split: prod.splits sum.splits) (metis fst_conv snd_conv)
  next
    case 2
    then show ?thesis using assms parks_parked(4) [of "\<lambda>_. True" en c i q]
      by (auto simp: report_one_def act_with_def act_bind_def act_return_def hoare_def Let_def split: prod.splits sum.splits) (metis fst_conv snd_conv)
  qed
qed

lemma calm_mode: "calm b b' \<Longrightarrow> same_mode b b'"
  by (simp add: calm_def same_mode_def)

lemma calm_saved: "save en b = (b', r) \<Longrightarrow> calm b b'"
  using keepsD [OF calm_saves(1) [of b en], of b] by simp

lemma report_loop_plain:
  "report_loop en rs term b = (b', Inr f) \<Longrightarrow> (case f of FL_Exit out \<Rightarrow> is_parked out | FL_Go _ \<Rightarrow> list_all (plain b) rs | FL_Next \<Rightarrow> False)"
proof (induction en rs "term" arbitrary: b rule: report_loop.induct)
  case (2 en index call r rs "term")
  from 2(3) obtain b1 g where one: "report_one en index call r b = (b1, Inr g)"
    by (auto simp: act_bind_def split: prod.splits sum.splits)
  have c1: "calm b b1" using keepsD [OF calm_report_one [of b en index call r], of b] one by simp
  show ?case
  proof (cases "\<exists>out. g = FL_Exit out")
    case True
    with 2(3) one report_one_plain [OF one] show ?thesis by (auto simp: act_bind_def act_return_def)
  next
    case False
    then have p: "plain b (index, call, r)" using report_one_plain [OF one] by (auto split: flow.splits)
    from False 2(3) one obtain b2 t where s: "save en b1 = (b2, Inr ())" and rest: "report_loop en rs t b2 = (b', Inr f)"
      by (cases g) (auto simp: act_bind_def act_then_def split: prod.splits sum.splits)
    have "plain b2 = plain b" using same_mode_plain calm_mode calm_trans [OF c1 calm_saved [OF s]] by blast
    moreover have "case f of FL_Exit out \<Rightarrow> is_parked out | FL_Go _ \<Rightarrow> list_all (plain b2) rs | FL_Next \<Rightarrow> False"
    proof (cases g)
      case FL_Next
      with False 2(3) one s rest have "report_loop en rs term b2 = (b', Inr f)" by (simp add: act_bind_def act_then_def)
      from 2(1) [OF this] show ?thesis .
    next
      case (FL_Go a)
      with False 2(3) one s rest have "report_loop en rs (Some a) b2 = (b', Inr f)" by (simp add: act_bind_def act_then_def)
      from 2(2) [OF this] show ?thesis .
    qed (use False in simp)
    ultimately show ?thesis using p by (auto split: flow.splits)
  qed
qed (auto simp: act_return_def)

lemma stage_batch_messages:
  assumes "stage_batch en usage xs b = (b', Inr u)"
  shows "same_mode b b'" and "list_all (plain b) xs \<Longrightarrow>
    sn_messages (ba_session b') = sn_messages (ba_session b) @ concat (map (answer_of (is_content b) (b_turns b)) xs)"
proof -
  let ?rest = "act_then (act_each (\<lambda>(index, call, _). mark_complete en index call) xs)
       (act_then (act_with (\<lambda>b. gov_call (gp_stage_reports (be_port en) (staged_reports en b xs))))
         (act_then (gov_call (gp_clear (be_port en))) (act_then (mark_terminal en usage xs) (save en))))"
  obtain b1 v where a: "append_outcomes en xs b = (b1, Inr v)" and r: "?rest b1 = (b', Inr u)"
    using assms by (auto simp: stage_batch_def act_then_def act_bind_def split: prod.splits sum.splits)
  have mark: "keeps (calm b0) (mark_terminal en usage xs)" for b0
  proof (rule keeps_calm)
    fix b :: "('a, 'b) batch"
    show "calm b (fst (mark_terminal en usage xs b))"
      by (auto simp: mark_terminal_def act_defs on_session_def calm_def b_turns_def is_content_def mark_content_terminal_def
          split: option.splits sum.splits prod.splits)
  qed
  have "keeps (calm b1) ?rest" by (intro triples mark; simp)
  from keepsD [OF this, of b1] have c: "calm b1 b'" by (simp add: r)
  have "same_mode b b1" using append_outcomes_mode [of b en xs] a by simp
  with calm_mode [OF c] show "same_mode b b'" by (simp add: same_mode_def)
  show "list_all (plain b) xs \<Longrightarrow>
    sn_messages (ba_session b') = sn_messages (ba_session b) @ concat (map (answer_of (is_content b) (b_turns b)) xs)"
    using append_outcomes_adds [OF a] c by (simp add: adds_def calm_def)
qed

lemma report_batch_messages:
  assumes "report_batch en usage b = (b', Inr out)" and "\<not> is_parked out"
  shows "list_all (plain b) (ba_out b)" and "sn_messages (ba_session b') = sn_messages (ba_session b) @
    concat (map (answer_of (is_content b) (b_turns b)) (ba_out b))"
proof -
  from assms(1) obtain b1 b2 u f where st: "stage_batch en usage (ba_out b) b = (b1, Inr u)"
    and rl: "report_loop en (ba_out b) None b1 = (b2, Inr f)"
    and fin: "(case f of FL_Exit out \<Rightarrow> act_return out | FL_Next \<Rightarrow> act_return BO_Continue | FL_Go t \<Rightarrow> finish_reports en t) b2 = (b', Inr out)"
    by (auto simp: report_batch_def act_with_def act_then_def act_bind_def split: prod.splits sum.splits)
  have "f \<noteq> FL_Exit o' \<and> f \<noteq> FL_Next" for o'
    using report_loop_plain [OF rl] fin assms(2) by (auto simp: act_return_def)
  then obtain t where f: "f = FL_Go t" by (cases f) auto
  have "plain b1 = plain b" by (rule same_mode_plain [OF stage_batch_messages(1) [OF st]])
  then show p: "list_all (plain b) (ba_out b)" using report_loop_plain [OF rl] f by simp
  have "keeps (calm b2) (finish_reports en t)" unfolding finish_reports_def by (intro triples; simp)
  from keepsD [OF this, of b2] have "calm b2 b'" using fin f by simp
  moreover have "calm b1 b2" using keepsD [OF calm_report_loop [of b1 en "ba_out b" None], of b1] rl by simp
  ultimately show "sn_messages (ba_session b') = sn_messages (ba_session b) @
    concat (map (answer_of (is_content b) (b_turns b)) (ba_out b))"
    using stage_batch_messages(2) [OF st p] by (simp add: calm_def)
qed


subsection \<open>A concrete batch that is answered\<close>

text \<open>A batch whose steps all succeed: the governance scratch of the run is there, and the conversation is \<open>ms\<close>.\<close>

definition live :: "chat_message list \<Rightarrow> (nat \<times> tool_call \<times> outcome) list \<Rightarrow> (unit, in_process_state) batch \<Rightarrow> bool" where
  "live ms out b \<longleftrightarrow> ba_session b = demo_parent\<lparr>sn_messages := ms\<rparr> \<and> ip_durability (ba_gov b) ''r'' \<noteq> None \<and> ba_out b = out \<and> ba_queued b = [] \<and>
     ba_reg b = empty_registry"

lemma live_save: "succeeds (live ms out) (save demo_batch_env) (\<lambda>_. live ms out)"
  by (simp add: succeeds_def live_def save_def save_session_def act_with_def demo_batch_env_def demo_parent_def run_session_new_def
      save_with_retention_def save_checkpoint_of_def checkpoint_save_def retained_checkpoint_def demo_r_safe Let_def log_def tick_def)

lemma live_gov:
  "succeeds (live ms out) (gov_call (gp_mark (be_port demo_batch_env) c TE_Completed)) (\<lambda>_. live ms out)"
  "succeeds (live ms out) (gov_call (gp_stage_reports (be_port demo_batch_env) rs)) (\<lambda>_. live ms out)"
  "succeeds (live ms out) (gov_call (gp_clear (be_port demo_batch_env))) (\<lambda>_. live ms out)"
  "succeeds (live ms out) (report_tool demo_batch_env c n ok d) (\<lambda>_. live ms out)"
  by (auto simp: succeeds_def live_def gov_call_def demo_batch_env_def in_process_port_def on_durability_def ld_mark_def ld_stage_reports_def
      ld_clear_def with_checkpoint_def gc_mark_def gc_clear_def map_err_def ip_report_tool_with_id_def ld_commit_report_def report_tool_def act_defs log_def
      split: option.split)

lemma live_emit:
  "succeeds (live ms out) (emit demo_batch_env e) (\<lambda>_. live ms out)" "succeeds (live ms out) (post_hook demo_batch_env n ok) (\<lambda>_. live ms out)"
  by (auto simp: succeeds_def live_def emit_def append_event_def reg_at_def demo_batch_env_def log_def tick_def post_hook_def act_modify_def)


definition demo_bash :: tool_call where "demo_bash = \<lparr>tc_id = ''a'', tc_name = ''bash'', tc_args_json = ''{}''\<rparr>"

definition demo_denied :: "nat \<times> tool_call \<times> outcome" where
  "demo_denied = (0, demo_bash, Inl ''tool not enabled: bash'')"

definition demo_answer :: chat_message where
  "demo_answer = result_message ''a'' ''tool not enabled: bash''"

lemma demo_live_start: "succeeds (live [] []) (start_events demo_batch_env [demo_bash]) (\<lambda>_. live [] [])"
  unfolding start_events_def
  by (auto simp: succeeds_def live_def emit_def append_event_def reg_at_def demo_batch_env_def log_def tick_def act_defs answered_def already_answered_def demo_parent_def run_session_new_def)

lemma demo_live_serial: "succeeds (live [] []) (serial_batch demo_batch_env [demo_bash]) (\<lambda>r b. r = None \<and> live [] [demo_denied] b)"
  by (auto simp: succeeds_def live_def serial_batch_def serial_call_def flow_bind_def enter_call_def gates_def act_defs answered_def already_answered_def
      bounds_def check_bounds_def cancel_requested_def b_run_id_def demo_parent_def run_session_new_def demo_batch_env_def run_request_new_def demo_bash_def
      next_with_def push_out_def flush_children_def demo_denied_def tick_def empty_registry_def files_of_def empty_run_files_def)

lemma demo_live_stage: "succeeds (live [] [demo_denied]) (stage_batch demo_batch_env usage_zero [demo_denied]) (\<lambda>_. live [demo_answer] [demo_denied])"
proof -
  have a: "succeeds (live [] [demo_denied]) (append_outcomes demo_batch_env [demo_denied]) (\<lambda>_. live [demo_answer] [demo_denied])"
    by (auto simp: succeeds_def live_def append_outcomes_def demo_denied_def demo_answer_def act_defs kept_for_plan_def append_result_def content_text_def push_message_def
        is_content_def demo_parent_def run_session_new_def conversation_tool_call_id_def demo_bash_def Let_def)
  have m: "succeeds (live [demo_answer] [demo_denied]) (act_each (\<lambda>(index, call, _). mark_complete demo_batch_env index call) [demo_denied]) (\<lambda>_. live [demo_answer] [demo_denied])"
  proof -
    have "gp_requires_claim (be_port demo_batch_env) (tc_name demo_bash)"
      by (simp add: demo_batch_env_def in_process_port_def tool_requires_execution_checkpoint_def)
    then have "succeeds (live [demo_answer] [demo_denied]) (mark_complete demo_batch_env 0 demo_bash) (\<lambda>_. live [demo_answer] [demo_denied])"
      unfolding mark_complete_def by (intro succeeds_with) (auto intro: succeeds_pre [OF live_gov(1)])
    from succeeds_then [OF this succeeds_return [of _ _ "()"]] show ?thesis by (simp add: demo_denied_def)
  qed
  have t: "succeeds (live [demo_answer] [demo_denied]) (mark_terminal demo_batch_env usage_zero [demo_denied]) (\<lambda>_. live [demo_answer] [demo_denied])"
    by (simp add: succeeds_def mark_terminal_def act_defs demo_denied_def live_def is_content_def demo_parent_def run_session_new_def)
  have r: "succeeds (live [demo_answer] [demo_denied]) (act_with (\<lambda>b. gov_call (gp_stage_reports (be_port demo_batch_env)
      (staged_reports demo_batch_env b [demo_denied])))) (\<lambda>_. live [demo_answer] [demo_denied])"
    by (rule succeeds_with, rule succeeds_pre [OF live_gov(2)]) simp
  show ?thesis unfolding stage_batch_def
    by (rule succeeds_then [OF a succeeds_then [OF m succeeds_then [OF r succeeds_then [OF live_gov(3) succeeds_then [OF t live_save]]]]])
qed

lemma demo_live_report: "succeeds (live [demo_answer] [demo_denied]) (report_loop demo_batch_env [demo_denied] None) (\<lambda>f b. f = FL_Go None \<and> live [demo_answer] [demo_denied] b)"
proof -
  let ?L = "live [demo_answer] [demo_denied]"
  have end_event: "succeeds ?L (emit_tool_end demo_batch_env n ok d c) (\<lambda>_. ?L)" for n ok d c
    unfolding emit_tool_end_def by (intro succeeds_with) (auto intro: succeeds_pre [OF live_emit(1)])
  have "succeeds ?L (act_then (report_tool demo_batch_env c n ok d) (act_then (emit_tool_end demo_batch_env n ok d c)
      (act_then (post_hook demo_batch_env n ok) (act_return FL_Next)))) (\<lambda>f b. f = FL_Next \<and> ?L b)" for c n ok d
    by (intro succeeds_then [OF live_gov(4)] succeeds_then [OF end_event] succeeds_then [OF live_emit(2)] succeeds_return) simp
  note told = this
  have one: "succeeds ?L (report_one demo_batch_env 0 demo_bash (Inl ''tool not enabled: bash'')) (\<lambda>f b. f = FL_Next \<and> ?L b)"
    unfolding report_one_def Let_def sum.case by (rule succeeds_with, rule succeeds_pre [OF told]) simp
  have "succeeds ?L (act_then (save demo_batch_env) (act_return (FL_Go None))) (\<lambda>f b. f = FL_Go None \<and> ?L b)"
    by (intro succeeds_then [OF live_save] succeeds_return) simp
  then have "succeeds (\<lambda>b. f = FL_Next \<and> ?L b) (case f of FL_Exit out \<Rightarrow> act_return (FL_Exit out)
       | FL_Next \<Rightarrow> act_then (save demo_batch_env) (report_loop demo_batch_env [] None)
       | FL_Go t \<Rightarrow> act_then (save demo_batch_env) (report_loop demo_batch_env [] (Some t))) (\<lambda>f b. f = FL_Go None \<and> ?L b)" for f
    by (cases f) (simp_all add: succeeds_def)
  from succeeds_bind [OF one this] show ?thesis by (simp only: demo_denied_def report_loop.simps(2))
qed

lemma demo_live_batch:
  "succeeds (live [] []) (execute_batch demo_batch_env [demo_bash] usage_zero) (\<lambda>out b. out = BO_Continue \<and> live [demo_answer] [demo_denied] b)"
proof -
  let ?L = "live [demo_answer] [demo_denied]"
  have adm: "succeeds (live [] []) (admit_batch demo_batch_env [demo_bash]) (\<lambda>_. live [] [])"
    by (simp add: succeeds_def admit_batch_def act_defs live_def is_content_def demo_parent_def run_session_new_def demo_batch_env_def)
  have fin: "succeeds ?L (finish_reports demo_batch_env None) (\<lambda>out b. out = BO_Continue \<and> ?L b)"
    unfolding finish_reports_def by (simp, intro succeeds_then [OF live_save] succeeds_return) simp
  then have rest: "succeeds (\<lambda>b. f = FL_Go None \<and> ?L b) (case f of FL_Exit out \<Rightarrow> act_return out | FL_Next \<Rightarrow> act_return BO_Continue
      | FL_Go term \<Rightarrow> finish_reports demo_batch_env term) (\<lambda>out b. out = BO_Continue \<and> ?L b)" for f
    by (cases f) (simp_all add: succeeds_def)
  have rep: "succeeds (live [] [demo_denied]) (report_batch demo_batch_env usage_zero) (\<lambda>out b. out = BO_Continue \<and> ?L b)"
    unfolding report_batch_def
  proof (rule succeeds_with)
    fix s assume s: "live [] [demo_denied] s"
    then have o: "ba_out s = [demo_denied]" by (simp add: live_def)
    show "succeeds (\<lambda>s'. s' = s) (act_then (stage_batch demo_batch_env usage_zero (ba_out s)) (act_bind (report_loop demo_batch_env (ba_out s) None)
      (\<lambda>f. case f of FL_Exit out \<Rightarrow> act_return out | FL_Next \<Rightarrow> act_return BO_Continue | FL_Go term \<Rightarrow> finish_reports demo_batch_env term)))
      (\<lambda>out b. out = BO_Continue \<and> ?L b)"
      unfolding o by (rule succeeds_pre [OF succeeds_then [OF demo_live_stage succeeds_bind [OF demo_live_report rest]]]) (simp add: s)
  qed
  have run: "succeeds (\<lambda>b. r = None \<and> live [] [demo_denied] b) (case r of Some out \<Rightarrow> act_return out | None \<Rightarrow> report_batch demo_batch_env usage_zero)
      (\<lambda>out b. out = BO_Continue \<and> ?L b)" for r
    using rep by (cases r) (simp_all add: succeeds_def)
  have "\<not> must_be_exclusive_batch (tc_name demo_bash)" "\<not> can_parallel demo_batch_env [demo_bash]"
    by (simp_all add: demo_bash_def must_be_exclusive_batch_def can_parallel_def)
  then show ?thesis unfolding execute_batch_def
    by (simp, intro succeeds_then [OF adm] succeeds_then [OF demo_live_start] succeeds_bind [OF demo_live_serial run])
qed


lemma parallel_batch_completes_demo:
  "\<exists>b'. parallel_batch demo_batch_env [demo_bash, demo_bash] demo_batch_state = (b', Ok ()) \<and>
     map key (ba_out b') = [(0, demo_bash), (1, demo_bash)]"
proof -
  have "snd (bounds demo_batch_env demo_batch_state) = Ok ()"
    by (simp add: bounds_def check_bounds_def cancel_requested_def demo_batch_env_def demo_batch_state_def demo_parent_def run_session_new_def
        run_request_new_def empty_registry_def files_of_def empty_run_files_def)
  from parallel_batch_completes [OF this, of "[demo_bash, demo_bash]"] show ?thesis
    by (auto simp: open_before_def already_answered_def demo_batch_state_def demo_parent_def run_session_new_def)
qed
subsection \<open>Which batches are parallel\<close>

text \<open>
  \<^bold>\<open>C37\<close>: no batch runs in parallel under an adapter of this repository. The parallel path needs calls that are
  all parallel-safe and need no claim; the in-process and host adapters require a claim of every tool, the plane adapter of
  every tool but report, escalate, todo_write and handoff, and none of these four is parallel-safe. So
  \<open>run.tool_concurrency\<close>, documented as the number of reads that run at the same time, has no effect.
\<close>

theorem shipped_adapters_run_serially:
  assumes "gp_requires_claim (be_port en) \<in> {tool_requires_execution_checkpoint, requires_external_action}"
  shows "\<not> can_parallel en calls"
proof
  assume p: "can_parallel en calls"
  then obtain c where c: "c \<in> set calls" by (cases calls) (auto simp: can_parallel_def)
  with p have "is_parallel_safe_tool (tc_name c)" and "\<not> gp_requires_claim (be_port en) (tc_name c)"
    by (auto simp: can_parallel_def list_all_iff)
  with assms show False
    by (auto simp: is_parallel_safe_tool_def tool_requires_execution_checkpoint_def requires_external_action_def)
qed

theorem shipped_adapters_run_serially_witness:
  "\<not> can_parallel demo_batch_env [demo_bash\<lparr>tc_name := ''read_file''\<rparr>, demo_bash\<lparr>tc_name := ''grep''\<rparr>]"
  by (rule shipped_adapters_run_serially) (simp add: demo_batch_env_def in_process_port_def)

end
