(* ===== verification/Turn_Loop.thy ===== *)
theory Turn_Loop
  imports Batch_Laws
begin

section \<open>The turn loop of a run (run/model_turn.rs, run/transaction.rs)\<close>

text \<open>
  A run asks the model for a turn, makes it durable, executes its calls as one batch, and goes on until
  the batch reports, parks or fails. The model and the plane that may plan in its place are the functions
  \<open>ee_plan_turn\<close> and \<open>ee_plan_content_turn\<close> of the environment, on the host and the governance state. A turn
  that a stopped run had made durable is staged and used again. The span trace is left out.
\<close>

subsection \<open>State\<close>

record ('h, 'g) engine_env =
  ee_batch :: "('h, 'g) batch_env"
  ee_system_prompt :: string
  ee_tool_defs :: "tool_def list"
  ee_plan_turn :: "nat \<Rightarrow> string \<Rightarrow> chat_message list \<Rightarrow> tool_def list \<Rightarrow> 'h \<times> 'g \<Rightarrow> ('h \<times> 'g) \<times> (model_turn, governance_error) result"
  ee_plan_content_turn :: "nat \<Rightarrow> string \<Rightarrow> content_message list \<Rightarrow> tool_def list \<Rightarrow> content_capabilities \<Rightarrow> 'h \<times> 'g \<Rightarrow>
    ('h \<times> 'g) \<times> (content_model_turn, governance_error) result"
  ee_report_model_turn :: "'g \<Rightarrow> 'g \<times> (unit, governance_error) result"

record ('h, 'g) model_turns =
  dm_batch :: "('h, 'g) batch"
  dm_staged_turn :: "model_turn option"
  dm_staged_content :: "content_model_turn option"
  dm_usage :: token_usage
  dm_prompt_start :: nat

type_synonym ('h, 'g, 'a) turn_step = "(('h, 'g) model_turns, 'a, run_error) action"

definition on_batch :: "('h, 'g, 'a) step \<Rightarrow> ('h, 'g, 'a) turn_step" where
  "on_batch m = (\<lambda>s. let (b, r) = m (dm_batch s) in (s\<lparr>dm_batch := b\<rparr>, r))"

abbreviation (input) ee_request :: "('h, 'g) engine_env \<Rightarrow> run_request" where
  "ee_request en \<equiv> be_request (ee_batch en)"

definition max_turns :: "('h, 'g) engine_env \<Rightarrow> nat" where
  "max_turns en = rs_max_turns (cf_run (be_cfg (ee_batch en)))"

subsection \<open>Staged turns\<close>

definition content_turn_of :: "content_message \<Rightarrow> content_model_turn" where
  "content_turn_of m = \<lparr>ctm_text = [], ctm_output_parts = cm_parts m, ctm_tool_calls = cm_tool_calls m, ctm_usage = None\<rparr>"

definition staged_content_model_turn :: "bool \<Rightarrow> content_message list \<Rightarrow> content_model_turn option" where
  "staged_content_model_turn resumed messages =
     (if \<not> resumed then None
      else if messages \<noteq> [] \<and> cm_role (last messages) = ''assistant'' then Some (content_turn_of (last messages))
      else case last_content_assistant messages of
        None \<Rightarrow> None
      | Some (m, after) \<Rightarrow>
          if list_ex (\<lambda>call. tc_id call \<notin> set (content_answered after)) (cm_tool_calls m)
          then Some (content_turn_of m) else None)"

definition model_turns_new :: "('h, 'g) engine_env \<Rightarrow> ('h, 'g) batch \<Rightarrow> ('h, 'g) model_turns" where
  "model_turns_new en b =
     (let s = ba_session b; q = ee_request en; resumed = rq_resume_run_id q \<noteq> None in
      \<lparr>dm_batch = b, dm_staged_turn = staged_model_turn resumed (sn_messages s) (sn_turns s),
       dm_staged_content = (case sn_content s of None \<Rightarrow> None | Some cx \<Rightarrow> staged_content_model_turn
         (resumed \<and> has_staged_content_model_turn (sn_turns s) (cx_initial_message_count cx) (cx_messages cx)) (cx_messages cx)),
       dm_usage = (if is_content b then content_usage s else if be_replay (ee_batch en) then replay_usage s else usage_zero),
       dm_prompt_start = (if rq_session_wait q then case_option (sn_turns s) id (sn_prompt_start_turns s) else 0)\<rparr>)"

text \<open>A staged content turn is read back: its text from the first accepted text part that holds no
  arguments, the arguments of its calls from the parts their pointers name.\<close>

definition staged_part_failed :: "part_descriptor \<Rightarrow> run_error" where
  "staged_part_failed d = RE_Message (''content resolver failed for staged part `'' @ pd_part_id d @ ''`'')"

fun staged_text :: "resolve_fun \<Rightarrow> part_descriptor list \<Rightarrow> (string, run_error) result" where
  "staged_text rsv [] = Ok []"
| "staged_text rsv (d # ds) =
     (if pd_kind d = CK_Text \<and> pd_disclosure_state d = DI_Accepted \<and> pv_source (pd_provenance d) \<noteq> ''model-tool-arguments''
      then (case rsv d of
          Inl _ \<Rightarrow> Err (staged_part_failed d)
        | Inr (RC_Text v) \<Rightarrow> Ok v
        | Inr (RC_Bytes _) \<Rightarrow> Err (RE_Message ''text descriptor resolved to bytes''))
      else staged_text rsv ds)"

definition argument_part :: "part_descriptor list \<Rightarrow> string \<Rightarrow> part_descriptor option" where
  "argument_part parts part_id = find (\<lambda>d. pd_part_id d = part_id \<and> pd_kind d = CK_Text \<and>
     pv_source (pd_provenance d) = ''model-tool-arguments'' \<and> pd_disclosure_state d = DI_Accepted) parts"

definition staged_arguments :: "content_env \<Rightarrow> resolve_fun \<Rightarrow> part_descriptor list \<Rightarrow> tool_call \<Rightarrow> (tool_call, run_error) result" where
  "staged_arguments en rsv parts call =
     (case ct_pointer_of en (tc_args_json call) of
        None \<Rightarrow> Err (RE_Message ''content tool arguments are not externalized'')
      | Some part_id \<Rightarrow>
          (case argument_part parts part_id of
             None \<Rightarrow> Err (RE_Message ''content tool argument descriptor is missing'')
           | Some d \<Rightarrow>
               (case rsv d of
                  Inl _ \<Rightarrow> Err (staged_part_failed d)
                | Inr payload \<Rightarrow> and_then (map_err message_error (validate_resolved en d payload)) (\<lambda>_.
                    case payload of
                      RC_Text v \<Rightarrow> Ok (call\<lparr>tc_args_json := v\<rparr>)
                    | RC_Bytes _ \<Rightarrow> Err (RE_Message ''content tool arguments resolved to bytes'')))))"

fun staged_calls :: "content_env \<Rightarrow> resolve_fun \<Rightarrow> part_descriptor list \<Rightarrow> tool_call list \<Rightarrow> (tool_call list, run_error) result" where
  "staged_calls en rsv parts [] = Ok []"
| "staged_calls en rsv parts (call # calls) = and_then (staged_arguments en rsv parts call) (\<lambda>c.
     and_then (staged_calls en rsv parts calls) (\<lambda>cs. Ok (c # cs)))"

definition content_to_model_turn :: "content_env \<Rightarrow> resolve_fun \<Rightarrow> content_model_turn \<Rightarrow> (model_turn, run_error) result" where
  "content_to_model_turn en rsv t =
     and_then (if ctm_text t = [] then staged_text rsv (ctm_output_parts t) else Ok (ctm_text t)) (\<lambda>text_of_turn.
       and_then (staged_calls en rsv (ctm_output_parts t) (ctm_tool_calls t)) (\<lambda>calls.
         Ok \<lparr>mt_content = text_of_turn, mt_tool_calls = calls, mt_usage = ctm_usage t\<rparr>))"

subsection \<open>One model turn\<close>

definition used_turns :: "('h, 'g) engine_env \<Rightarrow> ('h, 'g) model_turns \<Rightarrow> nat" where
  "used_turns en s = (if rq_session_wait (ee_request en) then b_turns (dm_batch s) - dm_prompt_start s else b_turns (dm_batch s))"

definition check_max_turns :: "('h, 'g) engine_env \<Rightarrow> ('h, 'g, unit) turn_step" where
  "check_max_turns en = act_with (\<lambda>s.
     if dm_staged_turn s = None \<and> dm_staged_content s = None \<and> used_turns en s \<ge> max_turns en
     then act_fail (RE_MaxTurns (max_turns en)) else act_return ())"

definition compact_session :: "('h, 'g) engine_env \<Rightarrow> ('h, 'g, unit) turn_step" where
  "compact_session en = act_with (\<lambda>s.
     case (if dm_staged_turn s = None \<and> dm_staged_content s = None \<and> \<not> is_content (dm_batch s)
           then rs_compact_after_messages (cf_run (be_cfg (ee_batch en))) else None) of
       None \<Rightarrow> act_return ()
     | Some threshold \<Rightarrow>
         let (ms, ran) = compact_messages threshold (max (rs_compact_keep_tail (cf_run (be_cfg (ee_batch en)))) 2)
           (sn_messages (ba_session (dm_batch s)))
         in act_then (on_batch (on_session (\<lambda>x. x\<lparr>sn_messages := ms\<rparr>)))
           (case ran of None \<Rightarrow> act_return ()
            | Some (earlier, later) \<Rightarrow> on_batch (emit (ee_batch en) (HE_ContextCompacted earlier later))))"

definition report_governance_model :: "('h, 'g) engine_env \<Rightarrow> ('h, 'g, unit) step" where
  "report_governance_model en = act_bind (act_attempt (gov_call (ee_report_model_turn en))) (\<lambda>r. case r of
     Inl e \<Rightarrow> if requires_governance (be_cfg (ee_batch en)) then act_fail e else act_return ()
   | Inr _ \<Rightarrow> act_return ())"

text \<open>A planned turn is saved before it is reported, and the report cursor after.\<close>

definition durable_report :: "('h, 'g) engine_env \<Rightarrow> ('h, 'g, unit) step" where
  "durable_report en = act_then (report_governance_model en) (save (ee_batch en))"

definition plan_call :: "('h \<times> 'g \<Rightarrow> ('h \<times> 'g) \<times> ('a, governance_error) result) \<Rightarrow> ('h, 'g, 'a) step" where
  "plan_call f = (\<lambda>b. let ((h, g), r) = f (ba_host b, ba_gov b) in ((tick b)\<lparr>ba_host := h, ba_gov := g\<rparr>, map_err RE_Governance r))"

definition push_assistant :: "string \<Rightarrow> tool_call list \<Rightarrow> ('h, 'g, unit) step" where
  "push_assistant content calls = on_session (\<lambda>x. x\<lparr>sn_messages := sn_messages x @
     [\<lparr>msg_role = ''assistant'', msg_content = content, msg_tool_call_id = [], msg_tool_calls = calls\<rparr>]\<rparr>)"

definition add_usage :: "token_usage \<Rightarrow> token_usage option \<Rightarrow> token_usage" where
  "add_usage u v = (case v of None \<Rightarrow> u
     | Some w \<Rightarrow> \<lparr>tu_input = u64_saturating_add (tu_input u) (tu_input w), tu_output = u64_saturating_add (tu_output u) (tu_output w)\<rparr>)"

definition count_turn :: "(token_usage \<Rightarrow> run_session \<Rightarrow> run_session) \<Rightarrow> token_usage option \<Rightarrow> ('h, 'g, unit) turn_step" where
  "count_turn set_usage usage = act_with (\<lambda>s. let u = add_usage (dm_usage s) usage in
     act_then (act_modify (\<lambda>s. s\<lparr>dm_usage := u\<rparr>))
       (on_batch (on_session (\<lambda>x. set_usage u (x\<lparr>sn_turns := Suc (sn_turns x)\<rparr>)))))"

fun part_kind_name :: "part_kind \<Rightarrow> string" where
  "part_kind_name CK_Text = ''text''"
| "part_kind_name CK_Image = ''image''"
| "part_kind_name CK_Audio = ''audio''"
| "part_kind_name CK_Document = ''document''"

definition ask_model :: "('h, 'g) engine_env \<Rightarrow> ('h, 'g, model_turn) step" where
  "ask_model en = act_with (\<lambda>b. plan_call (ee_plan_turn en (ba_clock b) (ee_system_prompt en) (sn_messages (ba_session b)) (ee_tool_defs en)))"

definition ask_content_model :: "('h, 'g) engine_env \<Rightarrow> ('h, 'g, content_model_turn) step" where
  "ask_content_model en = act_with (\<lambda>b. case sn_content (ba_session b) of
     None \<Rightarrow> act_fail (RE_Message ''content session is unavailable'')
   | Some cx \<Rightarrow> plan_call (ee_plan_content_turn en (ba_clock b) (ee_system_prompt en) (cx_messages cx) (ee_tool_defs en) (cx_capabilities cx)))"

definition record_turn :: "('h, 'g) engine_env \<Rightarrow> model_turn \<Rightarrow> ('h, 'g, unit) step" where
  "record_turn en turn = act_then (act_with (\<lambda>b. emit (ee_batch en) (HE_ModelTurn (b_turns b) (take_chars 200 (mt_content turn)))))
     (act_then (push_assistant (mt_content turn) (mt_tool_calls turn)) (act_then (save (ee_batch en)) (durable_report en)))"

definition append_content_turn :: "('h, 'g) engine_env \<Rightarrow> content_model_turn \<Rightarrow> ('h, 'g, unit) step" where
  "append_content_turn en turn = (\<lambda>b.
     let (h, x, r) = append_content_model_turn (be_content (ee_batch en)) turn (ba_host b) (ba_session b)
     in ((tick b)\<lparr>ba_host := h, ba_session := x\<rparr>, r))"

definition record_content_turn :: "('h, 'g) engine_env \<Rightarrow> content_model_turn \<Rightarrow> ('h, 'g, unit) step" where
  "record_content_turn en turn = act_then (append_content_turn en turn) (act_with (\<lambda>b.
     case sn_content (ba_session b) of
       None \<Rightarrow> act_fail (RE_Message ''content model result was not staged'')
     | Some cx \<Rightarrow> if cx_messages cx = [] then act_fail (RE_Message ''content model result was not staged'')
       else let m = last (cx_messages cx) in
         act_then (emit (ee_batch en) (HE_ContentTurn (b_turns b) (length (cm_parts m)) (map (\<lambda>p. part_kind_name (pd_kind p)) (cm_parts m))
             (map pd_sha256_digest (cm_parts m))))
           (act_then (push_assistant [] (cm_tool_calls m)) (act_then (save (ee_batch en)) (durable_report en)))))"

definition plan_text_turn :: "('h, 'g) engine_env \<Rightarrow> ('h, 'g, model_turn) turn_step" where
  "plan_text_turn en = act_bind (on_batch (ask_model en)) (\<lambda>turn.
     act_then (count_turn set_replay_usage (mt_usage turn)) (act_then (on_batch (record_turn en turn)) (act_return turn)))"

definition plan_content_turn :: "('h, 'g) engine_env \<Rightarrow> ('h, 'g, model_turn) turn_step" where
  "plan_content_turn en = act_bind (on_batch (ask_content_model en)) (\<lambda>turn.
     act_then (count_turn set_content_usage (ctm_usage turn)) (act_then (on_batch (record_content_turn en turn))
       (act_return \<lparr>mt_content = ctm_text turn, mt_tool_calls = ctm_tool_calls turn, mt_usage = ctm_usage turn\<rparr>)))"

definition restage_content_turn :: "('h, 'g) engine_env \<Rightarrow> content_model_turn \<Rightarrow> ('h, 'g, model_turn) step" where
  "restage_content_turn en turn = act_with (\<lambda>b.
     if \<not> is_content b then act_fail (RE_Message ''content resolver is unavailable'')
     else act_then (durable_report en) (act_with (\<lambda>b. act_result (content_to_model_turn (se_content (be_content (ee_batch en)))
       (cv_resolve (se_resolver (be_content (ee_batch en))) (ba_host b)) turn))))"

text \<open>A staged content turn first, then the mode of the session, then a staged turn.\<close>

definition obtain_turn :: "('h, 'g) engine_env \<Rightarrow> ('h, 'g, model_turn) turn_step" where
  "obtain_turn en = act_with (\<lambda>s. case dm_staged_content s of
     Some turn \<Rightarrow> act_then (act_modify (\<lambda>s. s\<lparr>dm_staged_content := None\<rparr>)) (on_batch (restage_content_turn en turn))
   | None \<Rightarrow> if is_content (dm_batch s) then plan_content_turn en
       else (case dm_staged_turn s of
         Some turn \<Rightarrow> act_then (act_modify (\<lambda>s. s\<lparr>dm_staged_turn := None\<rparr>)) (act_then (on_batch (durable_report en)) (act_return turn))
       | None \<Rightarrow> plan_text_turn en))"

definition next_turn :: "('h, 'g) engine_env \<Rightarrow> ('h, 'g, model_turn) turn_step" where
  "next_turn en = act_then (on_batch (bounds (ee_batch en))) (act_then (check_max_turns en) (act_then (compact_session en)
     (act_then (on_batch (emit (ee_batch en) (HE_Status ''planning''))) (act_bind (obtain_turn en) (\<lambda>turn.
       act_then (on_batch (bounds (ee_batch en))) (act_return turn))))))"

subsection \<open>The loop\<close>

record loop_end =
  le_park :: "park_info option"
  le_summary :: string
  le_success :: bool
  le_termination :: run_termination

definition wait_for_prompt :: "('h, 'g) engine_env \<Rightarrow> string \<Rightarrow> string \<Rightarrow> bool \<Rightarrow> ('h, 'g, loop_end option) turn_step" where
  "wait_for_prompt en reason summary success = (let parked = prompt_wait_park\<lparr>pk_reason := reason\<rparr> in
     act_then (on_batch (park_with (ee_batch en) parked))
       (act_return (Some \<lparr>le_park = Some (info_of parked None None None), le_summary = summary, le_success = success,
          le_termination = RT_Parked\<rparr>)))"

definition content_completed :: "('h, 'g) engine_env \<Rightarrow> string \<Rightarrow> token_usage \<Rightarrow> ('h, 'g, unit) step" where
  "content_completed en summary usage = act_with (\<lambda>b. if is_content b
     then act_bind (act_result (mark_content_terminal (sv_content (be_save (ee_batch en))) True RT_Completed summary usage (ba_session b)))
       (\<lambda>x. act_then (on_session (\<lambda>_. x)) (save (ee_batch en)))
     else act_return ())"

definition turn_without_tools :: "('h, 'g) engine_env \<Rightarrow> model_turn \<Rightarrow> ('h, 'g, loop_end option) turn_step" where
  "turn_without_tools en turn =
     (let profile = cf_profile (be_cfg (ee_batch en));
          summary = (if mt_content turn = [] then ''model finished without tools'' else mt_content turn) in
      if be_replay (ee_batch en) then act_fail (RE_Message ''replay requires the terminal `report` tool'')
      else if profile = ''security-finder'' then act_fail (RE_Message ''profile `security-finder`: missing terminal `report`'')
      else if profile = ''security-triage'' then act_fail (RE_Message ''profile `security-triage`: missing terminal `report`'')
      else if rq_session_wait (ee_request en) then wait_for_prompt en ''end_turn'' summary True
      else act_then (act_with (\<lambda>s. on_batch (content_completed en summary (dm_usage s))))
        (act_return (Some \<lparr>le_park = None, le_summary = summary, le_success = True, le_termination = RT_Completed\<rparr>)))"

fun loop_end_of :: "batch_outcome \<Rightarrow> loop_end option" where
  "loop_end_of BO_Continue = None"
| "loop_end_of (BO_Completed summary ok) = Some \<lparr>le_park = None, le_summary = summary, le_success = ok, le_termination = RT_Completed\<rparr>"
| "loop_end_of (BO_Parked info summary) = Some \<lparr>le_park = Some info, le_summary = summary, le_success = False, le_termination = RT_Parked\<rparr>"

definition use_turn :: "('h, 'g) engine_env \<Rightarrow> model_turn \<Rightarrow> ('h, 'g, loop_end option) turn_step" where
  "use_turn en turn = (if mt_tool_calls turn = [] then turn_without_tools en turn
     else act_with (\<lambda>s. act_bind (on_batch (execute_batch (ee_batch en) (mt_tool_calls turn) (dm_usage s)))
       (\<lambda>out. act_return (loop_end_of out))))"

definition loop_round :: "('h, 'g) engine_env \<Rightarrow> ('h, 'g, loop_end option) turn_step" where
  "loop_round en = act_bind (act_attempt (next_turn en)) (\<lambda>r. case r of
     Inr turn \<Rightarrow> use_turn en turn
   | Inl (RE_MaxTurns limit) \<Rightarrow> if rq_session_wait (ee_request en)
       then wait_for_prompt en ''max_turns'' (''reached max_turns ('' @ dec_string limit @ '')'') False
       else act_fail (RE_MaxTurns limit)
   | Inl e \<Rightarrow> act_fail e)"

partial_function (option) turn_loop :: "('h, 'g) engine_env \<Rightarrow> ('h, 'g) model_turns \<Rightarrow>
    (('h, 'g) model_turns \<times> (loop_end, run_error) result) option" where
  "turn_loop en s = (case loop_round en s of
     (s1, Inl e) \<Rightarrow> Some (s1, Err e)
   | (s1, Inr (Some finished)) \<Rightarrow> Some (s1, Ok finished)
   | (s1, Inr None) \<Rightarrow> turn_loop en s1)"

end
