(* ===== verification/Loop_Laws.thy ===== *)
theory Loop_Laws
  imports Turn_Loop
begin

section \<open>What the turn loop guarantees\<close>

text \<open>
  The loop ends: a planned turn uses up one of the turns of the run, a batch uses none. A turn is used
  only once it is durable, and a run that stops after that does not ask the model again.
\<close>

subsection \<open>Batches use no turn\<close>

definition at_turn :: "nat \<Rightarrow> ('h, 'g) batch \<Rightarrow> bool" where
  "at_turn n b \<longleftrightarrow> b_turns b = n"

lemma at_turn_quiet: "(\<And>b0. keeps (quiet b0) m) \<Longrightarrow> keeps (at_turn n) m"
proof -
  assume "\<And>b0. keeps (quiet b0) m"
  then have "quiet b (fst (m b))" for b by (simp add: hoare_def)
  then show "keeps (at_turn n) m" by (simp add: hoare_def at_turn_def quiet_def)
qed

lemma flow_keeps: "keeps I m \<Longrightarrow> (\<And>a. keeps I (k a)) \<Longrightarrow> keeps I (flow_bind m k)"
  by (rule hoare_flow [where R = "\<lambda>_ _. True"]) auto

lemma at_turn_claim_call: "keeps (at_turn n) (claim_call en index call)"
proof -
  have "keeps (at_turn n) (claim en c)" for c
    by (auto simp: hoare_def claim_def at_turn_def b_turns_def tick_def log_def Let_def split: prod.splits sum.splits)
  then show ?thesis unfolding claim_call_def Let_def
    by (intro keeps_with keeps_then keeps_if at_turn_quiet [OF quiet_gov_call] at_turn_quiet [OF quiet_save(1)]
        at_turn_quiet [OF quiet_clear_parked] hoare_return) simp_all
qed

lemma at_turn_executes: "keeps (at_turn n) (executes index call)"
  unfolding executes_def by (rule keeps_modify) (simp add: at_turn_def)

lemma at_turn_run_call:
  assumes "children_keep_parent en"
  shows "keeps (at_turn n) (run_call en index call)"
  unfolding run_call_def run_child_def run_tool_def queue_child_def
  by (intro keeps_with keeps_if keeps_option keeps_then at_turn_executes at_turn_quiet quiet_flush_children [OF assms]
      quiet_perform [OF assms] quiet_push_out)

lemma at_turn_serial_batch:
  assumes "children_keep_parent en"
  shows "keeps (at_turn n) (serial_batch en calls)"
proof -
  have call: "keeps (at_turn n) (serial_call en index call)" for index call
    unfolding serial_call_def
    by (intro flow_keeps keeps_then at_turn_claim_call at_turn_run_call assms at_turn_quiet quiet_enter_call quiet_authorize_call
        quiet_push_out)
  have loop: "keeps (at_turn n) (serial_loop en index calls)" for index
  proof (induction calls arbitrary: index)
    case Nil
    show ?case unfolding serial_loop.simps
      by (intro keeps_then at_turn_quiet quiet_flush_children assms hoare_return) simp
  next
    case (Cons c cs)
    have "keeps (at_turn n) (case f of FL_Exit out \<Rightarrow> act_return (Some out) | _ \<Rightarrow> serial_loop en (Suc index) cs)" for f :: "unit flow"
      using Cons by (cases f) (auto intro!: triples)
    with call show ?case unfolding serial_loop.simps by (intro keeps_bind)
  qed
  have "keeps (at_turn n) (act_modify (\<lambda>b. b\<lparr>ba_permits := child_permits en b calls, ba_queued := [], ba_out := []\<rparr>))"
    by (rule keeps_modify) (simp add: at_turn_def b_turns_def)
  then show ?thesis unfolding serial_batch_def
    by (intro keeps_then keeps_catch loop at_turn_quiet [OF quiet_abandon])
qed

lemma at_turn_parallel_batch: "keeps (at_turn n) (parallel_batch en calls)"
proof -
  have fin: "keeps (at_turn n) (finish_task en index call)" for index call
    unfolding finish_task_def Let_def
    by (intro keeps_then keeps_with at_turn_executes keeps_prod keeps_modify hoare_return)
      (simp_all add: at_turn_def tick_def b_turns_def)
  have step: "keeps (at_turn n) (task_step en ts j)" for ts j
  proof -
    obtain index call st where t: "ts ! j = (index, call, st)" by (metis prod_cases3)
    show ?thesis unfolding task_step_def t
      by (cases st) (simp, intro conjI impI keeps_bind fin at_turn_quiet quiet_start_task hoare_return; simp)+
  qed
  have "keeps (at_turn n) (run_schedule en js ts)" for js ts
    by (induction js arbitrary: ts) (auto intro: hoare_return keeps_bind step)
  then show ?thesis unfolding parallel_batch_def
    by (intro keeps_then keeps_with keeps_bind keeps_modify at_turn_quiet [OF quiet_bounds]) (simp_all add: at_turn_def b_turns_def)
qed

lemma at_turn_execute_batch:
  assumes "children_keep_parent en"
  shows "keeps (at_turn n) (execute_batch en calls usage)"
proof -
  have "keeps (at_turn n) (case out of Some out \<Rightarrow> act_return out | None \<Rightarrow> report_batch en usage)" for out
    by (intro keeps_option at_turn_quiet [OF quiet_report_batch] hoare_return) simp
  note out = this
  show ?thesis unfolding execute_batch_def
    by (intro keeps_then keeps_if keeps_bind out at_turn_serial_batch assms at_turn_parallel_batch
        at_turn_quiet [OF quiet_admission(1)] at_turn_quiet [OF quiet_admission(2)] at_turn_quiet [OF quiet_admission(3)]
        at_turn_quiet [OF quiet_save(1)] at_turn_quiet [OF quiet_report_batch] hoare_return) simp_all
qed

lemma execute_batch_turns: "children_keep_parent en \<Longrightarrow> b_turns (fst (execute_batch en calls usage b)) = b_turns b"
  using at_turn_execute_batch [of en "b_turns b" calls usage] by (simp add: hoare_def at_turn_def)

subsection \<open>Steps of a model turn\<close>

text \<open>\<open>steady k\<close>: nothing of the loop's own state changed but the turns, which grew by \<open>k\<close>.\<close>

definition steady :: "nat \<Rightarrow> ('h, 'g) model_turns \<Rightarrow> ('h, 'g) model_turns \<Rightarrow> bool" where
  "steady k s s' \<longleftrightarrow> dm_staged_turn s' = dm_staged_turn s \<and> dm_staged_content s' = dm_staged_content s \<and>
     dm_prompt_start s' = dm_prompt_start s \<and> b_turns (dm_batch s') = b_turns (dm_batch s) + k"

lemma steady_refl [simp]: "steady 0 s s"
  by (simp add: steady_def)

lemma steady_trans: "steady j s s1 \<Longrightarrow> steady k s1 s2 \<Longrightarrow> steady (j + k) s s2"
  by (simp add: steady_def)

lemma steady_quiet: "(\<And>b0. keeps (quiet b0) m) \<Longrightarrow> keeps (steady k s0) (on_batch m)"
proof -
  assume "\<And>b0. keeps (quiet b0) m"
  then have "b_turns (fst (m b)) = b_turns b" for b by (simp add: hoare_def quiet_def)
  then show ?thesis by (simp add: hoare_def on_batch_def steady_def prod.case_eq_if)
qed

lemma quiet_plan_call [triples]: "keeps (quiet b0) (plan_call f)"
  by (auto simp: hoare_def plan_call_def b_run_id_def b_turns_def tick_def split: prod.splits intro: quiet_same)

lemma quiet_reports [triples]: "keeps (quiet b0) (report_governance_model en)" "keeps (quiet b0) (durable_report en)"
proof -
  show "keeps (quiet b0) (report_governance_model en)" for b0
    unfolding report_governance_model_def by (intro keeps_bind keeps_attempt quiet_gov_call keeps_sum keeps_if hoare_fail hoare_return) simp_all
  then show "keeps (quiet b0) (durable_report en)"
    unfolding durable_report_def by (intro keeps_then quiet_save)
qed

lemma quiet_push_assistant [triples]: "keeps (quiet b0) (push_assistant c calls)"
  unfolding push_assistant_def by (intro triples) simp

lemma quiet_ask [triples]: "keeps (quiet b0) (ask_model en)" "keeps (quiet b0) (ask_content_model en)"
  unfolding ask_model_def ask_content_model_def by (intro triples)+

lemma quiet_record_turn [triples]: "keeps (quiet b0) (record_turn en t)"
  unfolding record_turn_def by (intro triples)

lemma append_model_turn_keeps:
  assumes "append_content_model_turn en t h s = (h', s', r)"
  shows "sn_run_id s' = sn_run_id s \<and> sn_turns s' = sn_turns s \<and> sn_messages s' = sn_messages s"
  using assms by (auto simp: append_content_model_turn_def on_content_def split: option.splits prod.splits)

lemma quiet_append_content_turn [triples]: "keeps (quiet b0) (append_content_turn en t)"
proof -
  have "quiet b0 b \<Longrightarrow> quiet b0 (fst (append_content_turn en t b))" for b
    by (erule quiet_same)
      (auto simp: append_content_turn_def b_run_id_def b_turns_def tick_def dest!: append_model_turn_keeps split: prod.splits)
  then show ?thesis by (simp add: hoare_def)
qed

lemma quiet_record_content_turn [triples]: "keeps (quiet b0) (record_content_turn en t)"
  unfolding record_content_turn_def Let_def by (intro triples)

lemma quiet_restage [triples]: "keeps (quiet b0) (restage_content_turn en t)"
  unfolding restage_content_turn_def by (intro triples) simp

lemma count_turn_steady:
  assumes "\<And>u x. sn_turns (set_usage u x) = sn_turns x"
  shows "\<exists>s'. count_turn set_usage usage s = (s', Ok ()) \<and> steady 1 s s'"
  by (simp add: count_turn_def act_with_def act_then_def act_bind_def on_batch_def on_session_def act_modify_def steady_def b_turns_def
      assms Let_def)

text \<open>A planned turn counts once, whether its record becomes durable or not.\<close>

lemma planned_steady:
  assumes ask: "\<And>b0. keeps (quiet b0) m" and recd: "\<And>t b0. keeps (quiet b0) (rec t)"
    and usage: "\<And>u x. sn_turns (set_usage u x) = sn_turns x"
    and run: "act_bind (on_batch m) (\<lambda>t. act_then (count_turn set_usage (use t)) (act_then (on_batch (rec t)) (act_return (f t)))) s = (s', r)"
  shows "\<exists>k \<le> 1. steady k s s' \<and> (is_ok r \<longrightarrow> k = 1)"
proof -
  obtain s1 r1 where 1: "on_batch m s = (s1, r1)" by fastforce
  have s1: "steady 0 s s1" using steady_quiet [OF ask, of 0 s] 1 by (auto simp: hoare_def dest: spec [of _ s])
  show ?thesis
  proof (cases r1)
    case (Inl e)
    with 1 run s1 show ?thesis by (auto simp: act_bind_def intro!: exI [of _ 0])
  next
    case (Inr t)
    obtain s2 where 2: "count_turn set_usage (use t) s1 = (s2, Ok ())" "steady 1 s1 s2"
      using count_turn_steady [of set_usage "use t" s1, OF usage] by blast
    have "s' = fst (on_batch (rec t) s2)"
      using run 1 Inr 2(1) by (auto simp: act_bind_def act_then_def act_return_def split: prod.splits sum.splits)
    then have "steady 0 s2 s'" using steady_quiet [OF recd, of 0 s2 t] by (simp add: hoare_def)
    with s1 2(2) have "steady 1 s s'" by (simp add: steady_def)
    then show ?thesis by blast
  qed
qed

lemma usage_keeps: "sn_turns (set_replay_usage u x) = sn_turns x" "sn_turns (set_content_usage u x) = sn_turns x"
  by (simp_all add: set_replay_usage_def set_content_usage_def)

lemma plan_steady:
  "plan_text_turn en s = (s', r) \<Longrightarrow> \<exists>k \<le> 1. steady k s s' \<and> (is_ok r \<longrightarrow> k = 1)"
  "plan_content_turn en s = (s', r) \<Longrightarrow> \<exists>k \<le> 1. steady k s s' \<and> (is_ok r \<longrightarrow> k = 1)"
  unfolding plan_text_turn_def plan_content_turn_def
  by (rule planned_steady [OF quiet_ask(1) quiet_record_turn usage_keeps(1)], assumption)
    (rule planned_steady [OF quiet_ask(2) quiet_record_content_turn usage_keeps(2)], assumption)

text \<open>What a turn takes: the staged content turn, the staged turn, or a new turn of the model.\<close>

definition takes :: "('h, 'g) engine_env \<Rightarrow> ('h, 'g) model_turns \<Rightarrow> ('h, 'g) model_turns \<Rightarrow> bool \<Rightarrow> bool" where
  "takes en s s' ok \<longleftrightarrow>
     (if dm_staged_content s \<noteq> None then steady 0 (s\<lparr>dm_staged_content := None\<rparr>) s' \<and> (ok \<longrightarrow> is_content (dm_batch s))
      else if \<not> is_content (dm_batch s) \<and> dm_staged_turn s \<noteq> None then steady 0 (s\<lparr>dm_staged_turn := None\<rparr>) s'
      else \<exists>k \<le> 1. steady k s s' \<and> (ok \<longrightarrow> k = 1))"

lemma obtain_turn_takes:
  assumes "obtain_turn en s = (s', r)"
  shows "takes en s s' (is_ok r)"
proof (cases "dm_staged_content s")
  case (Some t)
  let ?s = "s\<lparr>dm_staged_content := None\<rparr>"
  have "s' = fst (on_batch (restage_content_turn en t) ?s)"
    using assms Some by (simp add: obtain_turn_def act_with_def then_modify)
  moreover have "is_ok r \<Longrightarrow> is_content (dm_batch s)"
    using assms Some by (auto simp: obtain_turn_def act_with_def then_modify on_batch_def restage_content_turn_def act_fail_def
        split: if_splits)
  ultimately show ?thesis
    using Some steady_quiet [OF quiet_restage, of 0 ?s en t] by (simp add: takes_def hoare_def)
next
  case none: None
  show ?thesis
  proof (cases "is_content (dm_batch s) \<or> dm_staged_turn s = None")
    case True
    then show ?thesis using assms none plan_steady [of en s s' r]
      by (auto simp: obtain_turn_def act_with_def takes_def split: if_splits)
  next
    case False
    then obtain t where t: "dm_staged_turn s = Some t" "\<not> is_content (dm_batch s)" by auto
    let ?s = "s\<lparr>dm_staged_turn := None\<rparr>"
    have "s' = fst (on_batch (durable_report en) ?s)"
      using assms none t by (auto simp: obtain_turn_def act_with_def then_modify act_then_def act_bind_def act_return_def act_modify_def split: prod.splits sum.splits)
    with none t show ?thesis
      using steady_quiet [OF quiet_reports(2), of 0 ?s en] by (simp add: takes_def hoare_def)
  qed
qed

text \<open>What comes before: the same session mode, nothing taken, and the bound on the turns.\<close>

definition same_place :: "('h, 'g) model_turns \<Rightarrow> ('h, 'g) model_turns \<Rightarrow> bool" where
  "same_place s s' \<longleftrightarrow> steady 0 s s' \<and> is_content (dm_batch s') = is_content (dm_batch s)"

lemma same_place_steps:
  "keeps (same_place s) (on_batch (bounds en))" "keeps (same_place s) (on_batch (emit en e))" "keeps (same_place s) (compact_session ee)"
proof -
  show 1: "keeps (same_place s) (on_batch (bounds en))" for en :: "('h, 'g) batch_env" and s
    by (simp add: hoare_def on_batch_def same_place_def steady_def bounds_def is_content_def)
  show 2: "keeps (same_place s) (on_batch (emit en e))" for en :: "('h, 'g) batch_env" and s e
    by (simp add: hoare_def on_batch_def same_place_def steady_def emit_def is_content_def b_turns_def log_def tick_def)
  have "keeps (same_place s) (on_batch (on_session (\<lambda>x. x\<lparr>sn_messages := ms\<rparr>)))" for s :: "('h, 'g) model_turns" and ms
    by (simp add: hoare_def on_batch_def same_place_def steady_def on_session_def act_modify_def is_content_def b_turns_def)
  then show "keeps (same_place s) (compact_session ee)" for s :: "('h, 'g) model_turns" and ee
    unfolding compact_session_def Let_def by (intro keeps_with keeps_option keeps_prod keeps_then 2 hoare_return) simp_all
qed

lemma check_same_place: "hoare (same_place s) (\<lambda>_. True) (check_max_turns en)
    (\<lambda>_ _. dm_staged_turn s = None \<longrightarrow> dm_staged_content s = None \<longrightarrow> used_turns en s < max_turns en)"
  by (auto simp: hoare_def check_max_turns_def act_with_def act_fail_def act_return_def same_place_def steady_def used_turns_def)

lemma takes_after: "same_place s s1 \<Longrightarrow> takes en s1 s' ok \<Longrightarrow> takes en s s' ok"
  by (auto simp: takes_def same_place_def steady_def)

lemma takes_before: "takes en s s1 ok \<Longrightarrow> steady 0 s1 s' \<Longrightarrow> takes en s s' ok"
  by (auto simp: takes_def steady_def)

lemma takes_weaken: "takes en s s' ok \<Longrightarrow> takes en s s' False"
  by (auto simp: takes_def)

definition within :: "('h, 'g) engine_env \<Rightarrow> ('h, 'g) model_turns \<Rightarrow> bool" where
  "within en s \<longleftrightarrow> (dm_staged_turn s = None \<longrightarrow> dm_staged_content s = None \<longrightarrow> used_turns en s < max_turns en)"

lemma then_assoc: "act_then (act_then m n) k = act_then m (act_then n k)"
  by (rule ext) (simp add: act_then_def act_bind_def split: prod.split sum.split)

lemma next_turn_takes:
  assumes "next_turn en s = (s', r)"
  shows "\<not> is_ok r \<and> steady 0 s s' \<or> takes en s s' (is_ok r) \<and> within en s"
proof -
  let ?pre = "act_then (on_batch (bounds (ee_batch en))) (act_then (check_max_turns en) (act_then (compact_session en)
     (on_batch (emit (ee_batch en) (HE_Status ''planning'')))))"
  let ?rest = "act_bind (obtain_turn en) (\<lambda>turn. act_then (on_batch (bounds (ee_batch en))) (act_return turn))"
  have pre: "hoare (same_place s) (\<lambda>_. True) ?pre (\<lambda>_ _. within en s)"
    unfolding within_def
    by (rule hoare_then [OF same_place_steps(1)], rule hoare_then [OF check_same_place])
      (auto simp: hoare_def intro: keepsD [OF keeps_then [OF same_place_steps(3) same_place_steps(2)]])
  obtain s1 r1 where 1: "?pre s = (s1, r1)" by fastforce
  have s1: "same_place s s1" and w: "is_ok r1 \<Longrightarrow> within en s"
    using hoareD [OF pre, of s s1 r1] 1 by (auto simp: same_place_def is_ok_iff)
  have "next_turn en = act_then ?pre ?rest" by (simp only: next_turn_def then_assoc)
  then have run: "next_turn en s = (case r1 of Inl e \<Rightarrow> (s1, Inl e) | Inr _ \<Rightarrow> ?rest s1)"
    by (simp only: act_then_def [of ?pre] act_bind_def [of ?pre] 1 prod.case)
  show ?thesis
  proof (cases r1)
    case (Inl e)
    with run assms s1 show ?thesis by (auto simp: same_place_def)
  next
    case (Inr u)
    obtain s2 r2 where 2: "obtain_turn en s1 = (s2, r2)" by fastforce
    have t: "takes en s s2 (is_ok r2)" using takes_after [OF s1 obtain_turn_takes [OF 2]] .
    have w: "within en s" using w Inr by simp
    show ?thesis
    proof (cases r2)
      case (Inl e)
      with run assms Inr 2 t w show ?thesis by (auto simp: act_bind_def)
    next
      case (Inr turn)
      then have "s' = fst (on_batch (bounds (ee_batch en)) s2)"
        using run assms \<open>r1 = Inr u\<close> 2 by (auto simp: act_bind_def act_then_def act_return_def split: prod.splits sum.splits)
      then have "steady 0 s2 s'" using same_place_steps(1) [of s2 "ee_batch en"] by (simp add: hoare_def same_place_def)
      then have "takes en s s' True" using takes_before [OF t] Inr by simp
      then show ?thesis using w takes_weaken [of en s s' True] by (cases "is_ok r") auto
    qed
  qed
qed

subsection \<open>Rounds of the loop\<close>

lemma steady_at_turn: "(\<And>n. keeps (at_turn n) m) \<Longrightarrow> keeps (steady k s0) (on_batch m)"
proof -
  assume "\<And>n. keeps (at_turn n) m"
  then have "b_turns (fst (m b)) = b_turns b" for b by (simp add: hoare_def at_turn_def)
  then show ?thesis by (simp add: hoare_def on_batch_def steady_def prod.case_eq_if)
qed

lemma steady_wait: "keeps (steady k s0) (wait_for_prompt en reason summary ok)"
  unfolding wait_for_prompt_def Let_def
  by (intro keeps_then steady_quiet [OF quiet_parks(1)] hoare_return) simp

lemma content_completed_turns: "keeps (at_turn n) (content_completed en summary usage)"
proof -
  have "keeps (at_turn n) (act_then (on_session (\<lambda>_. x)) (save (ee_batch en)))" if "sn_turns x = n" for x
    by (intro keeps_then at_turn_quiet [OF quiet_save(1)])
      (simp add: on_session_def at_turn_def hoare_def act_modify_def b_turns_def that)
  then have "at_turn n b \<Longrightarrow> at_turn n (fst (content_completed en summary usage b))" for b
    using mark_content_terminal_keeps
    by (fastforce simp: content_completed_def act_with_def act_bind_def act_result_def act_return_def at_turn_def b_turns_def hoare_def
        split: sum.splits)
  then show ?thesis by (simp add: hoare_def)
qed

lemma use_turn_steady:
  assumes "children_keep_parent (ee_batch en)"
  shows "keeps (steady k s0) (use_turn en turn)"
proof -
  have "keeps (steady k s0) (turn_without_tools en turn)"
    unfolding turn_without_tools_def Let_def
    by (intro keeps_if keeps_then keeps_with steady_wait hoare_fail hoare_return steady_at_turn [OF content_completed_turns]) simp_all
  then show ?thesis unfolding use_turn_def
    by (intro keeps_if keeps_with keeps_bind hoare_return steady_at_turn [OF at_turn_execute_batch [OF assms]]) simp_all
qed

lemma loop_round_takes:
  assumes "children_keep_parent (ee_batch en)" and "loop_round en s = (s', r)"
  shows "steady 0 s s' \<and> r \<noteq> Ok None \<or> takes en s s' (r = Ok None) \<and> within en s"
proof -
  obtain s1 r1 where 1: "next_turn en s = (s1, r1)" by fastforce
  note n = next_turn_takes [OF 1]
  show ?thesis
  proof (cases r1)
    case (Inr turn)
    then have "(s', r) = use_turn en turn s1"
      using assms(2) 1 by (simp add: loop_round_def act_bind_def act_attempt_def)
    then have "steady 0 s1 s'" using keepsD [OF use_turn_steady [OF assms(1), of 0 s1 turn], of s1] by (metis fst_conv steady_refl)
    then have "takes en s s' True" using n Inr takes_before [of en s s1 True s'] by simp
    then show ?thesis using n Inr takes_weaken [of en s s' True] by (cases "r = Ok None") auto
  next
    case (Inl e)
    have w: "\<exists>f s2. wait_for_prompt en x y z s1 = (s2, f) \<and> f \<noteq> Ok None" for x y z
      by (auto simp: wait_for_prompt_def act_then_def act_bind_def act_return_def Let_def split: prod.splits sum.splits)
    have "steady 0 s1 s' \<and> r \<noteq> Ok None"
      using assms(2) 1 Inl w keepsD [OF steady_wait [of 0 s1 en], of s1]
      by (auto simp: loop_round_def act_bind_def act_attempt_def act_fail_def split: run_error.splits if_splits)
        (metis (no_types, lifting) fst_conv snd_conv steady_refl)+
    then show ?thesis using n Inl takes_before [of en s s1 False s'] steady_trans [of 0 s s1 0 s'] by auto
  qed
qed

subsection \<open>The loop ends\<close>

definition turn_limit :: "('h, 'g) engine_env \<Rightarrow> ('h, 'g) model_turns \<Rightarrow> nat" where
  "turn_limit en s = (if rq_session_wait (ee_request en) then dm_prompt_start s else 0) + max_turns en"

definition unstuck :: "('h, 'g) model_turns \<Rightarrow> bool" where
  "unstuck s \<longleftrightarrow> dm_staged_turn s = None \<or> \<not> is_content (dm_batch s)"

definition remaining :: "('h, 'g) engine_env \<Rightarrow> ('h, 'g) model_turns \<Rightarrow> nat" where
  "remaining en s = (turn_limit en s - b_turns (dm_batch s)) + (if dm_staged_content s = None then 0 else 1) +
     (if dm_staged_turn s = None then 0 else 1)"

lemma within_limit: "within en s \<Longrightarrow> dm_staged_turn s = None \<Longrightarrow> dm_staged_content s = None \<Longrightarrow> b_turns (dm_batch s) < turn_limit en s"
  by (auto simp: within_def used_turns_def turn_limit_def split: if_splits)

lemma takes_bound:
  assumes "takes en s s' ok" and "within en s" and "unstuck s"
  shows "b_turns (dm_batch s') \<le> max (b_turns (dm_batch s)) (turn_limit en s) \<and> turn_limit en s' = turn_limit en s"
  using assms within_limit [of en s]
  by (auto simp: takes_def steady_def unstuck_def turn_limit_def split: if_splits)

lemma takes_progress:
  assumes "takes en s s' True" and "within en s" and "unstuck s"
  shows "unstuck s' \<and> remaining en s' < remaining en s"
  using assms within_limit [of en s] takes_bound [OF assms]
  by (auto simp: takes_def steady_def unstuck_def remaining_def split: if_splits)

lemma turn_loop_bounded:
  assumes "children_keep_parent (ee_batch en)"
  shows "unstuck s \<Longrightarrow> \<exists>s' r. turn_loop en s = Some (s', r) \<and>
    b_turns (dm_batch s') \<le> max (b_turns (dm_batch s)) (turn_limit en s)"
proof (induction "remaining en s" arbitrary: s rule: less_induct)
  case less
  obtain s1 r1 where 1: "loop_round en s = (s1, r1)" by fastforce
  note t = loop_round_takes [OF assms 1]
  show ?case
  proof (cases "r1 = Ok None")
    case True
    then have tk: "takes en s s1 True" and w: "within en s" using t by auto
    obtain s' r where 2: "turn_loop en s1 = Some (s', r)"
        "b_turns (dm_batch s') \<le> max (b_turns (dm_batch s1)) (turn_limit en s1)"
      using less.hyps takes_progress [OF tk w less.prems] by blast
    have "turn_loop en s = Some (s', r)" using 1 2(1) True by (subst turn_loop.simps) simp
    moreover have "b_turns (dm_batch s') \<le> max (b_turns (dm_batch s)) (turn_limit en s)"
      using 2(2) takes_bound [OF tk w less.prems] by (auto simp: max_def split: if_splits)
    ultimately show ?thesis by blast
  next
    case False
    then have "\<exists>r. turn_loop en s = Some (s1, r)" using 1
      by (subst turn_loop.simps) (auto split: sum.splits option.splits)
    moreover have "b_turns (dm_batch s1) \<le> max (b_turns (dm_batch s)) (turn_limit en s)"
      using t takes_bound [OF _ _ less.prems] by (auto simp: steady_def)
    ultimately show ?thesis by blast
  qed
qed

text \<open>
  \<^bold>\<open>C5\<close> The turn loop of a run always returns, whatever the model, the tools and the plane answer: in a run
  without staged turn, or without bounded content, the loop ends after finitely many rounds, and it never plans more
  turns than \<open>run.max_turns\<close> allows, counted over the run or, in a session host, from the start of the prompt.
  (Children are assumed to leave the turn count and the claims of their parent alone.)
\<close>

theorem turn_loop_returns:
  assumes "children_keep_parent (ee_batch en)" and "dm_staged_turn s = None \<or> \<not> is_content (dm_batch s)"
  shows "\<exists>s' r. turn_loop en s = Some (s', r) \<and>
    b_turns (dm_batch s') \<le> max (b_turns (dm_batch s))
      ((if rq_session_wait (be_request (ee_batch en)) then dm_prompt_start s else 0) + max_turns en)"
  using turn_loop_bounded [OF assms(1), of s] assms(2) by (simp add: unstuck_def turn_limit_def)

subsection \<open>A stale staged turn\<close>

definition with_max_turns :: "nat \<Rightarrow> ('h, 'g) engine_env \<Rightarrow> ('h, 'g) engine_env" where
  "with_max_turns n en = (let b = ee_batch en; c = be_cfg b in
     en\<lparr>ee_batch := b\<lparr>be_cfg := c\<lparr>cf_run := (cf_run c)\<lparr>rs_max_turns := n\<rparr>\<rparr>\<rparr>\<rparr>)"

lemma with_max_turns_same:
  "bounds (ee_batch (with_max_turns n en)) = bounds (ee_batch en)"
  "emit (ee_batch (with_max_turns n en)) = emit (ee_batch en)"
  "save (ee_batch (with_max_turns n en)) = save (ee_batch en)"
  by (simp_all add: fun_eq_iff with_max_turns_def Let_def bounds_def emit_def reg_at_def save_def save_session_def act_with_def
      prod.case_eq_if sum.case_eq_if)

lemma with_max_turns_turn: "obtain_turn (with_max_turns n en) = obtain_turn en" "compact_session (with_max_turns n en) = compact_session en"
proof -
  have "requires_governance (be_cfg (ee_batch (with_max_turns n en))) = requires_governance (be_cfg (ee_batch en))"
    "ee_report_model_turn (with_max_turns n en) = ee_report_model_turn en"
    by (simp_all add: with_max_turns_def Let_def requires_governance_def remote_governance_configured_def)
  then have g: "report_governance_model (with_max_turns n en) = report_governance_model en"
    by (simp only: report_governance_model_def)
  note s = with_max_turns_same [of n en]
  have d: "durable_report (with_max_turns n en) = durable_report en" by (simp add: durable_report_def g s)
  have e: "ee_plan_turn (with_max_turns n en) = ee_plan_turn en" "ee_system_prompt (with_max_turns n en) = ee_system_prompt en"
    "ee_tool_defs (with_max_turns n en) = ee_tool_defs en" "ee_plan_content_turn (with_max_turns n en) = ee_plan_content_turn en"
    "be_content (ee_batch (with_max_turns n en)) = be_content (ee_batch en)"
    by (simp_all add: with_max_turns_def Let_def)
  show "obtain_turn (with_max_turns n en) = obtain_turn en"
    unfolding obtain_turn_def plan_text_turn_def plan_content_turn_def restage_content_turn_def record_turn_def
      record_content_turn_def append_content_turn_def ask_model_def ask_content_model_def d e s by (rule refl)
  have c: "rs_compact_after_messages (cf_run (be_cfg (ee_batch (with_max_turns n en)))) = rs_compact_after_messages (cf_run (be_cfg (ee_batch en)))"
    "rs_compact_keep_tail (cf_run (be_cfg (ee_batch (with_max_turns n en)))) = rs_compact_keep_tail (cf_run (be_cfg (ee_batch en)))"
    by (simp_all add: with_max_turns_def Let_def)
  show "compact_session (with_max_turns n en) = compact_session en"
    unfolding compact_session_def c s by (rule refl)
qed

lemma staged_skips_check:
  assumes "dm_staged_turn s \<noteq> None"
  shows "act_then (on_batch (bounds (ee_batch en))) (act_then (check_max_turns en') m) s = act_then (on_batch (bounds (ee_batch en))) m s"
proof -
  have "dm_staged_turn (fst (on_batch (bounds (ee_batch en)) s)) \<noteq> None"
    using assms by (simp add: on_batch_def split: prod.split)
  then show ?thesis
    by (auto simp: act_then_def act_bind_def check_max_turns_def act_with_def act_return_def split: prod.splits sum.splits)
qed

text \<open>
  \<^bold>\<open>C36\<close> A content run that stopped after a model turn became durable, and is resumed, has no turn limit: its
  staged turn is computed from the conversation as well, is never taken in a content session, and while it is there
  \<open>run.max_turns\<close> is not consulted, so every later turn goes the same way whatever the limit is.
\<close>

theorem resumed_content_unlimited:
  assumes "rq_resume_run_id (be_request (ee_batch en)) \<noteq> None" and "sn_messages (ba_session b) \<noteq> []"
    and "msg_role (last (sn_messages (ba_session b))) = ''assistant''"
  shows "dm_staged_turn (model_turns_new en b) \<noteq> None \<and>
    (\<forall>s n. dm_staged_turn s \<noteq> None \<and> is_content (dm_batch s) \<longrightarrow>
       next_turn (with_max_turns n en) s = next_turn en s \<and>
       (\<forall>s' turn. next_turn en s = (s', Ok turn) \<longrightarrow> dm_staged_turn s' \<noteq> None))"
proof (intro conjI allI impI)
  show "dm_staged_turn (model_turns_new en b) \<noteq> None"
    using assms by (simp add: model_turns_new_def Let_def staged_model_turn_def)
next
  fix s :: "('a, 'b) model_turns" and n assume s: "dm_staged_turn s \<noteq> None \<and> is_content (dm_batch s)"
  show "next_turn (with_max_turns n en) s = next_turn en s"
    unfolding next_turn_def with_max_turns_same with_max_turns_turn
    by (rule trans [OF staged_skips_check staged_skips_check [symmetric]]) (simp_all add: s)
next
  fix s s' :: "('a, 'b) model_turns" and turn
  assume s: "dm_staged_turn s \<noteq> None \<and> is_content (dm_batch s)" and "next_turn en s = (s', Ok turn)"
  then have "takes en s s' True" using next_turn_takes [of en s s' "Ok turn"] by simp
  with s show "dm_staged_turn s' \<noteq> None" by (auto simp: takes_def steady_def split: if_splits)
qed

subsection \<open>Turns are durable before they are used\<close>

text \<open>The newest event of the log is a checkpoint that holds the conversation and the turn count as they are.\<close>

definition saved_now :: "('h, 'g) batch \<Rightarrow> bool" where
  "saved_now b \<longleftrightarrow> (\<exists>cp rest. ba_trace b = BE_Saved cp # rest \<and> cp_messages cp = sn_messages (ba_session b) \<and>
     cp_completed_turns cp = b_turns b)"

lemma save_saved:
  assumes "save en b = (b', Inr u)"
  shows "saved_now b' \<and> sn_messages (ba_session b') = sn_messages (ba_session b) \<and> b_turns b' = b_turns b"
  using assms
  by (auto simp: save_def act_with_def save_session_def Let_def saved_now_def log_def tick_def b_turns_def retained_checkpoint_def
      dest!: save_keeps split: prod.splits sum.splits)

lemma gov_call_session: "gov_call f b = (b', r) \<Longrightarrow> ba_session b' = ba_session b"
  by (auto simp: gov_call_def split: prod.splits)

lemma durable_report_saved:
  assumes "durable_report en b = (b', Inr u)"
  shows "saved_now b' \<and> sn_messages (ba_session b') = sn_messages (ba_session b) \<and> b_turns b' = b_turns b"
proof -
  obtain b1 where g: "report_governance_model en b = (b1, Inr ())" and s: "save (ee_batch en) b1 = (b', Inr u)"
    using assms by (auto simp: durable_report_def act_then_def act_bind_def split: prod.splits sum.splits)
  have "ba_session b1 = ba_session b"
    using g by (auto simp: report_governance_model_def act_bind_def act_attempt_def act_return_def act_fail_def
        dest!: gov_call_session split: prod.splits sum.splits if_splits)
  then show ?thesis using save_saved [OF s] by (simp add: b_turns_def)
qed

lemma act_thenE:
  assumes "act_then m k s = (s', Inr a)"
  obtains s1 x where "m s = (s1, Inr x)" "k s1 = (s', Inr a)"
  using assms by (auto simp: act_then_def act_bind_def split: prod.splits sum.splits)

lemma act_bindE:
  assumes "act_bind m k s = (s', Inr a)"
  obtains s1 x where "m s = (s1, Inr x)" "k x s1 = (s', Inr a)"
  using assms by (auto simp: act_bind_def split: prod.splits sum.splits)

lemma on_batchE:
  assumes "on_batch m s = (s', r)"
  obtains b where "m (dm_batch s) = (b, r)" "s' = s\<lparr>dm_batch := b\<rparr>"
  using assms by (auto simp: on_batch_def split: prod.splits)

definition as_staged :: "model_turn \<Rightarrow> model_turn" where
  "as_staged t = t\<lparr>mt_usage := None\<rparr>"

lemma record_turn_saved:
  assumes "record_turn en t b = (b', Inr u)"
  shows "saved_now b' \<and> (\<forall>n. staged_model_turn True (sn_messages (ba_session b')) n = Some (as_staged t))"
proof -
  from assms obtain b1 b2 b3 where p: "push_assistant (mt_content t) (mt_tool_calls t) b1 = (b2, Inr ())"
    and s: "save (ee_batch en) b2 = (b3, Inr ())" and d: "durable_report en b3 = (b', Inr u)"
    unfolding record_turn_def by (elim act_thenE) (metis old.unit.exhaust)
  have m: "sn_messages (ba_session b') = sn_messages (ba_session b2)"
    using save_saved [OF s] durable_report_saved [OF d] by simp
  have "sn_messages (ba_session b2) = sn_messages (ba_session b1) @
      [\<lparr>msg_role = ''assistant'', msg_content = mt_content t, msg_tool_call_id = [], msg_tool_calls = mt_tool_calls t\<rparr>]"
    using p by (auto simp: push_assistant_def on_session_def act_modify_def)
  then have "staged_model_turn True (sn_messages (ba_session b')) n = Some (as_staged t)" for n
    by (simp add: m staged_model_turn_def turn_of_message_def as_staged_def)
  with durable_report_saved [OF d] show ?thesis by blast
qed

text \<open>What precedes the turn leaves a staged turn and the conversation it was staged from alone.\<close>

definition staged_here :: "('h, 'g) model_turns \<Rightarrow> bool" where
  "staged_here s \<longleftrightarrow> \<not> is_content (dm_batch s) \<and> dm_staged_content s = None \<and>
     (dm_staged_turn s \<noteq> None \<longrightarrow> staged_model_turn True (sn_messages (ba_session (dm_batch s))) (b_turns (dm_batch s)) = dm_staged_turn s)"

lemma staged_here_steps:
  "keeps staged_here (on_batch (bounds en))" "keeps staged_here (on_batch (emit en e))"
  "keeps staged_here (check_max_turns ee)" "keeps staged_here (compact_session ee)"
proof -
  show "keeps staged_here (on_batch (bounds en))"
    by (simp add: hoare_def on_batch_def staged_here_def bounds_def is_content_def)
  show e: "keeps staged_here (on_batch (emit en e))" for en e
    by (simp add: hoare_def on_batch_def staged_here_def emit_def is_content_def b_turns_def log_def tick_def)
  show "keeps staged_here (check_max_turns ee)"
    by (simp add: hoare_def check_max_turns_def act_with_def act_fail_def act_return_def)
  have planned: "hoare staged_here (\<lambda>s. dm_staged_turn s = None)
      (act_then (on_batch (on_session (\<lambda>x. x\<lparr>sn_messages := ms\<rparr>))) (case r of None \<Rightarrow> act_return ()
        | Some (earlier, later) \<Rightarrow> on_batch (emit (ee_batch ee) (HE_ContextCompacted earlier later)))) (\<lambda>_ _. True)" for ms r
  proof (rule hoare_then [where R = "\<lambda>_. True"])
    show "hoare staged_here (\<lambda>s. dm_staged_turn s = None) (on_batch (on_session (\<lambda>x. x\<lparr>sn_messages := ms\<rparr>))) (\<lambda>_ _. True)"
      by (simp add: hoare_def on_batch_def on_session_def act_modify_def staged_here_def is_content_def)
    show "keeps staged_here (case r of None \<Rightarrow> act_return ()
        | Some (earlier, later) \<Rightarrow> on_batch (emit (ee_batch ee) (HE_ContextCompacted earlier later)))"
      by (intro keeps_option keeps_prod e hoare_return) simp
  qed
  have "staged_here (fst (compact_session ee s))" if s: "staged_here s" for s
  proof (cases "dm_staged_turn s = None \<and> rs_compact_after_messages (cf_run (be_cfg (ee_batch ee))) \<noteq> None")
    case True
    then obtain y where y: "dm_staged_turn s = None" "rs_compact_after_messages (cf_run (be_cfg (ee_batch ee))) = Some y" by auto
    obtain ms ran where c: "compact_messages y (max (rs_compact_keep_tail (cf_run (be_cfg (ee_batch ee)))) 2)
      (sn_messages (ba_session (dm_batch s))) = (ms, ran)" by fastforce
    have "staged_here (fst (act_then (on_batch (on_session (\<lambda>x. x\<lparr>sn_messages := ms\<rparr>))) (case ran of None \<Rightarrow> act_return ()
        | Some (earlier, later) \<Rightarrow> on_batch (emit (ee_batch ee) (HE_ContextCompacted earlier later))) s))" (is ?c)
      using planned [of ms ran] s y unfolding hoare_def by blast
    moreover have "staged_here (fst (compact_session ee s)) \<longleftrightarrow> ?c"
      using s y c unfolding compact_session_def act_with_def Let_def staged_here_def by simp
    ultimately show ?thesis by blast
  next
    case False
    with s show ?thesis by (auto simp: compact_session_def act_with_def act_return_def staged_here_def)
  qed
  then show "keeps staged_here (compact_session ee)" by (simp add: hoare_def)
qed

lemma obtain_turn_saved:
  assumes "staged_here s" and "obtain_turn en s = (s', Inr turn)"
  shows "saved_now (dm_batch s') \<and>
    staged_model_turn True (sn_messages (ba_session (dm_batch s'))) (b_turns (dm_batch s')) = Some (as_staged turn)"
proof (cases "dm_staged_turn s")
  case None
  then have "plan_text_turn en s = (s', Inr turn)"
    using assms by (simp add: obtain_turn_def act_with_def staged_here_def)
  then show ?thesis
    unfolding plan_text_turn_def
    by (elim act_bindE act_thenE on_batchE) (auto simp: act_return_def dest!: record_turn_saved)
next
  case (Some t)
  then have run: "act_then (on_batch (durable_report en)) (act_return t) (s\<lparr>dm_staged_turn := None\<rparr>) = (s', Inr turn)"
    using assms by (simp add: obtain_turn_def act_with_def staged_here_def then_modify)
  have st: "staged_model_turn True (sn_messages (ba_session (dm_batch s))) (b_turns (dm_batch s)) = Some t"
    using assms(1) Some by (simp add: staged_here_def)
  then have "as_staged t = t"
    by (auto simp: staged_model_turn_def turn_of_message_def as_staged_def split: if_splits option.splits)
  with run st show ?thesis
    by (elim act_thenE on_batchE) (auto simp: act_return_def dest!: durable_report_saved)
qed


subsection \<open>Concrete runs\<close>

definition demo_engine :: "nat \<Rightarrow> run_request \<Rightarrow> (unit, in_process_state) engine_env" where
  "demo_engine limit q = \<lparr>ee_batch = demo_batch_env\<lparr>be_cfg := default_config\<lparr>cf_run := default_run\<lparr>rs_max_turns := limit\<rparr>\<rparr>, be_request := q\<rparr>,
     ee_system_prompt = ''b'', ee_tool_defs = [],
     ee_plan_turn = (\<lambda>_ _ _ _ st. (st, Ok \<lparr>mt_content = ''done'', mt_tool_calls = [], mt_usage = None\<rparr>)),
     ee_plan_content_turn = (\<lambda>_ _ _ _ _ st. (st, Err (GE_Message []))), ee_report_model_turn = (\<lambda>g. (g, Ok ()))\<rparr>"

definition demo_session_request :: run_request where
  "demo_session_request = (run_request_new ''t'')\<lparr>rq_session_wait := True\<rparr>"

definition demo_turns :: "(unit, in_process_state) model_turns" where
  "demo_turns = \<lparr>dm_batch = demo_batch_state, dm_staged_turn = None, dm_staged_content = None, dm_usage = usage_zero, dm_prompt_start = 0\<rparr>"

lemma demo_engine_children: "children_keep_parent (ee_batch (demo_engine limit q))"
  using demo_batch_laws(1) by (simp add: demo_engine_def children_keep_parent_def)

lemmas demo_loop_defs = demo_engine_def demo_session_request_def demo_turns_def demo_batch_env_def demo_batch_state_def run_request_new_def
  demo_parent_def run_session_new_def

theorem turn_loop_returns_witness:
  "\<exists>s' r. turn_loop (demo_engine 3 demo_session_request) demo_turns = Some (s', r) \<and> b_turns (dm_batch s') \<le> 3"
  using turn_loop_returns [OF demo_engine_children, of demo_turns 3 demo_session_request]
  by (auto simp: demo_loop_defs max_turns_def b_turns_def)

text \<open>A fresh run whose first turn is planned.\<close>

definition demo_plain :: "(unit, in_process_state) engine_env" where
  "demo_plain = demo_engine 1 (run_request_new ''t'')"

definition demo_done :: model_turn where
  "demo_done = \<lparr>mt_content = ''done'', mt_tool_calls = [], mt_usage = None\<rparr>"

definition fresh :: "chat_message list \<Rightarrow> nat \<Rightarrow> (unit, in_process_state) model_turns \<Rightarrow> bool" where
  "fresh ms n s \<longleftrightarrow> ba_session (dm_batch s) = demo_parent\<lparr>sn_messages := ms, sn_turns := n\<rparr> \<and> ba_reg (dm_batch s) = empty_registry \<and>
     dm_staged_turn s = None \<and> dm_staged_content s = None \<and> dm_prompt_start s = 0"

lemmas fresh_defs = succeeds_def fresh_def demo_plain_def demo_engine_def demo_batch_env_def demo_parent_def run_session_new_def run_request_new_def

lemma fresh_save: "succeeds (fresh ms n) (on_batch (save (ee_batch demo_plain))) (\<lambda>_. fresh ms n)"
  by (simp add: fresh_defs on_batch_def save_def save_session_def act_with_def save_with_retention_def save_checkpoint_of_def
      checkpoint_save_def retained_checkpoint_def demo_r_safe Let_def log_def tick_def)

lemma fresh_steps:
  "succeeds (fresh ms n) (on_batch (bounds (ee_batch demo_plain))) (\<lambda>_. fresh ms n)"
  "succeeds (fresh ms n) (on_batch (emit (ee_batch demo_plain) e)) (\<lambda>_. fresh ms n)"
  "succeeds (fresh ms 0) (check_max_turns demo_plain) (\<lambda>_. fresh ms 0)"
  "succeeds (fresh ms n) (compact_session demo_plain) (\<lambda>_. fresh ms n)"
  "succeeds (fresh ms n) (on_batch (report_governance_model demo_plain)) (\<lambda>_. fresh ms n)"
  "succeeds (fresh ms n) (on_batch (push_assistant c calls)) (\<lambda>_. fresh (ms @ [\<lparr>msg_role = ''assistant'', msg_content = c,
     msg_tool_call_id = [], msg_tool_calls = calls\<rparr>]) n)"
  "succeeds (fresh ms n) (count_turn set_replay_usage u) (\<lambda>_. fresh ms (Suc n))"
  "succeeds (fresh ms n) (on_batch (ask_model demo_plain)) (\<lambda>t s. t = demo_done \<and> fresh ms n s)"
  by (auto simp: fresh_defs on_batch_def bounds_def check_bounds_def cancel_requested_def empty_registry_def files_of_def empty_run_files_def
      tick_def emit_def append_event_def reg_at_def log_def check_max_turns_def used_turns_def max_turns_def b_turns_def act_defs
      compact_session_def default_run_def is_content_def report_governance_model_def gov_call_def map_err_def push_assistant_def on_session_def
      count_turn_def set_replay_usage_def Let_def ask_model_def plan_call_def demo_done_def split: prod.splits)

lemma on_batch_then: "on_batch (act_then m k) = act_then (on_batch m) (on_batch k)"
  by (rule ext) (simp add: on_batch_def act_then_def act_bind_def split: prod.split sum.split)

lemma fresh_turn: "succeeds (fresh [] 0) (next_turn demo_plain) (\<lambda>t _. t = demo_done)"
proof -
  let ?m = "[\<lparr>msg_role = ''assistant'', msg_content = mt_content demo_done, msg_tool_call_id = [], msg_tool_calls = mt_tool_calls demo_done\<rparr>]"
  have event: "succeeds (fresh [] 1) (on_batch (act_with (\<lambda>b. emit (ee_batch demo_plain) (HE_ModelTurn (b_turns b) (take_chars 200 c))))) (\<lambda>_. fresh [] 1)" for c
    using fresh_steps(2) by (auto simp: succeeds_def on_batch_def act_with_def)
  have recd: "succeeds (fresh [] 1) (on_batch (record_turn demo_plain demo_done)) (\<lambda>_. fresh ?m 1)"
    unfolding record_turn_def durable_report_def on_batch_then
    by (rule succeeds_then [OF event], rule succeeds_then, rule succeeds_pre [OF fresh_steps(6)], assumption, simp,
        rule succeeds_then [OF fresh_save], rule succeeds_then [OF fresh_steps(5)], rule fresh_save)
  have rest: "succeeds (\<lambda>s. t = demo_done \<and> fresh [] 0 s) (act_then (count_turn set_replay_usage (mt_usage t))
      (act_then (on_batch (record_turn demo_plain t)) (act_return t))) (\<lambda>t s. t = demo_done \<and> fresh ?m 1 s)" for t
  proof (cases "t = demo_done")
    case True
    have "succeeds (fresh [] 0) (act_then (count_turn set_replay_usage (mt_usage demo_done))
      (act_then (on_batch (record_turn demo_plain demo_done)) (act_return demo_done))) (\<lambda>t s. t = demo_done \<and> fresh ?m 1 s)"
      by (rule succeeds_then [OF fresh_steps(7)], rule succeeds_then [OF recd [unfolded One_nat_def]], rule succeeds_return, simp)
    with True show ?thesis by simp
  qed (simp add: succeeds_def)
  have plan: "succeeds (fresh [] 0) (plan_text_turn demo_plain) (\<lambda>t s. t = demo_done \<and> fresh ?m 1 s)"
    unfolding plan_text_turn_def by (rule succeeds_bind [OF fresh_steps(8) rest])
  have "obtain_turn demo_plain s = plan_text_turn demo_plain s" if "fresh [] 0 s" for s
    using that by (simp add: obtain_turn_def act_with_def fresh_defs is_content_def)
  with plan have got: "succeeds (fresh [] 0) (obtain_turn demo_plain) (\<lambda>t s. t = demo_done \<and> fresh ?m 1 s)"
    by (simp add: succeeds_def)
  have fin: "succeeds (\<lambda>s. t = demo_done \<and> fresh ?m 1 s) (act_then (on_batch (bounds (ee_batch demo_plain))) (act_return t)) (\<lambda>t _. t = demo_done)" for t
    using fresh_steps(1) [of ?m 1] by (fastforce simp: succeeds_def act_then_def act_bind_def act_return_def)
  show ?thesis unfolding next_turn_def
    by (rule succeeds_then [OF fresh_steps(1)], rule succeeds_then [OF fresh_steps(3)], rule succeeds_then [OF fresh_steps(4)],
      rule succeeds_then [OF fresh_steps(2)], rule succeeds_bind [OF got fin])
qed


text \<open>A resumed content run.\<close>

definition demo_resumed :: "(unit, in_process_state) engine_env" where
  "demo_resumed = demo_engine 1 ((run_request_new ''t'')\<lparr>rq_resume_run_id := Some ''r''\<rparr>)"

definition demo_content_batch :: "(unit, in_process_state) batch" where
  "demo_content_batch = demo_batch_state\<lparr>ba_session := demo_parent\<lparr>sn_content := Some demo_content,
     sn_messages := [\<lparr>msg_role = ''assistant'', msg_content = [], msg_tool_call_id = [], msg_tool_calls = [demo_write]\<rparr>], sn_turns := 1\<rparr>\<rparr>"

theorem resumed_content_unlimited_witness:
  "next_turn (with_max_turns 0 demo_resumed) (model_turns_new demo_resumed demo_content_batch) =
     next_turn demo_resumed (model_turns_new demo_resumed demo_content_batch)"
proof -
  let ?s = "model_turns_new demo_resumed demo_content_batch"
  have "dm_staged_turn ?s \<noteq> None \<and> (\<forall>s n. dm_staged_turn s \<noteq> None \<and> is_content (dm_batch s) \<longrightarrow>
       next_turn (with_max_turns n demo_resumed) s = next_turn demo_resumed s \<and>
       (\<forall>s' turn. next_turn demo_resumed s = (s', Ok turn) \<longrightarrow> dm_staged_turn s' \<noteq> None))"
    by (rule resumed_content_unlimited)
      (simp_all add: demo_resumed_def demo_engine_def demo_batch_env_def run_request_new_def demo_content_batch_def)
  moreover have "is_content (dm_batch ?s)"
    by (simp add: model_turns_new_def Let_def demo_content_batch_def is_content_def)
  ultimately show ?thesis by blast
qed

end
