(* ===== verification/Park_Laws.thy ===== *)
theory Park_Laws
  imports Loop_Laws
begin

section \<open>Parks are durable\<close>

text \<open>
  A batch or a turn that parks has saved the park: the newest checkpoint of the run holds it, and it is
  the park the failure path writes again. The emissions after the save write no checkpoint.
\<close>

subsection \<open>The newest checkpoint\<close>

fun last_saved :: "batch_event list \<Rightarrow> checkpoint option" where
  "last_saved [] = None"
| "last_saved (BE_Saved cp # es) = Some cp"
| "last_saved (_ # es) = last_saved es"

text \<open>What the caller is told of a park is what the park records.\<close>

definition tells :: "park_info \<Rightarrow> parked_state \<Rightarrow> bool" where
  "tells info p \<longleftrightarrow> pi_reason info = pk_reason p \<and> pi_question info = pk_question p \<and> pi_tool_call_id info = pk_tool_call_id p \<and>
     pi_kind info = pk_kind p \<and> pi_plan_digest info = pk_plan_digest p"

definition parked_at :: "park_info \<Rightarrow> ('h, 'g) batch \<Rightarrow> bool" where
  "parked_at info b \<longleftrightarrow> (\<exists>p cp. ba_pending b = Some p \<and> tells info p \<and> last_saved (ba_trace b) = Some cp \<and> cp_park cp = Some p)"

definition exit_parked :: "batch_outcome \<Rightarrow> ('h, 'g) batch \<Rightarrow> bool" where
  "exit_parked out b \<longleftrightarrow> (\<forall>info summary. out = BO_Parked info summary \<longrightarrow> parked_at info b)"

definition flow_parked :: "'a flow \<Rightarrow> ('h, 'g) batch \<Rightarrow> bool" where
  "flow_parked f b \<longleftrightarrow> (\<forall>out. f = FL_Exit out \<longrightarrow> exit_parked out b)"

lemma tells_info_of [simp]: "tells (info_of p a d g) p"
  by (simp add: tells_def info_of_def)

lemma parked_simps [simp]: "exit_parked BO_Continue b" "exit_parked (BO_Completed s ok) b" "flow_parked FL_Next b"
  "flow_parked (FL_Go a) b" "exit_parked (BO_Parked info s) b = parked_at info b" "flow_parked (FL_Exit out) b = exit_parked out b"
  by (auto simp: exit_parked_def flow_parked_def)

subsection \<open>Outcomes of actions\<close>

text \<open>\<open>gives m Q\<close>: whenever the action succeeds, from any state, its result satisfies \<open>Q\<close>.\<close>

abbreviation gives :: "('s, 'a, 'e) action \<Rightarrow> ('a \<Rightarrow> 's \<Rightarrow> bool) \<Rightarrow> bool" where
  "gives m Q \<equiv> hoare (\<lambda>_. True) (\<lambda>_. True) m Q"

lemma gives_bind: "(\<And>a. gives (k a) Q) \<Longrightarrow> gives (act_bind m k) Q"
  by (rule hoare_bind [where R = "\<lambda>_ _. True"]) (auto simp: hoare_def)

lemma gives_then: "gives k Q \<Longrightarrow> gives (act_then m k) Q"
  unfolding act_then_def by (rule gives_bind)

lemma gives_with: "(\<And>s. gives (f s) Q) \<Longrightarrow> gives (act_with f) Q"
  by (auto simp: hoare_def act_with_def)

lemma gives_return: "(\<And>s. Q a s) \<Longrightarrow> gives (act_return a) Q"
  by (simp add: hoare_def act_return_def)

lemma gives_cases: "(c \<Longrightarrow> gives m Q) \<Longrightarrow> (\<not> c \<Longrightarrow> gives n Q) \<Longrightarrow> gives (if c then m else n) Q"
  "gives m Q \<Longrightarrow> (\<And>a. gives (f a) Q) \<Longrightarrow> gives (case x of None \<Rightarrow> m | Some a \<Rightarrow> f a) Q"
  "(\<And>e. gives (g e) Q) \<Longrightarrow> (\<And>a. gives (f a) Q) \<Longrightarrow> gives (case y of Inl e \<Rightarrow> g e | Inr a \<Rightarrow> f a) Q"
  by (simp_all split: option.split sum.split)

lemma gives_flow: "gives m flow_parked \<Longrightarrow> (\<And>a. gives (k a) flow_parked) \<Longrightarrow> gives (flow_bind m k) flow_parked"
  unfolding flow_bind_def
  by (erule hoare_bind) (auto simp: hoare_def act_return_def split: flow.split)

lemma gives_catch: "gives m Q \<Longrightarrow> (\<And>e. gives (h e) Q) \<Longrightarrow> gives (act_catch m h) Q"
  by (simp add: hoare_def act_catch_def split: prod.split sum.split) (metis fst_conv snd_conv)

lemma gives_fail: "gives (act_fail e) Q"
  by (rule hoare_fail)

subsection \<open>After the park is saved\<close>

lemma parked_at_step: "(\<And>b. ba_pending (f b) = ba_pending b \<and> ba_trace (f b) = ba_trace b) \<Longrightarrow> keeps (parked_at info) (act_modify f)"
  by (rule keeps_modify) (simp add: parked_at_def)

lemma parked_at_emit [triples]: "keeps (parked_at info) (emit en e)"
  by (simp add: hoare_def emit_def parked_at_def log_def tick_def)

lemma parked_at_report [triples]: "keeps (parked_at info) (report_tool en c n ok d)"
proof -
  have "keeps (parked_at info) (gov_call f)" for f :: "'b \<Rightarrow> 'b \<times> ('c, governance_error) result"
    by (simp add: hoare_def gov_call_def parked_at_def split: prod.split)
  moreover have "keeps (parked_at info) (act_modify (log (BE_Reported c ok)))"
    by (rule keeps_modify) (simp add: parked_at_def log_def)
  ultimately show ?thesis unfolding report_tool_def
    by (intro keeps_bind keeps_attempt keeps_sum keeps_if hoare_fail hoare_return) simp_all
qed

lemma parked_at_hooks [triples]: "keeps (parked_at info) (post_hook en n ok)" "keeps (parked_at info) (park_hook en r q)"
  unfolding post_hook_def park_hook_def by (rule parked_at_step; simp add: tick_def)+

lemma parked_at_emissions [triples]:
  "keeps (parked_at info) (emit_state_events en n ok d a)" "keeps (parked_at info) (emit_tool_end en n ok d c)"
  "keeps (parked_at info) (emit_prefix_tool_ends en es)"
  unfolding emit_state_events_def emit_tool_end_def emit_prefix_tool_ends_def by (intro triples; simp)+

lemma retained_given: "cp_park (retained_checkpoint en gov todos keep (Some p) binding s) = Some p"
  by (simp add: retained_checkpoint_def retained_park_def)

lemma save_parked_at:
  assumes "ba_pending b = Some p" and "save_parked en p b = (b', Inr u)" and "tells info p"
  shows "parked_at info b'"
  using assms
  by (auto simp: save_parked_def save_session_def Let_def parked_at_def log_def tick_def retained_given split: prod.splits sum.splits)

lemma park_with_parks: "tells info p \<Longrightarrow> gives (park_with en p) (\<lambda>_. parked_at info)"
  by (auto simp: hoare_def park_with_def then_modify intro!: save_parked_at [of _ p en _ "()"] simp: prod_eq_iff)

text \<open>Parking, and then steps that keep what is parked.\<close>

lemma gives_parked:
  assumes "hoare (\<lambda>_. True) P m (\<lambda>_. parked_at info)" and "keeps (parked_at info) k"
  shows "hoare (\<lambda>_. True) P (act_then m (act_then k (act_return (BO_Parked info s)))) exit_parked"
proof (rule hoare_then [OF assms(1)])
  show "hoare (\<lambda>_. True) (parked_at info) (act_then k (act_return (BO_Parked info s))) exit_parked"
    using assms(2) by (fastforce simp: hoare_def act_then_def act_bind_def act_return_def split: prod.splits sum.splits)
qed

lemma gives_parked3:
  assumes "hoare (\<lambda>_. True) P m (\<lambda>_. parked_at info)" and "keeps (parked_at info) k1" "keeps (parked_at info) k2" "keeps (parked_at info) k3"
  shows "hoare (\<lambda>_. True) P (act_then m (act_then k1 (act_then k2 (act_then k3 (act_return (BO_Parked info s)))))) exit_parked"
  using gives_parked [OF assms(1) keeps_then [OF assms(2) keeps_then [OF assms(3,4)]]] by (simp only: then_assoc)

lemma gives_parked_now: "gives m (\<lambda>_. parked_at info) \<Longrightarrow> gives (act_then m (act_return (BO_Parked info s))) exit_parked"
  by (erule hoare_then) (simp add: hoare_def act_return_def)

lemma parks_are_saved:
  "gives (park_for_ask en call k es) exit_parked" "gives (park_for_plan en call k summary) exit_parked"
  "gives (park_for_approval en call k park reason es) exit_parked" "gives (park_for_escalate en call k request) exit_parked"
proof -
  show "gives (park_for_ask en call k es) exit_parked"
    unfolding park_for_ask_def Let_def by (intro gives_with gives_parked park_with_parks parked_at_emissions) simp
  show "gives (park_for_plan en call k summary) exit_parked"
    unfolding park_for_plan_def Let_def case_prod_unfold by (intro gives_with gives_parked_now park_with_parks) simp
  show "gives (park_for_approval en call k park reason es) exit_parked"
    unfolding park_for_approval_def Let_def
  proof (intro gives_with gives_cases gives_fail, rule gives_then)
    fix b :: "('a, 'b) batch"
    let ?p = "\<lparr>pk_reason = reason, pk_question = ''approval '' @ ap_approval_id park @ '' is pending'',
         pk_tool_call_id = conversation_tool_call_id call (b_turns b) k, pk_kind = PK_Approval, pk_allow_call_id = [], pk_plan_digest = []\<rparr>"
    show "gives (act_then (park_with en ?p) (act_then (emit_prefix_tool_ends en es)
       (act_then (emit_tool_end en (tc_name call) False (''parked: '' @ reason) (stable_tool_call_id call (b_turns b) k))
         (act_then (park_hook en reason (pk_question ?p))
           (act_return (BO_Parked (info_of ?p (Some (ap_approval_id park)) None None) reason)))))) exit_parked"
      by (intro gives_parked3 park_with_parks triples) simp
  qed
  show "gives (park_for_escalate en call k request) exit_parked"
    unfolding park_for_escalate_def Let_def
  proof (rule gives_with)
    fix b :: "('a, 'b) batch"
    let ?p = "\<lparr>pk_reason = pq_reason request, pk_question = pq_question request,
      pk_tool_call_id = conversation_tool_call_id call (b_turns b) k, pk_kind = PK_Escalate, pk_allow_call_id = [], pk_plan_digest = []\<rparr>"
    let ?pending = "\<lambda>b. ba_pending b = Some ?p"
    have pending: "gives (act_modify (\<lambda>b. b\<lparr>ba_pending := Some ?p\<rparr>)) (\<lambda>_. ?pending)"
      by (simp add: hoare_def act_modify_def)
    have kept: "hoare (\<lambda>_. True) ?pending (act_attempt (report_tool en c ''escalate'' False d)) (\<lambda>_. ?pending)" for c d
      by (auto simp: hoare_def act_attempt_def report_tool_def act_bind_def gov_call_def act_fail_def act_return_def act_modify_def log_def
          split: prod.splits sum.splits)
    have saved: "hoare (\<lambda>_. True) ?pending (save_parked en ?p) (\<lambda>_. parked_at (info_of ?p a d g))" for a d g
      by (auto simp: hoare_def intro!: save_parked_at [of _ ?p en _ "()"] simp: prod_eq_iff)
    show "gives (act_then (act_modify (\<lambda>b. b\<lparr>ba_pending := Some ?p\<rparr>))
       (act_bind (act_attempt (report_tool en (call_id_at b call k) ''escalate'' False (''parked: '' @ pq_reason request))) (\<lambda>reported.
         act_then (save_parked en ?p) (act_then (act_result reported)
           (act_then (emit_tool_end en ''escalate'' False (''parked: '' @ pq_reason request) (call_id_at b call k))
             (act_then (park_hook en (pq_reason request) (pq_question request))
               (act_return (BO_Parked (info_of ?p None (Some (call_id_at b call k)) (Some (tc_args_json call))) (pq_reason request))))))))) exit_parked"
      by (rule hoare_then [OF pending], rule hoare_bind [OF kept], rule gives_parked3 [OF saved]) (intro triples; simp)+
  qed
qed

subsection \<open>Every exit of a batch\<close>

lemma gives_exit: "gives m exit_parked \<Longrightarrow> gives (act_bind m (\<lambda>out. act_return (FL_Exit out))) flow_parked"
  by (erule hoare_bind) (simp add: hoare_def act_return_def)

lemma gives_flush_fail: "gives (flush_fail en e) Q"
  unfolding flush_fail_def by (intro gives_then gives_fail)

lemma next_with_parked: "gives (next_with k call r) flow_parked"
  unfolding next_with_def by (intro gives_then gives_return) simp

lemma enter_call_parked: "gives (enter_call en k call) flow_parked"
proof -
  have ask: "gives (ask_park en k call) flow_parked"
    unfolding ask_park_def by (intro gives_then gives_bind gives_exit parks_are_saved)
  have hook: "gives (pre_hook en k call) flow_parked"
    unfolding pre_hook_def Let_def case_prod_unfold
    by (intro gives_with gives_then gives_cases gives_return next_with_parked) simp
  have "gives (gates en k call) flow_parked"
    unfolding gates_def by (intro gives_with gives_cases ask next_with_parked) (intro gives_then hook)
  note gates = this
  show ?thesis unfolding enter_call_def
    by (intro gives_with gives_cases, intro gives_return, simp, rule gives_bind, intro gives_cases gives_flush_fail gates)
qed

lemma not_authorized_parked: "gives (not_authorized en k call e) flow_parked"
proof -
  have "gives (act_with (\<lambda>b. act_bind (park_for_approval en call k
             (approval_park_of en (be_now en (ba_clock b)) (call_id_at b call k) call ra) (ra_reason ra) es)
           (\<lambda>out. act_return (FL_Exit out)))) flow_parked" for ra es
    by (intro gives_with gives_exit parks_are_saved)
  then have "gives (act_then (flush_children en) (act_bind (persist_completed_prefix en) (\<lambda>es.
       act_then (if es = [] then act_return () else stage_execution en k call)
         (act_with (\<lambda>b. act_bind (park_for_approval en call k
             (approval_park_of en (be_now en (ba_clock b)) (call_id_at b call k) call ra) (ra_reason ra) es)
           (\<lambda>out. act_return (FL_Exit out))))))) flow_parked" for ra
    by (rule gives_then [OF gives_bind [OF gives_then]])
  moreover have "gives (act_with (\<lambda>b. if parked_for en b (call_id_at b call k) \<noteq> None \<and> \<not> is_denied e then act_fail (RE_Governance e)
       else act_then (clear_parked en (call_id_at b call k)) (next_with k call (Inl (be_show_gov en e))))) flow_parked"
    by (intro gives_with gives_cases gives_fail gives_then next_with_parked)
  ultimately show ?thesis unfolding not_authorized_def by (cases e) simp_all
qed

lemma authorize_call_parked: "gives (authorize_call en k call) flow_parked"
  unfolding authorize_call_def Let_def
proof (rule gives_with, rule gives_then, rule gives_then, rule gives_bind)
  fix r :: "(unit, governance_error) result"
  show "gives (case r of Inr _ \<Rightarrow> act_return (FL_Go ()) | Inl e \<Rightarrow> not_authorized en k call e) flow_parked"
    by (intro gives_cases not_authorized_parked gives_return) simp
qed

lemma child_error_parked: "gives (child_error en e) flow_parked"
  unfolding child_error_def by (cases e) (auto intro: gives_flush_fail gives_return)

lemma run_call_parked: "gives (run_call en k call) flow_parked"
proof -
  have child: "gives (perform_child en call) flow_parked"
    unfolding perform_child_def
    by (rule gives_with, rule gives_then, rule gives_bind) (intro gives_cases child_error_parked gives_return; simp)
  have tool: "gives (perform_tool en call) flow_parked"
    unfolding perform_tool_def Let_def case_prod_unfold
    by (rule gives_with, rule gives_then, rule gives_bind) (intro gives_cases gives_flush_fail gives_then gives_return; simp)
  have start: "gives (start_child en k call permits) flow_parked" for permits
    unfolding start_child_def Let_def case_prod_unfold
    by (rule gives_with, rule gives_then) (intro gives_cases child_error_parked gives_then gives_return; simp)
  have "gives (run_child en k call) flow_parked" "gives (run_tool en k call) flow_parked" "gives (queue_child en k call permits) flow_parked"
    for permits
    unfolding run_child_def run_tool_def queue_child_def by (intro gives_then gives_cases child tool start next_with_parked)+
  then show ?thesis unfolding run_call_def by (intro gives_with gives_cases)
qed

lemma serial_batch_parked: "gives (serial_batch en calls) (\<lambda>exit b. \<forall>out. exit = Some out \<longrightarrow> exit_parked out b)"
proof -
  let ?Q = "\<lambda>exit (b :: ('a, 'b) batch). \<forall>out. exit = Some out \<longrightarrow> exit_parked out b"
  have call: "gives (serial_call en k call) flow_parked" for k call
    unfolding serial_call_def
    by (intro gives_flow enter_call_parked authorize_call_parked, rule gives_then)
      (intro gives_flow run_call_parked next_with_parked)
  have "gives (serial_loop en k calls) ?Q" for k
  proof (induction calls arbitrary: k)
    case Nil
    show ?case unfolding serial_loop.simps by (intro gives_then gives_return) simp
  next
    case (Cons c cs)
    have "hoare (\<lambda>_. True) (flow_parked f) (case f of FL_Exit out \<Rightarrow> act_return (Some out) | _ \<Rightarrow> serial_loop en (Suc k) cs) ?Q"
      for f :: "unit flow"
      using Cons [of "Suc k"] by (cases f) (auto intro: hoare_return hoare_pre)
    then show ?case unfolding serial_loop.simps by (rule hoare_bind [OF call])
  qed
  moreover have "gives (abandon en e) ?Q" for e :: run_error
    unfolding abandon_def Let_def case_prod_unfold by (intro gives_with gives_then gives_fail)
  ultimately have "gives (act_catch (serial_loop en 0 calls) (abandon en)) ?Q" by (rule gives_catch)
  then show ?thesis unfolding serial_batch_def by (rule gives_then)
qed

lemma report_batch_parked: "gives (report_batch en usage) exit_parked"
proof -
  have one: "gives (report_one en k call r) flow_parked" for k call r
  proof -
    have plan: "gives (act_bind (park_for_plan en call k s) (\<lambda>out. act_return (FL_Exit out))) flow_parked" for s
      by (intro gives_exit parks_are_saved)
    have escalate: "gives (act_bind (park_for_escalate en call k q) (\<lambda>out. act_return (FL_Exit out))) flow_parked" for q
      by (intro gives_exit parks_are_saved)
    show ?thesis unfolding report_one_def Let_def
      by (cases r; (rename_tac x; case_tac x)?; simp)
        (intro gives_with gives_cases conjI impI plan escalate gives_then gives_return; simp)+
  qed
  have loop: "gives (report_loop en rs t) flow_parked" for rs t
  proof (induction rs arbitrary: t)
    case Nil
    show ?case by (simp add: gives_return)
  next
    case (Cons x rs)
    obtain k call r where x: "x = (k, call, r)" by (cases x)
    have "hoare (\<lambda>_. True) (flow_parked f) (case f of FL_Exit out \<Rightarrow> act_return (FL_Exit out)
       | FL_Next \<Rightarrow> act_then (save en) (report_loop en rs t) | FL_Go t \<Rightarrow> act_then (save en) (report_loop en rs (Some t))) flow_parked"
      for f :: "(string \<times> bool) flow"
      using Cons by (cases f) (auto intro: hoare_return hoare_pre gives_then)
    then show ?case unfolding x report_loop.simps by (rule hoare_bind [OF one])
  qed
  have finish: "gives (finish_reports en t) exit_parked" for t
    unfolding finish_reports_def case_prod_unfold
    by (rule gives_then, intro gives_cases gives_return gives_parked_now park_with_parks) simp_all
  have "hoare (\<lambda>_. True) (flow_parked f) (case f of FL_Exit out \<Rightarrow> act_return out | FL_Next \<Rightarrow> act_return BO_Continue
      | FL_Go t \<Rightarrow> finish_reports en t) exit_parked" for f
    using finish by (cases f) (auto intro: hoare_return hoare_pre)
  then show ?thesis unfolding report_batch_def
    by (intro gives_with gives_then) (rule hoare_bind [OF loop])
qed

lemma execute_batch_parked: "gives (execute_batch en calls usage) exit_parked"
proof -
  have "hoare (\<lambda>_. True) (\<lambda>b. \<forall>out. exit = Some out \<longrightarrow> exit_parked out b)
      (case exit of Some out \<Rightarrow> act_return out | None \<Rightarrow> report_batch en usage) exit_parked" for exit
    using report_batch_parked by (cases exit) (auto intro: hoare_return hoare_pre)
  then have "gives (act_bind (serial_batch en calls) (\<lambda>exit. case exit of Some out \<Rightarrow> act_return out | None \<Rightarrow> report_batch en usage)) exit_parked"
    by (rule hoare_bind [OF serial_batch_parked])
  then show ?thesis unfolding execute_batch_def
    by (intro gives_then gives_cases gives_return report_batch_parked) simp_all
qed

subsection \<open>Every parked run\<close>

definition end_parked :: "loop_end \<Rightarrow> ('h, 'g) model_turns \<Rightarrow> bool" where
  "end_parked e s \<longleftrightarrow> (le_termination e = RT_Parked \<longleftrightarrow> le_park e \<noteq> None) \<and> (\<forall>info. le_park e = Some info \<longrightarrow> parked_at info (dm_batch s))"

lemma gives_on_batch: "gives m (\<lambda>a. Q a) \<Longrightarrow> gives (on_batch m) (\<lambda>a s. Q a (dm_batch s))"
  by (simp add: hoare_def on_batch_def prod.case_eq_if)

lemma loop_round_parked: "gives (loop_round en) (\<lambda>r s. \<forall>e. r = Some e \<longrightarrow> end_parked e s)" (is "gives _ ?Q")
proof -
  have wait: "gives (wait_for_prompt en reason summary ok) ?Q" for reason summary ok
    unfolding wait_for_prompt_def Let_def
    by (rule hoare_then [OF gives_on_batch [OF park_with_parks [OF tells_info_of [of _ None None None]]]])
      (simp add: hoare_def act_return_def end_parked_def)
  have plain: "gives (turn_without_tools en turn) ?Q" for turn
    unfolding turn_without_tools_def Let_def
    by (intro gives_cases gives_fail wait, rule gives_then, rule gives_return) (simp add: end_parked_def)
  have ends: "(\<And>info s. out = BO_Parked info s \<Longrightarrow> parked_at info (dm_batch s1)) \<Longrightarrow> loop_end_of out = Some e \<Longrightarrow> end_parked e s1"
    for out e and s1 :: "('a, 'b) model_turns"
    by (cases out) (auto simp: end_parked_def)
  have "gives (act_with (\<lambda>s. act_bind (on_batch (execute_batch (ee_batch en) calls (dm_usage s)))
       (\<lambda>out. act_return (loop_end_of out)))) ?Q" for calls
    by (rule gives_with, rule hoare_bind [OF gives_on_batch [OF execute_batch_parked]])
      (auto simp: hoare_def act_return_def exit_parked_def intro: ends)
  then have "gives (use_turn en turn) ?Q" for turn
    unfolding use_turn_def by (intro gives_cases plain)
  note use = this
  show ?thesis unfolding loop_round_def
  proof (rule gives_bind)
    fix r :: "(model_turn, run_error) result"
    show "gives (case r of Inr turn \<Rightarrow> use_turn en turn
       | Inl (RE_MaxTurns limit) \<Rightarrow> if rq_session_wait (be_request (ee_batch en))
           then wait_for_prompt en ''max_turns'' (''reached max_turns ('' @ dec_string limit @ '')'') False
           else act_fail (RE_MaxTurns limit)
       | Inl e \<Rightarrow> act_fail e) ?Q"
      by (cases r; (rename_tac e, case_tac e)?) (auto intro: gives_fail wait use)
  qed
qed

lemma turn_loop_ends: "turn_loop en s = Some y \<Longrightarrow> \<forall>e. snd y = Ok e \<longrightarrow> end_parked e (fst y)"
proof (rule turn_loop.raw_induct [of "\<lambda>en s y. \<forall>e. snd y = Ok e \<longrightarrow> end_parked e (fst y)" en s y])
  fix f and en :: "('a, 'b) engine_env" and s and y :: "('a, 'b) model_turns \<times> (loop_end, run_error) result"
  assume ih: "\<And>en s y. f en s = Some y \<Longrightarrow> \<forall>e. snd y = Ok e \<longrightarrow> end_parked e (fst y)"
    and body: "(case loop_round en s of (s1, Inl e) \<Rightarrow> Some (s1, Err e) | (s1, Inr None) \<Rightarrow> f en s1
      | (s1, Inr (Some finished)) \<Rightarrow> Some (s1, Ok finished)) = Some y"
  obtain s1 r where r: "loop_round en s = (s1, r)" by fastforce
  have "r = Ok (Some e) \<Longrightarrow> end_parked e s1" for e
    using loop_round_parked [of en] r by (auto simp: hoare_def dest: spec [of _ s])
  with ih body r show "\<forall>e. snd y = Ok e \<longrightarrow> end_parked e (fst y)" by (auto split: sum.splits option.splits)
qed

lemma turn_loop_end: "turn_loop en s = Some (s', Ok e) \<Longrightarrow> end_parked e s'"
  using turn_loop_ends by fastforce

text \<open>
  A run that parks can be resumed from its park: whenever the loop returns a park, be it an escalation, an
  approval, an ask, a plan review or a session waiting for its prompt, the newest checkpoint of the run records
  exactly the park the caller is told of, and the failure path would write it again.
\<close>

theorem parked_run_durable:
  assumes "turn_loop en s = Some (s', Ok finished)" and "le_termination finished = RT_Parked"
  shows "\<exists>info p cp. le_park finished = Some info \<and> tells info p \<and> ba_pending (dm_batch s') = Some p \<and>
    last_saved (ba_trace (dm_batch s')) = Some cp \<and> cp_park cp = Some p"
  using turn_loop_end [OF assms(1)] assms(2) by (auto simp: end_parked_def parked_at_def)

subsection \<open>A session host whose prompt has no turn left\<close>

lemma demo_zero: "dec_string 0 = ''0''"
  by code_simp

lemma demo_waits: "\<exists>s'. turn_loop (demo_engine 0 demo_session_request) demo_turns = Some (s', Ok \<lparr>le_park =
    Some (info_of (prompt_wait_park\<lparr>pk_reason := ''max_turns''\<rparr>) None None None), le_summary = ''reached max_turns (0)'',
    le_success = False, le_termination = RT_Parked\<rparr>)"
  by (subst turn_loop.simps) (simp add: loop_round_def next_turn_def act_bind_def act_then_def act_attempt_def on_batch_def bounds_def check_max_turns_def
    act_with_def demo_loop_defs max_turns_def used_turns_def check_bounds_def cancel_requested_def empty_registry_def files_of_def
    empty_run_files_def tick_def act_fail_def wait_for_prompt_def park_with_def act_modify_def save_parked_def save_session_def
    save_with_retention_def save_checkpoint_of_def checkpoint_save_def retained_checkpoint_def demo_r_safe Let_def log_def act_return_def b_turns_def b_run_id_def demo_zero)

theorem parked_run_durable_witness:
  "\<exists>s' finished info p cp. turn_loop (demo_engine 0 demo_session_request) demo_turns = Some (s', Ok finished) \<and>
     le_park finished = Some info \<and> tells info p \<and> ba_pending (dm_batch s') = Some p \<and>
     last_saved (ba_trace (dm_batch s')) = Some cp \<and> cp_park cp = Some p"
proof -
  obtain s' finished where r: "turn_loop (demo_engine 0 demo_session_request) demo_turns = Some (s', Ok finished)"
    and t: "le_termination finished = RT_Parked" using demo_waits by fastforce
  show ?thesis using parked_run_durable [OF r t] r by blast
qed

end
