(* ===== verification/Partial_Actions.thy ===== *)
theory Partial_Actions
  imports Actions
begin

section \<open>Actions that may not return\<close>

text \<open>
  An action whose loops wait for something outside may never return; its value is then \<open>None\<close>. The
  combinators are those of \<open>Actions\<close>; \<open>pa_lift\<close> embeds an action that always returns. \<open>phoare\<close> is a triple
  with an invariant, about the runs that return; its last part is about the errors.
\<close>

type_synonym ('s, 'a, 'e) paction = "'s \<Rightarrow> ('s \<times> ('a, 'e) result) option"

definition pa_lift :: "('s, 'a, 'e) action \<Rightarrow> ('s, 'a, 'e) paction" where
  "pa_lift m = (\<lambda>s. Some (m s))"

definition pa_bind :: "('s, 'a, 'e) paction \<Rightarrow> ('a \<Rightarrow> ('s, 'b, 'e) paction) \<Rightarrow> ('s, 'b, 'e) paction" where
  "pa_bind m k = (\<lambda>s. case m s of None \<Rightarrow> None | Some (s1, Inl e) \<Rightarrow> Some (s1, Inl e) | Some (s1, Inr a) \<Rightarrow> k a s1)"

definition pa_then :: "('s, 'a, 'e) paction \<Rightarrow> ('s, 'b, 'e) paction \<Rightarrow> ('s, 'b, 'e) paction" where
  "pa_then m k = pa_bind m (\<lambda>_. k)"

definition pa_return :: "'a \<Rightarrow> ('s, 'a, 'e) paction" where
  "pa_return a = pa_lift (act_return a)"

definition pa_fail :: "'e \<Rightarrow> ('s, 'a, 'e) paction" where
  "pa_fail e = pa_lift (act_fail e)"

definition pa_with :: "('s \<Rightarrow> ('s, 'a, 'e) paction) \<Rightarrow> ('s, 'a, 'e) paction" where
  "pa_with f = (\<lambda>s. f s s)"

definition pa_attempt :: "('s, 'a, 'e) paction \<Rightarrow> ('s, ('a, 'e) result, 'f) paction" where
  "pa_attempt m = (\<lambda>s. map_option (\<lambda>(s1, r). (s1, Inr r)) (m s))"

definition pa_ignore :: "('s, 'a, 'e) paction \<Rightarrow> ('s, unit, 'f) paction" where
  "pa_ignore m = (\<lambda>s. map_option (\<lambda>(s1, _). (s1, Inr ())) (m s))"

lemmas pa_defs = pa_lift_def pa_bind_def pa_then_def pa_return_def pa_fail_def pa_with_def pa_attempt_def pa_ignore_def

subsection \<open>Triples\<close>

definition phoare :: "('s \<Rightarrow> bool) \<Rightarrow> ('s, 'a, 'e) paction \<Rightarrow> ('a \<Rightarrow> 's \<Rightarrow> bool) \<Rightarrow> ('e \<Rightarrow> 's \<Rightarrow> bool) \<Rightarrow> bool" where
  "phoare P m Q E \<longleftrightarrow> (\<forall>s s' r. P s \<longrightarrow> m s = Some (s', r) \<longrightarrow> (case r of Inr a \<Rightarrow> Q a s' | Inl e \<Rightarrow> E e s'))"

abbreviation pkeeps :: "('s \<Rightarrow> bool) \<Rightarrow> ('s, 'a, 'e) paction \<Rightarrow> bool" where
  "pkeeps I m \<equiv> phoare I m (\<lambda>_. I) (\<lambda>_. I)"

named_theorems ptriples

lemma phoareD: "phoare P m Q E \<Longrightarrow> P s \<Longrightarrow> m s = Some (s', r) \<Longrightarrow> (case r of Inr a \<Rightarrow> Q a s' | Inl e \<Rightarrow> E e s')"
  by (simp add: phoare_def)

lemma phoare_weaken:
  "phoare P m Q E \<Longrightarrow> (\<And>s. P' s \<Longrightarrow> P s) \<Longrightarrow> (\<And>a s. Q a s \<Longrightarrow> Q' a s) \<Longrightarrow> (\<And>e s. E e s \<Longrightarrow> E' e s) \<Longrightarrow> phoare P' m Q' E'"
  by (fastforce simp: phoare_def split: sum.splits)

lemma phoare_pre: "phoare P m Q E \<Longrightarrow> (\<And>s. P' s \<Longrightarrow> P s) \<Longrightarrow> phoare P' m Q E"
  by (rule phoare_weaken)

lemma phoare_bind: "phoare P m R E \<Longrightarrow> (\<And>a. phoare (R a) (k a) Q E) \<Longrightarrow> phoare P (pa_bind m k) Q E"
  by (fastforce simp: phoare_def pa_bind_def split: option.splits prod.splits sum.splits)

lemma phoare_then: "phoare P m (\<lambda>_. R) E \<Longrightarrow> phoare R k Q E \<Longrightarrow> phoare P (pa_then m k) Q E"
  unfolding pa_then_def by (rule phoare_bind)

lemma phoare_with: "(\<And>s. P s \<Longrightarrow> phoare (\<lambda>s'. s' = s) (f s) Q E) \<Longrightarrow> phoare P (pa_with f) Q E"
  by (auto simp: phoare_def pa_with_def)

lemma phoare_return: "(\<And>s. P s \<Longrightarrow> Q a s) \<Longrightarrow> phoare P (pa_return a) Q E"
  by (simp add: phoare_def pa_return_def pa_lift_def act_return_def)

lemma phoare_fail: "(\<And>s. P s \<Longrightarrow> E e s) \<Longrightarrow> phoare P (pa_fail e) Q E"
  by (simp add: phoare_def pa_fail_def pa_lift_def act_fail_def)

lemma phoare_attempt: "phoare P m (\<lambda>a. Q (Ok a)) (\<lambda>e. Q (Err e)) \<Longrightarrow> phoare P (pa_attempt m) Q E"
  by (clarsimp simp: phoare_def pa_attempt_def; rename_tac s s' r1; case_tac r1; fastforce)

lemma phoare_ignore: "phoare P m (\<lambda>_. Q ()) (\<lambda>_. Q ()) \<Longrightarrow> phoare P (pa_ignore m) Q E"
  by (fastforce simp: phoare_def pa_ignore_def split: sum.splits)

lemma phoare_lift: "(\<And>s. P s \<Longrightarrow> case snd (m s) of Inr a \<Rightarrow> Q a (fst (m s)) | Inl e \<Rightarrow> E e (fst (m s))) \<Longrightarrow> phoare P (pa_lift m) Q E"
  unfolding phoare_def pa_lift_def by (metis fst_conv option.inject snd_conv)

lemma pkeeps_lift: "keeps I m \<Longrightarrow> pkeeps I (pa_lift m)"
  by (rule phoare_lift) (simp add: hoare_def split: sum.split)

lemma pkeeps_bind [ptriples]: "pkeeps I m \<Longrightarrow> (\<And>a. pkeeps I (k a)) \<Longrightarrow> pkeeps I (pa_bind m k)"
  by (rule phoare_bind)

lemma pkeeps_then [ptriples]: "pkeeps I m \<Longrightarrow> pkeeps I k \<Longrightarrow> pkeeps I (pa_then m k)"
  by (rule phoare_then)

lemma pkeeps_with [ptriples]: "(\<And>s. pkeeps I (f s)) \<Longrightarrow> pkeeps I (pa_with f)"
  by (rule phoare_with) (auto intro: phoare_pre)

lemma pkeeps_simple [ptriples]: "pkeeps I (pa_return a)" "pkeeps I (pa_fail e)"
  by (rule phoare_return, simp, rule phoare_fail, simp)

lemma pkeeps_attempt [ptriples]: "pkeeps I m \<Longrightarrow> pkeeps I (pa_attempt m)"
  by (rule phoare_attempt)

lemma pkeeps_ignore [ptriples]: "pkeeps I m \<Longrightarrow> pkeeps I (pa_ignore m)"
  by (rule phoare_ignore)

lemma pkeeps_if [ptriples]: "pkeeps I m \<Longrightarrow> pkeeps I n \<Longrightarrow> pkeeps I (if b then m else n)"
  by simp

lemma pkeeps_option [ptriples]: "pkeeps I m \<Longrightarrow> (\<And>a. pkeeps I (f a)) \<Longrightarrow> pkeeps I (case x of None \<Rightarrow> m | Some a \<Rightarrow> f a)"
  by (simp split: option.split)

lemma pkeeps_sum [ptriples]: "(\<And>e. pkeeps I (f e)) \<Longrightarrow> (\<And>a. pkeeps I (g a)) \<Longrightarrow> pkeeps I (case x of Inl e \<Rightarrow> f e | Inr a \<Rightarrow> g a)"
  by (simp split: sum.split)

subsection \<open>Returning\<close>

definition returns :: "('s \<Rightarrow> bool) \<Rightarrow> ('s, 'a, 'e) paction \<Rightarrow> bool" where
  "returns I m \<longleftrightarrow> (\<forall>s. I s \<longrightarrow> (\<exists>s' r. m s = Some (s', r) \<and> I s'))"

named_theorems returning

lemma returns_lift [returning]: "keeps I m \<Longrightarrow> returns I (pa_lift m)"
  by (auto simp: returns_def pa_lift_def hoare_def prod_eq_iff)

lemma returns_bind [returning]: "returns I m \<Longrightarrow> (\<And>a. returns I (k a)) \<Longrightarrow> returns I (pa_bind m k)"
  unfolding returns_def pa_bind_def by (fastforce split: option.split sum.split)

lemma returns_then [returning]: "returns I m \<Longrightarrow> returns I k \<Longrightarrow> returns I (pa_then m k)"
  unfolding pa_then_def by (rule returns_bind)

lemma returns_with [returning]: "(\<And>s. I s \<Longrightarrow> returns I (f s)) \<Longrightarrow> returns I (pa_with f)"
  by (simp add: returns_def pa_with_def)

lemma returns_attempts [returning]: "returns I m \<Longrightarrow> returns I (pa_attempt m)" "returns I m \<Longrightarrow> returns I (pa_ignore m)"
  unfolding returns_def pa_attempt_def pa_ignore_def by (metis (no_types, lifting) case_prod_conv option.simps(9))+

lemma returns_simple [returning]: "returns I (pa_return a)" "returns I (pa_fail e)"
  by (simp_all add: returns_def pa_return_def pa_fail_def pa_lift_def act_return_def act_fail_def)

lemma returns_cases [returning]: "returns I m \<Longrightarrow> returns I n \<Longrightarrow> returns I (if b then m else n)"
  "returns I m \<Longrightarrow> (\<And>a. returns I (f a)) \<Longrightarrow> returns I (case x of None \<Rightarrow> m | Some a \<Rightarrow> f a)"
  "(\<And>e. returns I (g e)) \<Longrightarrow> (\<And>a. returns I (h a)) \<Longrightarrow> returns I (case y of Inl e \<Rightarrow> g e | Inr a \<Rightarrow> h a)"
  by (simp_all split: option.split sum.split)

subsection \<open>Steps that cannot fail\<close>

definition sure :: "('s, 'a, 'e) action \<Rightarrow> bool" where
  "sure m \<longleftrightarrow> (\<forall>s. is_ok (snd (m s)))"

lemma sure_combine:
  "sure (act_return a)" "sure (act_modify f)" "sure (act_attempt m)" "sure (act_ignore m)"
  "sure k \<Longrightarrow> sure l \<Longrightarrow> sure (if c then k else l)"
  by (simp_all add: sure_def act_return_def act_modify_def act_attempt_def act_ignore_def Let_def prod.case_eq_if)

lemma sure_bind: "sure m \<Longrightarrow> (\<And>a. sure (k a)) \<Longrightarrow> sure (act_bind m k)"
  unfolding sure_def act_bind_def is_ok_def prod.case_eq_if by (auto split: sum.splits) (metis sum.case(1))

lemma sure_then: "sure m \<Longrightarrow> sure k \<Longrightarrow> sure (act_then m k)"
  unfolding act_then_def by (rule sure_bind)

lemma sure_with: "(\<And>s. sure (f s)) \<Longrightarrow> sure (act_with f)"
  by (simp add: sure_def act_with_def)

lemma sure_cases:
  "sure m \<Longrightarrow> (\<And>a. sure (f a)) \<Longrightarrow> sure (case x of None \<Rightarrow> m | Some a \<Rightarrow> f a)"
  "(\<And>e. sure (g e)) \<Longrightarrow> (\<And>a. sure (f a)) \<Longrightarrow> sure (case y of Inl e \<Rightarrow> g e | Inr a \<Rightarrow> f a)"
  "(\<And>a b. sure (h a b)) \<Longrightarrow> sure (case z of (a, b) \<Rightarrow> h a b)"
  by (simp_all split: option.split sum.split prod.split)

lemma phoare_sure:
  assumes "sure m" and "hoare (\<lambda>_. True) P m Q"
  shows "phoare P (pa_lift m) Q E"
  by (rule phoare_lift) (use assms in \<open>auto simp: sure_def hoare_def is_ok_def split: sum.splits\<close>)

subsection \<open>Lifted compositions\<close>

lemma lift_act: "pa_lift (act_bind m k) = pa_bind (pa_lift m) (\<lambda>a. pa_lift (k a))" "pa_lift (act_then m n) = pa_then (pa_lift m) (pa_lift n)"
  "pa_lift (act_return a) = pa_return a" "pa_lift (act_fail e) = pa_fail e"
  by (rule ext, simp add: pa_defs act_bind_def act_then_def prod.case_eq_if split: sum.split)+

lemma lift_split: "pa_lift (case r of Inl e \<Rightarrow> f e | Inr a \<Rightarrow> g a) = (case r of Inl e \<Rightarrow> pa_lift (f e) | Inr a \<Rightarrow> pa_lift (g a))"
  "pa_lift (case x of (a, b) \<Rightarrow> h a b) = (case x of (a, b) \<Rightarrow> pa_lift (h a b))"
  "pa_lift (if c then m else n) = (if c then pa_lift m else pa_lift n)"
  by (simp_all split: sum.split prod.split)

end
