(* ===== verification/Run_Transaction.thy ===== *)
theory Run_Transaction
  imports Park_Laws Partial_Actions
begin

section \<open>The end of a run (run/transaction.rs, run/artifact_lifecycle.rs)\<close>

text \<open>
  What happens around the turn loop: what a resumed run can finish from without another turn, and, when
  the loop is done, the children of the run, the completion of its governed operation, the artifacts, the
  workspace, the final event and the hooks. Waiting for children may not end, so this part of the
  transaction is a partial action. \<open>cl_log\<close> logs the effects outside the run state, newest first. Copying
  artifacts, removing directories, hooks and the export of spans are functions of the environment.
\<close>

subsection \<open>Environment and state\<close>

record run_outcome =
  ro_success :: bool
  ro_summary :: string
  ro_turns :: nat
  ro_termination :: string
  ro_workspace :: string

datatype workspace_cleanup = WC_None | WC_RemoveDir | WC_RemoveGitWorktree string string

record materialized_workspace =
  mw_path :: string
  mw_adapter :: string
  mw_cleanup :: workspace_cleanup

text \<open>What the children of a run change while it waits for them: the world, the registry, the disk. \<open>te_join\<close> and
  \<open>te_wait\<close> also tell how often the interval of the bounds fired meanwhile.\<close>

type_synonym 'h outside = "'h \<times> registry \<times> disk"

record ('h, 'g) txn_env =
  te_engine :: "('h, 'g) engine_env"
  te_workspace :: materialized_workspace
  te_prompt_id :: string
  te_restore_cursor :: "nat \<Rightarrow> 'h \<Rightarrow> 'h \<times> (unit, run_error) result"
  te_complete :: "nat \<Rightarrow> run_outcome \<Rightarrow> 'g \<Rightarrow> 'g \<times> (unit, governance_error) result"
  te_kill_jobs :: "nat \<Rightarrow> 'h \<Rightarrow> 'h"
  te_capture :: "nat \<Rightarrow> string \<Rightarrow> string \<Rightarrow> 'h \<Rightarrow> 'h \<times> (string, string) result"
  te_remove_dir :: "string \<Rightarrow> 'h \<Rightarrow> 'h"
  te_remove_worktree :: "string \<Rightarrow> string \<Rightarrow> string \<Rightarrow> 'h \<Rightarrow> 'h"
  te_join :: "nat \<Rightarrow> 'h outside \<Rightarrow> 'h outside \<times> nat"
  te_watch_idle :: "nat \<Rightarrow> string \<Rightarrow> (bool, registry_error) result"
  te_wait :: "nat \<Rightarrow> string list \<Rightarrow> 'h outside \<Rightarrow> 'h outside \<times> nat"
  te_export_spans :: "nat \<Rightarrow> bool \<Rightarrow> 'h \<Rightarrow> 'h \<times> string option"
  te_post_run :: "nat \<Rightarrow> string \<Rightarrow> bool \<Rightarrow> string \<Rightarrow> string \<Rightarrow> 'h \<Rightarrow> 'h"

text \<open>The log: the governed operation completed, artifacts captured, the workspace removed (of a nested
  worktree or not).\<close>

datatype run_event = RV_Completed run_outcome | RV_Captured | RV_Cleaned bool

record ('h, 'g) closing =
  cl_batch :: "('h, 'g) batch"
  cl_log :: "run_event list"

type_synonym ('h, 'g, 'a) closing_step = "(('h, 'g) closing, 'a, run_error) action"
type_synonym ('h, 'g, 'a) txn = "(('h, 'g) closing, 'a, run_error) paction"

abbreviation (input) te_batch :: "('h, 'g) txn_env \<Rightarrow> ('h, 'g) batch_env" where
  "te_batch en \<equiv> ee_batch (te_engine en)"

definition in_batch :: "('h, 'g, 'a) step \<Rightarrow> ('h, 'g, 'a) closing_step" where
  "in_batch m = (\<lambda>s. let (b, r) = m (cl_batch s) in (s\<lparr>cl_batch := b\<rparr>, r))"

definition in_batch_p :: "(('h, 'g) batch, 'a, run_error) paction \<Rightarrow> ('h, 'g, 'a) txn" where
  "in_batch_p m = (\<lambda>s. map_option (\<lambda>(b, r). (s\<lparr>cl_batch := b\<rparr>, r)) (m (cl_batch s)))"

definition log_run :: "run_event \<Rightarrow> ('h, 'g, unit) closing_step" where
  "log_run e = act_modify (\<lambda>s. s\<lparr>cl_log := e # cl_log s\<rparr>)"

definition on_host :: "(nat \<Rightarrow> 'h \<Rightarrow> 'h) \<Rightarrow> ('h, 'g, unit) step" where
  "on_host f = act_modify (\<lambda>b. (tick b)\<lparr>ba_host := f (ba_clock b) (ba_host b)\<rparr>)"

subsection \<open>Children\<close>

definition cancel_child :: "('h, 'g) batch_env \<Rightarrow> string \<Rightarrow> ('h, 'g, unit) step" where
  "cancel_child en c = act_modify (\<lambda>b. (tick b)\<lparr>ba_reg := fst (request_cancel (reg_at en (ba_clock b)) (ba_reg b) c)\<rparr>)"

definition while_waiting :: "('h outside \<Rightarrow> 'h outside \<times> nat) \<Rightarrow> ('h, 'g, nat) step" where
  "while_waiting f = (\<lambda>b. case f (ba_host b, ba_reg b, ba_disk b) of
     ((h, r, d), polls) \<Rightarrow> ((tick b)\<lparr>ba_host := h, ba_reg := r, ba_disk := d\<rparr>, Ok polls))"

definition child_ids :: "('h, 'g) batch \<Rightarrow> string list" where
  "child_ids b = map cr_run_id (sn_children (ba_session b))"

definition request_cancels :: "('h, 'g) batch_env \<Rightarrow> ('h, 'g, unit) step" where
  "request_cancels en = act_with (\<lambda>b. act_each (cancel_child en) (child_ids b))"

text \<open>The first bound that fails cancels the children and is the error of the wait.\<close>

definition note_nested_bounds :: "('h, 'g) batch_env \<Rightarrow> run_error option \<Rightarrow> ('h, 'g, run_error option) step" where
  "note_nested_bounds en err = (case err of
     Some e \<Rightarrow> act_return (Some e)
   | None \<Rightarrow> act_bind (act_attempt (bounds en)) (\<lambda>r. case r of
       Inr _ \<Rightarrow> act_return None
     | Inl e \<Rightarrow> act_then (request_cancels en) (act_return (Some e))))"

fun note_times :: "('h, 'g) batch_env \<Rightarrow> nat \<Rightarrow> run_error option \<Rightarrow> ('h, 'g, run_error option) step" where
  "note_times en 0 err = act_return err"
| "note_times en (Suc n) err = act_bind (note_nested_bounds en err) (note_times en n)"

definition child_active :: "('h, 'g) batch_env \<Rightarrow> string \<Rightarrow> ('h, 'g, bool) step" where
  "child_active en c = (\<lambda>b. (tick b, Ok (run_is_active (reg_at en (ba_clock b)) (be_now en (ba_clock b)) (ba_reg b) c = Ok True)))"

definition watch_child :: "('h, 'g) txn_env \<Rightarrow> string \<Rightarrow> ('h, 'g, bool) step" where
  "watch_child en c = (\<lambda>b. (tick b, map_err (\<lambda>e. RE_Message (''nested child idle watch: '' @ be_show_reg (te_batch en) e))
     (te_watch_idle en (ba_clock b) c)))"

fun active_children :: "('h, 'g) txn_env \<Rightarrow> string list \<Rightarrow> string list \<Rightarrow> string list \<Rightarrow> ('h, 'g, string list \<times> string list) step" where
  "active_children en [] cancelled waiting = act_return (cancelled, waiting)"
| "active_children en (c # cs) cancelled waiting = act_bind (child_active (te_batch en) c) (\<lambda>active.
     if \<not> active then active_children en cs cancelled waiting
     else act_bind (watch_child en c) (\<lambda>idle.
       act_then (if c \<in> set cancelled then act_return () else cancel_child (te_batch en) c)
         (act_bind (if idle then child_active (te_batch en) c else act_return True) (\<lambda>still.
           active_children en cs (c # cancelled) (if still then waiting @ [c] else waiting)))))"

definition wait_round :: "('h, 'g) txn_env \<Rightarrow> run_error option \<Rightarrow> string list \<Rightarrow> ('h, 'g, run_error option \<times> string list \<times> string list) step" where
  "wait_round en err cancelled = act_bind (note_nested_bounds (te_batch en) err) (\<lambda>err1.
     act_with (\<lambda>b. act_bind (active_children en (child_ids b) cancelled []) (\<lambda>(cancelled1, waiting). act_return (err1, cancelled1, waiting))))"

definition wait_progress :: "('h, 'g) txn_env \<Rightarrow> run_error option \<Rightarrow> string list \<Rightarrow> ('h, 'g, run_error option) step" where
  "wait_progress en err waiting = act_with (\<lambda>b.
     act_bind (while_waiting (te_wait en (ba_clock b) waiting)) (\<lambda>polls. note_times (te_batch en) (Suc polls) err))"

partial_function (option) wait_children :: "('h, 'g) txn_env \<Rightarrow> run_error option \<Rightarrow> string list \<Rightarrow> ('h, 'g) batch \<Rightarrow>
    (('h, 'g) batch \<times> (run_error option, run_error) result) option" where
  "wait_children en err cancelled b = (case wait_round en err cancelled b of
     (b1, Inl e) \<Rightarrow> Some (b1, Err e)
   | (b1, Inr (err1, cancelled1, waiting)) \<Rightarrow>
       if waiting = [] then Some (b1, Ok err1)
       else (case wait_progress en err1 waiting b1 of
         (b2, Inl e) \<Rightarrow> Some (b2, Err e)
       | (b2, Inr err2) \<Rightarrow> wait_children en err2 cancelled1 b2))"

definition join_background :: "('h, 'g) txn_env \<Rightarrow> ('h, 'g, run_error option) step" where
  "join_background en = act_with (\<lambda>b.
     act_bind (while_waiting (te_join en (ba_clock b))) (\<lambda>polls. note_times (te_batch en) polls None))"

definition finish_nested_children :: "('h, 'g) txn_env \<Rightarrow> bool \<Rightarrow> bool \<Rightarrow> (('h, 'g) batch, unit, run_error) paction" where
  "finish_nested_children en join cancel = pa_then (pa_lift (if cancel then request_cancels (te_batch en) else act_return ()))
     (if \<not> join then pa_return ()
      else pa_bind (pa_lift (join_background en)) (\<lambda>err. pa_bind (wait_children en err []) (\<lambda>err1. case err1 of
        None \<Rightarrow> pa_return () | Some e \<Rightarrow> pa_fail e)))"

subsection \<open>Artifacts, workspace, completion\<close>

definition warn :: "('h, 'g) batch_env \<Rightarrow> string \<Rightarrow> ('h, 'g, unit) step" where
  "warn en detail = emit en (HE_Message ''warn'' detail)"

definition link_artifacts :: "('h, 'g) batch_env \<Rightarrow> string \<Rightarrow> ('h, 'g, unit) step" where
  "link_artifacts en path = act_with (\<lambda>b.
     let (r, res) = set_artifact_dir (reg_at en (ba_clock b)) (ba_reg b) (b_run_id b) path
     in act_then (act_modify (\<lambda>b. (tick b)\<lparr>ba_reg := r\<rparr>)) (case res of
       Inr _ \<Rightarrow> act_return () | Inl e \<Rightarrow> warn en (''artifact registry linkage failed: '' @ be_show_reg en e)))"

definition capture_artifacts :: "('h, 'g) txn_env \<Rightarrow> ('h, 'g, string option) step" where
  "capture_artifacts en = act_with (\<lambda>b.
     let (h, r) = te_capture en (ba_clock b) (b_run_id b) (mw_path (te_workspace en)) (ba_host b)
     in act_then (act_modify (\<lambda>b. (tick b)\<lparr>ba_host := h\<rparr>)) (case r of
       Inr path \<Rightarrow> act_then (link_artifacts (te_batch en) path) (act_return (Some path))
     | Inl e \<Rightarrow> act_then (warn (te_batch en) (''artifact capture failed: '' @ e)) (act_return None)))"

definition kill_jobs :: "('h, 'g) txn_env \<Rightarrow> ('h, 'g, unit) closing_step" where
  "kill_jobs en = in_batch (on_host (te_kill_jobs en))"

definition finalize :: "('h, 'g) txn_env \<Rightarrow> ('h, 'g, string option) closing_step" where
  "finalize en = act_then (kill_jobs en) (act_then (log_run RV_Captured) (in_batch (capture_artifacts en)))"

definition apply_cleanup :: "('h, 'g) txn_env \<Rightarrow> ('h, 'g, unit) step" where
  "apply_cleanup en = act_modify (\<lambda>b. let ws = te_workspace en in case mw_cleanup ws of
     WC_None \<Rightarrow> b
   | WC_RemoveDir \<Rightarrow> b\<lparr>ba_host := te_remove_dir en (mw_path ws) (ba_host b)\<rparr>
   | WC_RemoveGitWorktree repo branch \<Rightarrow> b\<lparr>ba_host := te_remove_worktree en repo branch (mw_path ws) (ba_host b)\<rparr>)"

text \<open>A child that shares the workspace and is parked or active keeps it.\<close>

definition shared_child_open :: "('h, 'g) batch_env \<Rightarrow> ('h, 'g) batch \<Rightarrow> bool" where
  "shared_child_open en b \<longleftrightarrow> list_ex (\<lambda>c.
     case checkpoint_load (sv_codec (be_save en)) (sv_checkpoint (be_save en)) (sv_root (be_save en)) (ba_disk b) c of
       Inl _ \<Rightarrow> False
     | Inr cp \<Rightarrow> cp_workspace cp = sn_workspace (ba_session b) \<and>
         (cp_park cp \<noteq> None \<or> run_is_active (reg_at en (ba_clock b)) (be_now en (ba_clock b)) (ba_reg b) c = Ok True)) (child_ids b)"

definition nested_worktree :: "('h, 'g) txn_env \<Rightarrow> ('h, 'g) batch \<Rightarrow> bool" where
  "nested_worktree en b \<longleftrightarrow> mw_adapter (te_workspace en) = ''git-worktree'' \<and> sn_parent_run_id (ba_session b) \<noteq> []"

definition keeps_workspace :: "('h, 'g) txn_env \<Rightarrow> ('h, 'g) batch \<Rightarrow> bool \<Rightarrow> bool" where
  "keeps_workspace en b success = (if nested_worktree en b then rq_keep_workspace (be_request (te_batch en))
     else if success then sn_keep_workspace (ba_session b) else True)"

definition cleanup_workspace :: "('h, 'g) txn_env \<Rightarrow> bool \<Rightarrow> bool \<Rightarrow> ('h, 'g, unit) closing_step" where
  "cleanup_workspace en success parked = act_with (\<lambda>s. let b = cl_batch s in
     if parked then act_return ()
     else if keeps_workspace en b success then act_return ()
     else if \<not> nested_worktree en b \<and> shared_child_open (te_batch en) b then act_then (in_batch (act_modify tick)) (act_return ())
     else act_then (log_run (RV_Cleaned (nested_worktree en b))) (in_batch (apply_cleanup en)))"

definition export_spans :: "('h, 'g) txn_env \<Rightarrow> bool \<Rightarrow> ('h, 'g, unit) closing_step" where
  "export_spans en success = in_batch (act_with (\<lambda>b.
     let (h, err) = te_export_spans en (ba_clock b) success (ba_host b)
     in act_then (act_modify (\<lambda>b. (tick b)\<lparr>ba_host := h\<rparr>)) (case err of
       None \<Rightarrow> act_return () | Some e \<Rightarrow> warn (te_batch en) (''span export failed: '' @ e))))"

definition projected_summary :: "('h, 'g) txn_env \<Rightarrow> ('h, 'g) batch \<Rightarrow> string \<Rightarrow> string" where
  "projected_summary en b summary = project_bounded_text (sv_content (be_save (te_batch en))) (is_content b) ''bounded_content_result'' summary"

definition run_finished :: "('h, 'g) txn_env \<Rightarrow> bool \<Rightarrow> string \<Rightarrow> ('h, 'g, unit) closing_step" where
  "run_finished en success summary = in_batch (act_with (\<lambda>b.
     emit (te_batch en) (HE_RunFinished (b_run_id b) success (projected_summary en b summary))))"

definition complete_run :: "('h, 'g) txn_env \<Rightarrow> bool \<Rightarrow> string \<Rightarrow> string \<Rightarrow> ('h, 'g, (unit, run_error) result) closing_step" where
  "complete_run en success summary termination_kind = act_with (\<lambda>s. let b = cl_batch s;
       outcome = \<lparr>ro_success = success, ro_summary = projected_summary en b summary, ro_turns = b_turns b,
         ro_termination = termination_kind, ro_workspace = mw_path (te_workspace en)\<rparr>
     in act_then (log_run (RV_Completed outcome))
       (act_attempt (in_batch (act_then (act_modify tick) (gov_call (te_complete en (ba_clock b) outcome))))))"

definition save_pending :: "('h, 'g) txn_env \<Rightarrow> ('h, 'g, unit) closing_step" where
  "save_pending en = in_batch (act_with (\<lambda>b. act_ignore (save_session (te_batch en) True (ba_pending b))))"

definition save_unparked :: "('h, 'g) txn_env \<Rightarrow> ('h, 'g, unit) closing_step" where
  "save_unparked en = in_batch (act_ignore (save_session (te_batch en) True None))"

definition children_p :: "('h, 'g) txn_env \<Rightarrow> bool \<Rightarrow> ('h, 'g, unit) txn" where
  "children_p en cancel = in_batch_p (finish_nested_children en True cancel)"

subsection \<open>A run that failed\<close>

definition conclude_error :: "('h, 'g) txn_env \<Rightarrow> run_error \<Rightarrow> ('h, 'g, 'a) txn" where
  "conclude_error en e = pa_then (pa_ignore (children_p en True)) (pa_then (pa_lift (act_then (kill_jobs en) (act_then (save_pending en)
     (act_then (if leaves_governance_open e then act_return ()
         else act_then (complete_run en False (be_show_run (te_batch en) e) (termination_text (error_termination e))) (save_pending en))
       (act_then (run_finished en False (be_show_run (te_batch en) e)) (act_then (finalize en)
         (act_then (act_with (\<lambda>s. cleanup_workspace en False (keeps_parked_workspace (gp_checkpoint (be_port (te_batch en)) (ba_gov (cl_batch s)))
             (ba_session (cl_batch s)) (ba_pending (cl_batch s) \<noteq> None))))
           (export_spans en False)))))))) (pa_fail e))"

subsection \<open>A run that ended\<close>

text \<open>The ways a run that reached its end can still fail: its children, its completion, its saves.\<close>

definition children_failed :: "('h, 'g) txn_env \<Rightarrow> run_error \<Rightarrow> ('h, 'g, 'a) txn" where
  "children_failed en e = pa_then (pa_lift (act_then (kill_jobs en) (act_then (save_unparked en)
     (act_then (run_finished en False (be_show_run (te_batch en) e)) (act_then (finalize en)
       (act_then (cleanup_workspace en False False) (export_spans en False))))))) (pa_fail e)"

definition not_settled :: "('h, 'g) txn_env \<Rightarrow> run_error \<Rightarrow> ('h, 'g, 'a) txn" where
  "not_settled en e = pa_then (pa_lift (act_then (finalize en) (export_spans en False))) (pa_then (pa_ignore (children_p en False))
     (pa_then (pa_lift (cleanup_workspace en False False)) (pa_fail e)))"

definition not_finalized :: "('h, 'g) txn_env \<Rightarrow> bool \<Rightarrow> run_error \<Rightarrow> ('h, 'g, 'a) txn" where
  "not_finalized en success e = pa_then (pa_lift (export_spans en success)) (pa_then (pa_ignore (children_p en False))
     (pa_then (pa_lift (cleanup_workspace en False False)) (pa_fail e)))"

definition update_session :: "(run_session \<Rightarrow> run_session) \<Rightarrow> ('h, 'g, unit) closing_step" where
  "update_session f = in_batch (on_session f)"

definition or_else :: "('h, 'g, 'a) closing_step \<Rightarrow> (run_error \<Rightarrow> ('h, 'g, 'a) txn) \<Rightarrow> ('h, 'g, 'a) txn" where
  "or_else m h = pa_bind (pa_attempt (pa_lift m)) (\<lambda>r. case r of Inl e \<Rightarrow> h e | Inr a \<Rightarrow> pa_return a)"

definition run_cost :: "('h, 'g) txn_env \<Rightarrow> token_usage \<Rightarrow> cost_estimate option" where
  "run_cost en usage = cost_from_usage usage (mo_input_rate (cf_model (be_cfg (te_batch en))))
     (mo_output_rate (cf_model (be_cfg (te_batch en))))"

definition content_terminal_saved :: "('h, 'g) txn_env \<Rightarrow> token_usage \<Rightarrow> loop_end \<Rightarrow> ('h, 'g, unit) closing_step" where
  "content_terminal_saved en usage e = in_batch (act_with (\<lambda>b. if is_content b \<and> le_termination e \<noteq> RT_Parked
     then act_bind (act_result (mark_content_terminal (sv_content (be_save (te_batch en))) (le_success e) (le_termination e)
         (le_summary e) usage (ba_session b))) (\<lambda>x. act_then (on_session (\<lambda>_. x)) (save (te_batch en)))
     else act_return ()))"

text \<open>A run that is not parked: its children, then its completion, then the terminal state of a replay.\<close>

definition settle_run_end :: "('h, 'g) txn_env \<Rightarrow> token_usage \<Rightarrow> loop_end \<Rightarrow> ('h, 'g, unit) txn" where
  "settle_run_end en usage e =
     pa_bind (pa_attempt (pa_lift (in_batch (bounds (te_batch en))))) (\<lambda>over.
       pa_bind (pa_attempt (children_p en (\<not> is_ok over))) (\<lambda>waited. case waited of
         Inl err \<Rightarrow> children_failed en err
       | Inr _ \<Rightarrow> pa_bind (pa_lift (complete_run en (le_success e) (le_summary e) (termination_text (le_termination e)))) (\<lambda>completed.
           case completed of
             Inl err \<Rightarrow> pa_then (pa_lift (save_unparked en)) (not_settled en err)
           | Inr _ \<Rightarrow> pa_then (pa_lift (update_session (mark_replay_terminal \<lparr>rt_success = le_success e, rt_termination = le_termination e,
                 rt_summary = le_summary e, rt_prompt_id = te_prompt_id en, rt_usage = usage, rt_cost = run_cost en usage,
                 rt_finalized = False, rt_artifact_dir = None\<rparr>)))
               (or_else (in_batch (save (te_batch en))) (not_settled en)))))"

definition finalized_saved :: "('h, 'g) txn_env \<Rightarrow> string option \<Rightarrow> ('h, 'g, unit) closing_step" where
  "finalized_saved en dir = act_then (update_session (mark_replay_finalized dir)) (act_then (update_session (mark_content_finalized dir))
     (in_batch (save (te_batch en))))"

definition post_run :: "('h, 'g) txn_env \<Rightarrow> loop_end \<Rightarrow> ('h, 'g, unit) closing_step" where
  "post_run en e = in_batch (act_with (\<lambda>b. on_host (\<lambda>n. te_post_run en n (b_run_id b) (le_success e)
     (termination_text (le_termination e)) (projected_summary en b (le_summary e)))))"

definition result_of :: "('h, 'g) txn_env \<Rightarrow> token_usage \<Rightarrow> loop_end \<Rightarrow> string option \<Rightarrow> ('h, 'g) batch \<Rightarrow> run_result" where
  "result_of en usage e dir b = \<lparr>rr_run_id = b_run_id b, rr_success = le_success e, rr_summary = le_summary e, rr_turns = b_turns b,
     rr_workspace = mw_path (te_workspace en), rr_artifact_dir = dir, rr_termination = le_termination e, rr_park = le_park e,
     rr_prompt_id = te_prompt_id en, rr_usage = usage, rr_cost = run_cost en usage, rr_todos = be_todos (te_batch en) (ba_host b)\<rparr>"

definition conclude_end :: "('h, 'g) txn_env \<Rightarrow> token_usage \<Rightarrow> loop_end \<Rightarrow> ('h, 'g, run_result) txn" where
  "conclude_end en usage e = pa_then (pa_lift (content_terminal_saved en usage e))
     (pa_then (if le_termination e = RT_Parked
         then (if rq_session_wait (be_request (te_batch en)) then pa_return () else pa_ignore (children_p en True))
         else settle_run_end en usage e)
       (pa_bind (pa_lift (finalize en)) (\<lambda>dir.
         pa_then (pa_lift (act_then (cleanup_workspace en (le_success e) (le_termination e = RT_Parked)) (run_finished en (le_success e) (le_summary e))))
           (pa_then (if le_termination e = RT_Parked then pa_return () else or_else (finalized_saved en dir) (not_finalized en (le_success e)))
             (pa_then (pa_lift (act_then (post_run en e) (export_spans en (le_success e))))
               (pa_with (\<lambda>s. pa_return (result_of en usage e dir (cl_batch s)))))))))"

subsection \<open>The transaction\<close>

definition run_timeout :: "config \<Rightarrow> run_request \<Rightarrow> nat option" where
  "run_timeout cfg q = (case rq_timeout q of Some t \<Rightarrow> Some t | None \<Rightarrow> map_option (\<lambda>secs. secs * 1000) (rs_timeout_secs (cf_run cfg)))"

definition check_finder_timeout :: "config \<Rightarrow> run_request \<Rightarrow> (unit, run_error) result" where
  "check_finder_timeout cfg q = (case (if cf_profile cfg = ''security-finder'' then Option.bind (cf_finder_role cfg) finder_role_of else None, rq_timeout q) of
     (Some role, Some requested) \<Rightarrow> if requested > fo_timeout_secs role * 1000
       then Err (RE_Message (''profile `security-finder`: request timeout '' @ dec_string (requested div 1000) @ ''s exceeds role `'' @
         fo_name role @ ''` budget '' @ dec_string (fo_timeout_secs role) @ ''s'')) else Ok ()
   | _ \<Rightarrow> Ok ())"

definition recovered_summary :: "report_env \<Rightarrow> string option \<Rightarrow> bool \<Rightarrow> bool \<Rightarrow> string \<Rightarrow> (string, string) result" where
  "recovered_summary en finder_role triage success summary =
     (if triage then (if success then re_triage en summary else Ok summary)
      else case finder_role of
        Some role \<Rightarrow> if success then re_finder en summary role else Ok summary
      | None \<Rightarrow> Ok summary)"

text \<open>What the run ends with: its recovered content terminal, its recovered report, a rejected plan, or the loop.\<close>

definition run_end :: "('h, 'g) txn_env \<Rightarrow> loop_end option \<Rightarrow> ('h, 'g) model_turns \<Rightarrow>
    (('h, 'g) model_turns \<times> (loop_end, run_error) result) option" where
  "run_end en recovered s = (let b = te_batch en; cfg = be_cfg b in
     case recovered of
       Some e \<Rightarrow> Some (s, Ok e)
     | None \<Rightarrow> (case recovered_text_report (be_report b) (sn_messages (ba_session (dm_batch s)))
           (finder_role_of_run (cf_profile cfg) (cf_finder_role cfg)) (cf_profile cfg = ''security-triage'') of
         Some (ok, summary) \<Rightarrow> Some (s, Ok \<lparr>le_park = None, le_summary = summary, le_success = ok, le_termination = RT_Completed\<rparr>)
       | None \<Rightarrow> if rq_resume_plan (be_request b) = Some PD_Reject
           then Some (s, Ok \<lparr>le_park = None, le_summary = ''plan rejected'', le_success = False, le_termination = RT_Failed\<rparr>)
           else turn_loop (te_engine en) s))"

definition restore_cursor :: "('h, 'g) txn_env \<Rightarrow> ('h, 'g, unit) step" where
  "restore_cursor en = act_with (\<lambda>b. if rq_resume_run_id (be_request (te_batch en)) = None then act_return ()
     else let (h, r) = te_restore_cursor en (b_turns b) (ba_host b) in act_then (act_modify (\<lambda>b. b\<lparr>ba_host := h\<rparr>)) (act_result r))"

definition recover_terminal :: "('h, 'g) txn_env \<Rightarrow> ('h, 'g, (loop_end \<times> token_usage) option) step" where
  "recover_terminal en = act_with (\<lambda>b. let be = te_batch en; cfg = be_cfg be in
     act_bind (act_result (recover_content_terminal (se_content (be_content be)) (cv_resolve (se_resolver (be_content be)) (ba_host b)) (ba_session b)))
       (\<lambda>found. case found of
         None \<Rightarrow> act_return None
       | Some (z, summary) \<Rightarrow> act_bind (act_result (map_err RE_Message (recovered_summary (be_report be)
             (finder_role_of_run (cf_profile cfg) (cf_finder_role cfg)) (cf_profile cfg = ''security-triage'') (cz_success z) summary)))
           (\<lambda>shown. act_return (Some (\<lparr>le_park = None, le_summary = shown, le_success = cz_success z, le_termination = cz_termination z\<rparr>, cz_usage z)))))"

definition transaction :: "('h, 'g) txn_env \<Rightarrow> ('h, 'g) batch \<Rightarrow> (('h, 'g) closing \<times> (run_result, run_error) result) option" where
  "transaction en b = (case act_then (restore_cursor en) (recover_terminal en) b of
     (b1, Inl e) \<Rightarrow> Some (\<lparr>cl_batch = b1, cl_log = []\<rparr>, Err e)
   | (b1, Inr recovered) \<Rightarrow> (case run_end en (map_option fst recovered) (model_turns_new (te_engine en) b1) of
       None \<Rightarrow> None
     | Some (s, r) \<Rightarrow> let c = \<lparr>cl_batch = dm_batch s, cl_log = []\<rparr>; usage = (case recovered of Some (_, u) \<Rightarrow> u | None \<Rightarrow> dm_usage s) in
         (case r of Inl e \<Rightarrow> conclude_error en e c | Inr e \<Rightarrow> conclude_end en usage e c)))"

end
