(* ===== verification/Child_Laws.thy ===== *)
theory Child_Laws
  imports Run_Transaction
begin

section \<open>A run outlives its children\<close>

text \<open>
  The wait for the children of a run ends only when none of the children its session records is active any
  more: asking them to stop changes nothing of what makes a run active, and waiting is the only step in which
  the registry moves. Without children the wait ends at once.
\<close>

subsection \<open>Steps of the wait\<close>

definition moved :: "('h, 'g) batch \<Rightarrow> ('h, 'g) batch \<Rightarrow> bool" where
  "moved b0 b \<longleftrightarrow> ba_session b = ba_session b0 \<and> ba_clock b0 \<le> ba_clock b"

definition stayed :: "('h, 'g) batch \<Rightarrow> ('h, 'g) batch \<Rightarrow> bool" where
  "stayed b0 b \<longleftrightarrow> moved b0 b \<and> rg_runs (ba_reg b) = rg_runs (ba_reg b0)"

lemma moved_refl [simp]: "moved b b" "stayed b b"
  by (simp_all add: moved_def stayed_def)

lemma moved_trans: "moved a b \<Longrightarrow> moved b c \<Longrightarrow> moved a c" "stayed a b \<Longrightarrow> stayed b c \<Longrightarrow> stayed a c"
  by (auto simp: moved_def stayed_def)

lemma stayed_moved: "stayed a b \<Longrightarrow> moved a b"
  by (simp add: stayed_def)

lemma request_cancel_runs: "rg_runs (fst (request_cancel en r c)) = rg_runs r"
  by (simp add: request_cancel_def write_cancel_marker_def split: sum.split registry_error.split)

lemma active_runs:
  assumes "rg_runs r = rg_runs r'"
  shows "run_is_active en now r c = Ok True \<longleftrightarrow> run_is_active en now r' c = Ok True"
  using assms
  by (auto simp: run_is_active_def load_unlocked_def files_of_def owner_lease_is_live_def and_then_def split: option.splits sum.splits)

lemma stayed_steps:
  "keeps (stayed b0) (cancel_child en c)" "keeps (stayed b0) (bounds en)" "keeps (stayed b0) (child_active en c)"
  "keeps (stayed b0) (watch_child ten c)"
  by (simp_all add: hoare_def cancel_child_def act_modify_def bounds_def child_active_def watch_child_def stayed_def moved_def tick_def
      request_cancel_runs)

lemma stayed_note: "keeps (stayed b0) (note_nested_bounds en err)" "keeps (stayed b0) (note_times en n err)"
proof -
  show one: "keeps (stayed b0) (note_nested_bounds en err)" for err
    unfolding note_nested_bounds_def request_cancels_def by (intro triples stayed_steps; simp)
  show "keeps (stayed b0) (note_times en n err)"
  proof (induction n arbitrary: err)
    case 0
    show ?case by (simp add: hoare_return)
  next
    case (Suc n)
    then show ?case unfolding note_times.simps by (intro keeps_bind one)
  qed
qed

lemma moved_waiting: "keeps (moved b0) (while_waiting f)"
  by (auto simp: hoare_def while_waiting_def moved_def tick_def split: prod.split)

subsection \<open>Idle children\<close>

text \<open>The child was not active when it was asked, at some moment of the wait.\<close>

definition idle_between :: "('h, 'g) batch_env \<Rightarrow> nat \<Rightarrow> nat \<Rightarrow> registry \<Rightarrow> string \<Rightarrow> bool" where
  "idle_between en lo hi r c \<longleftrightarrow> (\<exists>n. lo \<le> n \<and> n < hi \<and> run_is_active (reg_at en n) (be_now en n) r c \<noteq> Ok True)"

lemma idle_stayed:
  assumes "idle_between en lo hi (ba_reg b) c" and "stayed b b'" and "lo' \<le> lo" "hi \<le> ba_clock b'"
  shows "idle_between en lo' (ba_clock b') (ba_reg b') c"
  using assms active_runs [of "ba_reg b'" "ba_reg b"] unfolding idle_between_def stayed_def by (meson le_trans less_le_trans)

lemma stayedD: "keeps (stayed b) m \<Longrightarrow> m b = (b', r) \<Longrightarrow> stayed b b'"
  by (drule keepsD [where s = b]) simp_all

lemma child_active_idle:
  assumes "child_active en c b = (b', Ok False)"
  shows "idle_between en (ba_clock b) (ba_clock b') (ba_reg b') c"
  using assms by (auto simp: child_active_def idle_between_def tick_def intro!: exI [of _ "ba_clock b"])

lemma active_children_idle:
  assumes "active_children en cs cancelled waiting b = (b', Ok (cancelled', waiting'))"
  shows "stayed b b' \<and> set waiting \<subseteq> set waiting' \<and>
    (\<forall>c \<in> set cs. c \<in> set waiting' \<or> idle_between (te_batch en) (ba_clock b) (ba_clock b') (ba_reg b') c)"
  using assms
proof (induction cs arbitrary: cancelled waiting b)
  case Nil
  then show ?case by (simp add: act_return_def)
next
  case (Cons c cs)
  let ?idle = "\<lambda>b b'. idle_between (te_batch en) (ba_clock b) (ba_clock b') (ba_reg b') c"
  have step: "?case" if "active_children en cs cc ww b1 = (b', Ok (cancelled', waiting'))" "stayed b b1"
      "set waiting \<subseteq> set ww" "c \<in> set ww \<or> ?idle b b1" for cc ww b1
  proof -
    note ih = Cons.IH [OF that(1)]
    have up: "idle_between (te_batch en) (ba_clock b) (ba_clock b') (ba_reg b') x"
      if "idle_between (te_batch en) (ba_clock b1) (ba_clock b') (ba_reg b') x" for x
      using idle_stayed [OF that, of b' "ba_clock b"] \<open>stayed b b1\<close> by (simp add: stayed_def moved_def)
    have "?idle b b'" if "?idle b b1"
      using idle_stayed [OF that, of b' "ba_clock b"] ih by (simp add: stayed_def moved_def)
    with ih that(3,4) have "c \<in> set waiting' \<or> ?idle b b'" "set waiting \<subseteq> set waiting'" by auto
    moreover have "\<forall>x \<in> set cs. x \<in> set waiting' \<or> idle_between (te_batch en) (ba_clock b) (ba_clock b') (ba_reg b') x"
      using ih up by blast
    ultimately show ?case using moved_trans(2) [OF that(2)] ih by simp
  qed
  obtain b1 a where 1: "child_active (te_batch en) c b = (b1, Ok a)" by (simp add: child_active_def)
  have s1: "stayed b b1" by (rule stayedD [OF stayed_steps(3) 1])
  show ?case
  proof (cases a)
    case False
    then show ?thesis using Cons.prems 1 step [OF _ s1] child_active_idle [of "te_batch en" c b b1]
      by (simp add: act_bind_def)
  next
    case True
    then obtain b2 idle where 2: "watch_child en c b1 = (b2, Ok idle)" using Cons.prems 1
      by (auto simp: act_bind_def split: prod.splits sum.splits)
    have s2: "stayed b b2" by (rule moved_trans(2) [OF s1 stayedD [OF stayed_steps(4) 2]])
    let ?cancel = "if c \<in> set cancelled then act_return () else cancel_child (te_batch en) c"
    obtain b3 where 3: "?cancel b2 = (b3, Ok ())" by (cases "c \<in> set cancelled") (simp_all add: act_return_def cancel_child_def act_modify_def)
    have s3: "stayed b b3" by (rule moved_trans(2) [OF s2 stayedD [where m = ?cancel, OF _ 3]]) (intro triples stayed_steps; simp)
    let ?again = "if idle then child_active (te_batch en) c else act_return True"
    obtain b4 still where 4: "?again b3 = (b4, Ok still)" by (cases idle) (simp_all add: child_active_def act_return_def)
    have s4: "stayed b b4" by (rule moved_trans(2) [OF s3 stayedD [where m = ?again, OF _ 4]]) (intro triples stayed_steps; simp)
    have run: "active_children en cs (c # cancelled) (if still then waiting @ [c] else waiting) b4 = (b', Ok (cancelled', waiting'))"
      using Cons.prems 1 2 3 4 True by (simp add: act_bind_def act_then_def)
    have "?idle b b4" if "\<not> still"
    proof -
      have "child_active (te_batch en) c b3 = (b4, Ok False)" using 4 that by (auto simp: act_return_def split: if_splits)
      from idle_stayed [OF child_active_idle [OF this], of b4 "ba_clock b"] s3 show ?thesis by (simp add: stayed_def moved_def)
    qed
    then show ?thesis by (intro step [OF run s4]) auto
  qed
qed

definition all_idle :: "('h, 'g) txn_env \<Rightarrow> ('h, 'g) batch \<Rightarrow> ('h, 'g) batch \<Rightarrow> bool" where
  "all_idle en b b' \<longleftrightarrow> (\<forall>c \<in> set (child_ids b). idle_between (te_batch en) (ba_clock b) (ba_clock b') (ba_reg b') c)"

lemma all_idle_moved: "moved b b1 \<Longrightarrow> all_idle en b1 b' \<Longrightarrow> all_idle en b b'"
  unfolding all_idle_def idle_between_def moved_def child_ids_def by (metis le_trans)

lemma wait_round_idle:
  assumes "wait_round en err cancelled b = (b', Ok (err', cancelled', []))"
  shows "all_idle en b b'"
proof -
  obtain b1 where 1: "note_nested_bounds (te_batch en) err b = (b1, Ok err')" and
    2: "active_children en (child_ids b1) cancelled [] b1 = (b', Ok (cancelled', []))"
    using assms by (auto simp: wait_round_def act_bind_def act_with_def act_return_def split: prod.splits sum.splits)
  have "all_idle en b1 b'" using active_children_idle [OF 2] by (auto simp: all_idle_def)
  then show ?thesis by (rule all_idle_moved [OF stayed_moved [OF stayedD [OF stayed_note(1) 1]]])
qed

lemma stayed_active: "keeps (stayed b0) (active_children en cs cancelled waiting)"
proof (induction cs arbitrary: cancelled waiting)
  case Nil
  show ?case by (simp add: hoare_return)
next
  case (Cons c cs)
  show ?case unfolding active_children.simps by (intro triples stayed_steps Cons; simp)
qed

lemma stayed_round: "keeps (stayed b0) (wait_round en err cancelled)"
  unfolding wait_round_def by (intro keeps_bind keeps_with stayed_note stayed_active) (auto simp: hoare_def act_return_def split: prod.split)

lemma moved_progress: "keeps (moved b0) (wait_progress en err waiting)"
proof -
  have "keeps (moved b0) (note_times (te_batch en) n err)" for n
    unfolding hoare_def using stayedD [OF stayed_note(2)] by (metis moved_trans(1) prod.collapse stayed_moved)
  then show ?thesis unfolding wait_progress_def by (intro keeps_with keeps_bind moved_waiting)
qed

lemma wait_children_done: "wait_children en err cancelled b = Some y \<Longrightarrow> \<forall>r. snd y = Ok r \<longrightarrow> all_idle en b (fst y)"
proof (rule wait_children.raw_induct [of "\<lambda>en err cancelled b y. \<forall>r. snd y = Ok r \<longrightarrow> all_idle en b (fst y)" en err cancelled b y])
  fix f and en :: "('a, 'b) txn_env" and err cancelled b and y :: "('a, 'b) batch \<times> (run_error option, run_error) result"
  assume ih: "\<And>en err cancelled b y. f en err cancelled b = Some y \<Longrightarrow> \<forall>r. snd y = Ok r \<longrightarrow> all_idle en b (fst y)"
    and body: "(case wait_round en err cancelled b of (b1, Inl e) \<Rightarrow> Some (b1, Err e)
      | (b1, Inr (err1, cancelled1, waiting)) \<Rightarrow> if waiting = [] then Some (b1, Ok err1)
          else (case wait_progress en err1 waiting b1 of (b2, Inl e) \<Rightarrow> Some (b2, Err e) | (b2, Inr err2) \<Rightarrow> f en err2 cancelled1 b2)) = Some y"
  obtain b1 r where r: "wait_round en err cancelled b = (b1, r)" by fastforce
  have m1: "moved b b1" by (rule stayed_moved [OF stayedD [OF stayed_round r]])
  show "\<forall>r. snd y = Ok r \<longrightarrow> all_idle en b (fst y)"
  proof (cases r)
    case (Inl e)
    then show ?thesis using body r by auto
  next
    case (Inr x)
    obtain err1 cancelled1 waiting where x: "x = (err1, cancelled1, waiting)" by (cases x)
    show ?thesis
    proof (cases "waiting = []")
      case True
      then show ?thesis using body r Inr x wait_round_idle by auto
    next
      case False
      obtain b2 r2 where 2: "wait_progress en err1 waiting b1 = (b2, r2)" by fastforce
      have "moved b b2" using keepsD [OF moved_progress, of b b1] m1 2 by (metis fst_conv)
      then show ?thesis using body r Inr x False 2 ih all_idle_moved by (cases r2) fastforce+
    qed
  qed
qed

text \<open>
  \<^bold>\<open>C9\<close> A run does not finish before its children: when waiting for them succeeds, every child the session
  recorded when the wait began has been seen not to be active, in the registry as it is when the wait ends.
\<close>

theorem children_finish_first:
  assumes "finish_nested_children en True cancel b = Some (b', Ok ())" and "c \<in> set (map cr_run_id (sn_children (ba_session b)))"
  shows "\<exists>n. ba_clock b \<le> n \<and> n < ba_clock b' \<and>
    run_is_active (reg_at (ee_batch (te_engine en)) n) (be_now (ee_batch (te_engine en)) n) (ba_reg b') c \<noteq> Ok True"
proof -
  let ?first = "if cancel then request_cancels (te_batch en) else act_return ()"
  obtain b1 where 1: "?first b = (b1, Ok ())" and "\<exists>err b2. join_background en b1 = (b2, Ok err) \<and> (\<exists>r. wait_children en err [] b2 = Some (b', Ok r))"
    using assms(1) by (auto simp: finish_nested_children_def pa_defs act_return_def act_fail_def split: prod.splits sum.splits option.splits)
  then obtain err b2 r where 2: "join_background en b1 = (b2, Ok err)" and 3: "wait_children en err [] b2 = Some (b', Ok r)" by blast
  have m1: "moved b b1" by (rule stayed_moved [OF stayedD [where m = ?first, OF _ 1]]) (unfold request_cancels_def, intro triples stayed_steps; simp)
  have noted: "keeps (moved b) (note_times (te_batch en) n None)" for n
    unfolding hoare_def using stayedD [OF stayed_note(2)] by (metis moved_trans(1) prod.collapse stayed_moved)
  have "keeps (moved b) (join_background en)" unfolding join_background_def by (intro keeps_with keeps_bind moved_waiting noted)
  then have "moved b b2" using keepsD [of "moved b" "join_background en" b1] m1 2 by simp
  moreover have "all_idle en b2 b'" using wait_children_done [OF 3] by simp
  ultimately have "all_idle en b b'" by (rule all_idle_moved)
  then show ?thesis using assms(2) unfolding all_idle_def idle_between_def child_ids_def by blast
qed

subsection \<open>Concrete ends of runs\<close>

text \<open>Joining the children of the demonstration finishes them: their rows leave the registry.\<close>

definition demo_txn :: "(unit, in_process_state) engine_env \<Rightarrow> (unit, in_process_state) txn_env" where
  "demo_txn en = \<lparr>te_engine = en, te_workspace = \<lparr>mw_path = ''w'', mw_adapter = ''directory'', mw_cleanup = WC_RemoveDir\<rparr>,
     te_prompt_id = ''p'', te_restore_cursor = (\<lambda>_ h. (h, Ok ())), te_complete = (\<lambda>_ _ g. (g, Ok ())), te_kill_jobs = (\<lambda>_ h. h),
     te_capture = (\<lambda>_ _ _ h. (h, Err ''x'')), te_remove_dir = (\<lambda>_ h. h), te_remove_worktree = (\<lambda>_ _ _ h. h),
     te_join = (\<lambda>_ (h, _, d). ((h, empty_registry, d), 1)), te_watch_idle = (\<lambda>_ _. Ok False), te_wait = (\<lambda>_ _ st. (st, 0)),
     te_export_spans = (\<lambda>_ _ h. (h, None)), te_post_run = (\<lambda>_ _ _ _ _ h. h)\<rparr>"

definition demo_family :: "(unit, in_process_state) batch" where
  "demo_family = demo_batch_state\<lparr>ba_reg := Registry.demo_started,
     ba_session := demo_parent\<lparr>sn_children := [\<lparr>cr_run_id = ''r1'', cr_profile = [], cr_task = ''t''\<rparr>]\<rparr>\<rparr>"

lemmas demo_txn_defs = demo_txn_def demo_family_def demo_engine_def demo_batch_env_def demo_batch_state_def demo_parent_def
  run_session_new_def run_request_new_def

lemmas act_steps = act_return_def act_fail_def act_bind_def act_then_def act_with_def act_modify_def act_attempt_def act_ignore_def act_result_def

lemma demo_no_bounds: "ba_reg b = empty_registry \<Longrightarrow> note_nested_bounds (ee_batch demo_plain) None b = (tick b, Ok None)"
  by (simp add: note_nested_bounds_def act_steps bounds_def check_bounds_def demo_plain_def demo_txn_defs cancel_requested_def empty_registry_def
      files_of_def empty_run_files_def)

lemma demo_gone: "run_is_active en now empty_registry c \<noteq> Ok True"
  by (simp add: run_is_active_def load_unlocked_def and_then_def files_of_def empty_registry_def empty_run_files_def)

lemma demo_no_children_left:
  assumes "ba_reg b = empty_registry"
  shows "\<exists>b'. wait_children (demo_txn demo_plain) None [] b = Some (b', Ok None)"
proof -
  let ?en = "demo_txn demo_plain"
  have none: "\<exists>b'. active_children ?en cs [] [] b = (b', Ok ([], []))" if "ba_reg b = empty_registry" for cs b
    using that by (induction cs arbitrary: b) (auto simp: act_return_def act_bind_def child_active_def demo_gone tick_def)
  have "ba_reg (tick b) = empty_registry" using assms by (simp add: tick_def)
  from none [OF this] obtain b' where "active_children ?en (child_ids (tick b)) [] [] (tick b) = (b', Ok ([], []))" by blast
  moreover have "te_engine ?en = demo_plain" by (simp add: demo_txn_def)
  ultimately show ?thesis using demo_no_bounds [OF assms]
    by (subst wait_children.simps) (simp add: wait_round_def act_bind_def act_with_def act_return_def)
qed

lemma demo_family_waits: "\<exists>b'. finish_nested_children (demo_txn demo_plain) True False demo_family = Some (b', Ok ())"
proof -
  let ?en = "demo_txn demo_plain" and ?b = "(tick demo_family)\<lparr>ba_reg := empty_registry\<rparr>"
  have "while_waiting (te_join ?en 0) demo_family = (?b, Ok 1)"
    by (simp add: while_waiting_def demo_txn_def demo_family_def demo_batch_state_def tick_def)
  moreover have "ba_clock demo_family = 0" by (simp add: demo_family_def demo_batch_state_def)
  moreover have "te_engine ?en = demo_plain" by (simp add: demo_txn_def)
  ultimately have "join_background ?en demo_family = (tick ?b, Ok None)" using demo_no_bounds [of ?b]
    by (simp add: join_background_def act_with_def act_bind_def One_nat_def act_return_def del: One_nat_def) (simp add: act_bind_def act_return_def)
  moreover obtain b' where "wait_children ?en None [] (tick ?b) = Some (b', Ok None)"
    using demo_no_children_left [of "tick ?b"] by (auto simp: tick_def)
  ultimately show ?thesis by (simp add: finish_nested_children_def pa_defs act_return_def)
qed

theorem children_finish_first_witness:
  "\<exists>b' n. finish_nested_children (demo_txn demo_plain) True False demo_family = Some (b', Ok ()) \<and> n < ba_clock b' \<and>
     run_is_active (reg_at (ee_batch demo_plain) n) (be_now (ee_batch demo_plain) n) (ba_reg b') ''r1'' \<noteq> Ok True"
proof -
  obtain b' where b': "finish_nested_children (demo_txn demo_plain) True False demo_family = Some (b', Ok ())"
    using demo_family_waits by blast
  moreover have "''r1'' \<in> set (map cr_run_id (sn_children (ba_session demo_family)))" by (simp add: demo_family_def)
  moreover have "te_engine (demo_txn demo_plain) = demo_plain" by (simp add: demo_txn_def)
  ultimately show ?thesis using children_finish_first [OF b', of "''r1''"] by auto
qed

end
