(* ===== verification/Transaction_Laws.thy ===== *)
theory Transaction_Laws
  imports Run_Transaction
begin

section \<open>What the end of a run guarantees\<close>

text \<open>
  The log of effects through the end of a run: its completions and removals step by step, on the ends that
  fail and on the ends that return a result. The theorems about whole transactions are in \<open>Conclusion_Laws\<close>.
\<close>

subsection \<open>The log of effects\<close>

fun completed_outcome :: "run_event \<Rightarrow> run_outcome option" where
  "completed_outcome (RV_Completed outcome) = Some outcome"
| "completed_outcome _ = None"

definition completions :: "run_event list \<Rightarrow> run_outcome list" where
  "completions es = List.map_filter completed_outcome es"

lemma completions_simps [simp]: "completions [] = []" "completions (RV_Completed outcome # es) = outcome # completions es"
  "completions (RV_Captured # es) = completions es" "completions (RV_Cleaned n # es) = completions es"
  by (simp_all add: completions_def List.map_filter_simps)

text \<open>A workspace that is not the worktree of a child is removed only after a recorded success; the worktree of
  a child only when the request does not keep it.\<close>

fun cleans_rightly :: "bool \<Rightarrow> run_event list \<Rightarrow> bool" where
  "cleans_rightly keep [] = True"
| "cleans_rightly keep (RV_Cleaned nested # es) = (cleans_rightly keep es \<and>
     (if nested then \<not> keep else list_ex ro_success (completions es)))"
| "cleans_rightly keep (_ # es) = cleans_rightly keep es"

fun is_cleaning :: "run_event \<Rightarrow> bool" where
  "is_cleaning (RV_Cleaned _) = True"
| "is_cleaning _ = False"

text \<open>The state a step starts from, as far as the log goes: these completions, rightly cleaned, cleaned or not.\<close>

definition logged :: "bool \<Rightarrow> run_outcome list \<Rightarrow> bool \<Rightarrow> ('h, 'g) closing \<Rightarrow> bool" where
  "logged keep cs cleaned s \<longleftrightarrow> completions (cl_log s) = cs \<and> cleans_rightly keep (cl_log s) \<and>
     (cleaned \<or> \<not> list_ex is_cleaning (cl_log s))"

lemma logged_in_batch [triples]: "keeps (logged keep cs k) (in_batch m)"
  by (simp add: hoare_def in_batch_def logged_def prod.case_eq_if)

lemma logged_in_batch_p [ptriples]: "pkeeps (logged keep cs k) (in_batch_p m)"
  by (auto simp: phoare_def in_batch_p_def logged_def split: sum.splits)

lemma logged_steps [triples]:
  "keeps (logged keep cs k) (kill_jobs en)" "keeps (logged keep cs k) (finalize en)" "keeps (logged keep cs k) (export_spans en ok)"
  "keeps (logged keep cs k) (run_finished en ok summary)" "keeps (logged keep cs k) (save_pending en)"
  "keeps (logged keep cs k) (save_unparked en)" "keeps (logged keep cs k) (update_session f)" "keeps (logged keep cs k) (post_run en e)"
  "keeps (logged keep cs k) (finalized_saved en dir)" "keeps (logged keep cs k) (content_terminal_saved en usage e)"
proof -
  have "keeps (logged keep cs k) (log_run RV_Captured)"
    unfolding log_run_def by (rule keeps_modify) (simp add: logged_def)
  then show "keeps (logged keep cs k) (finalize en)"
    unfolding finalize_def kill_jobs_def by (intro keeps_then logged_in_batch)
  show "keeps (logged keep cs k) (finalized_saved en dir)"
    unfolding finalized_saved_def update_session_def by (intro keeps_then logged_in_batch)
qed (simp_all add: kill_jobs_def export_spans_def run_finished_def save_pending_def save_unparked_def update_session_def post_run_def
    content_terminal_saved_def logged_in_batch)

lemma logged_children [ptriples]: "pkeeps (logged keep cs k) (children_p en cancel)"
  unfolding children_p_def by (rule logged_in_batch_p)

lemma logged_complete: "hoare (\<lambda>_. True) (logged keep [] k) (complete_run en ok summary kind)
    (\<lambda>_ s. \<exists>outcome. logged keep [outcome] k s \<and> ro_success outcome = ok \<and> ro_termination outcome = kind)"
  by (simp add: hoare_def complete_run_def act_with_def act_then_def act_bind_def log_run_def act_modify_def act_attempt_def in_batch_def
      logged_def Let_def prod.case_eq_if)

definition keep_of :: "('h, 'g) txn_env \<Rightarrow> bool" where
  "keep_of en = rq_keep_workspace (be_request (te_batch en))"

lemma logged_cleanup: "logged (keep_of en) cs k s \<Longrightarrow> parked \<or> \<not> ok \<or> list_ex ro_success cs \<Longrightarrow>
    logged (keep_of en) cs (k \<or> \<not> parked) (fst (cleanup_workspace en ok parked s))"
  by (auto simp: cleanup_workspace_def act_with_def Let_def act_return_def act_then_def act_bind_def log_run_def act_modify_def in_batch_def
      logged_def keeps_workspace_def keep_of_def apply_cleanup_def split: if_splits)

lemma logged_cleanup_failed: "keeps (logged (keep_of en) cs True) (cleanup_workspace en False parked)"
  unfolding hoare_def by (auto dest: logged_cleanup [where ok = False and k = True and parked = parked])

lemma logged_cleaned: "logged keep cs k s \<Longrightarrow> logged keep cs True s"
  by (simp add: logged_def)

subsection \<open>Steps that cannot fail\<close>

lemma sure_in_batch: "sure m \<Longrightarrow> sure (in_batch m)"
  by (simp add: sure_def in_batch_def prod.case_eq_if)

lemma sure_emit: "sure (emit en e)" "sure (warn en d)"
  by (simp_all add: sure_def emit_def warn_def)

lemmas sure_rules = sure_with sure_bind sure_then sure_cases sure_combine sure_in_batch sure_emit

lemma sure_steps:
  "sure (kill_jobs en)" "sure (finalize en)" "sure (export_spans en ok)" "sure (run_finished en ok summary)" "sure (save_pending en)"
  "sure (save_unparked en)" "sure (cleanup_workspace en ok parked)" "sure (complete_run en ok summary kind)" "sure (post_run en e)"
  "sure (update_session f)"
  unfolding kill_jobs_def finalize_def capture_artifacts_def link_artifacts_def export_spans_def run_finished_def save_pending_def
    save_unparked_def cleanup_workspace_def complete_run_def post_run_def on_host_def log_run_def apply_cleanup_def Let_def
    update_session_def on_session_def
  by (intro sure_rules)+

subsection \<open>Failing ends\<close>

definition failed_log :: "bool \<Rightarrow> ('h, 'g) closing \<Rightarrow> bool" where
  "failed_log keep s \<longleftrightarrow> (\<exists>cs. length cs \<le> 1 \<and> logged keep cs True s)"

lemma failed_logI: "logged keep cs k s \<Longrightarrow> length cs \<le> 1 \<Longrightarrow> failed_log keep s"
  unfolding failed_log_def using logged_cleaned by blast

lemma failed_lift: "(\<And>cs. keeps (logged keep cs True) m) \<Longrightarrow> pkeeps (failed_log keep) (pa_lift m)"
  by (rule pkeeps_lift) (auto simp: hoare_def failed_log_def)

lemma failed_children [ptriples]: "pkeeps (failed_log keep) (pa_ignore (children_p en cancel))"
proof (rule pkeeps_ignore)
  show "pkeeps (failed_log keep) (children_p en cancel)"
    using logged_children [of keep _ True en cancel] unfolding phoare_def failed_log_def by (fastforce split: sum.splits)
qed

lemma phoare_or_else:
  assumes "keeps P m" and "\<And>s. P s \<Longrightarrow> Q () s" and "\<And>e. phoare P (h e) Q E"
  shows "phoare P (or_else m h) Q E"
  unfolding or_else_def
proof (rule phoare_bind)
  show "phoare P (pa_attempt (pa_lift m)) (\<lambda>_. P) E" by (rule phoare_attempt, rule pkeeps_lift [OF assms(1)])
  show "phoare P (case r of Inl e \<Rightarrow> h e | Inr a \<Rightarrow> pa_return a) Q E" for r
    using assms(2,3) by (cases r) (auto intro: phoare_return)
qed

lemma failing_ends:
  "phoare (failed_log (keep_of en)) (children_failed en e) Q (\<lambda>_. failed_log (keep_of en))"
  "phoare (failed_log (keep_of en)) (not_settled en e) Q (\<lambda>_. failed_log (keep_of en))"
  "phoare (failed_log (keep_of en)) (not_finalized en ok e) Q (\<lambda>_. failed_log (keep_of en))"
proof -
  let ?F = "failed_log (keep_of en)"
  note l = failed_lift [where keep = "keep_of en"]
  show "phoare ?F (children_failed en e) Q (\<lambda>_. ?F)" unfolding children_failed_def
    by (rule phoare_then [OF l phoare_fail]) (intro keeps_then triples logged_cleanup_failed, simp)
  have cl: "pkeeps ?F (pa_lift (cleanup_workspace en False False))" by (rule l) (rule logged_cleanup_failed)
  have ex: "pkeeps ?F (pa_lift (act_then (finalize en) (export_spans en False)))" "pkeeps ?F (pa_lift (export_spans en ok))"
    by (rule l, intro keeps_then triples, rule l, intro triples)
  show "phoare ?F (not_settled en e) Q (\<lambda>_. ?F)" unfolding not_settled_def
    by (rule phoare_then [OF ex(1)], rule phoare_then [OF failed_children], rule phoare_then [OF cl phoare_fail]) simp
  show "phoare ?F (not_finalized en ok e) Q (\<lambda>_. ?F)" unfolding not_finalized_def
    by (rule phoare_then [OF ex(2)], rule phoare_then [OF failed_children], rule phoare_then [OF cl phoare_fail]) simp
qed

text \<open>The end of a failed run: completed as a failure, unless the error leaves the operation open for a resume.\<close>

definition error_log :: "('h, 'g) txn_env \<Rightarrow> run_error \<Rightarrow> ('h, 'g) closing \<Rightarrow> bool" where
  "error_log en e s \<longleftrightarrow> (\<exists>cs. logged (keep_of en) cs True s \<and>
     (if leaves_governance_open e then cs = [] else \<exists>outcome. cs = [outcome] \<and> \<not> ro_success outcome \<and> ro_termination outcome = termination_text (error_termination e)))"

lemma pkeeps_weak: "pkeeps I (m :: ('s, 'a, 'e) paction) \<Longrightarrow> phoare I (pa_ignore m :: ('s, unit, 'f) paction) (\<lambda>_. I) E"
  by (rule phoare_ignore)

lemma conclude_error_log:
  fixes en :: "('h, 'g) txn_env"
  shows "phoare (logged (keep_of en) [] False) (conclude_error en e) Q (\<lambda>_. error_log en e)"
proof -
  let ?K = "keep_of en" and ?c = "complete_run en False (be_show_run (te_batch en) e) (termination_text (error_termination e))"
  let ?L = "logged ?K [] True"
  have err: "keeps (error_log en e) m" if "\<And>cs. keeps (logged ?K cs True) m" for m :: "('h, 'g, 'x) closing_step"
    using that unfolding hoare_def error_log_def by blast
  have mid: "hoare (\<lambda>_. True) ?L (if leaves_governance_open e then act_return () else act_then ?c (save_pending en)) (\<lambda>_. error_log en e)"
  proof (cases "leaves_governance_open e")
    case True
    then show ?thesis by (auto simp: hoare_def act_return_def error_log_def)
  next
    case False
    have "hoare (\<lambda>_. True) ?L ?c (\<lambda>_. error_log en e)"
      by (rule hoare_weaken [OF logged_complete]) (use False in \<open>auto simp: error_log_def\<close>)
    moreover have "hoare (\<lambda>_. True) (error_log en e) (save_pending en) (\<lambda>_. error_log en e)"
      using err [OF logged_steps(5)] by (simp add: hoare_def)
    ultimately show ?thesis using False by (simp add: hoare_then)
  qed
  have kept: "keeps (error_log en e) (act_then (run_finished en False (be_show_run (te_batch en) e)) (act_then (finalize en)
         (act_then (act_with (\<lambda>s. cleanup_workspace en False (keeps_parked_workspace (gp_checkpoint (be_port (te_batch en)) (ba_gov (cl_batch s)))
             (ba_session (cl_batch s)) (ba_pending (cl_batch s) \<noteq> None))))
           (export_spans en False))))" (is "keeps _ ?rest")
    by (rule err) (intro keeps_then keeps_with triples logged_cleanup_failed)
  have first: "hoare (\<lambda>_. True) ?L (kill_jobs en) (\<lambda>_. ?L)" "hoare (\<lambda>_. True) ?L (save_pending en) (\<lambda>_. ?L)"
    using logged_steps(1) [of ?K "[]" True en] logged_steps(5) [of ?K "[]" True en] by (simp_all add: hoare_def)
  have "phoare ?L (pa_lift (act_then (kill_jobs en) (act_then (save_pending en)
      (act_then (if leaves_governance_open e then act_return () else act_then ?c (save_pending en)) ?rest)))) (\<lambda>_. error_log en e) (\<lambda>_. error_log en e)"
  proof (rule phoare_sure)
    show "hoare (\<lambda>_. True) ?L (act_then (kill_jobs en) (act_then (save_pending en)
      (act_then (if leaves_governance_open e then act_return () else act_then ?c (save_pending en)) ?rest))) (\<lambda>_. error_log en e)"
      using kept by (intro hoare_then [OF first(1)] hoare_then [OF first(2)] hoare_then [OF mid]) (simp add: hoare_def)
  qed (intro sure_rules sure_steps)
  then have "phoare ?L (pa_then (pa_lift (act_then (kill_jobs en) (act_then (save_pending en)
      (act_then (if leaves_governance_open e then act_return () else act_then ?c (save_pending en)) ?rest)))) (pa_fail e)) Q (\<lambda>_. error_log en e)"
    by (rule phoare_then) (rule phoare_fail, simp)
  then show ?thesis unfolding conclude_error_def
    by (rule phoare_then [rotated]) (rule phoare_pre [OF pkeeps_weak], auto intro: logged_cleaned logged_children)
qed

subsection \<open>Runs that end\<close>

definition outcome_is :: "loop_end \<Rightarrow> run_outcome list \<Rightarrow> bool" where
  "outcome_is e cs \<longleftrightarrow> (if le_termination e = RT_Parked then cs = []
     else \<exists>outcome. cs = [outcome] \<and> ro_success outcome = le_success e \<and> ro_termination outcome = termination_text (le_termination e))"

definition ended :: "('h, 'g) txn_env \<Rightarrow> loop_end \<Rightarrow> bool \<Rightarrow> ('h, 'g) closing \<Rightarrow> bool" where
  "ended en e k s \<longleftrightarrow> (\<exists>cs. outcome_is e cs \<and> logged (keep_of en) cs k s)"

lemma outcome_is_length: "outcome_is e cs \<Longrightarrow> length cs \<le> 1"
  by (auto simp: outcome_is_def split: if_splits)

lemma ended_failed: "ended en e k s \<Longrightarrow> failed_log (keep_of en) s"
  unfolding ended_def using failed_logI outcome_is_length by blast

lemma ended_lift:
  assumes "\<And>cs. keeps (logged (keep_of en) cs k) m"
  shows "phoare (ended en e k) (pa_lift m) (\<lambda>_. ended en e k) (\<lambda>_. failed_log (keep_of en))"
proof (rule phoare_weaken [OF pkeeps_lift])
  show "keeps (ended en e k) m" using assms by (auto simp: hoare_def ended_def)
qed (auto intro: ended_failed)

lemma unended_pkeeps: "pkeeps (logged (keep_of en) [] False) m \<Longrightarrow>
    phoare (logged (keep_of en) [] False) m (\<lambda>_. logged (keep_of en) [] False) (\<lambda>_. failed_log (keep_of en))"
  by (erule phoare_weaken) (auto intro: failed_logI)

lemma settle_run_end_log:
  assumes "le_termination e \<noteq> RT_Parked"
  shows "phoare (logged (keep_of en) [] False) (settle_run_end en usage e) (\<lambda>_. ended en e False) (\<lambda>_. failed_log (keep_of en))"
proof -
  let ?L = "logged (keep_of en) [] False" and ?F = "failed_log (keep_of en)"
  have over: "phoare ?L (pa_attempt (pa_lift (in_batch (bounds (te_batch en))))) (\<lambda>_. ?L) (\<lambda>_. ?F)"
    by (intro unended_pkeeps pkeeps_attempt pkeeps_lift logged_in_batch)
  have waited: "phoare ?L (pa_attempt (children_p en c)) (\<lambda>_. ?L) (\<lambda>_. ?F)" for c
    by (intro unended_pkeeps pkeeps_attempt logged_children)
  have complete: "phoare ?L (pa_lift (complete_run en (le_success e) (le_summary e) (termination_text (le_termination e))))
      (\<lambda>_. ended en e False) (\<lambda>_. ?F)"
  proof (rule phoare_sure [OF sure_steps(8)])
    show "hoare (\<lambda>_. True) ?L (complete_run en (le_success e) (le_summary e) (termination_text (le_termination e))) (\<lambda>_. ended en e False)"
      by (rule hoare_weaken [OF logged_complete]) (use assms in \<open>auto simp: ended_def outcome_is_def\<close>)
  qed
  have "phoare (ended en e False) (pa_then (pa_lift (save_unparked en)) (not_settled en err)) (\<lambda>_. ended en e False) (\<lambda>_. ?F)" for err
    by (rule phoare_then [OF ended_lift phoare_pre [OF failing_ends(2) ended_failed]]) (rule logged_steps)
  moreover have "phoare (ended en e False) (pa_then (pa_lift (update_session f)) (or_else (in_batch (save (te_batch en))) (not_settled en)))
      (\<lambda>_. ended en e False) (\<lambda>_. ?F)" for f
  proof (rule phoare_then [OF ended_lift phoare_or_else])
    show "keeps (ended en e False) (in_batch (save (te_batch en)))"
      using logged_in_batch [where m = "save (te_batch en)"] by (auto simp: hoare_def ended_def)
  qed (auto intro: logged_steps phoare_pre [OF failing_ends(2) ended_failed])
  ultimately show ?thesis unfolding settle_run_end_def
    by (intro phoare_bind [OF over] phoare_bind [OF waited])
      (auto intro!: phoare_bind [OF complete] phoare_pre [OF failing_ends(1)] split: sum.split intro: failed_logI)
qed

lemma conclude_end_log:
  "phoare (logged (keep_of en) [] False) (conclude_end en usage e)
     (\<lambda>res s. ended en e (le_termination e \<noteq> RT_Parked) s \<and> rr_success res = le_success e \<and> rr_termination res = le_termination e)
     (\<lambda>_. failed_log (keep_of en))"
proof -
  let ?L = "logged (keep_of en) [] False" and ?F = "failed_log (keep_of en)" and ?p = "le_termination e = RT_Parked"
  have saved: "phoare ?L (pa_lift (content_terminal_saved en usage e)) (\<lambda>_. ?L) (\<lambda>_. ?F)"
    by (intro unended_pkeeps pkeeps_lift logged_steps)
  have settled: "phoare ?L (if ?p then (if rq_session_wait (be_request (te_batch en)) then pa_return () else pa_ignore (children_p en True))
      else settle_run_end en usage e) (\<lambda>_. ended en e False) (\<lambda>_. ?F)"
  proof (cases ?p)
    case True
    have "phoare ?L (if rq_session_wait (be_request (te_batch en)) then pa_return () else pa_ignore (children_p en True)) (\<lambda>_. ?L) (\<lambda>_. ?F)"
      by (intro unended_pkeeps ptriples logged_children)
    then show ?thesis using True by (auto intro: phoare_weaken simp: ended_def outcome_is_def)
  qed (simp add: settle_run_end_log)
  have cleaned: "phoare (ended en e False) (pa_lift (act_then (cleanup_workspace en (le_success e) ?p) (run_finished en ok summary)))
      (\<lambda>_. ended en e (\<not> ?p)) (\<lambda>_. ?F)" for ok summary
  proof (rule phoare_sure)
    have "hoare (\<lambda>_. True) (ended en e False) (cleanup_workspace en (le_success e) ?p) (\<lambda>_. ended en e (\<not> ?p))"
      using logged_cleanup [where en = en and k = False and ok = "le_success e" and parked = ?p] unfolding hoare_def ended_def outcome_is_def by (fastforce split: if_splits)
    moreover have "hoare (\<lambda>_. True) (ended en e k) (run_finished en ok summary) (\<lambda>_. ended en e k)" for k
      using logged_steps(4) [of "keep_of en" _ k en ok summary] by (auto simp: hoare_def ended_def)
    ultimately show "hoare (\<lambda>_. True) (ended en e False) (act_then (cleanup_workspace en (le_success e) ?p) (run_finished en ok summary))
        (\<lambda>_. ended en e (\<not> ?p))" by (rule hoare_then)
  qed (intro sure_rules sure_steps)
  have finalized: "phoare (ended en e k) (if ?p then pa_return () else or_else (finalized_saved en dir) (not_finalized en (le_success e)))
      (\<lambda>_. ended en e k) (\<lambda>_. ?F)" for k dir
  proof (cases ?p)
    case False
    have "phoare (ended en e k) (or_else (finalized_saved en dir) (not_finalized en (le_success e))) (\<lambda>_. ended en e k) (\<lambda>_. ?F)"
    proof (rule phoare_or_else)
      show "keeps (ended en e k) (finalized_saved en dir)"
        using logged_steps(9) [of "keep_of en" _ k en dir] by (auto simp: hoare_def ended_def)
    qed (auto intro: phoare_pre [OF failing_ends(3) ended_failed])
    then show ?thesis using False by simp
  qed (simp add: phoare_return)
  show ?thesis unfolding conclude_end_def
  proof (rule phoare_then [OF saved], rule phoare_then [OF settled], rule phoare_bind [OF ended_lift], rule logged_steps,
      rule phoare_then [OF cleaned], rule phoare_then [OF finalized], rule phoare_then [OF ended_lift])
    show "keeps (logged (keep_of en) cs (\<not> ?p)) (act_then (post_run en e) (export_spans en (le_success e)))" for cs
      by (intro keeps_then logged_steps)
  qed (auto simp: result_of_def intro!: phoare_with phoare_return)
qed

lemma error_log_failed: "error_log en e s \<Longrightarrow> failed_log (keep_of en) s"
  unfolding error_log_def by (auto split: if_splits intro: failed_logI)

end
