(* ===== verification/Conclusion_Laws.thy ===== *)
theory Conclusion_Laws
  imports Transaction_Laws Child_Laws
begin

section \<open>Failed, parked and concrete ends\<close>

text \<open>
  How a run whose loop failed ends, what a parked run leaves behind after the whole transaction, and why a
  transaction ends when no other run is in the registry.
\<close>

subsection \<open>Every end of a run\<close>


subsection \<open>Runs that fail\<close>

lemma phoare_any: "phoare P m (\<lambda>_ _. True) (\<lambda>_ _. True)"
  by (simp add: phoare_def split: sum.split)

lemma conclude_error_result: "conclude_error en e s = Some (s', r) \<Longrightarrow> r = Err e"
proof -
  have shape: "phoare (\<lambda>_. True) (pa_then (pa_ignore m) (pa_then (pa_lift k) (pa_fail e))) (\<lambda>_ _. False) (\<lambda>e' _. e' = e)"
    if "sure k" for m :: "('st, 'val, run_error) paction" and k :: "('st, unit, run_error) action"
  proof (rule phoare_then [OF phoare_ignore [OF phoare_any]], rule phoare_then)
    show "phoare (\<lambda>_. True) (pa_lift k) (\<lambda>_ _. True) (\<lambda>e' _. e' = e)"
      using that by (intro phoare_sure) (simp_all add: hoare_def)
  qed (simp add: phoare_fail)
  have "phoare (\<lambda>_. True) (conclude_error en e) (\<lambda>_ _. False) (\<lambda>e' _. e' = e)"
    unfolding conclude_error_def by (rule shape) (intro sure_rules sure_steps)
  then show "conclude_error en e s = Some (s', r) \<Longrightarrow> r = Err e"
    using phoareD [of "\<lambda>_. True" "conclude_error en e"] by (cases r) fastforce+
qed

lemma completions_later: "list_ex ro_success (completions es) \<Longrightarrow> list_ex ro_success (completions (x # es))"
  by (cases x) simp_all

lemma cleans_without_success:
  "cleans_rightly keep es \<Longrightarrow> \<not> list_ex ro_success (completions es) \<Longrightarrow> RV_Cleaned nested \<in> set es \<Longrightarrow> nested \<and> \<not> keep"
proof (induction es)
  case (Cons x es)
  then have "\<not> list_ex ro_success (completions es)" using completions_later by blast
  with Cons show ?case by (cases x) (auto split: if_splits)
qed simp


subsection \<open>Invariants of the wait for children\<close>

lemma wait_children_pkeeps:
  assumes "\<And>err cancelled. keeps I (wait_round en err cancelled)" and "\<And>err waiting. keeps I (wait_progress en err waiting)"
  shows "pkeeps I (wait_children en err cancelled)"
proof -
  have "I (fst y)" if "wait_children en err cancelled b = Some y" "I b" for b y
  proof -
    have "en = en \<longrightarrow> I b \<longrightarrow> I (fst y)"
    proof (rule wait_children.raw_induct [of "\<lambda>en' err cancelled b y. en' = en \<longrightarrow> I b \<longrightarrow> I (fst y)" en err cancelled b y, OF _ that(1)])
      fix f en' err cancelled b y
      assume ih: "\<And>en' err cancelled b y. f en' err cancelled b = Some y \<Longrightarrow> en' = en \<longrightarrow> I b \<longrightarrow> I (fst y)"
        and body: "(case wait_round en' err cancelled b of (b1, Inl e) \<Rightarrow> Some (b1, Err e)
          | (b1, Inr (err1, cancelled1, waiting)) \<Rightarrow> if waiting = [] then Some (b1, Ok err1)
              else (case wait_progress en' err1 waiting b1 of (b2, Inl e) \<Rightarrow> Some (b2, Err e) | (b2, Inr err2) \<Rightarrow> f en' err2 cancelled1 b2)) = Some y"
      show "en' = en \<longrightarrow> I b \<longrightarrow> I (fst y)"
      proof (intro impI)
        assume en: "en' = en" and b: "I b"
        obtain b1 r where r: "wait_round en err cancelled b = (b1, r)" by fastforce
        have b1: "I b1" using keepsD [OF assms(1) b, of err cancelled] r by simp
        have b2: "I b2" if "wait_progress en err1 waiting b1 = (b2, x)" for err1 waiting b2 x
          using keepsD [OF assms(2) b1, of err1 waiting] that by simp
        show "I (fst y)"
        proof (cases r)
          case (Inl e)
          then show ?thesis using body r b1 unfolding en by auto
        next
          case (Inr x)
          obtain err1 cancelled1 waiting where x: "x = (err1, cancelled1, waiting)" by (cases x)
          obtain b2' r2 where 2: "wait_progress en err1 waiting b1 = (b2', r2)" by fastforce
          have f: "f en e2 cancelled1 b2' = Some y \<Longrightarrow> I (fst y)" for e2 using ih [of en e2 cancelled1 b2' y] b2 [OF 2] by simp
          show ?thesis using body b1 b2 [OF 2] f unfolding en r Inr x by (cases "waiting = []"; cases r2) (auto simp: 2)
        qed
      qed
    qed
    then show ?thesis using that(2) by blast
  qed
  then show ?thesis by (fastforce simp: phoare_def split: sum.split)
qed

lemma finish_children_pkeeps:
  assumes "\<And>err. keeps I (note_nested_bounds (te_batch en) err)" "\<And>c. keeps I (cancel_child (te_batch en) c)"
    "\<And>c. keeps I (child_active (te_batch en) c)" "\<And>c. keeps I (watch_child en c)"
    "\<And>n. keeps I (while_waiting (te_join en n))" "\<And>n waiting. keeps I (while_waiting (te_wait en n waiting))"
  shows "pkeeps I (finish_nested_children en join cancel)"
proof -
  have active: "keeps I (active_children en cs cancelled waiting)" for cs cancelled waiting
  proof (induction cs arbitrary: cancelled waiting)
    case (Cons c cs)
    then show ?case unfolding active_children.simps by (intro triples assms; simp)
  qed (simp add: hoare_return)
  have times: "keeps I (note_times (te_batch en) n err)" for n err
    by (induction n arbitrary: err) (auto intro: keeps_bind assms(1) hoare_return)
  have "keeps I (wait_round en err cancelled)" "keeps I (wait_progress en err waiting)" for err cancelled waiting
    unfolding wait_round_def wait_progress_def by (intro triples assms active times; simp)+
  then have "pkeeps I (wait_children en err [])" for err by (rule wait_children_pkeeps)
  moreover have "keeps I (join_background en)" "keeps I (request_cancels (te_batch en))"
    unfolding join_background_def request_cancels_def by (intro triples assms times; simp)+
  ultimately show ?thesis unfolding finish_nested_children_def
    by (intro ptriples pkeeps_lift) (auto intro: hoare_return)
qed

subsection \<open>Parked runs, end to end\<close>

lemma keeps_in_batch: "keeps I m \<Longrightarrow> keeps (\<lambda>s. I (cl_batch s)) (in_batch m)"
  by (simp add: hoare_def in_batch_def prod.case_eq_if)

lemma pkeeps_in_batch: "pkeeps I m \<Longrightarrow> pkeeps (\<lambda>s. I (cl_batch s)) (in_batch_p m)"
  by (fastforce simp: phoare_def in_batch_p_def split: sum.splits)

abbreviation still_parked :: "park_info \<Rightarrow> ('h, 'g) closing \<Rightarrow> bool" where
  "still_parked info s \<equiv> parked_at info (cl_batch s)"

lemma parked_at_waiting: "keeps (parked_at info) (while_waiting f)"
  by (auto simp: hoare_def while_waiting_def parked_at_def tick_def split: prod.split)

lemma parked_children: "pkeeps (still_parked info) (children_p en cancel)"
proof -
  have cancel: "keeps (parked_at info) (cancel_child ben c)" for ben :: "('a, 'b) batch_env" and c
    unfolding cancel_child_def by (rule parked_at_step) (simp add: tick_def)
  have "keeps (parked_at info) (bounds ben)" "keeps (parked_at info) (child_active ben c)" "keeps (parked_at info) (watch_child en c)"
    for ben :: "('a, 'b) batch_env" and c
    by (simp_all add: hoare_def bounds_def child_active_def watch_child_def parked_at_def tick_def)
  moreover have "keeps (parked_at info) (note_nested_bounds ben err)" for ben :: "('a, 'b) batch_env" and err
    unfolding note_nested_bounds_def request_cancels_def by (intro triples cancel calculation(1); simp)
  ultimately show ?thesis unfolding children_p_def
    by (intro pkeeps_in_batch finish_children_pkeeps cancel parked_at_waiting)
qed

lemma parked_host: "keeps (parked_at info) (on_host f)"
  unfolding on_host_def by (rule parked_at_step) (simp add: tick_def)

lemma parked_finalize: "keeps (still_parked info) (finalize en)"
proof -
  have "keeps (parked_at info) (capture_artifacts en)"
    unfolding capture_artifacts_def link_artifacts_def warn_def Let_def case_prod_unfold
    by (intro triples parked_at_step parked_at_emit; simp add: tick_def)
  moreover have "keeps (still_parked info) (log_run e)" for e
    unfolding log_run_def by (rule keeps_modify) simp
  ultimately show ?thesis unfolding finalize_def kill_jobs_def by (intro keeps_then keeps_in_batch parked_host)
qed

lemma parked_reports:
  "keeps (still_parked info) (run_finished en ok summary)" "keeps (still_parked info) (post_run en e)"
  "keeps (still_parked info) (export_spans en ok)"
  unfolding run_finished_def post_run_def export_spans_def warn_def Let_def case_prod_unfold
  by (intro keeps_in_batch triples parked_at_emit parked_host parked_at_step; simp add: tick_def)+

lemma sure_lift: "sure m \<Longrightarrow> keeps I m \<Longrightarrow> phoare I (pa_lift m) (\<lambda>_. I) (\<lambda>_ _. False)"
  by (erule phoare_sure) (simp add: hoare_def)

lemma conclude_end_parked:
  assumes "le_termination e = RT_Parked"
  shows "phoare (still_parked info) (conclude_end en usage e)
    (\<lambda>res s. still_parked info s \<and> rr_park res = le_park e \<and> rr_termination res = RT_Parked) (\<lambda>_ _. False)"
proof -
  have saved: "content_terminal_saved en usage e = in_batch (act_return ())"
    using assms by (simp add: content_terminal_saved_def act_with_def)
  have "phoare (still_parked info) (pa_lift (content_terminal_saved en usage e)) (\<lambda>_. still_parked info) (\<lambda>_ _. False)"
    unfolding saved by (intro sure_lift sure_in_batch sure_combine keeps_in_batch hoare_return)
  moreover have "phoare (still_parked info) (if rq_session_wait (be_request (te_batch en)) then pa_return () else pa_ignore (children_p en True))
      (\<lambda>_. still_parked info) (\<lambda>_ _. False)"
    using parked_children [of info en True] by (auto intro: phoare_return phoare_ignore)
  moreover have "phoare (still_parked info) (pa_lift (finalize en)) (\<lambda>_. still_parked info) (\<lambda>_ _. False)"
    by (intro sure_lift sure_steps parked_finalize)
  moreover have "phoare (still_parked info) (pa_lift (act_then (cleanup_workspace en ok True) (run_finished en ok summary)))
      (\<lambda>_. still_parked info) (\<lambda>_ _. False)" for ok summary
  proof (rule sure_lift)
    have "keeps (still_parked info) (cleanup_workspace en ok True)" by (simp add: hoare_def cleanup_workspace_def Let_def act_with_def act_return_def)
    then show "keeps (still_parked info) (act_then (cleanup_workspace en ok True) (run_finished en ok summary))"
      by (intro keeps_then parked_reports)
  qed (intro sure_then sure_steps)
  moreover have "phoare (still_parked info) (pa_lift (act_then (post_run en e) (export_spans en ok))) (\<lambda>_. still_parked info) (\<lambda>_ _. False)" for ok
    by (intro sure_lift sure_then sure_steps keeps_then parked_reports)
  ultimately show ?thesis unfolding conclude_end_def assms
    by (simp only: refl if_True)
      (intro phoare_then phoare_bind phoare_with phoare_return; (assumption | simp add: result_of_def assms))
qed

lemma conclude_end_result: "phoare (\<lambda>_. True) (conclude_end en usage e) (\<lambda>res _. rr_park res = le_park e) (\<lambda>_ _. True)"
  unfolding conclude_end_def
  by (rule phoare_then [OF phoare_any], rule phoare_then [OF phoare_any], rule phoare_bind [OF phoare_any],
      rule phoare_then [OF phoare_any], rule phoare_then [OF phoare_any], rule phoare_then [OF phoare_any])
    (intro phoare_with phoare_return, simp add: result_of_def)

lemma recovered_not_parked:
  assumes "act_then (restore_cursor en) (recover_terminal en) b = (b1, Ok (Some x))"
  shows "le_park (fst x) = None"
proof -
  have "gives (act_then (restore_cursor en) (recover_terminal en)) (\<lambda>r _. \<forall>x. r = Some x \<longrightarrow> le_park (fst x) = None)"
    unfolding recover_terminal_def Let_def case_prod_unfold
    by (rule gives_then, rule gives_with, rule gives_bind, intro gives_cases gives_bind gives_return) simp_all
  then have "snd (act_then (restore_cursor en) (recover_terminal en) b) = Ok r \<Longrightarrow> r = Some x \<Longrightarrow> le_park (fst x) = None" for r
    by (cases x) (simp add: hoare_def)
  then show ?thesis using assms by simp
qed

text \<open>
  \<^bold>\<open>C8\<close> A parked run can be resumed after the whole transaction: when a run returns a park, the newest checkpoint
  records exactly that park, its governed operation is still open, and nothing of its workspace was removed, whatever
  its children, its artifacts, its final event and its hooks did afterwards.
\<close>

theorem parked_transaction_resumable:
  assumes "transaction en b = Some (c, Ok res)" and "rr_park res = Some info"
  shows "rr_termination res = RT_Parked \<and> completions (cl_log c) = [] \<and> (\<forall>nested. RV_Cleaned nested \<notin> set (cl_log c)) \<and>
    (\<exists>p cp. tells info p \<and> ba_pending (cl_batch c) = Some p \<and> last_saved (ba_trace (cl_batch c)) = Some cp \<and> cp_park cp = Some p)"
proof -
  obtain b1 recovered where 1: "act_then (restore_cursor en) (recover_terminal en) b = (b1, Ok recovered)"
    using assms(1) by (auto simp: transaction_def Let_def split: prod.splits sum.splits)
  obtain s r where 2: "run_end en (map_option fst recovered) (model_turns_new (te_engine en) b1) = Some (s, r)"
    using assms(1) 1 by (auto simp: transaction_def Let_def split: option.splits)
  have "\<nexists>e. r = Err e" using assms(1) 1 2 conclude_error_result by (fastforce simp: transaction_def Let_def)
  then obtain e where r: "r = Ok e" by (cases r) auto
  obtain usage where c: "conclude_end en usage e \<lparr>cl_batch = dm_batch s, cl_log = []\<rparr> = Some (c, Ok res)"
    using assms(1) 1 2 r by (auto simp: transaction_def Let_def)
  have res: "rr_park res = le_park e" using phoareD [OF conclude_end_result _ c] by simp
  have "run_end en (map_option fst recovered) (model_turns_new (te_engine en) b1) = turn_loop (te_engine en) (model_turns_new (te_engine en) b1)"
    using 2 r res assms(2) recovered_not_parked [of en b b1] 1 by (cases recovered) (auto simp: run_end_def Let_def split: option.splits if_splits)
  then have "end_parked e s" using turn_loop_end [of "te_engine en"] 2 r by simp
  then have p: "le_termination e = RT_Parked" "still_parked info \<lparr>cl_batch = dm_batch s, cl_log = []\<rparr>"
    using res assms(2) by (auto simp: end_parked_def)
  have after: "still_parked info c" "rr_termination res = RT_Parked"
    using phoareD [OF conclude_end_parked [OF p(1)] p(2) c] by simp_all
  have "logged (keep_of en) [] False \<lparr>cl_batch = dm_batch s, cl_log = []\<rparr>" by (simp add: logged_def)
  from phoareD [OF conclude_end_log this c] have "completions (cl_log c) = [] \<and> \<not> list_ex is_cleaning (cl_log c)"
    using p(1) by (auto simp: ended_def outcome_is_def logged_def)
  then have "completions (cl_log c) = [] \<and> (\<forall>nested. RV_Cleaned nested \<notin> set (cl_log c))"
    by (auto simp: list_ex_iff)
  then show ?thesis using after by (auto simp: parked_at_def)
qed

subsection \<open>Transactions that end\<close>

text \<open>With no run in the registry, now or after a wait, there is no child to wait for.\<close>

definition empty_rows :: "registry \<Rightarrow> bool" where
  "empty_rows r \<longleftrightarrow> (\<forall>c. rf_record (files_of r c) = None)"

definition no_runs :: "('h, 'g) batch \<Rightarrow> bool" where
  "no_runs b \<longleftrightarrow> empty_rows (ba_reg b)"

definition waits_alone :: "('h, 'g) txn_env \<Rightarrow> bool" where
  "waits_alone en \<longleftrightarrow> (\<forall>n cs h r d. empty_rows r \<longrightarrow> empty_rows (fst (snd (fst (te_join en n (h, r, d))))) \<and>
     empty_rows (fst (snd (fst (te_wait en n cs (h, r, d))))))"

abbreviation alone :: "('h, 'g) closing \<Rightarrow> bool" where
  "alone s \<equiv> no_runs (cl_batch s)"

lemma no_runs_step: "(\<And>b. ba_reg (f b) = ba_reg b) \<Longrightarrow> keeps no_runs (act_modify f)"
  by (rule keeps_modify) (simp add: no_runs_def)

lemma empty_rows_event: "empty_rows r \<Longrightarrow> empty_rows (append_event en now r run e)"
  by (auto simp: empty_rows_def append_event_def mkdir_def set_files_def files_of_def Let_def empty_run_files_def split: option.splits)

lemma sure_note: "sure (note_nested_bounds en err)"
proof -
  have "sure (act_each (cancel_child en) cs)" for cs
    by (induction cs) (auto intro!: sure_rules simp: cancel_child_def)
  then show ?thesis unfolding note_nested_bounds_def request_cancels_def by (intro sure_rules)
qed

lemma stayed_no_runs: "(\<And>b0. keeps (stayed b0) m) \<Longrightarrow> keeps no_runs m"
  unfolding hoare_def no_runs_def stayed_def empty_rows_def files_of_def by (metis moved_refl(1))

lemma no_runs_active: "no_runs b \<Longrightarrow> run_is_active en now (ba_reg b) c \<noteq> Ok True"
  by (simp add: run_is_active_def load_unlocked_def and_then_def no_runs_def empty_rows_def)

lemma no_runs_round:
  assumes "no_runs b"
  shows "\<exists>b' err' cancelled'. wait_round en err cancelled b = (b', Ok (err', cancelled', [])) \<and> no_runs b'"
proof -
  have scan: "\<exists>b'. active_children en cs cc [] b = (b', Ok (cc, [])) \<and> no_runs b'" if "no_runs b" for cs cc b
    using that
    by (induction cs arbitrary: b) (auto simp: act_return_def act_bind_def child_active_def no_runs_active tick_def no_runs_def)
  obtain b1 r where 1: "note_nested_bounds (te_batch en) err b = (b1, r)" by fastforce
  have "is_ok r" using sure_note [of "te_batch en" err] 1 by (auto simp: sure_def dest: spec [of _ b])
  then obtain err' where r: "r = Ok err'" by (cases r) (auto simp: is_ok_def)
  have "no_runs b1" using keepsD [OF stayed_no_runs [OF stayed_note(1)] assms] 1 by (metis fst_conv)
  from scan [OF this] obtain b' where "active_children en (child_ids b1) cancelled [] b1 = (b', Ok (cancelled, []))" "no_runs b'" by blast
  then show ?thesis using 1 r by (simp add: wait_round_def act_bind_def act_with_def act_return_def)
qed

lemma alone_children:
  assumes "waits_alone en"
  shows "returns alone (children_p en cancel)"
proof -
  have wait: "returns no_runs (wait_children en err cancelled)" for err cancelled
    unfolding returns_def using no_runs_round [of _ en err cancelled] by (subst wait_children.simps) fastforce
  have join: "keeps no_runs (join_background en)"
  proof -
    have "keeps no_runs (while_waiting (te_join en n))" for n
      using assms by (auto simp: hoare_def while_waiting_def waits_alone_def no_runs_def tick_def prod.case_eq_if)
    then show ?thesis unfolding join_background_def by (intro keeps_with keeps_bind stayed_no_runs [OF stayed_note(2)])
  qed
  have "keeps no_runs (request_cancels (te_batch en))"
    unfolding request_cancels_def by (intro triples stayed_no_runs [OF stayed_steps(1)])
  then have "returns no_runs (finish_nested_children en True cancel)" unfolding finish_nested_children_def
    by (intro returning wait join) (auto intro: hoare_return returning)
  then show ?thesis unfolding children_p_def returns_def in_batch_p_def by fastforce
qed

lemma alone_save: "keeps no_runs (save_session en keep park)" "keeps no_runs (save en)"
proof -
  show s: "keeps no_runs (save_session en keep park)" for keep park
    by (simp add: hoare_def save_session_def no_runs_def tick_def log_def prod.case_eq_if Let_def split: sum.split)
  show "keeps no_runs (save en)" unfolding save_def by (intro keeps_with s)
qed

lemma alone_basics: "keeps no_runs (emit en e)" "keeps no_runs (on_host f)" "keeps no_runs (on_session g)" "keeps no_runs (gov_call h)"
    "keeps no_runs (bounds en)" "keeps no_runs (act_modify tick)"
  by (simp_all add: hoare_def emit_def on_host_def on_session_def gov_call_def act_modify_def bounds_def no_runs_def tick_def log_def
      prod.case_eq_if empty_rows_event)

lemma alone_steps:
  "keeps alone (kill_jobs en)" "keeps alone (finalize en)" "keeps alone (export_spans en ok)" "keeps alone (run_finished en ok summary)"
  "keeps alone (save_pending en)" "keeps alone (save_unparked en)" "keeps alone (cleanup_workspace en ok parked)"
  "keeps alone (complete_run en ok summary kind)" "keeps alone (post_run en e)" "keeps alone (update_session f)"
  "keeps alone (finalized_saved en dir)" "keeps alone (content_terminal_saved en usage e)"
proof -
  have link: "keeps no_runs (link_artifacts ben path)" for ben :: "('a, 'b) batch_env" and path
  proof -
    have "set_artifact_dir ren r run path = (r, snd (set_artifact_dir ren r run path))" if "empty_rows r" for ren r run
      using that by (simp add: set_artifact_dir_def with_record_def load_unlocked_def empty_rows_def)
    then have "fst (set_artifact_dir ren (ba_reg b) run path) = ba_reg b" if "no_runs b" for ren run and b :: "('a, 'b) batch"
      using that unfolding no_runs_def by (metis fst_conv)
    then show ?thesis unfolding link_artifacts_def warn_def Let_def case_prod_unfold
      by (intro triples alone_basics; simp add: hoare_def act_modify_def no_runs_def tick_def)
  qed
  have logs: "keeps alone (log_run e)" for e
    unfolding log_run_def by (rule keeps_modify) simp
  have clean: "keeps no_runs (apply_cleanup en)"
    unfolding apply_cleanup_def by (rule no_runs_step) (simp add: Let_def split: workspace_cleanup.split)
  show kill: "keeps alone (kill_jobs en)" unfolding kill_jobs_def by (intro keeps_in_batch alone_basics)
  have "keeps no_runs (capture_artifacts en)"
    unfolding capture_artifacts_def warn_def Let_def case_prod_unfold by (intro triples alone_basics link no_runs_step; simp add: tick_def)
  then show "keeps alone (finalize en)" unfolding finalize_def by (intro keeps_then kill logs keeps_in_batch)
  show "keeps alone (cleanup_workspace en ok parked)" unfolding cleanup_workspace_def Let_def
    by (intro triples keeps_in_batch logs clean alone_basics; simp)
  show "keeps alone (complete_run en ok summary kind)" unfolding complete_run_def Let_def
    by (intro triples keeps_in_batch logs alone_basics)
  show "keeps alone (export_spans en ok)" unfolding export_spans_def warn_def Let_def case_prod_unfold
    by (intro keeps_in_batch triples alone_basics no_runs_step; simp add: tick_def)
  show "keeps alone (content_terminal_saved en usage e)" unfolding content_terminal_saved_def
    by (intro keeps_in_batch triples alone_basics alone_save; simp)
  show upd: "keeps alone (update_session f)" for f unfolding update_session_def by (intro keeps_in_batch alone_basics)
  show "keeps alone (finalized_saved en dir)" unfolding finalized_saved_def by (intro keeps_then upd keeps_in_batch alone_save)
qed (auto simp: run_finished_def save_pending_def save_unparked_def post_run_def intro!: keeps_in_batch keeps_with keeps_ignore alone_basics alone_save)

lemma conclude_returns:
  assumes "waits_alone en"
  shows "returns alone (conclude_error en err)" "returns alone (conclude_end en usage e)"
proof -
  note kids = alone_children [OF assms] and l = returns_lift
  show "returns alone (conclude_error en err)" unfolding conclude_error_def
    by (intro returning kids keeps_then alone_steps keeps_with keeps_if hoare_return) simp_all
  have fails: "returns alone (children_failed en x)" "returns alone (not_settled en x)" "returns alone (not_finalized en ok x)" for x ok
    unfolding children_failed_def not_settled_def not_finalized_def by (intro returning kids keeps_then alone_steps)+
  have or_else: "returns alone (or_else m h)" if "keeps alone m" "\<And>x. returns alone (h x)"
    for m :: "('a, 'b, 'val) closing_step" and h
    unfolding or_else_def by (intro returning that)
  have "returns alone (settle_run_end en usage e)" unfolding settle_run_end_def
    by (intro returning kids fails or_else keeps_in_batch alone_basics alone_steps alone_save)
  then show "returns alone (conclude_end en usage e)" unfolding conclude_end_def
    by (intro returning kids fails or_else alone_steps keeps_then)
qed

lemma transaction_returns:
  assumes "waits_alone en" and "act_then (restore_cursor en) (recover_terminal en) b = (b1, Ok recovered)"
    and "run_end en (map_option fst recovered) (model_turns_new (te_engine en) b1) = Some (s, r)" and "no_runs (dm_batch s)"
  shows "\<exists>c x. transaction en b = Some (c, x)"
proof -
  have "alone \<lparr>cl_batch = dm_batch s, cl_log = []\<rparr>" using assms(4) by simp
  then have "\<exists>c x. conclude_error en e \<lparr>cl_batch = dm_batch s, cl_log = []\<rparr> = Some (c, x)"
    "\<exists>c x. conclude_end en usage f \<lparr>cl_batch = dm_batch s, cl_log = []\<rparr> = Some (c, x)" for e usage f
    using conclude_returns [OF assms(1)] unfolding returns_def by blast+
  then show ?thesis using assms(2,3) by (cases r) (auto simp: transaction_def Let_def)
qed

subsection \<open>Concrete ends\<close>

lemma demo_alone: "waits_alone (demo_txn en)" "no_runs demo_batch_state"
  by (simp_all add: waits_alone_def demo_txn_def empty_rows_def no_runs_def demo_batch_state_def files_of_def empty_registry_def
      empty_run_files_def)

text \<open>A resumed run whose plan is rejected; a session host, and an unattended run, without a turn left.\<close>

definition demo_rejected :: "(unit, in_process_state) txn_env" where
  "demo_rejected = demo_txn (demo_engine 3 ((run_request_new ''t'')\<lparr>rq_resume_plan := Some PD_Reject\<rparr>))"

lemma demo_starts:
  "rq_resume_run_id q = None \<Longrightarrow> act_then (restore_cursor (demo_txn (demo_engine n q))) (recover_terminal (demo_txn (demo_engine n q))) demo_batch_state =
     (demo_batch_state, Ok None)"
  by (simp add: restore_cursor_def recover_terminal_def act_steps Let_def recover_content_terminal_def demo_txn_def demo_engine_def demo_batch_env_def
      demo_batch_state_def demo_parent_def run_session_new_def)


lemma demo_turns_new: "rq_resume_run_id q = None \<Longrightarrow> model_turns_new (demo_engine n q) demo_batch_state = demo_turns"
  by (simp add: model_turns_new_def Let_def demo_turns_def demo_engine_def demo_batch_env_def demo_batch_state_def demo_parent_def
      run_session_new_def is_content_def staged_model_turn_def)

lemma demo_run_end:
  assumes "rq_resume_run_id q = None" "rq_resume_plan q = None"
  shows "run_end (demo_txn (demo_engine n q)) None (model_turns_new (demo_engine n q) demo_batch_state) = turn_loop (demo_engine n q) demo_turns"
  using assms by (simp add: demo_turns_new)
    (simp add: run_end_def Let_def demo_txn_def demo_turns_def demo_engine_def demo_batch_env_def demo_batch_state_def demo_parent_def
      run_session_new_def recovered_text_report_def delivered_report_def)

text \<open>An unattended run whose configuration gives it no turn fails, and its operation stays open.\<close>

lemma demo_out_of_turns: "\<exists>s'. turn_loop (demo_engine 0 (run_request_new ''t'')) demo_turns = Some (s', Err (RE_MaxTurns 0)) \<and> no_runs (dm_batch s')"
  using demo_alone(2)
  by (subst turn_loop.simps) (simp add: loop_round_def next_turn_def act_steps on_batch_def bounds_def check_max_turns_def demo_loop_defs max_turns_def
      used_turns_def check_bounds_def cancel_requested_def empty_registry_def files_of_def empty_run_files_def tick_def no_runs_def empty_rows_def
      b_turns_def)


text \<open>A session host without a turn left parks.\<close>

theorem parked_transaction_resumable_witness:
  "\<exists>c res info p cp. transaction (demo_txn (demo_engine 0 demo_session_request)) demo_batch_state = Some (c, Ok res) \<and> rr_park res = Some info \<and>
     completions (cl_log c) = [] \<and> tells info p \<and> ba_pending (cl_batch c) = Some p \<and> last_saved (ba_trace (cl_batch c)) = Some cp \<and> cp_park cp = Some p"
proof -
  let ?e = "demo_engine 0 demo_session_request"
  have q: "rq_resume_run_id demo_session_request = None" "rq_resume_plan demo_session_request = None" "rq_session_wait demo_session_request"
    by (simp_all add: demo_session_request_def run_request_new_def)
  note 1 = demo_starts [OF q(1), of 0]
  obtain s' info e where s': "turn_loop ?e demo_turns = Some (s', Ok e)" and e: "le_park e = Some info" "le_termination e = RT_Parked"
    using demo_waits by fastforce
  then have 2: "run_end (demo_txn ?e) (map_option fst None) (model_turns_new (te_engine (demo_txn ?e)) demo_batch_state) = Some (s', Ok e)"
    using demo_run_end [OF q(1,2), of 0] by (simp add: demo_txn_def)
  have r: "be_request (te_batch (demo_txn ?e)) = demo_session_request" by (simp add: demo_txn_def demo_engine_def)
  obtain c x where t: "conclude_end (demo_txn ?e) (dm_usage s') e \<lparr>cl_batch = dm_batch s', cl_log = []\<rparr> = Some (c, x)"
  proof -
    have "returns (\<lambda>_. True) (conclude_end (demo_txn ?e) (dm_usage s') e)"
      unfolding conclude_end_def r e(2) using q(3) by (simp only: refl if_True) (intro returning; simp add: hoare_def)
    then show ?thesis using that by (auto simp: returns_def)
  qed
  moreover have "still_parked info \<lparr>cl_batch = dm_batch s', cl_log = []\<rparr>" using turn_loop_end [OF s'] e by (simp add: end_parked_def)
  ultimately obtain res where "x = Ok res" "rr_park res = Some info"
    using phoareD [OF conclude_end_parked [OF e(2)]] e(1) by (cases x) fastforce+
  with t have "transaction (demo_txn ?e) demo_batch_state = Some (c, Ok res)" "rr_park res = Some info"
    using 1 2 by (simp_all add: transaction_def Let_def)
  then show ?thesis using parked_transaction_resumable [of "demo_txn ?e" demo_batch_state c res info] by blast
qed

end
