(* ===== verification/Worker_Lifecycle.thy ===== *)
theory Worker_Lifecycle
  imports Evidence_Queue Actions
begin

section \<open>The lifecycle of a plane worker (worker_lifecycle.rs, worker_lifecycle/http_probe.rs)\<close>

text \<open>
  A worker that serves a remote plane publishes a document about itself: a file that the fleet reads, and
  the answers of a probe. \<open>worker\<close> is what the host keeps (\<open>Inner\<close>) with the two files it writes. A call of
  the operating system that fails is an oracle, numbered by its place: creating the directory, writing the
  temporary file, renaming it, removing the temporary file, removing the document.
\<close>

datatype terminal_outcome = TOC_Completed | TOC_Failed | TOC_Parked

datatype worker_state = WS_Ready | WS_Active | WS_Draining | WS_GovernanceUnavailable | WS_FenceLost | WS_Unhealthy

fun worker_state_text :: "worker_state \<Rightarrow> string" where
  "worker_state_text WS_Ready = ''ready''"
| "worker_state_text WS_Active = ''active''"
| "worker_state_text WS_Draining = ''draining''"
| "worker_state_text WS_GovernanceUnavailable = ''governance_unavailable''"
| "worker_state_text WS_FenceLost = ''fence_lost''"
| "worker_state_text WS_Unhealthy = ''unhealthy''"

definition ready_for_fleet :: "worker_state \<Rightarrow> bool" where
  "ready_for_fleet s \<longleftrightarrow> s = WS_Ready \<or> s = WS_Active"

definition WORKER_LIFECYCLE_PROTOCOL :: string where "WORKER_LIFECYCLE_PROTOCOL = ''shikigami.worker_lifecycle''"
definition WORKER_LIFECYCLE_SCHEMA_VERSION :: nat where "WORKER_LIFECYCLE_SCHEMA_VERSION = 1"
definition WORKER_LIFECYCLE_CONCURRENCY_V1 :: nat where "WORKER_LIFECYCLE_CONCURRENCY_V1 = 1"

record worker_identity =
  wi_worker_id :: string
  wi_namespace :: string
  wi_runtime_id :: string

record worker_snapshot =
  wn_schema_version :: nat
  wn_protocol :: string
  wn_product :: string
  wn_version :: string
  wn_worker_id :: string
  wn_namespace :: string
  wn_runtime_id :: string
  wn_intake :: string
  wn_state :: worker_state
  wn_accepting_claims :: bool
  wn_active_claims :: nat
  wn_active_runs :: nat
  wn_active_claim_ids :: "string list"
  wn_configured_concurrency :: nat
  wn_governance_ok :: bool
  wn_fencing_ok :: bool
  wn_terminal_completed :: nat
  wn_terminal_failed :: nat
  wn_terminal_parked :: nat
  wn_last_error_kind :: "string option"
  wn_delayed_evidence_depth :: nat
  wn_delayed_evidence_oldest_age_ms :: int
  wn_delayed_evidence_failure_class :: string

datatype worker_error = WE_Io | WE_Message string

text \<open>\<open>wk_document\<close> and \<open>wk_temporary\<close> are the contents of \<open>lifecycle.json\<close> and of \<open>lifecycle.json.tmp\<close>.\<close>

record worker =
  wk_identity :: worker_identity
  wk_draining :: bool
  wk_unhealthy :: bool
  wk_governance_ok :: bool
  wk_fencing_ok :: bool
  wk_active_claim_ids :: "string list"
  wk_terminal_completed :: nat
  wk_terminal_failed :: nat
  wk_terminal_parked :: nat
  wk_last_error_kind :: "string option"
  wk_delayed_evidence_depth :: nat
  wk_delayed_evidence_oldest_age_ms :: int
  wk_delayed_evidence_failure_class :: string
  wk_document :: "string option"
  wk_temporary :: "string option"

text \<open>The build's name and version, the JSON codec, what a failed write leaves in the temporary file.\<close>

record worker_env =
  we_product :: string
  we_version :: string
  we_json :: "worker_snapshot \<Rightarrow> (string, string) result"
  we_json_compact :: "worker_snapshot \<Rightarrow> string option"
  we_torn :: "string option"
  we_io :: "nat \<Rightarrow> bool"

subsection \<open>Snapshots\<close>

definition resolve_state :: "bool \<Rightarrow> bool \<Rightarrow> bool \<Rightarrow> bool \<Rightarrow> bool \<Rightarrow> worker_state" where
  "resolve_state unhealthy governance_ok fencing_ok draining has_active =
     (if unhealthy then WS_Unhealthy
      else if \<not> governance_ok then WS_GovernanceUnavailable
      else if \<not> fencing_ok then WS_FenceLost
      else if draining then WS_Draining
      else if has_active then WS_Active
      else WS_Ready)"

definition worker_snapshot_of :: "worker_env \<Rightarrow> worker \<Rightarrow> worker_snapshot" where
  "worker_snapshot_of en w =
     (let active = length (wk_active_claim_ids w) mod 2 ^ 32;
          state = resolve_state (wk_unhealthy w) (wk_governance_ok w) (wk_fencing_ok w) (wk_draining w) (active > 0);
          capacity = WORKER_LIFECYCLE_CONCURRENCY_V1
      in \<lparr>wn_schema_version = WORKER_LIFECYCLE_SCHEMA_VERSION, wn_protocol = WORKER_LIFECYCLE_PROTOCOL,
          wn_product = we_product en, wn_version = we_version en,
          wn_worker_id = wi_worker_id (wk_identity w), wn_namespace = wi_namespace (wk_identity w),
          wn_runtime_id = wi_runtime_id (wk_identity w), wn_intake = ''plane'', wn_state = state,
          wn_accepting_claims = (state = WS_Ready \<or> (state = WS_Active \<and> active < capacity)),
          wn_active_claims = active, wn_active_runs = active, wn_active_claim_ids = wk_active_claim_ids w,
          wn_configured_concurrency = capacity, wn_governance_ok = wk_governance_ok w, wn_fencing_ok = wk_fencing_ok w,
          wn_terminal_completed = wk_terminal_completed w, wn_terminal_failed = wk_terminal_failed w,
          wn_terminal_parked = wk_terminal_parked w, wn_last_error_kind = wk_last_error_kind w,
          wn_delayed_evidence_depth = wk_delayed_evidence_depth w,
          wn_delayed_evidence_oldest_age_ms = wk_delayed_evidence_oldest_age_ms w,
          wn_delayed_evidence_failure_class = wk_delayed_evidence_failure_class w\<rparr>)"

definition fail_closed_publish :: "worker_env \<Rightarrow> worker \<Rightarrow> worker" where
  "fail_closed_publish en w = w\<lparr>wk_unhealthy := True, wk_last_error_kind := Some ''lifecycle_publish_failed'',
     wk_document := (if we_io en 4 then None else wk_document w)\<rparr>"

definition write_snapshot :: "worker_env \<Rightarrow> (worker, worker_snapshot, worker_error) action" where
  "write_snapshot en w =
     (if \<not> we_io en 0 then (fail_closed_publish en w, Err WE_Io)
      else case we_json en (worker_snapshot_of en w) of
        Inl e \<Rightarrow> (fail_closed_publish en w, Err (WE_Message e))
      | Inr body \<Rightarrow>
          if \<not> we_io en 1 then (fail_closed_publish en (w\<lparr>wk_temporary := we_torn en\<rparr>), Err WE_Io)
          else if \<not> we_io en 2
          then (fail_closed_publish en (w\<lparr>wk_temporary := (if we_io en 3 then None else Some body)\<rparr>), Err WE_Io)
          else let w1 = w\<lparr>wk_document := Some body, wk_temporary := None\<rparr> in (w1, Ok (worker_snapshot_of en w1)))"

subsection \<open>Operations\<close>

definition publish_after :: "worker_env \<Rightarrow> (worker \<Rightarrow> worker) \<Rightarrow> (worker, unit, worker_error) action" where
  "publish_after en f = act_then (act_modify f) (act_then (write_snapshot en) (act_return ()))"

text \<open>A worker without names is refused; otherwise the host starts unhealthy, and publishes that.\<close>

definition worker_open :: "worker_env \<Rightarrow> string option \<Rightarrow> string option \<Rightarrow> worker_identity \<Rightarrow>
    (worker \<times> (unit, worker_error) result, worker_error) result" where
  "worker_open en document temporary identity =
     (if trim (wi_worker_id identity) = [] then Err (WE_Message ''worker_id must not be empty'')
      else if trim (wi_runtime_id identity) = [] then Err (WE_Message ''runtime_id must not be empty'')
      else Ok (publish_after en id \<lparr>wk_identity = identity, wk_draining = False, wk_unhealthy = True, wk_governance_ok = True,
               wk_fencing_ok = True, wk_active_claim_ids = [], wk_terminal_completed = 0, wk_terminal_failed = 0,
               wk_terminal_parked = 0, wk_last_error_kind = Some ''starting'', wk_delayed_evidence_depth = 0,
               wk_delayed_evidence_oldest_age_ms = 0, wk_delayed_evidence_failure_class = [],
               wk_document = document, wk_temporary = temporary\<rparr>))"

definition mark_serving :: "worker_env \<Rightarrow> (worker, unit, worker_error) action" where
  "mark_serving en = publish_after en (\<lambda>w. w\<lparr>wk_unhealthy := False, wk_draining := False, wk_fencing_ok := True,
     wk_last_error_kind := (if wk_last_error_kind w = Some ''starting'' \<or> wk_last_error_kind w = Some ''lifecycle_publish_failed''
       then None else wk_last_error_kind w)\<rparr>)"

definition set_draining :: "worker_env \<Rightarrow> (worker, unit, worker_error) action" where
  "set_draining en = publish_after en (\<lambda>w. w\<lparr>wk_draining := True\<rparr>)"

definition set_unhealthy :: "worker_env \<Rightarrow> string \<Rightarrow> (worker, unit, worker_error) action" where
  "set_unhealthy en kind = publish_after en (\<lambda>w. w\<lparr>wk_unhealthy := True, wk_last_error_kind := Some kind\<rparr>)"

definition set_governance_ok :: "worker_env \<Rightarrow> bool \<Rightarrow> (worker, unit, worker_error) action" where
  "set_governance_ok en ok = publish_after en (\<lambda>w. w\<lparr>wk_governance_ok := ok,
     wk_last_error_kind := (if \<not> ok then Some ''governance_unavailable'' else wk_last_error_kind w)\<rparr>)"

definition set_fence_lost :: "worker_env \<Rightarrow> string \<Rightarrow> (worker, unit, worker_error) action" where
  "set_fence_lost en kind = publish_after en (\<lambda>w. w\<lparr>wk_fencing_ok := False, wk_last_error_kind := Some kind\<rparr>)"

definition set_delayed_evidence :: "worker_env \<Rightarrow> queue_snapshot option \<Rightarrow> (worker, unit, worker_error) action" where
  "set_delayed_evidence en q = publish_after en (\<lambda>w. case q of
     Some s \<Rightarrow> w\<lparr>wk_delayed_evidence_depth := min (qs_depth s) u32_max,
       wk_delayed_evidence_oldest_age_ms := qs_oldest_age_ms s, wk_delayed_evidence_failure_class := qs_failure_class s\<rparr>
   | None \<Rightarrow> w\<lparr>wk_delayed_evidence_depth := 0, wk_delayed_evidence_oldest_age_ms := 0, wk_delayed_evidence_failure_class := []\<rparr>)"

definition begin_claim :: "worker_env \<Rightarrow> string \<Rightarrow> (worker, unit, worker_error) action" where
  "begin_claim en c = publish_after en (\<lambda>w. w\<lparr>wk_active_claim_ids := wk_active_claim_ids w @ [c], wk_fencing_ok := True\<rparr>)"

text \<open>The counters are of 64 bits.\<close>

definition count_terminal :: "terminal_outcome \<Rightarrow> worker \<Rightarrow> worker" where
  "count_terminal outcome w = (case outcome of
     TOC_Completed \<Rightarrow> w\<lparr>wk_terminal_completed := (wk_terminal_completed w + 1) mod 2 ^ 64\<rparr>
   | TOC_Failed \<Rightarrow> w\<lparr>wk_terminal_failed := (wk_terminal_failed w + 1) mod 2 ^ 64\<rparr>
   | TOC_Parked \<Rightarrow> w\<lparr>wk_terminal_parked := (wk_terminal_parked w + 1) mod 2 ^ 64\<rparr>)"

definition without_claim :: "string \<Rightarrow> worker \<Rightarrow> worker" where
  "without_claim c w = w\<lparr>wk_active_claim_ids := filter (\<lambda>i. i \<noteq> c) (wk_active_claim_ids w)\<rparr>"

definition end_claim_terminal :: "worker_env \<Rightarrow> string \<Rightarrow> terminal_outcome \<Rightarrow> (worker, unit, worker_error) action" where
  "end_claim_terminal en c outcome = publish_after en (\<lambda>w. count_terminal outcome (without_claim c w))"

definition drop_active_claim :: "worker_env \<Rightarrow> string \<Rightarrow> (worker, unit, worker_error) action" where
  "drop_active_claim en c = publish_after en (without_claim c)"

subsection \<open>The probe\<close>

record probe_reply_t =
  pr_status :: nat
  pr_body :: string

definition quoted :: "string \<Rightarrow> string" where
  "quoted s = [CHR 0x22] @ s @ [CHR 0x22]"

definition error_body :: "string \<Rightarrow> string" where
  "error_body e = ''{'' @ quoted ''error'' @ '':'' @ quoted e @ ''}''"

definition ok_body :: "bool \<Rightarrow> string" where
  "ok_body b = ''{'' @ quoted ''ok'' @ '':'' @ (if b then ''true'' else ''false'') @ ''}''"

definition is_get :: "string \<Rightarrow> bool" where
  "is_get meth \<longleftrightarrow> to_ascii_lowercase meth = ''get''"

definition probe_reply :: "worker_env \<Rightarrow> string \<Rightarrow> string \<Rightarrow> worker_snapshot \<Rightarrow> bool \<Rightarrow> probe_reply_t" where
  "probe_reply en meth path snap detail_routes =
     (if \<not> is_get meth then \<lparr>pr_status = 405, pr_body = error_body ''method_not_allowed''\<rparr>
      else if path = ''/livez'' \<or> path = ''/livez/''
      then (if wn_state snap = WS_Unhealthy then \<lparr>pr_status = 503, pr_body = ok_body False\<rparr>
            else \<lparr>pr_status = 200, pr_body = ok_body True\<rparr>)
      else if path = ''/readyz'' \<or> path = ''/readyz/''
      then (if ready_for_fleet (wn_state snap) then \<lparr>pr_status = 200, pr_body = ok_body True\<rparr>
            else \<lparr>pr_status = 503, pr_body = ''{'' @ quoted ''ok'' @ '':false,'' @ quoted ''state'' @ '':'' @
              quoted (worker_state_text (wn_state snap)) @ ''}''\<rparr>)
      else if (path = ''/lifecycle'' \<or> path = ''/lifecycle/'' \<or> path = ''/'') \<and> detail_routes
      then (case we_json_compact en snap of
          Some body \<Rightarrow> \<lparr>pr_status = 200, pr_body = body\<rparr>
        | None \<Rightarrow> \<lparr>pr_status = 500, pr_body = error_body ''serialize''\<rparr>)
      else \<lparr>pr_status = 404, pr_body = error_body ''not_found''\<rparr>)"

definition reason_phrase :: "nat \<Rightarrow> string" where
  "reason_phrase status = (if status = 200 then ''OK'' else if status = 404 then ''Not Found'' else if status = 405 then ''Method Not Allowed''
     else if status = 503 then ''Service Unavailable'' else ''Error'')"

definition crlf :: string where "crlf = [byte 13, byte 10]"

definition format_http :: "nat \<Rightarrow> string \<Rightarrow> string" where
  "format_http status body = ''HTTP/1.1 '' @ dec_string status @ '' '' @ reason_phrase status @ crlf @
     ''Content-Type: application/json'' @ crlf @ ''Content-Length: '' @ dec_string (length body) @ crlf @
     ''Connection: close'' @ crlf @ crlf @ body"

subsection \<open>What the fleet reads\<close>

text \<open>Every operation ends by publishing, so the document is that of the state it leaves, or is gone.\<close>

definition published :: "worker_env \<Rightarrow> worker \<Rightarrow> bool" where
  "published en w \<longleftrightarrow> (case wk_document w of None \<Rightarrow> True | Some body \<Rightarrow> we_json en (worker_snapshot_of en w) = Ok body)"

definition worker_at :: "worker_env \<Rightarrow> (nat \<Rightarrow> bool) \<Rightarrow> string option \<Rightarrow> worker_env" where
  "worker_at en io torn = en\<lparr>we_io := io, we_torn := torn\<rparr>"

lemma snapshot_same: "worker_snapshot_of (worker_at en io torn) w = worker_snapshot_of en w"
  "we_json (worker_at en io torn) = we_json en" "we_io (worker_at en io torn) = io"
  by (simp_all add: worker_snapshot_of_def worker_at_def)

lemma snapshot_files: "worker_snapshot_of en (w\<lparr>wk_document := d, wk_temporary := t\<rparr>) = worker_snapshot_of en w"
  by (simp add: worker_snapshot_of_def)

lemma write_published: "io 4 \<Longrightarrow> published en (fst (write_snapshot (worker_at en io torn) w))"
  by (auto simp: write_snapshot_def published_def fail_closed_publish_def snapshot_same snapshot_files Let_def split: sum.split)

lemma publish_after_state: "fst (publish_after en f w) = fst (write_snapshot en (f w))"
  by (auto simp: publish_after_def act_then_def act_bind_def act_modify_def act_return_def split: prod.split sum.split)

datatype worker_op = WO_Serving | WO_Publish | WO_Draining | WO_Unhealthy string | WO_Governance bool | WO_FenceLost string
  | WO_Evidence "queue_snapshot option" | WO_Begin string | WO_End string terminal_outcome | WO_Drop string

fun worker_step :: "worker_env \<Rightarrow> worker_op \<Rightarrow> (worker, unit, worker_error) action" where
  "worker_step en WO_Serving = mark_serving en"
| "worker_step en WO_Publish = publish_after en id"
| "worker_step en WO_Draining = set_draining en"
| "worker_step en (WO_Unhealthy kind) = set_unhealthy en kind"
| "worker_step en (WO_Governance ok) = set_governance_ok en ok"
| "worker_step en (WO_FenceLost kind) = set_fence_lost en kind"
| "worker_step en (WO_Evidence q) = set_delayed_evidence en q"
| "worker_step en (WO_Begin c) = begin_claim en c"
| "worker_step en (WO_End c outcome) = end_claim_terminal en c outcome"
| "worker_step en (WO_Drop c) = drop_active_claim en c"

lemmas worker_ops = mark_serving_def set_draining_def set_unhealthy_def set_governance_ok_def set_fence_lost_def
  set_delayed_evidence_def begin_claim_def end_claim_terminal_def drop_active_claim_def

lemma worker_step_published: "io 4 \<Longrightarrow> published en (fst (worker_step (worker_at en io torn) op w))"
  by (cases op; simp only: worker_step.simps worker_ops publish_after_state write_published)

text \<open>The hosts of one build over time: whatever calls of the operating system fail, as long as a document can be removed.\<close>

definition removable :: "(nat \<Rightarrow> bool) \<Rightarrow> bool" where
  "removable io \<longleftrightarrow> io 4"

inductive worker_run :: "worker_env \<Rightarrow> worker \<Rightarrow> bool" for en where
  opened: "removable io \<Longrightarrow> worker_open (worker_at en io torn) document temporary identity = Ok (w, r) \<Longrightarrow> worker_run en w"
| stepped: "worker_run en w \<Longrightarrow> removable io \<Longrightarrow> worker_run en (fst (worker_step (worker_at en io torn) op w))"

lemma worker_run_published: "worker_run en w \<Longrightarrow> published en w"
proof (induction rule: worker_run.induct)
  case (opened io torn document temporary identity w r)
  then show ?case using write_published [of io en torn] opened(1) publish_after_state [of "worker_at en io torn" id]
    by (auto simp: worker_open_def removable_def split: if_splits) (metis fst_conv)
next
  case (stepped w io torn op)
  then show ?case by (intro worker_step_published) (simp add: removable_def)
qed

lemma accepting_iff: "wn_accepting_claims (worker_snapshot_of en w) \<longleftrightarrow> wn_state (worker_snapshot_of en w) = WS_Ready"
  by (simp add: worker_snapshot_of_def Let_def resolve_state_def WORKER_LIFECYCLE_CONCURRENCY_V1_def)

lemma ready_iff: "wn_state (worker_snapshot_of en w) = WS_Ready \<longleftrightarrow> \<not> wk_unhealthy w \<and> wk_governance_ok w \<and> wk_fencing_ok w \<and>
    \<not> wk_draining w \<and> length (wk_active_claim_ids w) mod 2 ^ 32 = 0"
  by (simp add: worker_snapshot_of_def Let_def resolve_state_def)

lemma get_is_get: "is_get ''GET''"
  by code_simp

text \<open>
  \<^bold>\<open>C15\<close> What the fleet reads is the truth or nothing: however the host got here, the published document is that of
  its present state, unless there is none; it offers to take a claim exactly when the host is healthy, governed, fenced,
  not draining and without a claim; and the probe answers ready exactly for a host that could serve.
\<close>

theorem worker_document_current:
  assumes "worker_run en w" and "length (wk_active_claim_ids w) < 2 ^ 32"
  shows "(\<forall>body. wk_document w = Some body \<longrightarrow> we_json en (worker_snapshot_of en w) = Ok body) \<and>
    (wn_accepting_claims (worker_snapshot_of en w) \<longleftrightarrow> \<not> wk_unhealthy w \<and> wk_governance_ok w \<and> wk_fencing_ok w \<and>
      \<not> wk_draining w \<and> wk_active_claim_ids w = []) \<and>
    (pr_status (probe_reply en ''GET'' ''/readyz'' (worker_snapshot_of en w) detail) = 200 \<longleftrightarrow>
      \<not> wk_unhealthy w \<and> wk_governance_ok w \<and> wk_fencing_ok w \<and> \<not> wk_draining w)"
proof -
  have "published en w" by (rule worker_run_published [OF assms(1)])
  then have "\<forall>body. wk_document w = Some body \<longrightarrow> we_json en (worker_snapshot_of en w) = Ok body"
    by (auto simp: published_def split: option.splits)
  moreover have "pr_status (probe_reply en ''GET'' ''/readyz'' (worker_snapshot_of en w) detail) = 200 \<longleftrightarrow>
      \<not> wk_unhealthy w \<and> wk_governance_ok w \<and> wk_fencing_ok w \<and> \<not> wk_draining w"
    by (simp add: probe_reply_def get_is_get ready_for_fleet_def worker_snapshot_of_def Let_def resolve_state_def)
  ultimately show ?thesis using assms(2) by (simp add: accepting_iff ready_iff)
qed

definition demo_worker_env :: worker_env where
  "demo_worker_env = \<lparr>we_product = ''p'', we_version = ''v'', we_json = (\<lambda>n. Ok (worker_state_text (wn_state n))),
     we_json_compact = (\<lambda>_. None), we_torn = None, we_io = (\<lambda>_. True)\<rparr>"

definition demo_worker_identity :: worker_identity where
  "demo_worker_identity = \<lparr>wi_worker_id = ''w'', wi_namespace = ''n'', wi_runtime_id = ''r''\<rparr>"

lemma demo_at: "worker_at demo_worker_env (\<lambda>_. True) None = demo_worker_env"
  by (simp add: worker_at_def demo_worker_env_def)

lemma demo_worker_serves: "\<exists>w r. worker_run demo_worker_env (fst (worker_step demo_worker_env WO_Serving w)) \<and>
    worker_open demo_worker_env None None demo_worker_identity = Ok (w, r) \<and> wk_active_claim_ids w = []"
proof -
  have "trim ''w'' \<noteq> []" "trim ''r'' \<noteq> []" by (simp_all add: trim_visible visible_def)
  then obtain w r where o: "worker_open demo_worker_env None None demo_worker_identity = Ok (w, r)" "wk_active_claim_ids w = []"
    by (simp add: worker_open_def demo_worker_identity_def publish_after_def act_then_def act_bind_def act_modify_def write_snapshot_def
        demo_worker_env_def Let_def act_return_def)
  then have "worker_run demo_worker_env w"
    using worker_run.opened [of "\<lambda>_. True" demo_worker_env None None None demo_worker_identity w r] by (simp add: demo_at removable_def)
  then have "worker_run demo_worker_env (fst (worker_step demo_worker_env WO_Serving w))"
    using worker_run.stepped [of demo_worker_env w "\<lambda>_. True" None WO_Serving] by (simp add: demo_at removable_def)
  with o show ?thesis by blast
qed

theorem worker_document_current_witness:
  "\<exists>w. worker_run demo_worker_env w \<and> (\<forall>body. wk_document w = Some body \<longrightarrow> we_json demo_worker_env (worker_snapshot_of demo_worker_env w) = Ok body)"
proof -
  obtain w r where w: "worker_run demo_worker_env (fst (worker_step demo_worker_env WO_Serving w))" "wk_active_claim_ids w = []"
    using demo_worker_serves by blast
  have "wk_active_claim_ids (fst (worker_step demo_worker_env WO_Serving w)) = []" using w(2)
    by (simp add: mark_serving_def publish_after_state write_snapshot_def demo_worker_env_def Let_def)
  then show ?thesis using worker_document_current [OF w(1)] w(1) by auto
qed

end
