(* ===== verification/Plane_Serve.thy ===== *)
theory Plane_Serve
  imports Plane_Claims Worker_Lifecycle Partial_Actions Tool_Batch
begin

section \<open>Serving claims (src/plane\_intake/claimed\_run.rs, src/plane\_intake/serve\_loop.rs)\<close>

text \<open>
  One claim after another: take it, run it under its lease, acknowledge it. Every answer from outside is a
  function of the moment it is asked: whether a shutdown was asked for, or is during a sleep; the plane (\<open>None\<close> when the call's window ran out first), the race of
  a running run against the next heartbeat and a shutdown, the run itself. \<open>ps_log\<close> logs what the host does
  to the plane and to runs, newest first. Nothing bounds how long a run takes or how long a host serves.
\<close>

subsection \<open>The host\<close>

datatype harness_error = HN_Governance governance_error | HN_Run run_error | HN_Other string

datatype race = RC_Finished "(run_result, harness_error) result" | RC_Heartbeat | RC_Shutdown

record plane_options =
  po_poll_interval :: nat
  po_max_jobs :: "nat option"
  po_claim_ttl :: nat
  po_heartbeat_interval :: nat
  po_ack_retry_limit :: nat
  po_checkpoint_store_id :: "string option"
  po_policy :: work_policy

record plane_env =
  pe_options :: plane_options
  pe_codec :: claim_codec
  pe_worker :: "nat \<Rightarrow> worker_env"
  pe_now :: "nat \<Rightarrow> nat"
  pe_now_ms :: "nat \<Rightarrow> int"
  pe_shutdown :: "nat \<Rightarrow> bool"
  pe_sleep :: "nat \<Rightarrow> nat \<Rightarrow> bool"
  pe_uuid :: "nat \<Rightarrow> string"
  pe_namespace :: string
  pe_parked_digest :: "nat \<Rightarrow> string \<Rightarrow> string option"
  pe_race :: "nat \<Rightarrow> nat \<Rightarrow> race"
  pe_claim_next :: "nat \<Rightarrow> (plane_claim option, plane_error) result option"
  pe_heartbeat :: "nat \<Rightarrow> string \<Rightarrow> claim_lease \<Rightarrow> (claim_lease, plane_error) result option"
  pe_ack :: "nat \<Rightarrow> string \<Rightarrow> claim_lease \<Rightarrow> plane_ack \<Rightarrow> (unit, plane_error) result option"
  pe_event :: "nat \<Rightarrow> string \<Rightarrow> claim_lease \<Rightarrow> claim_event_kind \<Rightarrow> string \<Rightarrow> string \<Rightarrow> string \<Rightarrow> (unit, plane_error) result option"
  pe_artifact_json :: "nat \<Rightarrow> run_result \<Rightarrow> string"
  pe_reconcile_ok :: "nat \<Rightarrow> bool"
  pe_governance_ok :: "nat \<Rightarrow> bool"
  pe_delayed_evidence :: "nat \<Rightarrow> queue_snapshot option"
  pe_show_intake :: "plane_error \<Rightarrow> string"
  pe_show_harness :: "harness_error \<Rightarrow> string"

text \<open>A fenced call with its moment, its window and the end of the lease; the run started, finished, cancelled; the
  acknowledgement the plane took; a claim begun, with how many are active then.\<close>

datatype plane_event = PV_Called nat nat nat | PV_Run run_request bool | PV_Finished "(run_result, harness_error) result" | PV_Cancelled | PV_Acked string plane_ack | PV_Begun nat

record plane_state =
  ps_worker :: "worker option"
  ps_lease :: claim_lease
  ps_credential :: "job_credential option"
  ps_clock :: nat
  ps_log :: "plane_event list"

type_synonym 'a plane_step = "(plane_state, 'a, plane_error) action"
type_synonym 'a plane_run = "(plane_state, 'a, plane_error) paction"

definition log_plane :: "plane_event \<Rightarrow> unit plane_step" where
  "log_plane e = act_modify (\<lambda>s. s\<lparr>ps_log := e # ps_log s\<rparr>)"

definition asked :: "(nat \<Rightarrow> 'a) \<Rightarrow> 'a plane_step" where
  "asked f = (\<lambda>s. (s\<lparr>ps_clock := Suc (ps_clock s)\<rparr>, Ok (f (ps_clock s))))"

text \<open>The lifecycle is optional, and its failures are ignored.\<close>

definition on_worker :: "plane_env \<Rightarrow> (worker_env \<Rightarrow> (worker, unit, worker_error) action) \<Rightarrow> unit plane_step" where
  "on_worker en f = (\<lambda>s. (s\<lparr>ps_clock := Suc (ps_clock s),
     ps_worker := map_option (\<lambda>w. fst (f (pe_worker en (ps_clock s)) w)) (ps_worker s)\<rparr>, Ok ()))"

subsection \<open>Calls under a lease\<close>

text \<open>Durations in nanoseconds.\<close>

definition ms :: "nat \<Rightarrow> nat" where "ms n = n * 1000000"

definition clamp :: "nat \<Rightarrow> nat \<Rightarrow> nat \<Rightarrow> nat" where
  "clamp lo hi n = (if n < lo then lo else if n > hi then hi else n)"

definition claim_call_window :: "nat \<Rightarrow> claim_lease \<Rightarrow> nat \<Rightarrow> (nat, plane_error) result" where
  "claim_call_window now lease maximum =
     (let remaining = cl_valid_until lease - now in
      if remaining \<le> ms 20 then Err (PI_FenceLost ''claim lease has no safe time remaining'')
      else Ok (min maximum (remaining - clamp (ms 10) (ms 250) (remaining div 10))))"

definition next_heartbeat :: "nat \<Rightarrow> claim_lease \<Rightarrow> nat \<Rightarrow> nat" where
  "next_heartbeat now lease interval = min interval ((cl_valid_until lease - now) div 2)"

definition fenced_retry_sleep :: "nat \<Rightarrow> nat \<Rightarrow> nat \<Rightarrow> nat \<Rightarrow> nat" where
  "fenced_retry_sleep now valid_until retry_interval heartbeat_interval =
     min (min retry_interval (heartbeat_interval div 2)) ((valid_until - now) div 2)"

definition with_lease :: "(claim_lease \<Rightarrow> 'a plane_step) \<Rightarrow> 'a plane_step" where
  "with_lease k = act_with (\<lambda>s. k (ps_lease s))"

text \<open>\<open>ps_lease\<close> is the lease of the latest claim. A call is given the window that ends safely before the lease; without one it is not made.\<close>

definition fenced_call :: "plane_env \<Rightarrow> (nat \<Rightarrow> claim_lease \<Rightarrow> 'a) \<Rightarrow> 'a plane_step" where
  "fenced_call en call = with_lease (\<lambda>lease. act_bind (asked (\<lambda>n. n)) (\<lambda>n.
     case claim_call_window (pe_now en n) lease (po_heartbeat_interval (pe_options en)) of
       Inl e \<Rightarrow> act_fail e
     | Inr window \<Rightarrow> act_then (log_plane (PV_Called (pe_now en n) window (cl_valid_until lease))) (act_return (call n lease))))"

datatype fenced_op = FO_Ack plane_ack | FO_Event claim_event_kind string string string

definition op_text :: "fenced_op \<Rightarrow> string \<Rightarrow> string \<Rightarrow> string" where
  "op_text op ack event = (case op of FO_Ack _ \<Rightarrow> ack | FO_Event _ _ _ _ \<Rightarrow> event)"

definition timeout_message :: "fenced_op \<Rightarrow> string" where
  "timeout_message op = op_text op ''acknowledgement timed out before the lease safety deadline'' ''claim event timed out before the lease safety deadline''"

definition heartbeat_message :: "fenced_op \<Rightarrow> string" where
  "heartbeat_message op = op_text op ''acknowledgement heartbeat exceeded the lease safety deadline'' ''claim-event heartbeat exceeded the lease safety deadline''"

definition shutdown_message :: "fenced_op \<Rightarrow> string" where
  "shutdown_message op = op_text op ''shutdown requested while acknowledgement was retrying'' ''shutdown requested while claim event was retrying''"

definition dispatch :: "plane_env \<Rightarrow> string \<Rightarrow> fenced_op \<Rightarrow> nat \<Rightarrow> claim_lease \<Rightarrow> (unit, plane_error) result option" where
  "dispatch en effect op n lease = (case op of
     FO_Ack ack \<Rightarrow> pe_ack en n effect lease ack
   | FO_Event kind digest reason request_id \<Rightarrow> pe_event en n effect lease kind digest reason request_id)"

definition set_lease :: "claim_lease \<Rightarrow> unit plane_step" where
  "set_lease lease = act_modify (\<lambda>s. s\<lparr>ps_lease := lease\<rparr>)"

definition note_taken :: "string \<Rightarrow> fenced_op \<Rightarrow> unit plane_step" where
  "note_taken effect op = (case op of FO_Ack ack \<Rightarrow> log_plane (PV_Acked effect ack) | FO_Event _ _ _ _ \<Rightarrow> act_return ())"

text \<open>Between two attempts: the fence is renewed, and the host sleeps at most half of it.\<close>

definition renew_for_retry :: "plane_env \<Rightarrow> string \<Rightarrow> fenced_op \<Rightarrow> unit plane_step" where
  "renew_for_retry en effect op = act_bind (fenced_call en (\<lambda>n lease. pe_heartbeat en n effect lease)) (\<lambda>r. case r of
     None \<Rightarrow> act_fail (PI_FenceLost (heartbeat_message op))
   | Some (Inl e) \<Rightarrow> act_fail e
    | Some (Inr lease) \<Rightarrow> act_then (set_lease lease)
       (act_bind (asked (\<lambda>n. pe_sleep en n (fenced_retry_sleep (pe_now en n) (cl_valid_until lease)
          (clamp (ms 100) (ms 250) (po_poll_interval (pe_options en))) (po_heartbeat_interval (pe_options en))))) (\<lambda>stop. if stop then act_fail (PI_Source (shutdown_message op)) else act_return ())))"

text \<open>\<open>attempts\<close> is how many are left; a limit of zero is refused before serving.\<close>

fun retry_while_fenced :: "plane_env \<Rightarrow> string \<Rightarrow> fenced_op \<Rightarrow> nat \<Rightarrow> unit plane_step" where
  "retry_while_fenced en effect op 0 = act_fail (PI_Source ''positive acknowledgement retry limit validated'')"
| "retry_while_fenced en effect op (Suc attempts) = act_bind (fenced_call en (dispatch en effect op)) (\<lambda>r.
     let again = (\<lambda>e. if attempts = 0 then act_fail e
       else act_bind (asked (pe_shutdown en)) (\<lambda>stop. if stop then act_fail (PI_Source (shutdown_message op))
         else act_then (renew_for_retry en effect op) (retry_while_fenced en effect op attempts)))
     in case r of
       Some (Inr _) \<Rightarrow> note_taken effect op
     | Some (Inl (PI_FenceLost kind)) \<Rightarrow> act_fail (PI_FenceLost kind)
     | Some (Inl e) \<Rightarrow> again e
     | None \<Rightarrow> again (PI_Source (timeout_message op)))"

definition ack_with_retry :: "plane_env \<Rightarrow> string \<Rightarrow> plane_ack \<Rightarrow> unit plane_step" where
  "ack_with_retry en effect ack = retry_while_fenced en effect (FO_Ack ack) (po_ack_retry_limit (pe_options en))"

definition report_claim_event :: "plane_env \<Rightarrow> string \<Rightarrow> claim_event_kind \<times> string \<times> string \<Rightarrow> unit plane_step" where
  "report_claim_event en effect = (\<lambda>(kind, digest, reason). act_bind (asked (pe_uuid en)) (\<lambda>request_id.
     retry_while_fenced en effect (FO_Event kind digest reason request_id) (po_ack_retry_limit (pe_options en))))"

subsection \<open>One claim\<close>

datatype execution = EX_Continue | EX_Shutdown | EX_GovernanceUnavailable

definition start_draining :: "plane_env \<Rightarrow> unit plane_step" where
  "start_draining en = on_worker en set_draining"

definition drain_claim :: "plane_env \<Rightarrow> string \<Rightarrow> unit plane_step" where
  "drain_claim en effect = act_then (start_draining en) (on_worker en (\<lambda>we. drop_active_claim we effect))"

definition harness_error_is_governance :: "harness_error \<Rightarrow> bool" where
  "harness_error_is_governance e = (case e of HN_Governance _ \<Rightarrow> True | HN_Run (RE_Governance _) \<Rightarrow> True | _ \<Rightarrow> False)"

definition observe_error :: "plane_env \<Rightarrow> string \<Rightarrow> plane_error \<Rightarrow> unit plane_step" where
  "observe_error en effect e = act_then (on_worker en (\<lambda>we. drop_active_claim we effect)) (case e of
     PI_FenceLost kind \<Rightarrow> on_worker en (\<lambda>we. set_fence_lost we kind)
   | PI_Source message \<Rightarrow> if contains ''shutdown requested'' message then start_draining en
       else on_worker en (\<lambda>we. set_governance_ok we False)
   | PI_Harness _ \<Rightarrow> on_worker en (\<lambda>we. set_governance_ok we False)
   | PI_Mapping _ \<Rightarrow> act_return ())"

text \<open>A failure is noted in the lifecycle and passed on.\<close>

definition observed :: "plane_env \<Rightarrow> string \<Rightarrow> unit plane_step \<Rightarrow> unit plane_step" where
  "observed en effect m = act_catch m (\<lambda>e. act_then (observe_error en effect e) (act_fail e))"

definition bounded_reason :: "string \<Rightarrow> string" where
  "bounded_reason reason = take_chars 512 reason"

definition failed_ack :: "plane_env \<Rightarrow> string \<Rightarrow> plane_ack plane_step" where
  "failed_ack en reason = act_bind (asked (pe_uuid en)) (\<lambda>request_id. act_return \<lparr>ak_outcome = AO_Failed, ak_reason = bounded_reason reason,
     ak_request_id = request_id, ak_checkpoint = None, ak_artifact_json = []\<rparr>)"

definition credential_of :: "plane_env \<Rightarrow> nat \<Rightarrow> claim_lease \<Rightarrow> job_credential option" where
  "credential_of en n lease = credential_live (tk_value (cl_runtime_token lease)) (tk_expires_at_ms (cl_runtime_token lease)) []
     (pe_namespace en) (pe_now_ms en n)"

definition park_reason :: "run_result \<Rightarrow> string" where
  "park_reason r = (case rr_park r of Some p \<Rightarrow> pi_reason p @ ''; question: '' @ pi_question p | None \<Rightarrow> rr_summary r)"

definition checkpoint_for_park :: "plane_env \<Rightarrow> nat \<Rightarrow> string option \<Rightarrow> string \<Rightarrow> plane_checkpoint option" where
  "checkpoint_for_park en n store_id run = Option.bind store_id (\<lambda>sid.
     if trim sid = [] then None
     else map_option (\<lambda>digest. \<lparr>kp_store_id = sid, kp_reference = run, kp_digest = digest\<rparr>) (pe_parked_digest en n run))"

definition terminal_of :: "ack_outcome \<Rightarrow> terminal_outcome" where
  "terminal_of o1 = (case o1 of AO_Completed \<Rightarrow> TOC_Completed | AO_Failed \<Rightarrow> TOC_Failed | AO_Parked \<Rightarrow> TOC_Parked)"

text \<open>What the plane is told of a run, and whether governance failed.\<close>

definition ack_of_run :: "plane_env \<Rightarrow> (run_result, harness_error) result \<Rightarrow> (plane_ack \<times> bool) plane_step" where
  "ack_of_run en r = (case r of
     Inr res \<Rightarrow>
       if rr_termination res = RT_Parked
       then act_bind (asked (\<lambda>n. \<lparr>ak_outcome = AO_Parked, ak_reason = bounded_reason (park_reason res), ak_request_id = pe_uuid en n,
              ak_checkpoint = checkpoint_for_park en n (po_checkpoint_store_id (pe_options en)) (rr_run_id res), ak_artifact_json = []\<rparr>))
            (\<lambda>ack. act_return (ack, False))
       else if rr_success res
       then act_bind (asked (\<lambda>n. \<lparr>ak_outcome = AO_Completed, ak_reason = bounded_reason (rr_summary res), ak_request_id = pe_uuid en n,
              ak_checkpoint = None, ak_artifact_json = pe_artifact_json en n res\<rparr>)) (\<lambda>ack. act_return (ack, False))
       else act_bind (failed_ack en (rr_summary res)) (\<lambda>ack. act_return (ack, False))
   | Inl e \<Rightarrow> act_then (if harness_error_is_governance e then on_worker en (\<lambda>we. set_governance_ok we False) else act_return ())
       (act_bind (failed_ack en (pe_show_harness en e)) (\<lambda>ack. act_return (ack, harness_error_is_governance e))))"

definition fail_closed_after_fence_loss :: "plane_env \<Rightarrow> string \<Rightarrow> plane_error \<Rightarrow> 'a plane_step" where
  "fail_closed_after_fence_loss en effect e = act_then (log_plane PV_Cancelled) (act_then (observe_error en effect e) (act_fail e))"

text \<open>A heartbeat during a run: the new lease, and its token for the children of the run.\<close>

definition beat :: "plane_env \<Rightarrow> string \<Rightarrow> bool \<Rightarrow> unit plane_step" where
  "beat en effect handle = act_bind (act_attempt (fenced_call en (\<lambda>n lease. pe_heartbeat en n effect lease))) (\<lambda>r. case r of
     Inl e \<Rightarrow> fail_closed_after_fence_loss en effect e
   | Inr None \<Rightarrow> fail_closed_after_fence_loss en effect (PI_FenceLost ''heartbeat did not complete before the lease safety deadline'')
   | Inr (Some (Inl e)) \<Rightarrow> fail_closed_after_fence_loss en effect e
   | Inr (Some (Inr lease)) \<Rightarrow> act_then (set_lease lease) (if \<not> handle then act_return ()
       else act_bind (asked (\<lambda>n. credential_of en n lease)) (\<lambda>c. act_modify (\<lambda>s. s\<lparr>ps_credential := c\<rparr>))))"

text \<open>The run against its heartbeats and a shutdown; \<open>None\<close> is the shutdown.\<close>

partial_function (option) run_under_lease :: "plane_env \<Rightarrow> string \<Rightarrow> bool \<Rightarrow> plane_state \<Rightarrow>
    (plane_state \<times> ((run_result, harness_error) result option, plane_error) result) option" where
  "run_under_lease en effect handle s = (case with_lease (\<lambda>lease. asked (\<lambda>n. pe_race en n (next_heartbeat (pe_now en n) lease (po_heartbeat_interval (pe_options en))))) s of
     (s1, Inl e) \<Rightarrow> Some (s1, Err e)
   | (s1, Inr (RC_Finished r)) \<Rightarrow> Some (act_then (log_plane (PV_Finished r)) (act_return (Some r)) s1)
   | (s1, Inr RC_Shutdown) \<Rightarrow> Some (act_then (start_draining en) (act_then (log_plane PV_Cancelled)
       (act_then (on_worker en (\<lambda>we. drop_active_claim we effect)) (act_return None))) s1)
   | (s1, Inr RC_Heartbeat) \<Rightarrow> (case beat en effect handle s1 of
       (s2, Inl e) \<Rightarrow> Some (s2, Err e)
     | (s2, Inr _) \<Rightarrow> run_under_lease en effect handle s2))"

definition refuse_claim :: "plane_env \<Rightarrow> string \<Rightarrow> plane_error \<Rightarrow> execution plane_step" where
  "refuse_claim en effect e = act_bind (failed_ack en (pe_show_intake en e)) (\<lambda>ack.
     act_then (observed en effect (ack_with_retry en effect ack))
       (act_then (on_worker en (\<lambda>we. end_claim_terminal we effect TOC_Failed)) (act_return EX_Continue)))"

definition conclude_claim :: "plane_env \<Rightarrow> string \<Rightarrow> prepared_claim \<Rightarrow> (run_result, harness_error) result \<Rightarrow> execution plane_step" where
  "conclude_claim en effect p r = act_then
     (if pq_resumed p \<and> (case r of Inr res \<Rightarrow> rr_success res | Inl _ \<Rightarrow> False)
      then observed en effect (report_claim_event en effect (CE_ResumeSucceeded, pq_checkpoint_digest p, [])) else act_return ())
     (act_bind (ack_of_run en r) (\<lambda>(ack, governance_abort). act_then (observed en effect (ack_with_retry en effect ack))
       (act_then (on_worker en (\<lambda>we. end_claim_terminal we effect (terminal_of (ak_outcome ack))))
         (act_return (if governance_abort then EX_GovernanceUnavailable else EX_Continue)))))"

definition run_claim :: "plane_env \<Rightarrow> string \<Rightarrow> prepared_claim \<Rightarrow> execution plane_run" where
  "run_claim en effect p = pa_then (pa_lift (act_each (\<lambda>ev. observed en effect (report_claim_event en effect ev)) (pq_events p)))
     (pa_bind (pa_lift (asked (pe_shutdown en))) (\<lambda>stop.
       if stop then pa_lift (act_then (drain_claim en effect) (act_return EX_Shutdown))
       else pa_then (pa_lift (log_plane (PV_Run (pq_request p) (pq_resumed p))))
         (pa_with (\<lambda>s. pa_bind (run_under_lease en effect (ps_credential s \<noteq> None)) (\<lambda>r. case r of
           None \<Rightarrow> pa_return EX_Shutdown
         | Some result \<Rightarrow> pa_lift (conclude_claim en effect p result))))))"

definition active_count :: "plane_state \<Rightarrow> nat" where
  "active_count s = (case ps_worker s of None \<Rightarrow> 0 | Some w \<Rightarrow> length (wk_active_claim_ids w))"

definition execute_claim :: "plane_env \<Rightarrow> plane_claim \<Rightarrow> execution plane_run" where
  "execute_claim en pc = (let effect = cw_effect_id (pm_work pc) in
     pa_then (pa_lift (act_then (act_modify (\<lambda>s. s\<lparr>ps_lease := pm_lease pc, ps_credential := None\<rparr>))
       (act_then (on_worker en (\<lambda>we. begin_claim we effect)) (act_with (\<lambda>s. log_plane (PV_Begun (active_count s)))))))
     (pa_bind (pa_lift (asked (\<lambda>n. prepare_claimed_run (pe_codec en) (pe_parked_digest en n) (po_checkpoint_store_id (pe_options en))
         (po_policy (pe_options en)) (pm_work pc)))) (\<lambda>r. case r of
       Inl e \<Rightarrow> pa_lift (refuse_claim en effect e)
     | Inr p \<Rightarrow> pa_then (pa_lift (act_bind (asked (\<lambda>n. credential_of en n (pm_lease pc))) (\<lambda>c. act_modify (\<lambda>s. s\<lparr>ps_credential := c\<rparr>))))
         (run_claim en effect p))))"

subsection \<open>The loop\<close>

definition copy_delayed_evidence :: "plane_env \<Rightarrow> unit plane_step" where
  "copy_delayed_evidence en = act_with (\<lambda>s. on_worker en (\<lambda>we. set_delayed_evidence we (pe_delayed_evidence en (ps_clock s))))"

text \<open>A failure of the evidence queue or of the adapter demotes the host; nothing promotes it again.\<close>

definition demote :: "plane_env \<Rightarrow> (nat \<Rightarrow> bool) \<Rightarrow> unit plane_step" where
  "demote en ok = act_bind (asked ok) (\<lambda>b. if b then act_return () else on_worker en (\<lambda>we. set_governance_ok we False))"

definition check_health :: "plane_env \<Rightarrow> unit plane_step" where
  "check_health en = act_then (demote en (pe_reconcile_ok en)) (act_with (\<lambda>s. if ps_worker s = None then act_return ()
     else act_then (demote en (pe_governance_ok en)) (copy_delayed_evidence en)))"

datatype serve_end = SE_Again nat | SE_Done nat

definition observe_claim_error :: "plane_env \<Rightarrow> plane_error \<Rightarrow> unit plane_step" where
  "observe_claim_error en e = (case e of
     PI_FenceLost kind \<Rightarrow> on_worker en (\<lambda>we. set_fence_lost we kind)
   | PI_Source _ \<Rightarrow> on_worker en (\<lambda>we. set_governance_ok we False)
   | PI_Harness _ \<Rightarrow> on_worker en (\<lambda>we. set_governance_ok we False)
   | PI_Mapping _ \<Rightarrow> act_return ())"

definition drained :: "plane_env \<Rightarrow> nat \<Rightarrow> serve_end plane_step" where
  "drained en completed = act_then (start_draining en) (act_return (SE_Done completed))"

definition poll_sleep :: "plane_env \<Rightarrow> nat \<Rightarrow> serve_end plane_step" where
  "poll_sleep en completed = act_bind (asked (\<lambda>n. pe_sleep en n (po_poll_interval (pe_options en))))
     (\<lambda>stop. if stop then drained en completed else act_return (SE_Again completed))"

text \<open>A host that may not take a claim sleeps, unless it is draining.\<close>

definition not_accepting :: "plane_env \<Rightarrow> nat \<Rightarrow> worker_state \<Rightarrow> serve_end plane_step" where
  "not_accepting en completed state = (if state = WS_Draining then act_return (SE_Done completed)
     else act_bind (asked (pe_shutdown en)) (\<lambda>stop. if stop then act_return (SE_Done completed) else poll_sleep en completed))"

definition serve_claim :: "plane_env \<Rightarrow> nat \<Rightarrow> plane_claim \<Rightarrow> serve_end plane_run" where
  "serve_claim en completed pc = pa_bind (pa_lift (asked (pe_shutdown en))) (\<lambda>stop. if stop then pa_lift (drained en completed)
     else pa_bind (execute_claim en pc) (\<lambda>x. case x of
       EX_Continue \<Rightarrow> pa_lift (act_then (copy_delayed_evidence en) (act_return (SE_Again (Suc completed))))
     | EX_Shutdown \<Rightarrow> pa_return (SE_Done (Suc completed))
     | EX_GovernanceUnavailable \<Rightarrow> pa_fail (PI_Source ''governance unavailable during run; plane serve exiting for replacement'')))"

definition take_claim :: "plane_env \<Rightarrow> nat \<Rightarrow> serve_end plane_run" where
  "take_claim en completed = pa_bind (pa_lift (asked (pe_claim_next en))) (\<lambda>r. case r of
     None \<Rightarrow> pa_lift (drained en completed)
   | Some (Inl e) \<Rightarrow> pa_then (pa_lift (observe_claim_error en e)) (pa_fail e)
   | Some (Inr None) \<Rightarrow> pa_lift (poll_sleep en completed)
   | Some (Inr (Some pc)) \<Rightarrow> serve_claim en completed pc)"

definition accepting :: "plane_env \<Rightarrow> plane_state \<Rightarrow> worker_snapshot option" where
  "accepting en s = map_option (worker_snapshot_of (pe_worker en (ps_clock s))) (ps_worker s)"

definition serve_round :: "plane_env \<Rightarrow> nat \<Rightarrow> serve_end plane_run" where
  "serve_round en completed = pa_bind (pa_lift (asked (pe_shutdown en))) (\<lambda>stop.
     if stop then pa_lift (drained en completed)
     else if (case po_max_jobs (pe_options en) of Some limit \<Rightarrow> completed \<ge> limit | None \<Rightarrow> False) then pa_lift (drained en completed)
     else pa_then (pa_lift (check_health en)) (pa_with (\<lambda>s. case accepting en s of
         Some snap \<Rightarrow> if wn_accepting_claims snap then take_claim en completed
           else pa_lift (not_accepting en completed (wn_state snap))
       | None \<Rightarrow> take_claim en completed)))"

partial_function (option) serve_rounds :: "plane_env \<Rightarrow> nat \<Rightarrow> plane_state \<Rightarrow> (plane_state \<times> (nat, plane_error) result) option" where
  "serve_rounds en completed s = (case serve_round en completed s of
     None \<Rightarrow> None
   | Some (s1, Inl e) \<Rightarrow> Some (s1, Err e)
   | Some (s1, Inr (SE_Done n)) \<Rightarrow> Some (s1, Ok n)
   | Some (s1, Inr (SE_Again n)) \<Rightarrow> serve_rounds en n s1)"

definition serve_start :: "plane_env \<Rightarrow> unit plane_step" where
  "serve_start en = act_then (demote en (pe_reconcile_ok en)) (act_with (\<lambda>s. if ps_worker s = None then act_return ()
     else act_then (demote en (pe_governance_ok en)) (act_then (copy_delayed_evidence en) (on_worker en (\<lambda>we. publish_after we id)))))"

definition run_plane_serve :: "plane_env \<Rightarrow> plane_state \<Rightarrow> (plane_state \<times> (nat, plane_error) result) option" where
  "run_plane_serve en s = (let po = pe_options en in
     if po_claim_ttl po = 0 then Some (s, Err (PI_Source ''claim_ttl must be greater than zero''))
     else if po_heartbeat_interval po = 0 \<or> po_heartbeat_interval po \<ge> po_claim_ttl po
     then Some (s, Err (PI_Source ''heartbeat_interval must be positive and shorter than claim_ttl''))
     else if po_ack_retry_limit po = 0 then Some (s, Err (PI_Source ''ack_retry_limit must be greater than zero''))
     else pa_then (pa_lift (serve_start en)) (serve_rounds en 0) s)"

end
