(* ===== verification/Plane_Laws.thy ===== *)
theory Plane_Laws
  imports Plane_Serve
begin

section \<open>What a plane worker promises\<close>

text \<open>
  A claim cannot widen what the host allows; every call to the plane is over before the lease is; one claim at a
  time is active.
\<close>

subsection \<open>Claims narrow\<close>

lemma and_then_is_Ok: "and_then r k = Ok y \<longleftrightarrow> (\<exists>x. r = Ok x \<and> k x = Ok y)"
  by (cases r) (simp_all add: and_then_def)

lemma task_of_visible: "task_of parameters resolved = Ok task \<Longrightarrow> trim task \<noteq> []"
  by (auto simp: task_of_def task_of_refs_def and_then_is_Ok split: option.splits json.splits if_splits)

lemma narrowed_timeout_le: "host = Some h \<Longrightarrow> \<exists>t \<le> h. narrowed_timeout host requested = Some t"
  by (cases requested) (auto simp: narrowed_timeout_def)

definition claim_request :: "claimed_work \<Rightarrow> work_policy \<Rightarrow> string \<Rightarrow> nat option \<Rightarrow> bool \<Rightarrow> run_request" where
  "claim_request work policy task t keep = (run_request_new task)\<lparr>rq_logical_operation_id := Some (cw_operation_id work),
     rq_timeout := narrowed_timeout (wp_host_timeout policy) t, rq_keep_workspace := wp_allow_keep_workspace policy \<and> keep\<rparr>"

lemma claim_request_fields [simp]: "(claim_request work policy task t keep)\<lparr>rq_task := task'\<rparr> = claim_request work policy task' t keep"
  "rq_timeout (claim_request work policy task t keep) = narrowed_timeout (wp_host_timeout policy) t"
  by (simp_all add: claim_request_def run_request_new_def)

lemma mapped_request:
  assumes "map_claimed_work kc work policy = Ok q"
  shows "\<exists>task t keep. q = claim_request work policy task t keep \<and> trim task \<noteq> [] \<and> length task \<le> wp_max_task_bytes policy"
  using assms task_of_visible
  by (fastforce simp: map_claimed_work_def and_then_is_Ok claim_request_def split: if_splits)

lemma mapped_binding:
  assumes "map_claimed_work kc work policy = Ok q"
  shows "\<exists>payload. kc_parse kc (cw_payload_json work) = Ok payload \<and>
    Option.bind (json_get ''parameters_digest'' payload) json_as_str = Some (sha256_hex (kc_sha kc) (cw_parameters_json work)) \<and>
    Option.bind (json_get ''operation_id'' payload) json_as_str = Some (cw_operation_id work) \<and>
    Option.bind (json_get ''runtime'' payload) json_as_str = Some (wp_expected_runtime policy)"
  using assms
  by (auto simp: map_claimed_work_def and_then_is_Ok check_payload_def parse_object_def matching_payload_string_def required_payload_string_def
      split: if_splits option.splits sum.splits json.splits)

lemma prepared_shape:
  assumes "prepare_claimed_run kc parked store_id policy work = Ok p"
  shows "\<exists>q. map_claimed_work kc work policy = Ok q \<and> ((\<exists>task. pq_request p = q\<lparr>rq_task := task\<rparr>) \<or>
    (\<exists>c cp answer. pq_request p = q\<lparr>rq_resume_run_id := Some (kp_reference cp), rq_resume_answer := Some answer\<rparr> \<and>
      cw_continuation work = Some c \<and> kn_checkpoint c = Some cp \<and> store_id = Some (kp_store_id cp) \<and>
      parked (kp_reference cp) = Some (kp_digest cp) \<and> pq_resumed p \<and> kn_input_digest c = sha256_prefixed (kc_sha kc) (kn_input_json c)))"
proof -
  obtain q where q: "map_claimed_work kc work policy = Ok q"
    using assms by (auto simp: prepare_claimed_run_def and_then_is_Ok)
  have same: "pq_request p = q \<Longrightarrow> \<exists>task. pq_request p = q\<lparr>rq_task := task\<rparr>" by (rule exI [of _ "rq_task q"]) simp
  show ?thesis
  proof (cases "cw_continuation work")
    case None
    then show ?thesis using assms q same by (auto simp: prepare_claimed_run_def and_then_is_Ok map_err_def)
  next
    case (Some c)
    then have "kn_input_digest c = sha256_prefixed (kc_sha kc) (kn_input_json c)"
      using assms q by (auto simp: prepare_claimed_run_def and_then_is_Ok map_err_def validate_continuation_def split: if_splits)
    then show ?thesis using assms q Some
      by (cases "kn_checkpoint c") (auto simp: prepare_claimed_run_def and_then_is_Ok map_err_def Let_def split: if_splits)
  qed
qed

text \<open>
  \<^bold>\<open>C14\<close> A claim narrows and never widens: the run prepared for a claim is bound to the operation and to parameters
  whose digest the plane recorded for this runtime; its timeout is within that of the host and its workspace is kept
  only when the host allows it; nothing else of the request is the claim's to set, except that a continuation whose
  digest agrees may resume a parked run of this very store with its answer.
\<close>

theorem claimed_run_narrow:
  assumes "prepare_claimed_run kc parked store_id policy work = Ok p"
  shows "\<exists>payload task t keep. kc_parse kc (cw_payload_json work) = Ok payload \<and>
      Option.bind (json_get ''parameters_digest'' payload) json_as_str = Some (sha256_hex (kc_sha kc) (cw_parameters_json work)) \<and>
      Option.bind (json_get ''runtime'' payload) json_as_str = Some (wp_expected_runtime policy) \<and>
      (pq_request p = claim_request work policy task t keep \<or>
       (\<exists>c cp answer. pq_request p = (claim_request work policy task t keep)\<lparr>rq_resume_run_id := Some (kp_reference cp), rq_resume_answer := Some answer\<rparr> \<and>
          cw_continuation work = Some c \<and> kn_checkpoint c = Some cp \<and> store_id = Some (kp_store_id cp) \<and>
          parked (kp_reference cp) = Some (kp_digest cp) \<and> pq_resumed p \<and> kn_input_digest c = sha256_prefixed (kc_sha kc) (kn_input_json c))) \<and>
      (\<forall>h. wp_host_timeout policy = Some h \<longrightarrow> (\<exists>t' \<le> h. rq_timeout (pq_request p) = Some t'))"
proof -
  obtain q where q: "map_claimed_work kc work policy = Ok q" and shape: "(\<exists>task. pq_request p = q\<lparr>rq_task := task\<rparr>) \<or>
    (\<exists>c cp answer. pq_request p = q\<lparr>rq_resume_run_id := Some (kp_reference cp), rq_resume_answer := Some answer\<rparr> \<and>
      cw_continuation work = Some c \<and> kn_checkpoint c = Some cp \<and> store_id = Some (kp_store_id cp) \<and>
      parked (kp_reference cp) = Some (kp_digest cp) \<and> pq_resumed p \<and> kn_input_digest c = sha256_prefixed (kc_sha kc) (kn_input_json c))"
    (is "_ \<or> ?resumed q") using prepared_shape [OF assms] by blast
  obtain task t keep where r: "q = claim_request work policy task t keep" using mapped_request [OF q] by blast
  obtain payload where b: "kc_parse kc (cw_payload_json work) = Ok payload"
      "Option.bind (json_get ''parameters_digest'' payload) json_as_str = Some (sha256_hex (kc_sha kc) (cw_parameters_json work))"
      "Option.bind (json_get ''runtime'' payload) json_as_str = Some (wp_expected_runtime policy)"
    using mapped_binding [OF q] by blast
  have "\<exists>task. pq_request p = claim_request work policy task t keep \<or> ?resumed (claim_request work policy task t keep)"
    using shape r by (metis claim_request_fields(1))
  moreover have "rq_timeout (pq_request p) = narrowed_timeout (wp_host_timeout policy) t"
    using shape r by auto
  ultimately show ?thesis using b narrowed_timeout_le by metis
qed

subsection \<open>A concrete claim\<close>

definition demo_claim_codec :: claim_codec where
  "demo_claim_codec = \<lparr>kc_parse = (\<lambda>raw. if raw = ''parameters'' then Ok (JObj [(''task'', JStr ''t''), (''timeout_secs'', JNum 120), (''keep_workspace'', JBool True)])
       else if raw = ''payload'' then Ok (JObj [(''instance_id'', JStr ''i''), (''operation_id'', JStr ''o''), (''runtime'', JStr ''r''),
         (''parameters_digest'', JStr (sha256_hex (\<lambda>bs. bs) ''parameters''))]) else Err []),
     kc_sha = (\<lambda>bs. bs)\<rparr>"

definition demo_work :: claimed_work where
  "demo_work = \<lparr>cw_effect_id = ''e'', cw_instance_id = ''i'', cw_operation_id = ''o'', cw_kind = RUNTIME_DISPATCH_KIND, cw_status = CLAIMED_STATUS,
     cw_payload_json = ''payload'', cw_parameters_json = ''parameters'', cw_resolved_task = None, cw_continuation = None\<rparr>"

definition demo_policy :: work_policy where
  "demo_policy = \<lparr>wp_expected_runtime = ''r'', wp_max_task_bytes = 9, wp_max_continuation_bytes = 9, wp_host_timeout = Some 60000,
     wp_allow_keep_workspace = False\<rparr>"

lemma demo_digest_visible: "trim (sha256_hex (\<lambda>bs. bs) ''parameters'') \<noteq> []"
  by code_simp

lemma demo_mapped: "map_claimed_work demo_claim_codec demo_work demo_policy = Ok (claim_request demo_work demo_policy ''t'' (Some 120000) True)"
  by (simp add: map_claimed_work_def and_then_is_Ok check_envelope_def Plane_Claims.require_def demo_work_def demo_policy_def trim_visible visible_def
      check_payload_def parse_object_def demo_claim_codec_def matching_payload_string_def required_payload_string_def json_get_def json_as_str_def
      task_of_def requested_timeout_def requested_keep_workspace_def u64_max_def claim_request_def demo_digest_visible)

theorem claimed_run_narrow_witness:
  "\<exists>p t. prepare_claimed_run demo_claim_codec (\<lambda>_. None) None demo_policy demo_work = Ok p \<and> t \<le> 60000 \<and> rq_timeout (pq_request p) = Some t"
proof -
  obtain p where p: "prepare_claimed_run demo_claim_codec (\<lambda>_. None) None demo_policy demo_work = Ok p"
    using demo_mapped by (simp add: prepare_claimed_run_def map_err_def demo_work_def)
  then show ?thesis using claimed_run_narrow [OF p] by (auto simp: demo_policy_def)
qed

lemma lift_then: "phoare P (pa_lift m) (\<lambda>_. R) E \<Longrightarrow> phoare R (pa_lift n) Q E \<Longrightarrow> phoare P (pa_lift (act_then m n)) Q E"
  unfolding lift_act by (rule phoare_then)

lemma lift_bind: "phoare P (pa_lift m) R E \<Longrightarrow> (\<And>a. phoare (R a) (pa_lift (k a)) Q E) \<Longrightarrow> phoare P (pa_lift (act_bind m k)) Q E"
  unfolding lift_act by (rule phoare_bind)

lemma lift_return: "(\<And>s. P s \<Longrightarrow> Q a s) \<Longrightarrow> phoare P (pa_lift (act_return a)) Q E"
  unfolding lift_act by (rule phoare_return)

subsection \<open>The state of a host\<close>

text \<open>Every logged call ends ten milliseconds before its lease; every claim begins alone.\<close>

fun good_event :: "plane_event \<Rightarrow> bool" where
  "good_event (PV_Called now window valid_until) = (now + window + ms 10 \<le> valid_until)"
| "good_event (PV_Begun n) = (n \<le> 1)"
| "good_event _ = True"

text \<open>At most the claims \<open>E\<close> are active.\<close>

definition holds :: "string set \<Rightarrow> plane_state \<Rightarrow> bool" where
  "holds E s \<longleftrightarrow> (\<forall>e \<in> set (ps_log s). good_event e) \<and> (\<forall>w. ps_worker s = Some w \<longrightarrow> set (wk_active_claim_ids w) \<subseteq> E)"

lemma holds_mono: "holds E s \<Longrightarrow> E \<subseteq> F \<Longrightarrow> holds F s"
  unfolding holds_def by blast

lemma holds_log: "good_event e \<Longrightarrow> keeps (holds E) (log_plane e)"
  unfolding log_plane_def by (rule keeps_modify) (simp add: holds_def)

lemma holds_asked [triples]: "keeps (holds E) (asked f)"
  by (simp add: hoare_def asked_def holds_def)

lemma write_ids: "wk_active_claim_ids (fst (write_snapshot en w)) = wk_active_claim_ids w"
  by (simp add: write_snapshot_def fail_closed_publish_def Let_def split: sum.split)

lemma holds_worker:
  assumes "\<And>we w. set (wk_active_claim_ids w) \<subseteq> E \<Longrightarrow> set (wk_active_claim_ids (fst (f we w))) \<subseteq> F"
  shows "hoare (\<lambda>_. True) (holds E) (on_worker en f) (\<lambda>_. holds F)"
  using assms by (fastforce simp: hoare_def on_worker_def holds_def)

lemma keeps_holds_worker:
  assumes "\<And>we w. set (wk_active_claim_ids (fst (f we w))) \<subseteq> set (wk_active_claim_ids w)"
  shows "keeps (holds E) (on_worker en f)"
  using assms by (fastforce simp: hoare_def on_worker_def holds_def)

lemma worker_ids:
  "wk_active_claim_ids (fst (set_draining we w)) = wk_active_claim_ids w" "wk_active_claim_ids (fst (set_fence_lost we kind w)) = wk_active_claim_ids w"
  "wk_active_claim_ids (fst (set_governance_ok we ok w)) = wk_active_claim_ids w" "wk_active_claim_ids (fst (set_delayed_evidence we q w)) = wk_active_claim_ids w"
  "wk_active_claim_ids (fst (publish_after we id w)) = wk_active_claim_ids w"
  "wk_active_claim_ids (fst (begin_claim we c w)) = wk_active_claim_ids w @ [c]"
  "wk_active_claim_ids (fst (drop_active_claim we c w)) = filter (\<lambda>i. i \<noteq> c) (wk_active_claim_ids w)"
  "wk_active_claim_ids (fst (end_claim_terminal we c outcome w)) = filter (\<lambda>i. i \<noteq> c) (wk_active_claim_ids w)"
  by (simp_all add: worker_ops publish_after_state write_ids without_claim_def count_terminal_def split: option.split terminal_outcome.split)

lemma holds_lifecycle [triples]:
  "keeps (holds E) (start_draining en)" "keeps (holds E) (on_worker en (\<lambda>we. set_fence_lost we kind))"
  "keeps (holds E) (on_worker en (\<lambda>we. set_governance_ok we ok))" "keeps (holds E) (on_worker en (\<lambda>we. set_delayed_evidence we q))"
  "keeps (holds E) (on_worker en (\<lambda>we. publish_after we id))" "keeps (holds E) (on_worker en (\<lambda>we. drop_active_claim we c))"
  "keeps (holds E) (on_worker en (\<lambda>we. end_claim_terminal we c outcome))"
  unfolding start_draining_def by (rule keeps_holds_worker; force simp: worker_ids)+

lemma holds_let_go:
  "hoare (\<lambda>_. True) (holds {c}) (on_worker en (\<lambda>we. drop_active_claim we c)) (\<lambda>_. holds {})"
  "hoare (\<lambda>_. True) (holds {c}) (on_worker en (\<lambda>we. end_claim_terminal we c outcome)) (\<lambda>_. holds {})"
  by (rule holds_worker; auto simp: worker_ids)+

lemma sure_worker: "sure (on_worker en f)" "sure (asked g)" "sure (log_plane e)" "sure (set_lease l)"
  by (simp_all add: sure_def on_worker_def asked_def log_plane_def set_lease_def act_modify_def)

lemma holds_set: "keeps (holds E) (set_lease l)" "keeps (holds E) (act_modify (\<lambda>s. s\<lparr>ps_credential := c\<rparr>))"
  unfolding set_lease_def by (rule keeps_modify; simp add: holds_def)+

subsection \<open>Calls under a lease\<close>

lemma call_window_safe:
  assumes "claim_call_window now lease maximum = Ok window"
  shows "now + window + ms 10 \<le> cl_valid_until lease"
proof -
  let ?r = "cl_valid_until lease - now"
  have "\<not> ?r \<le> ms 20" and w: "window = min maximum (?r - clamp (ms 10) (ms 250) (?r div 10))"
    using assms by (auto simp: claim_call_window_def Let_def split: if_splits)
  moreover have "ms 10 \<le> clamp (ms 10) (ms 250) (?r div 10)" by (simp add: clamp_def ms_def)
  moreover have "clamp (ms 10) (ms 250) (?r div 10) \<le> ?r" using \<open>\<not> ?r \<le> ms 20\<close> by (auto simp: clamp_def ms_def)
  moreover have "window \<le> ?r - clamp (ms 10) (ms 250) (?r div 10)" by (simp add: w)
  moreover have "now + ?r = cl_valid_until lease" using \<open>\<not> ?r \<le> ms 20\<close> by (simp add: ms_def)
  ultimately show ?thesis by linarith
qed

lemma holds_call: "keeps (holds E) (fenced_call en call)"
proof -
  have "keeps (holds E) (case claim_call_window (pe_now en n) lease m of
       Inl e \<Rightarrow> act_fail e
     | Inr window \<Rightarrow> act_then (log_plane (PV_Called (pe_now en n) window (cl_valid_until lease))) (act_return (call n lease)))" for n lease m
  proof (cases "claim_call_window (pe_now en n) lease m")
    case (Inr window)
    have "keeps (holds E) (log_plane (PV_Called (pe_now en n) window (cl_valid_until lease)))"
      using call_window_safe [OF Inr] by (intro holds_log) simp
    then show ?thesis unfolding Inr by (simp add: keeps_then hoare_return)
  qed (simp add: hoare_fail)
  then show ?thesis unfolding fenced_call_def with_lease_def
    by (intro keeps_with keeps_bind holds_asked)
qed

lemma holds_taken: "keeps (holds E) (note_taken effect op)"
  unfolding note_taken_def by (cases op) (auto intro: holds_log hoare_return)

lemma holds_retry: "keeps (holds E) (retry_while_fenced en effect op attempts)"
proof (induction attempts)
  case (Suc attempts)
  have renew: "keeps (holds E) (renew_for_retry en effect op)"
    unfolding renew_for_retry_def by (intro triples holds_call holds_set; simp)
  have again: "keeps (holds E) (if attempts = 0 then act_fail e
       else act_bind (asked (pe_shutdown en)) (\<lambda>stop. if stop then act_fail (PI_Source (shutdown_message op))
         else act_then (renew_for_retry en effect op) (retry_while_fenced en effect op attempts)))" for e
    by (intro triples renew Suc; simp)
  have "keeps (holds E) (case r of
       Some (Inr _) \<Rightarrow> note_taken effect op
     | Some (Inl (PI_FenceLost kind)) \<Rightarrow> act_fail (PI_FenceLost kind)
     | Some (Inl e) \<Rightarrow> (\<lambda>e. if attempts = 0 then act_fail e
       else act_bind (asked (pe_shutdown en)) (\<lambda>stop. if stop then act_fail (PI_Source (shutdown_message op))
         else act_then (renew_for_retry en effect op) (retry_while_fenced en effect op attempts))) e
     | None \<Rightarrow> (\<lambda>e. if attempts = 0 then act_fail e
       else act_bind (asked (pe_shutdown en)) (\<lambda>stop. if stop then act_fail (PI_Source (shutdown_message op))
         else act_then (renew_for_retry en effect op) (retry_while_fenced en effect op attempts))) (PI_Source (timeout_message op)))"
    for r :: "(unit, plane_error) result option"
    using again holds_taken hoare_fail by (auto split: option.split sum.split plane_error.split)
  then show ?case unfolding retry_while_fenced.simps Let_def by (intro keeps_bind holds_call)
qed (simp add: hoare_fail)

lemma holds_reports: "keeps (holds E) (ack_with_retry en effect ack)" "keeps (holds E) (report_claim_event en effect ev)"
  "keeps (holds E) (failed_ack en reason)" "keeps (holds E) (ack_of_run en r)"
  unfolding ack_with_retry_def report_claim_event_def failed_ack_def ack_of_run_def case_prod_unfold
  by (intro triples holds_retry; simp)+

subsection \<open>One claim\<close>

text \<open>Whatever happens to a claim, it is let go: by its end, by the error that stopped it, or by the shutdown.\<close>

abbreviation frees :: "string \<Rightarrow> 'a plane_run \<Rightarrow> bool" where
  "frees c m \<equiv> phoare (holds {c}) m (\<lambda>_. holds {}) (\<lambda>_. holds {})"

abbreviation mostly :: "string \<Rightarrow> 'a plane_run \<Rightarrow> bool" where
  "mostly c m \<equiv> phoare (holds {c}) m (\<lambda>_. holds {c}) (\<lambda>_. holds {})"

lemma mostly_sure: "keeps (holds {c}) m \<Longrightarrow> sure m \<Longrightarrow> mostly c (pa_lift m)"
  by (erule phoare_sure) (simp add: hoare_def)

lemma observe_frees: "phoare (holds {c}) (pa_lift (observe_error en c e)) (\<lambda>_. holds {}) (\<lambda>_. holds {})"
proof -
  have "keeps (holds {}) (case e of
     PI_FenceLost kind \<Rightarrow> on_worker en (\<lambda>we. set_fence_lost we kind)
   | PI_Source message \<Rightarrow> if contains ''shutdown requested'' message then start_draining en
       else on_worker en (\<lambda>we. set_governance_ok we False)
   | PI_Harness _ \<Rightarrow> on_worker en (\<lambda>we. set_governance_ok we False)
   | PI_Mapping _ \<Rightarrow> act_return ())"
    by (cases e) (auto intro: holds_lifecycle hoare_return)
  then show ?thesis unfolding observe_error_def lift_act
    by (intro phoare_then [OF phoare_sure [OF sure_worker(1) holds_let_go(1)]] pkeeps_lift)
qed

lemma observed_mostly:
  assumes "keeps (holds {c}) m"
  shows "mostly c (pa_lift (observed en c m))"
proof -
  have eq: "pa_lift (observed en c m) = pa_bind (pa_attempt (pa_lift m)) (\<lambda>r. case r of
      Inr a \<Rightarrow> pa_return a | Inl e \<Rightarrow> pa_then (pa_lift (observe_error en c e)) (pa_fail e))"
    by (rule ext) (simp add: observed_def act_catch_def pa_defs act_then_def act_bind_def act_return_def act_fail_def prod.case_eq_if split: sum.split)
  have tried: "phoare (holds {c}) (pa_attempt (pa_lift m)) (\<lambda>_. holds {c}) (\<lambda>_. holds {})"
    using assms by (intro phoare_attempt pkeeps_lift)
  have rest: "mostly c (case r of Inr a \<Rightarrow> pa_return a | Inl e \<Rightarrow> pa_then (pa_lift (observe_error en c e)) (pa_fail e))" for r
    by (cases r) (auto intro: phoare_return phoare_then [OF observe_frees] phoare_fail)
  show ?thesis unfolding eq by (rule phoare_bind [OF tried rest])
qed

lemma fence_loss_frees: "phoare (holds {c}) (pa_lift (fail_closed_after_fence_loss en c e)) Q (\<lambda>_. holds {})"
  unfolding fail_closed_after_fence_loss_def lift_act
  by (rule phoare_then [OF mostly_sure phoare_then [OF observe_frees phoare_fail]]) (auto intro: holds_log sure_worker)

lemma beat_mostly: "mostly c (pa_lift (beat en c handle))"
proof -
  have "mostly c (pa_lift (case r of
     Inl e \<Rightarrow> fail_closed_after_fence_loss en c e
   | Inr None \<Rightarrow> fail_closed_after_fence_loss en c (PI_FenceLost ''heartbeat did not complete before the lease safety deadline'')
   | Inr (Some (Inl e)) \<Rightarrow> fail_closed_after_fence_loss en c e
   | Inr (Some (Inr lease)) \<Rightarrow> act_then (set_lease lease) (if \<not> handle then act_return ()
       else act_bind (asked (\<lambda>n. credential_of en n lease)) (\<lambda>c. act_modify (\<lambda>s. s\<lparr>ps_credential := c\<rparr>)))))"
    for r :: "((claim_lease, plane_error) result option, plane_error) result"
  proof -
    have "mostly c (pa_lift (act_then (set_lease lease) (if \<not> handle then act_return ()
       else act_bind (asked (\<lambda>n. credential_of en n lease)) (\<lambda>c. act_modify (\<lambda>s. s\<lparr>ps_credential := c\<rparr>)))))" for lease
      by (intro mostly_sure keeps_then holds_set keeps_if keeps_bind triples sure_then sure_bind sure_combine sure_worker) simp_all
    then show ?thesis using fence_loss_frees by (auto split: sum.split option.split)
  qed
  then show ?thesis unfolding beat_def lift_act(1)
    by (intro phoare_bind [OF mostly_sure] keeps_attempt holds_call sure_combine)
qed

definition next_race :: "plane_env \<Rightarrow> race plane_step" where
  "next_race en = with_lease (\<lambda>lease. asked (\<lambda>n. pe_race en n (next_heartbeat (pe_now en n) lease (po_heartbeat_interval (pe_options en)))))"

definition stopped :: "plane_env \<Rightarrow> string \<Rightarrow> (run_result, harness_error) result option plane_step" where
  "stopped en effect = act_then (start_draining en) (act_then (log_plane PV_Cancelled)
     (act_then (on_worker en (\<lambda>we. drop_active_claim we effect)) (act_return None)))"

lemma run_under_lease_rule:
  assumes race: "phoare J (pa_lift (next_race en)) (\<lambda>_. J) E" and beat: "phoare J (pa_lift (beat en c handle)) (\<lambda>_. J) E"
    and finished: "\<And>r. phoare J (pa_lift (log_plane (PV_Finished r))) (\<lambda>_. Q (Some r)) E"
    and shutdown: "phoare J (pa_lift (stopped en c)) Q E"
  shows "phoare J (run_under_lease en c handle) Q E"
proof -
  have main: "en' = en \<longrightarrow> c' = c \<longrightarrow> h' = handle \<longrightarrow> J s \<longrightarrow> (case snd y of Inr a \<Rightarrow> Q a (fst y) | Inl e \<Rightarrow> E e (fst y))"
    if "run_under_lease en' c' h' s = Some y" for en' c' h' s y
  proof (rule run_under_lease.raw_induct [of "\<lambda>en' c' h' s y. en' = en \<longrightarrow> c' = c \<longrightarrow> h' = handle \<longrightarrow> J s \<longrightarrow>
      (case snd y of Inr a \<Rightarrow> Q a (fst y) | Inl e \<Rightarrow> E e (fst y))", OF _ that], intro impI)
    fix f en' c' h' s and y :: "plane_state \<times> ((run_result, harness_error) result option, plane_error) result"
    assume ih: "\<And>en' c' h' s y. f en' c' h' s = Some y \<Longrightarrow> en' = en \<longrightarrow> c' = c \<longrightarrow> h' = handle \<longrightarrow> J s \<longrightarrow>
        (case snd y of Inr a \<Rightarrow> Q a (fst y) | Inl e \<Rightarrow> E e (fst y))"
      and body: "(case with_lease (\<lambda>lease. asked (\<lambda>n. pe_race en' n (next_heartbeat (pe_now en' n) lease (po_heartbeat_interval (pe_options en'))))) s of
         (s1, Inl e) \<Rightarrow> Some (s1, Err e)
       | (s1, Inr (RC_Finished r)) \<Rightarrow> Some (act_then (log_plane (PV_Finished r)) (act_return (Some r)) s1)
       | (s1, Inr RC_Heartbeat) \<Rightarrow> (case beat en' c' h' s1 of (s2, Inl e) \<Rightarrow> Some (s2, Err e) | (s2, Inr _) \<Rightarrow> f en' c' h' s2)
       | (s1, Inr RC_Shutdown) \<Rightarrow> Some (act_then (start_draining en') (act_then (log_plane PV_Cancelled)
           (act_then (on_worker en' (\<lambda>we. drop_active_claim we c')) (act_return None))) s1)) = Some y"
      and eqs: "en' = en" "c' = c" "h' = handle" and s: "J s"
    obtain s1 x where 1: "next_race en s = (s1, x)" by fastforce
    note body' = body [unfolded eqs next_race_def [symmetric] stopped_def [symmetric] 1]
    have j1: "case x of Inr _ \<Rightarrow> J s1 | Inl e \<Rightarrow> E e s1"
      using phoareD [OF race s, of s1 x] 1 by (simp add: pa_lift_def)
    show "case snd y of Inr a \<Rightarrow> Q a (fst y) | Inl e \<Rightarrow> E e (fst y)"
    proof (cases x)
      case (Inl e)
      then show ?thesis using body' j1 by auto
    next
      case (Inr way)
      then have j: "J s1" using j1 by simp
      show ?thesis
      proof (cases way)
        case (RC_Finished r)
        then show ?thesis using body' Inr phoareD [OF finished [of r] j]
          by (auto simp: pa_lift_def act_then_def act_bind_def act_return_def log_plane_def act_modify_def)
      next
        case RC_Heartbeat
        obtain s2 z where 2: "beat en c handle s1 = (s2, z)" by fastforce
        have "case z of Inr _ \<Rightarrow> J s2 | Inl e \<Rightarrow> E e s2" using phoareD [OF beat j, of s2 z] 2 by (simp add: pa_lift_def)
        then show ?thesis using body' Inr RC_Heartbeat 2 ih [of en c handle s2 y] by (cases z) auto
      next
        case RC_Shutdown
        then show ?thesis using body' Inr phoareD [OF shutdown j, of "fst y" "snd y"] by (auto simp: pa_lift_def)
      qed
    qed
  qed
  show ?thesis unfolding phoare_def
  proof (intro allI impI)
    fix s s' r
    assume "J s" "run_under_lease en c handle s = Some (s', r)"
    then show "case r of Inr a \<Rightarrow> Q a s' | Inl e \<Rightarrow> E e s'" using main [of en c handle s "(s', r)"] by (cases r) simp_all
  qed
qed

lemma next_race_steps: "keeps (holds E) (next_race en)" "sure (next_race en)"
  unfolding next_race_def with_lease_def by (intro keeps_with holds_asked sure_with sure_worker)+

lemma stopped_frees: "frees c (pa_lift (stopped en c))"
proof -
  have "hoare (\<lambda>_. True) (holds {c}) (start_draining en) (\<lambda>_. holds {c})" "hoare (\<lambda>_. True) (holds {c}) (log_plane PV_Cancelled) (\<lambda>_. holds {c})"
    using holds_lifecycle(1) [of "{c}" en] holds_log [of PV_Cancelled "{c}"] by (simp_all add: hoare_def)
  then have "hoare (\<lambda>_. True) (holds {c}) (stopped en c) (\<lambda>_. holds {})"
    unfolding stopped_def by (rule hoare_then [OF _ hoare_then [OF _ hoare_then [OF holds_let_go(1)]]]) (simp_all add: hoare_return)
  then show ?thesis by (rule phoare_sure [rotated]) (simp add: stopped_def start_draining_def sure_then sure_worker sure_combine)
qed

lemma run_under_lease_frees:
  "phoare (holds {c}) (run_under_lease en c handle) (\<lambda>r. case r of Some _ \<Rightarrow> holds {c} | None \<Rightarrow> holds {}) (\<lambda>_. holds {})"
proof (rule run_under_lease_rule [where J = "holds {c}"])
  show "mostly c (pa_lift (next_race en))" by (intro mostly_sure next_race_steps)
  show "phoare (holds {c}) (pa_lift (stopped en c)) (\<lambda>r. case r of Some _ \<Rightarrow> holds {c} | None \<Rightarrow> holds {}) (\<lambda>_. holds {})"
    by (rule phoare_weaken [OF stopped_frees]) (auto intro: holds_mono split: option.split)
  show "phoare (holds {c}) (pa_lift (log_plane (PV_Finished r))) (\<lambda>_. case Some r of Some _ \<Rightarrow> holds {c} | None \<Rightarrow> holds {}) (\<lambda>_. holds {})" for r
    using mostly_sure [OF holds_log sure_worker(3), of "PV_Finished r" c] by simp
qed (rule beat_mostly)

lemma end_frees: "frees c (pa_lift (act_then (on_worker en (\<lambda>we. end_claim_terminal we c outcome)) (act_return x)))"
  unfolding lift_act by (rule phoare_then [OF phoare_sure [OF sure_worker(1) holds_let_go(2)] phoare_return])

lemma mostly_simple: "mostly c (pa_lift (ack_of_run en r))" "mostly c (pa_lift (failed_ack en reason))" "mostly c (pa_lift (act_return x))"
    "mostly c (pa_lift (asked f))"
proof -
  have failed: "sure (failed_ack en reason)" for reason unfolding failed_ack_def by (intro sure_combine sure_bind sure_worker)
  then have "sure (ack_of_run en r)" unfolding ack_of_run_def by (intro sure_cases sure_combine sure_bind sure_then sure_worker)
  with failed show "mostly c (pa_lift (ack_of_run en r))" "mostly c (pa_lift (failed_ack en reason))"
    by (intro mostly_sure holds_reports; simp)+
  show "mostly c (pa_lift (asked f))" by (intro mostly_sure holds_asked sure_worker)
qed (rule lift_return)

lemma conclude_claim_frees: "frees c (pa_lift (conclude_claim en c p r))" "frees c (pa_lift (refuse_claim en c e))"
proof -
  have reported: "mostly c (pa_lift (observed en c (report_claim_event en c ev)))" "mostly c (pa_lift (observed en c (ack_with_retry en c ack)))"
    for ev ack by (intro observed_mostly holds_reports)+
  have "frees c (pa_lift (case x of (ack, governance_abort) \<Rightarrow> act_then (observed en c (ack_with_retry en c ack))
       (act_then (on_worker en (\<lambda>we. end_claim_terminal we c (terminal_of (ak_outcome ack))))
         (act_return (if governance_abort then EX_GovernanceUnavailable else EX_Continue)))))" for x
    unfolding case_prod_unfold by (rule lift_then [OF reported(2) end_frees])
  moreover have "mostly c (pa_lift (if q then observed en c (report_claim_event en c ev) else act_return ()))" for q ev
    by (cases q) (auto intro: reported(1) mostly_simple(3))
  ultimately show "frees c (pa_lift (conclude_claim en c p r))" unfolding conclude_claim_def
    by (rule lift_then [rotated, OF lift_bind [OF mostly_simple(1)]])
  show "frees c (pa_lift (refuse_claim en c e))" unfolding refuse_claim_def
    by (rule lift_bind [OF mostly_simple(2) lift_then [OF reported(2) end_frees]])
qed

lemma run_claim_frees: "frees c (run_claim en c p)"
proof -
  have events: "mostly c (pa_lift (act_each (\<lambda>ev. observed en c (report_claim_event en c ev)) evs))" for evs
    by (induction evs) (simp_all add: mostly_simple lift_then [OF observed_mostly [OF holds_reports(2)]])
  have "frees c (pa_lift (act_then (drain_claim en c) (act_return EX_Shutdown)))"
    unfolding drain_claim_def start_draining_def
    by (rule lift_then [OF lift_then [OF mostly_sure [OF holds_lifecycle(1) [unfolded start_draining_def] sure_worker(1)]
        phoare_sure [OF sure_worker(1) holds_let_go(1)]] lift_return])
  moreover have "frees c (case x of None \<Rightarrow> pa_return EX_Shutdown | Some result \<Rightarrow> pa_lift (conclude_claim en c p result))" if "x \<noteq> None" for x
    using that conclude_claim_frees(1) by auto
  moreover have "frees c (pa_with (\<lambda>s. pa_bind (run_under_lease en c (ps_credential s \<noteq> None)) (\<lambda>r. case r of
           None \<Rightarrow> pa_return EX_Shutdown | Some result \<Rightarrow> pa_lift (conclude_claim en c p result))))"
  proof (rule phoare_with)
    fix s assume s: "holds {c} s"
    have "frees c (pa_bind (run_under_lease en c (ps_credential s \<noteq> None)) (\<lambda>r. case r of
           None \<Rightarrow> pa_return EX_Shutdown | Some result \<Rightarrow> pa_lift (conclude_claim en c p result)))"
      by (rule phoare_bind [OF run_under_lease_frees]) (auto intro: phoare_return conclude_claim_frees(1) split: option.split)
    then show "phoare (\<lambda>s'. s' = s) (pa_bind (run_under_lease en c (ps_credential s \<noteq> None)) (\<lambda>r. case r of
           None \<Rightarrow> pa_return EX_Shutdown | Some result \<Rightarrow> pa_lift (conclude_claim en c p result))) (\<lambda>_. holds {}) (\<lambda>_. holds {})"
      by (rule phoare_pre) (simp add: s)
  qed
  then have "frees c (pa_then (pa_lift (log_plane (PV_Run q b))) (pa_with (\<lambda>s. pa_bind (run_under_lease en c (ps_credential s \<noteq> None)) (\<lambda>r. case r of
           None \<Rightarrow> pa_return EX_Shutdown | Some result \<Rightarrow> pa_lift (conclude_claim en c p result)))))" for q b
    by (rule phoare_then [rotated]) (intro mostly_sure holds_log sure_worker, simp)
  ultimately show ?thesis unfolding run_claim_def
    by (intro phoare_then [OF events] phoare_bind [OF mostly_simple(4)]) auto
qed

lemma execute_claim_idle: "pkeeps (holds {}) (execute_claim en pc)"
proof -
  let ?c = "cw_effect_id (pm_work pc)"
  let ?start = "act_then (act_modify (\<lambda>s. s\<lparr>ps_lease := pm_lease pc, ps_credential := None\<rparr>))
       (act_then (on_worker en (\<lambda>we. begin_claim we ?c)) (act_with (\<lambda>s. log_plane (PV_Begun (active_count s)))))"
  have lease: "hoare (\<lambda>_. True) (holds {}) (act_modify (\<lambda>s. s\<lparr>ps_lease := pm_lease pc, ps_credential := None\<rparr>)) (\<lambda>_. holds {})"
    by (simp add: hoare_def act_modify_def holds_def)
  have begun: "hoare (\<lambda>_. True) (holds {}) (on_worker en (\<lambda>we. begin_claim we ?c)) (\<lambda>_ s. holds {?c} s \<and> active_count s \<le> 1)"
    by (auto simp: hoare_def on_worker_def holds_def worker_ids active_count_def split: option.split)
  have logged: "hoare (\<lambda>_. True) (\<lambda>s. holds {?c} s \<and> active_count s \<le> 1) (act_with (\<lambda>s. log_plane (PV_Begun (active_count s)))) (\<lambda>_. holds {?c})"
    by (auto simp: hoare_def act_with_def log_plane_def act_modify_def holds_def)
  have start: "phoare (holds {}) (pa_lift ?start) (\<lambda>_. holds {?c}) (\<lambda>_. holds {})"
    by (rule phoare_sure [OF _ hoare_then [OF lease hoare_then [OF begun logged]]]) (intro sure_then sure_with sure_worker sure_combine)
  have "mostly ?c (pa_lift (act_bind (asked (\<lambda>n. credential_of en n lease)) (\<lambda>x. act_modify (\<lambda>s. s\<lparr>ps_credential := x\<rparr>))))" for lease
    by (intro mostly_sure keeps_bind holds_asked holds_set sure_bind sure_worker sure_combine)
  then have branch: "frees ?c (case r of Inl e \<Rightarrow> pa_lift (refuse_claim en ?c e)
      | Inr p \<Rightarrow> pa_then (pa_lift (act_bind (asked (\<lambda>n. credential_of en n (pm_lease pc))) (\<lambda>x. act_modify (\<lambda>s. s\<lparr>ps_credential := x\<rparr>))))
          (run_claim en ?c p))" for r
    by (cases r) (simp_all add: conclude_claim_frees phoare_then [OF _ run_claim_frees])
  show ?thesis unfolding execute_claim_def Let_def
    by (rule phoare_then [OF start phoare_bind [OF mostly_simple(4) branch]])
qed

subsection \<open>The loop\<close>

lemma serve_steps: "keeps (holds E) (copy_delayed_evidence en)" "keeps (holds E) (demote en ok)" "keeps (holds E) (check_health en)"
  "keeps (holds E) (observe_claim_error en e)" "keeps (holds E) (drained en n)" "keeps (holds E) (poll_sleep en n)"
  "keeps (holds E) (not_accepting en n st)" "keeps (holds E) (serve_start en)"
proof -
  show copy: "keeps (holds E) (copy_delayed_evidence en)" unfolding copy_delayed_evidence_def by (intro keeps_with holds_lifecycle)
  show demote: "keeps (holds E) (demote en ok)" for ok
    unfolding demote_def by (intro keeps_bind keeps_if holds_asked holds_lifecycle hoare_return) simp
  show "keeps (holds E) (check_health en)" unfolding check_health_def
    by (intro keeps_then keeps_with keeps_if demote copy hoare_return) simp
  show "keeps (holds E) (serve_start en)" unfolding serve_start_def
    by (intro keeps_then keeps_with keeps_if demote copy holds_lifecycle hoare_return) simp
  show "keeps (holds E) (observe_claim_error en e)" unfolding observe_claim_error_def
    by (cases e) (simp_all add: holds_lifecycle hoare_return)
  show drained: "keeps (holds E) (drained en n)" unfolding drained_def by (intro keeps_then holds_lifecycle hoare_return) simp
  show poll: "keeps (holds E) (poll_sleep en n)" unfolding poll_sleep_def
    by (intro keeps_bind keeps_if holds_asked drained hoare_return) simp
  show "keeps (holds E) (not_accepting en n st)" unfolding not_accepting_def
    by (intro keeps_bind keeps_if holds_asked poll hoare_return) simp_all
qed

lemma serve_round_idle: "pkeeps (holds {}) (serve_round en n)"
proof -
  have stop: "pkeeps (holds {}) (pa_lift (drained en n))" "pkeeps (holds {}) (pa_lift (asked f))" for n f
    by (intro pkeeps_lift serve_steps holds_asked)+
  have "pkeeps (holds {}) (case x of
       EX_Continue \<Rightarrow> pa_lift (act_then (copy_delayed_evidence en) (act_return (SE_Again (Suc n))))
     | EX_Shutdown \<Rightarrow> pa_return (SE_Done (Suc n))
     | EX_GovernanceUnavailable \<Rightarrow> pa_fail (PI_Source ''governance unavailable during run; plane serve exiting for replacement''))" for x
    by (cases x) (simp_all add: pkeeps_lift keeps_then serve_steps hoare_return pkeeps_simple)
  then have serve: "pkeeps (holds {}) (serve_claim en n pc)" for pc
    unfolding serve_claim_def by (intro pkeeps_bind pkeeps_if stop execute_claim_idle)
  have "pkeeps (holds {}) (case r of
       None \<Rightarrow> pa_lift (drained en n)
     | Some (Inl e) \<Rightarrow> pa_then (pa_lift (observe_claim_error en e)) (pa_fail e)
     | Some (Inr None) \<Rightarrow> pa_lift (poll_sleep en n)
     | Some (Inr (Some pc)) \<Rightarrow> serve_claim en n pc)" for r
    using serve stop by (auto intro: pkeeps_then pkeeps_lift serve_steps pkeeps_simple split: option.split sum.split)
  then have "pkeeps (holds {}) (take_claim en n)" unfolding take_claim_def by (intro pkeeps_bind stop)
  moreover have "pkeeps (holds {}) (pa_lift (not_accepting en n st))" "pkeeps (holds {}) (pa_lift (check_health en))" for st
    by (intro pkeeps_lift serve_steps)+
  ultimately show ?thesis unfolding serve_round_def
    by (intro pkeeps_bind pkeeps_if pkeeps_then pkeeps_with pkeeps_option stop)
qed

lemma serve_rounds_idle: "serve_rounds en n s = Some y \<Longrightarrow> holds {} s \<longrightarrow> holds {} (fst y)"
proof (rule serve_rounds.raw_induct [of "\<lambda>en n s y. holds {} s \<longrightarrow> holds {} (fst y)"], intro impI)
  fix f en n s and y :: "plane_state \<times> (nat, plane_error) result"
  assume ih: "\<And>en n s y. f en n s = Some y \<Longrightarrow> holds {} s \<longrightarrow> holds {} (fst y)"
    and body: "(case serve_round en n s of None \<Rightarrow> None | Some (s1, Inl e) \<Rightarrow> Some (s1, Err e)
      | Some (s1, Inr (SE_Again n)) \<Rightarrow> f en n s1 | Some (s1, Inr (SE_Done n)) \<Rightarrow> Some (s1, Ok n)) = Some y" and s: "holds {} s"
  obtain s1 r where 1: "serve_round en n s = Some (s1, r)" using body by (auto split: option.splits)
  then have h: "holds {} s1" using phoareD [OF serve_round_idle s 1] by (auto split: sum.splits)
  show "holds {} (fst y)"
  proof (cases r)
    case (Inl e)
    then show ?thesis using body 1 h by auto
  next
    case (Inr x)
    then show ?thesis using body 1 h ih by (cases x) auto
  qed
qed

text \<open>
  \<^bold>\<open>C13\<close> However long a worker serves, and however the plane, its runs and shutdowns behave: a claim begins only when
  no other is active, so one at a time is; no claim stays active when the worker stops, even with an error; and every
  fenced call it makes (acknowledgement, claim event, heartbeat) has to be over ten milliseconds before its lease is.
\<close>

theorem plane_serves_within_leases:
  assumes "run_plane_serve en s = Some (s', r)" and "ps_log s = []" and "\<forall>w. ps_worker s = Some w \<longrightarrow> wk_active_claim_ids w = []"
  shows "(\<forall>n. PV_Begun n \<in> set (ps_log s') \<longrightarrow> n \<le> 1) \<and> (\<forall>w. ps_worker s' = Some w \<longrightarrow> wk_active_claim_ids w = []) \<and>
    (\<forall>now window valid_until. PV_Called now window valid_until \<in> set (ps_log s') \<longrightarrow> now + window + 10000000 \<le> valid_until)"
proof -
  have idle: "holds {} s" using assms(2,3) by (simp add: holds_def)
  have "holds {} s'"
  proof -
    have "phoare (holds {}) (pa_then (pa_lift (serve_start en)) (serve_rounds en 0)) (\<lambda>_. holds {}) (\<lambda>_. holds {})"
      using serve_rounds_idle by (intro pkeeps_then pkeeps_lift serve_steps) (fastforce simp: phoare_def split: sum.split)
    from phoareD [OF this idle] idle assms(1) show ?thesis by (auto simp: run_plane_serve_def Let_def split: if_splits sum.splits)
  qed
  then show ?thesis by (force simp: holds_def ms_def)
qed

subsection \<open>A concrete host\<close>

text \<open>It takes the claim above, under a lease of a second, runs it to a failure, acknowledges that and leaves after one job.\<close>

definition demo_lease :: claim_lease where
  "demo_lease = \<lparr>cl_runtime_id = ''r'', cl_generation = 1, cl_fencing_token = ''f'', cl_expires_at_ms = 1000, cl_valid_until = ms 1000,
     cl_runtime_token = \<lparr>tk_value = [], tk_expires_at_ms = 0\<rparr>\<rparr>"

definition demo_plane_env :: plane_env where
  "demo_plane_env = \<lparr>pe_options = \<lparr>po_poll_interval = ms 100, po_max_jobs = Some 1, po_claim_ttl = ms 1000, po_heartbeat_interval = ms 300,
       po_ack_retry_limit = 1, po_checkpoint_store_id = None, po_policy = demo_policy\<rparr>,
     pe_codec = demo_claim_codec, pe_worker = (\<lambda>_. demo_worker_env), pe_now = (\<lambda>_. 0), pe_now_ms = (\<lambda>_. 0), pe_shutdown = (\<lambda>_. False),
     pe_sleep = (\<lambda>_ _. False), pe_uuid = (\<lambda>_. ''u''), pe_namespace = ''n'', pe_parked_digest = (\<lambda>_ _. None),
     pe_race = (\<lambda>_ _. RC_Finished (Err (HN_Other ''lost''))),
     pe_claim_next = (\<lambda>_. Some (Ok (Some \<lparr>pm_work = demo_work, pm_lease = demo_lease\<rparr>))),
     pe_heartbeat = (\<lambda>_ _ lease. Some (Ok lease)), pe_ack = (\<lambda>_ _ _ _. Some (Ok ())), pe_event = (\<lambda>_ _ _ _ _ _ _. Some (Ok ())),
     pe_artifact_json = (\<lambda>_ _. []), pe_reconcile_ok = (\<lambda>_. True), pe_governance_ok = (\<lambda>_. True), pe_delayed_evidence = (\<lambda>_. None),
     pe_show_intake = (\<lambda>_. []), pe_show_harness = (\<lambda>_. [])\<rparr>"

definition demo_plane_state :: plane_state where
  "demo_plane_state = \<lparr>ps_worker = None, ps_lease = demo_lease, ps_credential = None, ps_clock = 0, ps_log = []\<rparr>"

lemma demo_prepared: "\<exists>p. prepare_claimed_run demo_claim_codec f None demo_policy demo_work = Ok p \<and> \<not> pq_resumed p \<and> pq_events p = []"
  using demo_mapped by (simp add: prepare_claimed_run_def map_err_def demo_work_def)

lemma demo_round: "\<exists>s1. serve_round demo_plane_env 0 s = Some (s1, Ok (SE_Again 1)) \<and> ps_worker s1 = None \<and> PV_Called 0 (ms 300) (ms 1000) \<in> set (ps_log s1)"
  if "ps_worker s = None"
proof -
  obtain p where p: "prepare_claimed_run demo_claim_codec (\<lambda>_. None) None demo_policy demo_work = Ok p" "\<not> pq_resumed p" "pq_events p = []"
    using demo_prepared by blast
  show ?thesis using that p
    apply (simp add: serve_round_def demo_plane_env_def pa_defs act_defs asked_def on_worker_def check_health_def demote_def accepting_def take_claim_def
        serve_claim_def execute_claim_def Let_def active_count_def log_plane_def run_claim_def credential_of_def credential_live_def demo_lease_def)
    apply (subst run_under_lease.simps)
    by (simp add: with_lease_def conclude_claim_def ack_of_run_def failed_ack_def act_defs asked_def on_worker_def log_plane_def
        harness_error_is_governance_def observed_def ack_with_retry_def fenced_call_def claim_call_window_def clamp_def ms_def dispatch_def
        note_taken_def copy_delayed_evidence_def terminal_of_def)
qed

lemma demo_served: "\<exists>s'. run_plane_serve demo_plane_env demo_plane_state = Some (s', Ok 1) \<and> PV_Called 0 (ms 300) (ms 1000) \<in> set (ps_log s')"
proof -
  obtain s0 where s0: "serve_start demo_plane_env demo_plane_state = (s0, Ok ())" "ps_worker s0 = None"
    by (simp add: serve_start_def demote_def act_defs asked_def demo_plane_env_def demo_plane_state_def)
  obtain s1 where s1: "serve_round demo_plane_env 0 s0 = Some (s1, Ok (SE_Again 1))" "PV_Called 0 (ms 300) (ms 1000) \<in> set (ps_log s1)"
    using demo_round [OF s0(2)] by blast
  obtain s2 where s2: "serve_round demo_plane_env 1 s1 = Some (s2, Ok (SE_Done 1))" "ps_log s2 = ps_log s1"
    by (simp add: serve_round_def demo_plane_env_def pa_defs act_defs asked_def drained_def start_draining_def on_worker_def)
  have "serve_rounds demo_plane_env 0 s0 = Some (s2, Ok 1)"
    using s1(1) s2(1) by (simp add: serve_rounds.simps [of demo_plane_env 0 s0] serve_rounds.simps [of demo_plane_env "Suc 0" s1])
  then have "run_plane_serve demo_plane_env demo_plane_state = Some (s2, Ok 1)"
    using s0(1) by (simp add: run_plane_serve_def demo_plane_env_def ms_def pa_defs)
  with s1(2) s2(2) show ?thesis by simp
qed

theorem plane_serves_within_leases_witness:
  "\<exists>s'. run_plane_serve demo_plane_env demo_plane_state = Some (s', Ok 1) \<and> PV_Called 0 (ms 300) (ms 1000) \<in> set (ps_log s') \<and>
     ms 300 + 10000000 \<le> ms 1000"
proof -
  obtain s' where s': "run_plane_serve demo_plane_env demo_plane_state = Some (s', Ok 1)" "PV_Called 0 (ms 300) (ms 1000) \<in> set (ps_log s')"
    using demo_served by blast
  then show ?thesis using plane_serves_within_leases [OF s'(1)] by (force simp: demo_plane_state_def)
qed

end
