(* ===== verification/Plane_Answers.thy ===== *)
theory Plane_Answers
  imports Plane_Laws
begin

section \<open>What the plane is told of a claim\<close>

text \<open>
  A claim is acknowledged once and truthfully, or not at all, and then the plane hands it out again when its lease
  ends. \<open>told L\<close> says that \<open>L\<close> are the acknowledgements taken and the runs finished so far.
\<close>

fun tells :: "plane_event \<Rightarrow> bool" where
  "tells (PV_Acked c ack) = True"
| "tells (PV_Finished r) = True"
| "tells _ = False"

definition told :: "plane_event list \<Rightarrow> plane_state \<Rightarrow> bool" where
  "told L s \<longleftrightarrow> filter tells (ps_log s) = L"

definition honest :: "plane_ack \<Rightarrow> (run_result, harness_error) result \<Rightarrow> bool" where
  "honest ack r \<longleftrightarrow> (ak_outcome ack = AO_Completed \<longleftrightarrow> (\<exists>res. r = Ok res \<and> rr_success res \<and> rr_termination res \<noteq> RT_Parked)) \<and>
     (ak_outcome ack = AO_Parked \<longleftrightarrow> (\<exists>res. r = Ok res \<and> rr_termination res = RT_Parked))"

subsection \<open>Steps that tell nothing\<close>

named_theorems quiet

lemma quiet_log [quiet]: "\<not> tells e \<Longrightarrow> keeps (told L) (log_plane e)"
  unfolding log_plane_def by (rule keeps_modify) (simp add: told_def)

lemma quiet_steps [quiet]: "keeps (told L) (asked f)" "keeps (told L) (on_worker en g)" "keeps (told L) (set_lease l)"
  "keeps (told L) (act_modify (\<lambda>s. s\<lparr>ps_credential := cr\<rparr>))" "keeps (told L) (start_draining en)"
  by (simp_all add: hoare_def asked_def on_worker_def set_lease_def act_modify_def start_draining_def told_def)

lemma quiet_call [quiet]: "keeps (told L) (fenced_call en call)"
  unfolding fenced_call_def with_lease_def by (intro triples quiet; simp)

lemma quiet_renew [quiet]: "keeps (told L) (renew_for_retry en effect op)"
  unfolding renew_for_retry_def by (intro triples quiet; simp)

lemma quiet_errors [quiet]: "keeps (told L) (observe_error en effect e)" "keeps (told L) (fail_closed_after_fence_loss en effect e)"
proof -
  show "keeps (told L) (observe_error en effect e)" unfolding observe_error_def
    by (intro keeps_then quiet, cases e) (simp_all add: quiet hoare_return)
  then show "keeps (told L) (fail_closed_after_fence_loss en effect e)" unfolding fail_closed_after_fence_loss_def
    by (intro triples quiet) simp_all
qed

lemma quiet_beat [quiet]: "keeps (told L) (beat en effect handle)"
  unfolding beat_def by (intro triples quiet; simp)

lemma quiet_race [quiet]: "keeps (told L) (next_race en)" "keeps (told L) (stopped en c)" "keeps (told L) (drain_claim en c)"
  "keeps (told L) (failed_ack en reason)"
  unfolding next_race_def with_lease_def stopped_def drain_claim_def failed_ack_def by (intro triples quiet; simp)+

subsection \<open>Steps that tell\<close>

text \<open>An attempt is told exactly when it returns.\<close>

fun taken :: "string \<Rightarrow> fenced_op \<Rightarrow> plane_event list" where
  "taken effect (FO_Ack ack) = [PV_Acked effect ack]"
| "taken effect (FO_Event kind digest reason request_id) = []"

abbreviation tries :: "plane_event list \<Rightarrow> 'a plane_run \<Rightarrow> plane_event list \<Rightarrow> bool" where
  "tries L m new \<equiv> phoare (told L) m (\<lambda>_. told (new @ L)) (\<lambda>_. told L)"

lemma told_taken: "tries L (pa_lift (note_taken effect op)) (taken effect op)"
  by (rule phoare_lift) (cases op; simp add: note_taken_def log_plane_def act_defs told_def)

lemma told_retry: "tries L (pa_lift (retry_while_fenced en effect op attempts)) (taken effect op)"
proof (induction attempts)
  case (Suc attempts)
  let ?again = "\<lambda>e. if attempts = 0 then act_fail e
       else act_bind (asked (pe_shutdown en)) (\<lambda>stop. if stop then act_fail (PI_Source (shutdown_message op))
         else act_then (renew_for_retry en effect op) (retry_while_fenced en effect op attempts))"
  have fails: "tries L (pa_lift (act_fail e :: unit plane_step)) (taken effect op)" for e unfolding lift_act by (rule phoare_fail)
  have more: "tries L (pa_lift (if stop then act_fail (PI_Source (shutdown_message op))
      else act_then (renew_for_retry en effect op) (retry_while_fenced en effect op attempts))) (taken effect op)" for stop
    using fails lift_then [OF pkeeps_lift [OF quiet_renew] Suc] by simp
  have "tries L (pa_lift (act_bind (asked (pe_shutdown en)) (\<lambda>stop. if stop then act_fail (PI_Source (shutdown_message op))
      else act_then (renew_for_retry en effect op) (retry_while_fenced en effect op attempts)))) (taken effect op)"
    by (rule lift_bind [OF pkeeps_lift [OF quiet_steps(1)] more])
  then have again: "tries L (pa_lift (?again e)) (taken effect op)" for e using fails by simp
  have "tries L (pa_lift (case r of
       Some (Inr _) \<Rightarrow> note_taken effect op
     | Some (Inl (PI_FenceLost kind)) \<Rightarrow> act_fail (PI_FenceLost kind)
     | Some (Inl e) \<Rightarrow> ?again e
     | None \<Rightarrow> ?again (PI_Source (timeout_message op)))) (taken effect op)" for r :: "(unit, plane_error) result option"
    using again told_taken fails by (auto split: option.split sum.split plane_error.split)
  then show ?case unfolding retry_while_fenced.simps Let_def by (rule lift_bind [OF pkeeps_lift [OF quiet_call]])
qed (simp add: lift_act phoare_fail)

lemma told_observed:
  assumes "tries L (pa_lift m) new"
  shows "tries L (pa_lift (observed en c m)) new"
proof (rule phoare_lift)
  fix s assume s: "told L s"
  have "case snd (m s) of Inr _ \<Rightarrow> told (new @ L) (fst (m s)) | Inl _ \<Rightarrow> told L (fst (m s))"
    using phoareD [OF assms s, of "fst (m s)" "snd (m s)"] by (simp add: pa_lift_def)
  then show "case snd (observed en c m s) of Inr _ \<Rightarrow> told (new @ L) (fst (observed en c m s)) | Inl _ \<Rightarrow> told L (fst (observed en c m s))"
    using keepsD [OF quiet_errors(1), of L "fst (m s)" en c]
    by (auto simp: observed_def act_defs prod.case_eq_if split: sum.splits)
qed

lemma told_reports: "tries L (pa_lift (observed en c (ack_with_retry en c ack))) [PV_Acked c ack]"
  "pkeeps (told L) (pa_lift (observed en c (report_claim_event en c ev)))"
proof -
  show "tries L (pa_lift (observed en c (ack_with_retry en c ack))) [PV_Acked c ack]"
    using told_observed [OF told_retry [of L en c "FO_Ack ack"]] by (simp add: ack_with_retry_def)
  have "tries L (pa_lift (report_claim_event en c ev)) []" unfolding report_claim_event_def case_prod_unfold
    using told_retry [of L en c "FO_Event (fst ev) (fst (snd ev)) (snd (snd ev)) u" for u]
    by (intro lift_bind [OF pkeeps_lift [OF quiet_steps(1)]]) simp
  from told_observed [OF this] show "pkeeps (told L) (pa_lift (observed en c (report_claim_event en c ev)))" by simp
qed

text \<open>The acknowledgement and the run it is honest about.\<close>

lemma honest_ack: "phoare (told L) (pa_lift (ack_of_run en r)) (\<lambda>x s. told L s \<and> honest (fst x) r) (\<lambda>_. told L)"
proof -
  have quiet': "keeps (told L) (ack_of_run en r)" unfolding ack_of_run_def by (intro triples quiet; simp)
  have "snd (ack_of_run en r s) = Ok x \<Longrightarrow> honest (fst x) r" for s x
    by (auto simp: ack_of_run_def failed_ack_def honest_def act_defs asked_def on_worker_def prod.case_eq_if split: sum.splits if_splits)
  then show ?thesis using keepsD [OF quiet'] by (intro phoare_lift) (auto split: sum.split)
qed

lemma told_worker: "phoare (told L) (pa_lift (on_worker en f)) (\<lambda>_. told L) E"
  by (rule phoare_lift) (simp add: on_worker_def told_def)

lemma told_concluded:
  "phoare (told L) (pa_lift (conclude_claim en c p r)) (\<lambda>x s. x \<noteq> EX_Shutdown \<and> (\<exists>ack. told (PV_Acked c ack # L) s \<and> honest ack r)) (\<lambda>_. told L)"
  (is "phoare _ _ ?Q _")
proof -
  have acked: "phoare (\<lambda>s. told L s \<and> honest (fst x) r) (pa_lift (case x of (ack, governance_abort) \<Rightarrow> act_then (observed en c (ack_with_retry en c ack))
       (act_then (on_worker en (\<lambda>we. end_claim_terminal we c (terminal_of (ak_outcome ack))))
         (act_return (if governance_abort then EX_GovernanceUnavailable else EX_Continue))))) ?Q (\<lambda>_. told L)" for x
  proof (cases "honest (fst x) r")
    case True
    have "phoare (told L) (pa_lift (act_then (observed en c (ack_with_retry en c (fst x)))
       (act_then (on_worker en (\<lambda>we. end_claim_terminal we c (terminal_of (ak_outcome (fst x)))))
         (act_return (if snd x then EX_GovernanceUnavailable else EX_Continue))))) ?Q (\<lambda>_. told L)"
      using True by (intro lift_then [OF told_reports(1)] lift_then [OF told_worker] lift_return) auto
    then show ?thesis using True by (simp add: case_prod_unfold)
  qed (simp add: phoare_def)
  have "pkeeps (told L) (pa_lift (if q then observed en c (report_claim_event en c ev) else act_return ()))" for q ev
    by (cases q) (simp_all add: told_reports(2) lift_return)
  then show ?thesis unfolding conclude_claim_def by (rule lift_then [OF _ lift_bind [OF honest_ack acked]])
qed

lemma told_refused:
  "phoare (told L) (pa_lift (refuse_claim en c e)) (\<lambda>x s. x = EX_Continue \<and> (\<exists>ack. told (PV_Acked c ack # L) s \<and> ak_outcome ack = AO_Failed)) (\<lambda>_. told L)"
  (is "phoare _ _ ?Q _")
proof -
  have failed: "phoare (told L) (pa_lift (failed_ack en reason)) (\<lambda>ack s. told L s \<and> ak_outcome ack = AO_Failed) (\<lambda>_. told L)" for reason
    by (rule phoare_lift) (auto simp: failed_ack_def act_defs asked_def told_def)
  have "phoare (\<lambda>s. told L s \<and> ak_outcome ack = AO_Failed) (pa_lift (act_then (observed en c (ack_with_retry en c ack))
       (act_then (on_worker en (\<lambda>we. end_claim_terminal we c TOC_Failed)) (act_return EX_Continue)))) ?Q (\<lambda>_. told L)" for ack
  proof (cases "ak_outcome ack = AO_Failed")
    case True
    then show ?thesis
      by (intro phoare_pre [OF lift_then [OF told_reports(1) lift_then [OF told_worker lift_return]]]) auto
  qed (simp add: phoare_def)
  with failed show ?thesis unfolding refuse_claim_def by (rule lift_bind)
qed

lemma told_run:
  "phoare (told L) (run_under_lease en c handle) (\<lambda>r. case r of Some x \<Rightarrow> told (PV_Finished x # L) | None \<Rightarrow> told L) (\<lambda>_. told L)"
proof (rule run_under_lease_rule [where J = "told L"])
  show "pkeeps (told L) (pa_lift (next_race en))" "pkeeps (told L) (pa_lift (beat en c handle))" by (intro pkeeps_lift quiet)+
  have "snd (stopped en c s) = Ok None" for s
    by (simp add: stopped_def start_draining_def on_worker_def log_plane_def act_defs)
  then show "phoare (told L) (pa_lift (stopped en c)) (\<lambda>r. case r of Some x \<Rightarrow> told (PV_Finished x # L) | None \<Rightarrow> told L) (\<lambda>_. told L)"
    using keepsD [OF quiet_race(2)] by (intro phoare_lift) simp
  show "phoare (told L) (pa_lift (log_plane (PV_Finished r))) (\<lambda>_. case Some r of Some x \<Rightarrow> told (PV_Finished x # L) | None \<Rightarrow> told L) (\<lambda>_. told L)" for r
    by (rule phoare_lift) (simp add: log_plane_def act_modify_def told_def)
qed

subsection \<open>A whole claim\<close>

text \<open>What the plane may have been told of claim \<open>c\<close> when its execution ends with \<open>x\<close>, newest first.\<close>

fun claim_told :: "string \<Rightarrow> (execution, plane_error) result \<Rightarrow> plane_event list \<Rightarrow> bool" where
  "claim_told c (Inl e) new = (new = [] \<or> (\<exists>r. new = [PV_Finished r]))"
| "claim_told c (Inr EX_Shutdown) new = (new = [])"
| "claim_told c (Inr _) new = ((\<exists>ack. new = [PV_Acked c ack] \<and> ak_outcome ack = AO_Failed) \<or>
     (\<exists>ack r. new = [PV_Acked c ack, PV_Finished r] \<and> honest ack r))"

abbreviation answers :: "plane_event list \<Rightarrow> string \<Rightarrow> execution plane_run \<Rightarrow> bool" where
  "answers L c m \<equiv> phoare (told L) m (\<lambda>x s. \<exists>new. told (new @ L) s \<and> claim_told c (Ok x) new) (\<lambda>e s. \<exists>new. told (new @ L) s \<and> claim_told c (Err e) new)"

lemma answers_quiet: "pkeeps (told L) m \<Longrightarrow> phoare (told L) m (\<lambda>_. told L) (\<lambda>e s. \<exists>new. told (new @ L) s \<and> claim_told c (Err e) new)"
  by (erule phoare_weaken) force+

lemma answers_shutdown: "answers L c (pa_lift (act_then (drain_claim en c) (act_return EX_Shutdown)))" "answers L c (pa_return EX_Shutdown)"
proof -
  show r: "answers L c (pa_return EX_Shutdown)" by (rule phoare_return) (force intro: exI [of _ "[]"])
  show "answers L c (pa_lift (act_then (drain_claim en c) (act_return EX_Shutdown)))"
    by (rule lift_then [OF answers_quiet [OF pkeeps_lift [OF quiet_race(3)]]]) (simp only: lift_act r)
qed

lemma answers_refused: "answers L c (pa_lift (refuse_claim en c e))"
  by (rule phoare_weaken [OF told_refused]) (force intro: exI [of _ "[]"] exI [of _ "[PV_Acked c ack]" for ack])+

lemma answers_concluded:
  "phoare (told (PV_Finished r # L)) (pa_lift (conclude_claim en c p r)) (\<lambda>x s. \<exists>new. told (new @ L) s \<and> claim_told c (Ok x) new)
     (\<lambda>e s. \<exists>new. told (new @ L) s \<and> claim_told c (Err e) new)"
proof (rule phoare_weaken [OF told_concluded])
  fix x s
  assume "x \<noteq> EX_Shutdown \<and> (\<exists>ack. told (PV_Acked c ack # PV_Finished r # L) s \<and> honest ack r)"
  then obtain ack where "x \<noteq> EX_Shutdown" "told ([PV_Acked c ack, PV_Finished r] @ L) s" "honest ack r" by auto
  then show "\<exists>new. told (new @ L) s \<and> claim_told c (Ok x) new" by (intro exI [of _ "[PV_Acked c ack, PV_Finished r]"]) (cases x; auto)
qed (auto intro: exI [of _ "[PV_Finished r]"])

lemma answers_under_lease:
  "answers L c (pa_bind (run_under_lease en c handle) (\<lambda>r. case r of
     None \<Rightarrow> pa_return EX_Shutdown | Some result \<Rightarrow> pa_lift (conclude_claim en c p result)))"
proof (rule phoare_bind)
  show "phoare (told L) (run_under_lease en c handle) (\<lambda>r. case r of Some x \<Rightarrow> told (PV_Finished x # L) | None \<Rightarrow> told L)
      (\<lambda>e s. \<exists>new. told (new @ L) s \<and> claim_told c (Err e) new)"
    by (rule phoare_weaken [OF told_run]) (auto intro: exI [of _ "[]"])
  show "phoare (case r of Some x \<Rightarrow> told (PV_Finished x # L) | None \<Rightarrow> told L)
      (case r of None \<Rightarrow> pa_return EX_Shutdown | Some result \<Rightarrow> pa_lift (conclude_claim en c p result))
      (\<lambda>x s. \<exists>new. told (new @ L) s \<and> claim_told c (Ok x) new) (\<lambda>e s. \<exists>new. told (new @ L) s \<and> claim_told c (Err e) new)" for r
    using answers_shutdown(2) [of L c] answers_concluded by (cases r) (simp_all del: claim_told.simps)
qed

lemma answers_run: "answers L c (run_claim en c p)"
proof -
  have events: "pkeeps (told L) (pa_lift (act_each (\<lambda>ev. observed en c (report_claim_event en c ev)) evs))" for evs
    by (induction evs) (simp_all add: lift_return lift_then [OF told_reports(2)])
  have "answers L c (pa_with (\<lambda>s. pa_bind (run_under_lease en c (ps_credential s \<noteq> None)) (\<lambda>r. case r of
     None \<Rightarrow> pa_return EX_Shutdown | Some result \<Rightarrow> pa_lift (conclude_claim en c p result))))"
    by (rule phoare_with, rule phoare_pre [OF answers_under_lease]) simp
  then have run: "answers L c (pa_then (pa_lift (log_plane (PV_Run q b))) (pa_with (\<lambda>s. pa_bind (run_under_lease en c (ps_credential s \<noteq> None)) (\<lambda>r. case r of
     None \<Rightarrow> pa_return EX_Shutdown | Some result \<Rightarrow> pa_lift (conclude_claim en c p result)))))" for q b
    by (rule phoare_then [OF answers_quiet [OF pkeeps_lift [OF quiet_log]], rotated]) simp
  have "answers L c (if stop then pa_lift (act_then (drain_claim en c) (act_return EX_Shutdown))
     else pa_then (pa_lift (log_plane (PV_Run (pq_request p) (pq_resumed p)))) (pa_with (\<lambda>s. pa_bind (run_under_lease en c (ps_credential s \<noteq> None)) (\<lambda>r. case r of
     None \<Rightarrow> pa_return EX_Shutdown | Some result \<Rightarrow> pa_lift (conclude_claim en c p result)))))" for stop
    using run answers_shutdown(1) by simp
  then show ?thesis unfolding run_claim_def
    by (rule phoare_then [OF answers_quiet [OF events] phoare_bind [OF answers_quiet [OF pkeeps_lift [OF quiet_steps(1)]]]])
qed

lemma answers_executed: "answers L (cw_effect_id (pm_work pc)) (execute_claim en pc)"
proof -
  let ?c = "cw_effect_id (pm_work pc)"
  have start: "keeps (told L) (act_then (act_modify (\<lambda>s. s\<lparr>ps_lease := pm_lease pc, ps_credential := None\<rparr>))
       (act_then (on_worker en (\<lambda>we. begin_claim we ?c)) (act_with (\<lambda>s. log_plane (PV_Begun (active_count s))))))"
    by (intro triples quiet keeps_modify) (simp_all add: told_def)
  have lease: "keeps (told L) (act_bind (asked (\<lambda>n. credential_of en n (pm_lease pc))) (\<lambda>cr. act_modify (\<lambda>s. s\<lparr>ps_credential := cr\<rparr>)))"
    by (intro triples quiet)
  have "answers L ?c (case r of Inl e \<Rightarrow> pa_lift (refuse_claim en ?c e)
     | Inr p \<Rightarrow> pa_then (pa_lift (act_bind (asked (\<lambda>n. credential_of en n (pm_lease pc))) (\<lambda>cr. act_modify (\<lambda>s. s\<lparr>ps_credential := cr\<rparr>))))
         (run_claim en ?c p))" for r
    using answers_refused phoare_then [OF answers_quiet [OF pkeeps_lift [OF lease]] answers_run] by (simp split: sum.split)
  then show ?thesis unfolding execute_claim_def Let_def
    by (rule phoare_then [OF answers_quiet [OF pkeeps_lift [OF start]] phoare_bind [OF answers_quiet [OF pkeeps_lift [OF quiet_steps(1)]]]])
qed


lemma demo_executed: "\<exists>s' ack. execute_claim demo_plane_env \<lparr>pm_work = demo_work, pm_lease = demo_lease\<rparr> demo_plane_state = Some (s', Ok EX_Continue) \<and>
    ps_log s' = [PV_Acked ''e'' ack, PV_Called 0 (ms 300) (ms 1000), PV_Finished (Err (HN_Other ''lost'')), PV_Run (claim_request demo_work demo_policy ''t'' (Some 120000) True) False, PV_Begun 0]"
proof -
  obtain p where p: "prepare_claimed_run demo_claim_codec (\<lambda>_. None) None demo_policy demo_work = Ok p" "\<not> pq_resumed p" "pq_events p = []"
      "pq_request p = claim_request demo_work demo_policy ''t'' (Some 120000) True"
    using demo_mapped by (simp add: prepare_claimed_run_def map_err_def demo_work_def)
  have effect: "cw_effect_id demo_work = ''e''" by (simp add: demo_work_def)
  show ?thesis using p effect
    apply (simp add: demo_plane_state_def demo_plane_env_def pa_defs act_defs asked_def on_worker_def
        execute_claim_def Let_def active_count_def log_plane_def run_claim_def credential_of_def credential_live_def demo_lease_def)
    apply (subst run_under_lease.simps)
    by (simp add: with_lease_def conclude_claim_def ack_of_run_def failed_ack_def act_defs asked_def on_worker_def log_plane_def
        harness_error_is_governance_def observed_def ack_with_retry_def fenced_call_def claim_call_window_def clamp_def ms_def dispatch_def
        note_taken_def terminal_of_def)
qed


end
